(* ===== verification/Relay_Prelude.thy ===== *)
theory Relay_Prelude
  imports Complex_Main "HOL-Library.AList" "HOL-Library.Sublist" "HOL-Library.Char_ord"
    "HOL-Library.List_Lexorder" "HOL-Library.Multiset"
begin

text \<open>
  What every component of the relay shares: JavaScript strings, numbers and JSON values, the
  insertion-ordered \<open>Map\<close> and \<open>Set\<close>, the bounded log that rooms and the cache exchange keep,
  and the generic locale for invariants of deterministic machines.

  A JavaScript string is a list of code units; the model covers the code units below 256, one
  \<open>char\<close> each, and writes out what \<open>trim\<close>, \<open>toLowerCase\<close> and the UTF-8 length do on them.
  A JavaScript number is a rational or one of the three special values. Integer-valued
  quantities (cursors, counters, epoch seconds) are \<open>int\<close>.
\<close>

named_theorems relay_simps \<open>equations the component proofs unfold\<close>
named_theorems inv_intros \<open>preservation lemmas of the component invariants\<close>

section \<open>Strings\<close>

definition is_space :: "char \<Rightarrow> bool" where
  "is_space c \<longleftrightarrow> (of_char c :: nat) \<in> {9, 10, 11, 12, 13, 32, 160}"

definition js_trim :: "string \<Rightarrow> string" where
  "js_trim s = rev (dropWhile is_space (rev (dropWhile is_space s)))"

definition lower_char :: "char \<Rightarrow> char" where
  "lower_char c =
     (let n = (of_char c :: nat)
      in if (65 \<le> n \<and> n \<le> 90) \<or> (192 \<le> n \<and> n \<le> 222 \<and> n \<noteq> 215) then char_of (n + 32) else c)"

definition to_lower :: "string \<Rightarrow> string" where
  "to_lower s = map lower_char s"

definition is_digit :: "char \<Rightarrow> bool" where
  "is_digit c \<longleftrightarrow> 48 \<le> (of_char c :: nat) \<and> (of_char c :: nat) \<le> 57"

definition is_lower :: "char \<Rightarrow> bool" where
  "is_lower c \<longleftrightarrow> 97 \<le> (of_char c :: nat) \<and> (of_char c :: nat) \<le> 122"

definition is_upper :: "char \<Rightarrow> bool" where
  "is_upper c \<longleftrightarrow> 65 \<le> (of_char c :: nat) \<and> (of_char c :: nat) \<le> 90"

definition is_alnum :: "char \<Rightarrow> bool" where
  "is_alnum c \<longleftrightarrow> is_digit c \<or> is_lower c \<or> is_upper c"

text \<open>The character class \<open>[A-Za-z0-9._-]\<close>.\<close>

definition is_name_char :: "char \<Rightarrow> bool" where
  "is_name_char c \<longleftrightarrow> is_alnum c \<or> c \<in> {CHR ''.'', CHR ''_'', CHR ''-''}"

text \<open>The pattern \<open>^[A-Za-z0-9][A-Za-z0-9._-]{0,n}$\<close>.\<close>

definition name_pattern :: "nat \<Rightarrow> string \<Rightarrow> bool" where
  "name_pattern n s =
     (case s of [] \<Rightarrow> False | c # cs \<Rightarrow> is_alnum c \<and> length cs \<le> n \<and> list_all is_name_char cs)"

text \<open>\<open>Array.prototype.join\<close> and \<open>String.prototype.split\<close> on a one-character separator.\<close>

fun join :: "string \<Rightarrow> string list \<Rightarrow> string" where
  "join sep [] = []"
| "join sep [x] = x"
| "join sep (x # y # ys) = x @ sep @ join sep (y # ys)"

fun split_on :: "char \<Rightarrow> string \<Rightarrow> string list" where
  "split_on c [] = [[]]"
| "split_on c (x # xs) =
     (if x = c then [] # split_on c xs
      else (case split_on c xs of [] \<Rightarrow> [[x]] | w # ws \<Rightarrow> (x # w) # ws))"

definition or_empty :: "string option \<Rightarrow> string" where
  "or_empty s = (case s of None \<Rightarrow> [] | Some t \<Rightarrow> t)"

lemma js_trim_Nil [simp]: "js_trim [] = []"
  by (simp add: js_trim_def)

lemma dropWhile_id: "(xs = [] \<or> \<not> P (hd xs)) \<Longrightarrow> dropWhile P xs = xs"
  by (cases xs) auto

lemma js_trim_id: "(\<And>c. c \<in> set s \<Longrightarrow> \<not> is_space c) \<Longrightarrow> js_trim s = s"
proof -
  assume a: "\<And>c. c \<in> set s \<Longrightarrow> \<not> is_space c"
  then have "dropWhile is_space xs = xs" if "set xs \<subseteq> set s" for xs
    using that by (cases xs) auto
  then show ?thesis by (simp add: js_trim_def)
qed

lemma hd_dropWhile_not: "dropWhile P xs \<noteq> [] \<Longrightarrow> \<not> P (hd (dropWhile P xs))"
  by (induction xs) auto

lemma js_trim_fix: "s \<noteq> [] \<Longrightarrow> js_trim s = s \<longleftrightarrow> \<not> is_space (hd s) \<and> \<not> is_space (last s)"
proof
  assume s: "s \<noteq> []" "\<not> is_space (hd s) \<and> \<not> is_space (last s)"
  then have "dropWhile is_space s = s" by (intro dropWhile_id) simp
  moreover have "dropWhile is_space (rev s) = rev s" using s by (intro dropWhile_id) (simp add: hd_rev)
  ultimately show "js_trim s = s" by (simp add: js_trim_def)
next
  assume s: "s \<noteq> []" "js_trim s = s"
  let ?d = "dropWhile is_space s"
  have len: "length s \<le> length ?d" using s(2) length_dropWhile_le [of is_space "rev ?d"] by (simp add: js_trim_def) (metis length_rev)
  then have "?d = s" by (metis append_self_conv2 length_append length_greater_0_conv less_add_same_cancel2 not_less takeWhile_dropWhile_id)
  then have "\<not> is_space (hd s)" using s(1) hd_dropWhile_not [of is_space s] by simp
  moreover have "dropWhile is_space (rev s) = rev s" using s(2) \<open>?d = s\<close> by (simp add: js_trim_def) (metis rev_rev_ident)
  then have "\<not> is_space (hd (rev s))" using s(1) hd_dropWhile_not [of is_space "rev s"] by simp
  ultimately show "\<not> is_space (hd s) \<and> \<not> is_space (last s)" by (simp add: hd_rev)
qed

lemma js_trim_idem [simp]: "js_trim (js_trim s) = js_trim s"
proof -
  let ?a = "dropWhile is_space s"
  let ?b = "rev (dropWhile is_space (rev ?a))"
  obtain zs where zs: "?a = ?b @ zs"
    by (metis rev_append rev_rev_ident takeWhile_dropWhile_id)
  have "?b = [] \<or> \<not> is_space (hd ?b)"
    using zs hd_dropWhile_not [of is_space s] by (metis append_is_Nil_conv hd_append2)
  then have d: "dropWhile is_space ?b = ?b"
    by (rule dropWhile_id)
  have "dropWhile is_space (rev ?b) = rev ?b"
    by simp
  then show ?thesis
    unfolding js_trim_def d by simp
qed

lemma is_space_lower [simp]: "is_space (lower_char c) = is_space c"
proof -
  have b: "(of_char c :: nat) < 256" by simp
  have "(of_char (lower_char c) :: nat) = (if (65 \<le> (of_char c :: nat) \<and> (of_char c :: nat) \<le> 90) \<or>
      (192 \<le> (of_char c :: nat) \<and> (of_char c :: nat) \<le> 222 \<and> (of_char c :: nat) \<noteq> 215)
      then of_char c + 32 else of_char c)"
    using b by (simp add: lower_char_def Let_def)
  then show ?thesis by (simp add: is_space_def)
qed

lemma dropWhile_map_space: "dropWhile is_space (map lower_char xs) = map lower_char (dropWhile is_space xs)"
  by (induction xs) auto

lemma js_trim_to_lower: "js_trim (to_lower s) = to_lower (js_trim s)"
  by (simp add: js_trim_def to_lower_def dropWhile_map_space rev_map)

section \<open>Integers as text\<close>

definition digit_char :: "nat \<Rightarrow> char" where
  "digit_char d = char_of (48 + d)"

fun nat_str :: "nat \<Rightarrow> string" where
  "nat_str n = (if n < 10 then [digit_char n] else nat_str (n div 10) @ [digit_char (n mod 10)])"

declare nat_str.simps [simp del]

definition int_str :: "int \<Rightarrow> string" where
  "int_str i = (if i < 0 then CHR ''-'' # nat_str (nat (- i)) else nat_str (nat i))"

definition digits_val :: "string \<Rightarrow> nat" where
  "digits_val s = foldl (\<lambda>v c. 10 * v + (of_char c - 48)) 0 s"

lemma of_char_digit_char [simp]: "d < 10 \<Longrightarrow> (of_char (digit_char d) :: nat) = 48 + d"
  by (simp add: digit_char_def)

lemma is_digit_digit_char [simp]: "d < 10 \<Longrightarrow> is_digit (digit_char d)"
  by (simp add: is_digit_def)

lemma nat_str_digits: "c \<in> set (nat_str n) \<Longrightarrow> is_digit c"
proof (induction n rule: nat_str.induct)
  case (1 n)
  then show ?case
    by (cases "n < 10") (auto simp: nat_str.simps [of n])
qed

lemma nat_str_not_Nil [simp]: "nat_str n \<noteq> []"
  by (simp add: nat_str.simps [of n])

lemma digits_val_nat_str [simp]: "digits_val (nat_str n) = n"
proof (induction n rule: nat_str.induct)
  case (1 n)
  show ?case
  proof (cases "n < 10")
    case True
    then show ?thesis by (simp add: nat_str.simps [of n] digits_val_def)
  next
    case False
    with 1 have "digits_val (nat_str (n div 10)) = n div 10" by simp
    with False show ?thesis by (simp add: nat_str.simps [of n] digits_val_def)
  qed
qed

lemma nat_str_inj [simp]: "nat_str m = nat_str n \<longleftrightarrow> m = n"
  by (metis digits_val_nat_str)

lemma int_str_inj [simp]: "int_str i = int_str j \<longleftrightarrow> i = j"
proof -
  have dash: "CHR ''-'' \<notin> set (nat_str n)" for n
    using nat_str_digits [of "CHR ''-''" n] by (auto simp: is_digit_def)
  then have "CHR ''-'' # xs \<noteq> nat_str n" and "nat_str n \<noteq> CHR ''-'' # xs" for xs n
    by (metis list.set_intros(1))+
  then show ?thesis by (auto simp: int_str_def)
qed

section \<open>Numbers\<close>

datatype js_num = Fin rat | NaN | PosInf | NegInf

text \<open>\<open>Math.trunc\<close> on a finite number.\<close>

definition rtrunc :: "rat \<Rightarrow> int" where
  "rtrunc r = (if 0 \<le> r then \<lfloor>r\<rfloor> else \<lceil>r\<rceil>)"

definition num_trunc :: "js_num \<Rightarrow> js_num" where
  "num_trunc x = (case x of Fin r \<Rightarrow> Fin (of_int (rtrunc r)) | _ \<Rightarrow> x)"

text \<open>The guard \<open>Number.isFinite(x)\<close> followed by \<open>Math.trunc(x)\<close>.\<close>

definition finite_trunc :: "js_num \<Rightarrow> int option" where
  "finite_trunc x = (case x of Fin r \<Rightarrow> Some (rtrunc r) | _ \<Rightarrow> None)"

definition of_integer :: "int \<Rightarrow> js_num" where
  "of_integer i = Fin (of_int i)"

text \<open>\<open>a - x >= b\<close> for integers \<open>a\<close> and \<open>b\<close>, with the special values' answers.\<close>

definition diff_ge :: "int \<Rightarrow> js_num \<Rightarrow> int \<Rightarrow> bool" where
  "diff_ge a x b = (case x of Fin r \<Rightarrow> of_int a - r \<ge> of_int b | NaN \<Rightarrow> False | PosInf \<Rightarrow> False | NegInf \<Rightarrow> True)"

lemma rtrunc_of_int [simp]: "rtrunc (of_int i) = i"
  by (simp add: rtrunc_def)

lemma finite_trunc_of_integer [simp]: "finite_trunc (of_integer i) = Some i"
  by (simp add: finite_trunc_def of_integer_def)

lemma num_trunc_of_integer [simp]: "num_trunc (of_integer i) = of_integer i"
  by (simp add: num_trunc_def of_integer_def)

lemma of_integer_inj [simp]: "of_integer i = of_integer j \<longleftrightarrow> i = j"
  by (simp add: of_integer_def)

text \<open>A number that truncation leaves alone, a string that trimming leaves alone.\<close>

definition whole_num :: "js_num \<Rightarrow> bool" where
  "whole_num x \<longleftrightarrow> num_trunc x = x"

definition clean :: "string \<Rightarrow> bool" where
  "clean s \<longleftrightarrow> s \<noteq> [] \<and> js_trim s = s"

lemma whole_of_integer [simp]: "whole_num (of_integer i)"
  by (simp add: whole_num_def)

lemma whole_num_trunc [simp]: "whole_num (num_trunc x)"
  by (cases x) (simp_all add: whole_num_def num_trunc_def)

lemma clean_js_trim: "js_trim s \<noteq> [] \<Longrightarrow> clean (js_trim s)"
  by (simp add: clean_def)

lemma name_char_no_space: "is_name_char c \<Longrightarrow> \<not> is_space c"
  by (auto simp: is_name_char_def is_alnum_def is_digit_def is_lower_def is_upper_def is_space_def)

lemma name_pattern_clean: "name_pattern n s \<Longrightarrow> clean s"
  unfolding clean_def
  by (intro conjI js_trim_id) (auto simp: name_pattern_def is_name_char_def list_all_iff name_char_no_space split: list.splits)

lemma diff_ge_of_integer [simp]: "diff_ge a (of_integer x) b \<longleftrightarrow> a - x \<ge> b"
  unfolding diff_ge_def of_integer_def by (simp flip: of_int_diff)

text \<open>
  \<open>Number.parseInt(s, 10)\<close>: leading white space, an optional sign, the longest run of digits;
  \<open>NaN\<close> when there is none, and an infinity past the largest double.
\<close>

definition max_double_bound :: int where
  "max_double_bound = 2 ^ 1024 - 2 ^ 970"

lemma max_double_bound_code [code]:
  "max_double_bound = 179769313486231580793728971405303415079934132710037826936173778980444968292764750946649017977587207096330286416692887910946555547851940402630657488671505820681908902000708383676273854845817711531764475730270069855571366959622842914819860834936475292719074168444365510704342711559699508093042880177904174497792"
  by (simp add: max_double_bound_def)

definition num_of_digits :: "bool \<Rightarrow> string \<Rightarrow> js_num" where
  "num_of_digits neg ds =
     (if ds = [] then NaN
      else let v = int (digits_val ds)
           in if v \<ge> max_double_bound then (if neg then NegInf else PosInf)
              else of_integer (if neg then - v else v))"

definition js_parse_int :: "string \<Rightarrow> js_num" where
  "js_parse_int s =
     (case dropWhile is_space s of
        [] \<Rightarrow> NaN
      | c # cs \<Rightarrow>
          if c = CHR ''-'' then num_of_digits True (takeWhile is_digit cs)
          else if c = CHR ''+'' then num_of_digits False (takeWhile is_digit cs)
          else num_of_digits False (takeWhile is_digit (c # cs)))"

section \<open>JSON values\<close>

text \<open>
  A value of the source's type \<open>JsonValue\<close>. An object lists its members in property order with
  distinct names. A property read \<open>o.f\<close> gives \<open>None\<close> for \<open>undefined\<close>; the source's type
  \<open>unknown\<close> is \<open>json option\<close>.
\<close>

datatype json =
    JNull
  | JBool bool
  | JNum js_num
  | JStr string
  | JArr "json list"
  | JObj "(string \<times> json) list"

fun is_record :: "json \<Rightarrow> bool" where
  "is_record (JObj _) = True"
| "is_record _ = False"

fun members :: "json \<Rightarrow> (string \<times> json) list" where
  "members (JObj kvs) = kvs"
| "members _ = []"

definition jprop :: "json \<Rightarrow> string \<Rightarrow> json option" where
  "jprop j k = map_of (members j) k"

text \<open>\<open>typeof x === 'string' ? x : ''\<close> and its companions.\<close>

definition str_or_empty :: "json option \<Rightarrow> string" where
  "str_or_empty v = (case v of Some (JStr s) \<Rightarrow> s | _ \<Rightarrow> [])"

definition str_opt :: "json option \<Rightarrow> string option" where
  "str_opt v = (case v of Some (JStr s) \<Rightarrow> Some s | _ \<Rightarrow> None)"

definition num_opt :: "json option \<Rightarrow> js_num option" where
  "num_opt v = (case v of Some (JNum x) \<Rightarrow> Some x | _ \<Rightarrow> None)"

definition arr_opt :: "json option \<Rightarrow> json list option" where
  "arr_opt v = (case v of Some (JArr xs) \<Rightarrow> Some xs | _ \<Rightarrow> None)"

definition obj_opt :: "json option \<Rightarrow> json option" where
  "obj_opt v = (case v of Some (JObj kvs) \<Rightarrow> Some (JObj kvs) | _ \<Rightarrow> None)"

definition finite_int_opt :: "json option \<Rightarrow> int option" where
  "finite_int_opt v = Option.bind (num_opt v) finite_trunc"

definition jint :: "int \<Rightarrow> json" where
  "jint i = JNum (of_integer i)"

definition jstr_opt :: "string option \<Rightarrow> json" where
  "jstr_opt s = (case s of None \<Rightarrow> JNull | Some t \<Rightarrow> JStr t)"

definition jnum_opt :: "js_num option \<Rightarrow> json" where
  "jnum_opt s = (case s of None \<Rightarrow> JNull | Some t \<Rightarrow> JNum t)"

definition jint_opt :: "int option \<Rightarrow> json" where
  "jint_opt s = (case s of None \<Rightarrow> JNull | Some t \<Rightarrow> jint t)"

lemma str_opt_jstr_opt [simp]: "str_opt (Some (jstr_opt x)) = x"
  by (cases x) (simp_all add: str_opt_def jstr_opt_def)

lemma jprop_JObj [simp]: "jprop (JObj kvs) k = map_of kvs k"
  by (simp add: jprop_def)

lemma jint_inj [simp]: "jint i = jint j \<longleftrightarrow> i = j"
  by (simp add: jint_def)

lemma finite_int_opt_jint [simp]: "finite_int_opt (Some (jint i)) = Some i"
  by (simp add: finite_int_opt_def num_opt_def jint_def)

lemma str_or_empty_JStr [simp]: "str_or_empty (Some (JStr s)) = s"
  by (simp add: str_or_empty_def)

lemma str_opt_simps [simp]: "str_opt (Some (JStr s)) = Some s" "str_opt (Some JNull) = None" "str_opt None = None"
  by (simp_all add: str_opt_def)

lemma num_opt_simps [simp]: "num_opt (Some (JNum x)) = Some x" "num_opt (Some JNull) = None"
    "num_opt (Some (jint i)) = Some (of_integer i)"
  by (simp_all add: num_opt_def jint_def)

text \<open>An early return with an error when a value is missing.\<close>

definition need :: "'e \<Rightarrow> 'a option \<Rightarrow> ('a \<Rightarrow> 'e + 'b) \<Rightarrow> 'e + 'b" where
  "need err x k = (case x of None \<Rightarrow> Inl err | Some v \<Rightarrow> k v)"

lemma need_Inr [simp]: "need err x k = Inr r \<longleftrightarrow> (\<exists>v. x = Some v \<and> k v = Inr r)"
  by (cases x) (simp_all add: need_def)

lemma need_simps [simp]: "need err None k = Inl err" "need err (Some v) k = k v"
  by (simp_all add: need_def)

section \<open>Maps and sets in insertion order\<close>

text \<open>
  A JavaScript \<open>Map\<close> is an association list with distinct keys: \<open>AList.update\<close> overwrites in
  place or appends, as \<open>Map.set\<close> does, and \<open>AList.delete\<close> removes. A \<open>Set\<close> is a distinct list.
\<close>

type_synonym ('k, 'v) omap = "('k \<times> 'v) list"

definition okeys :: "('k, 'v) omap \<Rightarrow> bool" where
  "okeys m \<longleftrightarrow> distinct (map fst m)"

definition set_add :: "'a \<Rightarrow> 'a list \<Rightarrow> 'a list" where
  "set_add x xs = (if x \<in> set xs then xs else xs @ [x])"

text \<open>\<open>[...new Set(xs)]\<close>.\<close>

definition dedupe :: "'a list \<Rightarrow> 'a list" where
  "dedupe xs = foldl (\<lambda>acc x. set_add x acc) [] xs"

lemma okeys_Nil [simp]: "okeys []"
  by (simp add: okeys_def)

lemma okeys_update [simp, intro]: "okeys m \<Longrightarrow> okeys (AList.update k v m)"
  by (simp add: okeys_def distinct_update)

lemma okeys_delete [simp, intro]: "okeys m \<Longrightarrow> okeys (AList.delete k m)"
  by (simp add: okeys_def distinct_delete)

lemma okeys_filter [simp, intro]: "okeys m \<Longrightarrow> okeys (filter P m)"
  by (simp add: okeys_def distinct_map_filter)

lemma okeys_tl [simp, intro]: "okeys m \<Longrightarrow> okeys (tl m)"
  by (cases m) (auto simp: okeys_def)

lemma okeys_drop [simp, intro]: "okeys m \<Longrightarrow> okeys (drop n m)"
  by (simp add: okeys_def drop_map [symmetric])

lemma map_of_update [simp]: "map_of (AList.update k v m) = (map_of m)(k \<mapsto> v)"
  by (rule update_conv')

lemma map_of_delete [simp]: "map_of (AList.delete k m) = (map_of m)(k := None)"
  by (rule delete_conv')

lemma set_update_cases: "p \<in> set (AList.update k v m) \<Longrightarrow> p = (k, v) \<or> p \<in> set m"
  by (induction m) (auto split: if_splits)

lemma length_update: "length (AList.update k v m) = (if k \<in> fst ` set m then length m else Suc (length m))"
  by (induction m) auto

lemma set_set_add [simp]: "set (set_add x xs) = insert x (set xs)"
  by (auto simp: set_add_def)

lemma distinct_set_add [simp]: "distinct (set_add x xs) = distinct xs"
  by (auto simp: set_add_def)

lemma dedupe_aux:
  "set (foldl (\<lambda>acc x. set_add x acc) acc xs) = set acc \<union> set xs"
  "distinct acc \<Longrightarrow> distinct (foldl (\<lambda>acc x. set_add x acc) acc xs)"
  by (induction xs arbitrary: acc) auto

lemma set_dedupe [simp]: "set (dedupe xs) = set xs"
  by (simp add: dedupe_def dedupe_aux)

lemma distinct_dedupe [simp]: "distinct (dedupe xs)"
  by (simp add: dedupe_def dedupe_aux)

lemma map_of_filter_okeys:
  "okeys m \<Longrightarrow> map_of (filter P m) k =
     (case map_of m k of None \<Rightarrow> None | Some v \<Rightarrow> if P (k, v) then Some v else None)"
proof (induction m)
  case (Cons p m)
  then have "fst p \<notin> dom (map_of m)" by (simp add: okeys_def dom_map_of_conv_image_fst)
  with Cons show ?case
    by (cases p) (auto simp: okeys_def split: option.splits)
qed (simp add: okeys_def)

section \<open>Building plain objects\<close>

text \<open>
  \<open>o[k] = v\<close> on a plain object. Names that are array indices come first, in numeric order; the
  name \<open>__proto__\<close> is the inherited accessor, so the assignment leaves no own property.
\<close>

definition is_index :: "string \<Rightarrow> bool" where
  "is_index k \<longleftrightarrow> k \<noteq> [] \<and> list_all is_digit k \<and> nat_str (digits_val k) = k \<and> digits_val k < 4294967295"

definition obj_order :: "(string \<times> 'v) list \<Rightarrow> (string \<times> 'v) list" where
  "obj_order kvs =
     sort_key (\<lambda>p. digits_val (fst p)) (filter (\<lambda>p. is_index (fst p)) kvs) @
     filter (\<lambda>p. \<not> is_index (fst p)) kvs"

definition obj_set :: "string \<Rightarrow> 'v \<Rightarrow> (string \<times> 'v) list \<Rightarrow> (string \<times> 'v) list" where
  "obj_set k v kvs = (if k = ''__proto__'' then kvs else obj_order (AList.update k v kvs))"

text \<open>Copying a map into a fresh object, entry by entry.\<close>

definition obj_of_map :: "('a \<Rightarrow> 'v) \<Rightarrow> (string \<times> 'a) list \<Rightarrow> (string \<times> 'v) list" where
  "obj_of_map f m = foldl (\<lambda>acc (k, a). obj_set k (f a) acc) [] m"

lemma set_obj_order [simp]: "set (obj_order kvs) = set kvs"
  by (auto simp: obj_order_def)

lemma okeys_obj_order [simp]: "okeys (obj_order kvs) = okeys kvs"
proof -
  have "mset (obj_order kvs) = mset kvs"
    by (simp add: obj_order_def)
  then have "mset (map fst (obj_order kvs)) = mset (map fst kvs)"
    by simp
  then show ?thesis unfolding okeys_def by (rule mset_eq_imp_distinct_iff)
qed

lemma map_of_obj_order: "okeys kvs \<Longrightarrow> map_of (obj_order kvs) = map_of kvs"
  using okeys_obj_order [of kvs] by (intro map_of_eqI) (auto simp: okeys_def)

lemma okeys_obj_set [simp]: "okeys kvs \<Longrightarrow> okeys (obj_set k v kvs)"
  by (simp add: obj_set_def okeys_update)

lemma map_of_obj_set:
  "okeys kvs \<Longrightarrow> map_of (obj_set k v kvs) = (if k = ''__proto__'' then map_of kvs else (map_of kvs)(k \<mapsto> v))"
  by (simp add: obj_set_def map_of_obj_order okeys_update)

lemma okeys_Cons: "okeys (p # m) \<longleftrightarrow> fst p \<notin> fst ` set m \<and> okeys m"
  by (auto simp: okeys_def)

lemma obj_of_map_aux:
  assumes "okeys acc" "okeys m"
  shows "okeys (foldl (\<lambda>acc (k, a). obj_set k (f a) acc) acc m) \<and>
    map_of (foldl (\<lambda>acc (k, a). obj_set k (f a) acc) acc m) x =
      (case map_of m x of Some a \<Rightarrow> if x = ''__proto__'' then map_of acc x else Some (f a) | None \<Rightarrow> map_of acc x)"
  using assms
proof (induction m arbitrary: acc)
  case (Cons p m)
  obtain k a where p: "p = (k, a)" by (cases p)
  have fresh: "map_of m k = None"
    using Cons.prems(2) by (auto simp: p okeys_Cons map_of_eq_None_iff)
  show ?case
    using Cons.IH [of "obj_set k (f a) acc"] Cons.prems fresh
    by (auto simp: p okeys_Cons map_of_obj_set split: option.splits)
qed (simp split: option.splits)

lemma okeys_obj_of_map: "okeys m \<Longrightarrow> okeys (obj_of_map f m)"
  using obj_of_map_aux [of "[]" m f] by (simp add: obj_of_map_def)

lemma map_of_obj_of_map:
  "okeys m \<Longrightarrow> map_of (obj_of_map f m) x = (if x = ''__proto__'' then None else map_option f (map_of m x))"
  using obj_of_map_aux [of "[]" m f x] by (simp add: obj_of_map_def split: option.splits)

text \<open>Filling a \<open>Map\<close> from the entries of an object, dropping those a filter refuses.\<close>

definition map_of_entries :: "(string \<Rightarrow> 'v \<Rightarrow> 'a option) \<Rightarrow> (string \<times> 'v) list \<Rightarrow> (string, 'a) omap" where
  "map_of_entries f kvs =
     foldl (\<lambda>m (k, v). case f k v of None \<Rightarrow> m | Some a \<Rightarrow> AList.update k a m) [] kvs"

lemma map_of_entries_aux:
  assumes "okeys acc" "okeys kvs"
  shows "okeys (foldl (\<lambda>m (k, v). case f k v of None \<Rightarrow> m | Some a \<Rightarrow> AList.update k a m) acc kvs) \<and>
    map_of (foldl (\<lambda>m (k, v). case f k v of None \<Rightarrow> m | Some a \<Rightarrow> AList.update k a m) acc kvs) x =
      (case Option.bind (map_of kvs x) (f x) of Some a \<Rightarrow> Some a | None \<Rightarrow> map_of acc x)"
  using assms
proof (induction kvs arbitrary: acc)
  case (Cons p kvs)
  obtain k v where p: "p = (k, v)" by (cases p)
  have fresh: "map_of kvs k = None"
    using Cons.prems(2) by (auto simp: p okeys_Cons map_of_eq_None_iff)
  let ?acc = "case f k v of None \<Rightarrow> acc | Some a \<Rightarrow> AList.update k a acc"
  have "okeys ?acc" using Cons.prems(1) by (simp split: option.splits)
  then show ?case
    using Cons.IH [of ?acc] Cons.prems fresh by (auto simp: p okeys_Cons split: option.splits)
qed (simp split: option.splits)

lemma okeys_map_of_entries_any: "okeys (map_of_entries f kvs)"
proof -
  have "okeys (foldl (\<lambda>m (k, v). case f k v of None \<Rightarrow> m | Some a \<Rightarrow> AList.update k a m) acc kvs)"
    if "okeys acc" for acc
    using that by (induction kvs arbitrary: acc) (auto split: option.splits)
  then show ?thesis by (simp add: map_of_entries_def)
qed

lemma map_of_map_of_entries: "okeys kvs \<Longrightarrow> map_of (map_of_entries f kvs) x = Option.bind (map_of kvs x) (f x)"
  using map_of_entries_aux [of "[]" kvs f x] by (simp add: map_of_entries_def split: option.splits)

lemma set_map_of_entries_aux:
  "p \<in> set (foldl (\<lambda>m (k, v). case f k v of None \<Rightarrow> m | Some a \<Rightarrow> AList.update k a m) acc kvs) \<Longrightarrow>
   p \<in> set acc \<or> (\<exists>v. f (fst p) v = Some (snd p))"
proof (induction kvs arbitrary: acc)
  case (Cons q kvs)
  obtain k v where q: "q = (k, v)" by (cases q)
  show ?case
  proof (cases "f k v")
    case None
    then show ?thesis using Cons by (simp add: q)
  next
    case (Some a)
    then have "p \<in> set (AList.update k a acc) \<or> (\<exists>v. f (fst p) v = Some (snd p))"
      using Cons.IH [of "AList.update k a acc"] Cons.prems by (simp add: q)
    then show ?thesis using Some set_update_cases [of p k a acc] by auto
  qed
qed simp

lemma set_map_of_entries: "p \<in> set (map_of_entries f kvs) \<Longrightarrow> \<exists>v. f (fst p) v = Some (snd p)"
  using set_map_of_entries_aux [of p f "[]" kvs] by (simp add: map_of_entries_def)

section \<open>The bounded log\<close>

text \<open>\<open>xs.splice(0, xs.length - n)\<close> when the array is longer than \<open>n\<close>.\<close>

definition last_n :: "nat \<Rightarrow> 'a list \<Rightarrow> 'a list" where
  "last_n n xs = drop (length xs - n) xs"

lemma length_last_n [simp]: "length (last_n n xs) = min n (length xs)"
  by (simp add: last_n_def)

lemma last_n_id: "length xs \<le> n \<Longrightarrow> last_n n xs = xs"
  by (simp add: last_n_def)

lemma set_last_n: "set (last_n n xs) \<subseteq> set xs"
  by (simp add: last_n_def set_drop_subset)

lemma last_n_last_n_append: "last_n n (last_n n xs @ ys) = last_n n (xs @ ys)"
  by (cases "length xs \<le> n") (auto simp: last_n_def add.commute)

lemma distinct_last_n [intro]: "distinct xs \<Longrightarrow> distinct (last_n n xs)"
  by (simp add: last_n_def)

lemma sorted_map_last_n: "sorted_wrt R (map f xs) \<Longrightarrow> sorted_wrt R (map f (last_n n xs))"
  unfolding last_n_def drop_map [symmetric] by (rule sorted_wrt_drop)

lemma last_n_snoc: "0 < n \<Longrightarrow> last_n n (xs @ [x]) = last_n (n - 1) xs @ [x]"
  by (cases n) (auto simp: last_n_def)

text \<open>
  Rooms, the cache exchange and the dead-letter queue each append and then drop the oldest
  entries beyond a cap.
\<close>

locale bounded_log =
  fixes push :: "'s \<Rightarrow> 'a \<Rightarrow> 's"
    and entries :: "'s \<Rightarrow> 'a list"
    and cap :: nat
  assumes entries_push: "entries (push s x) = last_n cap (entries s @ [x])"
begin

lemma push_bounded: "length (entries (push s x)) \<le> cap"
  by (simp add: entries_push)

lemma push_newest: "0 < cap \<Longrightarrow> last (entries (push s x)) = x \<and> entries (push s x) \<noteq> []"
  by (simp add: entries_push last_n_snoc)

lemma push_subset: "set (entries (push s x)) \<subseteq> insert x (set (entries s))"
  using set_last_n [of cap "entries s @ [x]"] by (auto simp: entries_push)

lemma pushes_entries:
  "length (entries s) \<le> cap \<Longrightarrow> entries (foldl push s xs) = last_n cap (entries s @ xs)"
proof (induction xs arbitrary: s)
  case Nil
  then show ?case by (simp add: last_n_id)
next
  case (Cons x xs)
  have "entries (foldl push (push s x) xs) = last_n cap (entries (push s x) @ xs)"
    by (rule Cons.IH) (rule push_bounded)
  then show ?case by (simp add: entries_push last_n_last_n_append)
qed

end

section \<open>Invariants of deterministic machines\<close>

text \<open>
  A component that reacts to events: each event the environment may raise keeps the invariant, so
  every run over such events does.
\<close>

locale machine =
  fixes step :: "'s \<Rightarrow> 'e \<Rightarrow> 's"
    and inv :: "'s \<Rightarrow> bool"
    and ok :: "'e \<Rightarrow> bool"
  assumes step_inv: "inv s \<Longrightarrow> ok e \<Longrightarrow> inv (step s e)"
begin

lemma run_inv: "inv s \<Longrightarrow> \<forall>e\<in>set es. ok e \<Longrightarrow> inv (foldl step s es)"
  by (induction es arbitrary: s) (simp_all add: step_inv)

lemma run_inv_take: "inv s \<Longrightarrow> \<forall>e\<in>set es. ok e \<Longrightarrow> inv (foldl step s (take n es))"
  by (rule run_inv) (auto dest: in_set_takeD)

end

end
