(* ===== verification/Signing.thy ===== *)
theory Signing
  imports Relay_Prelude
begin

text \<open>
  \<open>src/signing.ts\<close>: base64url, the canonical JSON text, the three signed messages and the
  Ed25519 check. A byte sequence is a \<open>string\<close>, one \<open>char\<close> per byte, as in the binary strings
  the source builds. The Web Crypto primitives are parameters: the SHA-256 digest and the
  Ed25519 verification, whose \<open>None\<close> is a thrown exception.
\<close>

section \<open>Bytes, hexadecimal and UTF-8\<close>

definition hex_digit :: "nat \<Rightarrow> char" where
  "hex_digit d = (if d < 10 then char_of (48 + d) else char_of (87 + d))"

text \<open>\<open>byte.toString(16).padStart(2, '0')\<close>, joined over the bytes.\<close>

definition bytes_hex :: "string \<Rightarrow> string" where
  "bytes_hex bs = concat (map (\<lambda>c. [hex_digit (of_char c div 16), hex_digit (of_char c mod 16)]) bs)"

text \<open>\<open>new TextEncoder().encode(s)\<close>: two bytes for the code units from 128 on.\<close>

definition utf8 :: "string \<Rightarrow> string" where
  "utf8 s = concat (map (\<lambda>c. let n = (of_char c :: nat)
     in if n < 128 then [c] else [char_of (192 + n div 64), char_of (128 + n mod 64)]) s)"

section \<open>Base64\<close>

definition b64_digit :: "nat \<Rightarrow> char" where
  "b64_digit n =
     (if n < 26 then char_of (65 + n)
      else if n < 52 then char_of (71 + n)
      else if n < 62 then char_of (n - 4)
      else if n = 62 then CHR ''+'' else CHR ''/'')"

definition b64_value :: "char \<Rightarrow> nat option" where
  "b64_value c =
     (let n = (of_char c :: nat)
      in if is_upper c then Some (n - 65)
         else if is_lower c then Some (n - 71)
         else if is_digit c then Some (n + 4)
         else if c = CHR ''+'' then Some 62
         else if c = CHR ''/'' then Some 63 else None)"

text \<open>\<open>btoa\<close> on the byte values of a binary string.\<close>

fun b64_encode :: "nat list \<Rightarrow> string" where
  "b64_encode [] = []"
| "b64_encode [a] = [b64_digit (a div 4), b64_digit (16 * (a mod 4)), CHR ''='', CHR ''='']"
| "b64_encode [a, b] =
     [b64_digit (a div 4), b64_digit (16 * (a mod 4) + b div 16), b64_digit (4 * (b mod 16)), CHR ''='']"
| "b64_encode (a # b # c # r) =
     [b64_digit (a div 4), b64_digit (16 * (a mod 4) + b div 16),
      b64_digit (4 * (b mod 16) + c div 64), b64_digit (c mod 64)] @ b64_encode r"

definition btoa :: "string \<Rightarrow> string" where
  "btoa bs = b64_encode (map of_char bs)"

fun b64_decode :: "nat list \<Rightarrow> nat list" where
  "b64_decode (a # b # c # d # r) =
     [4 * a + b div 16, 16 * (b mod 16) + c div 4, 64 * (c mod 4) + d] @ b64_decode r"
| "b64_decode [a, b, c] = [4 * a + b div 16, 16 * (b mod 16) + c div 4]"
| "b64_decode [a, b] = [4 * a + b div 16]"
| "b64_decode _ = []"

text \<open>
  \<open>atob\<close>: drop ASCII white space, drop one or two \<open>=\<close> at the end of a whole number of
  quadruples, and throw on a remainder of one or on a foreign character.
\<close>

definition strip_padding :: "string \<Rightarrow> string" where
  "strip_padding s =
     (if length s mod 4 = 0 \<and> suffix ''=='' s then take (length s - 2) s
      else if length s mod 4 = 0 \<and> suffix ''='' s then take (length s - 1) s else s)"

definition atob :: "string \<Rightarrow> string option" where
  "atob s =
     (let t = strip_padding (filter (\<lambda>c. (of_char c :: nat) \<notin> {9, 10, 12, 13, 32}) s)
      in if length t mod 4 = 1 then None
         else if list_all (\<lambda>c. b64_value c \<noteq> None) t
           then Some (map char_of (b64_decode (map (\<lambda>c. the (b64_value c)) t)))
           else None)"

definition to_url_char :: "char \<Rightarrow> char" where
  "to_url_char c = (if c = CHR ''+'' then CHR ''-'' else if c = CHR ''/'' then CHR ''_'' else c)"

definition from_url_char :: "char \<Rightarrow> char" where
  "from_url_char c = (if c = CHR ''-'' then CHR ''+'' else if c = CHR ''_'' then CHR ''/'' else c)"

definition base64UrlEncode :: "string \<Rightarrow> string" where
  "base64UrlEncode bs = rev (dropWhile (\<lambda>c. c = CHR ''='') (rev (map to_url_char (btoa bs))))"

definition base64UrlDecode :: "string \<Rightarrow> string option" where
  "base64UrlDecode v =
     (let normalized = map from_url_char v;
          padLength = (4 - length normalized mod 4) mod 4
      in atob (normalized @ replicate padLength (CHR ''='')))"

definition isLikelyBase64Url :: "string \<Rightarrow> bool" where
  "isLikelyBase64Url s \<longleftrightarrow> s \<noteq> [] \<and> list_all (\<lambda>c. is_alnum c \<or> c = CHR ''_'' \<or> c = CHR ''-'') s"

section \<open>Canonical JSON\<close>

text \<open>\<open>JSON.stringify\<close> of a string.\<close>

definition esc_char :: "char \<Rightarrow> string" where
  "esc_char c =
     (if c = CHR 0x22 then [CHR 0x5C, CHR 0x22]
      else if c = CHR 0x5C then [CHR 0x5C, CHR 0x5C]
      else if c = CHR 0x08 then [CHR 0x5C, CHR ''b'']
      else if c = CHR 0x09 then [CHR 0x5C, CHR ''t'']
      else if c = CHR 0x0A then [CHR 0x5C, CHR ''n'']
      else if c = CHR 0x0C then [CHR 0x5C, CHR ''f'']
      else if c = CHR 0x0D then [CHR 0x5C, CHR ''r'']
      else if (of_char c :: nat) < 32
        then [CHR 0x5C, CHR ''u'', CHR ''0'', CHR ''0'', hex_digit (of_char c div 16), hex_digit (of_char c mod 16)]
      else [c])"

definition json_quote :: "string \<Rightarrow> string" where
  "json_quote s = CHR 0x22 # concat (map esc_char s) @ [CHR 0x22]"

text \<open>
  \<open>canonicalizeJsonInternal\<close>. The parameter \<open>ns\<close> is the engine's \<open>Number::toString\<close> on finite
  numbers. \<open>Object.keys(obj).sort()\<close> orders names by code unit; names are distinct, so
  sorting the rendered members by name gives the same text.
\<close>

fun canonicalizeJson :: "(rat \<Rightarrow> string) \<Rightarrow> json \<Rightarrow> string" where
  "canonicalizeJson ns JNull = ''null''"
| "canonicalizeJson ns (JStr s) = json_quote s"
| "canonicalizeJson ns (JNum (Fin r)) = ns r"
| "canonicalizeJson ns (JNum _) = ''null''"
| "canonicalizeJson ns (JBool b) = (if b then ''true'' else ''false'')"
| "canonicalizeJson ns (JArr xs) = ''['' @ join '','' (map (canonicalizeJson ns) xs) @ '']''"
| "canonicalizeJson ns (JObj kvs) =
     ''{'' @ join '',''
       (map snd (sort_key fst (map (\<lambda>(k, v). (k, json_quote k @ '':'' @ canonicalizeJson ns v)) kvs))) @ ''}''"

section \<open>Digests, signed messages, verification\<close>

definition sha256Hex :: "(string \<Rightarrow> string) \<Rightarrow> string \<Rightarrow> string" where
  "sha256Hex digest t = bytes_hex (digest (utf8 t))"

abbreviation newline :: string where
  "newline \<equiv> [CHR 0x0A]"

definition buildPublishSigningMessage ::
    "string \<Rightarrow> string \<Rightarrow> string \<Rightarrow> string \<Rightarrow> int \<Rightarrow> string \<Rightarrow> string \<Rightarrow> string" where
  "buildPublishSigningMessage sender room eid topic ts nonce payloadHash =
     join newline
       [''v1'', ''sender='' @ sender, ''room='' @ room, ''id='' @ eid, ''topic='' @ topic,
        ''ts='' @ int_str ts, ''nonce='' @ nonce, ''payload_sha256='' @ payloadHash]"

definition buildReviewSigningMessage ::
    "string \<Rightarrow> string \<Rightarrow> string \<Rightarrow> string \<Rightarrow> int \<Rightarrow> string \<Rightarrow> string" where
  "buildReviewSigningMessage sender room prId verdict ts nonce =
     join newline
       [''v1'', ''op=review'', ''sender='' @ sender, ''room='' @ room, ''pr_id='' @ prId,
        ''verdict='' @ verdict, ''ts='' @ int_str ts, ''nonce='' @ nonce]"

definition buildRotateSigningMessage :: "string \<Rightarrow> string \<Rightarrow> int \<Rightarrow> string \<Rightarrow> string" where
  "buildRotateSigningMessage sender newPublicKey ts nonce =
     join newline
       [''v1'', ''op=rotate'', ''sender='' @ sender, ''new_public_key='' @ newPublicKey,
        ''ts='' @ int_str ts, ''nonce='' @ nonce]"

text \<open>The primitive takes the key bytes, the signature bytes and the message bytes.\<close>

type_synonym ed25519 = "string \<Rightarrow> string \<Rightarrow> string \<Rightarrow> bool option"

definition verifyEd25519Signature :: "ed25519 \<Rightarrow> string \<Rightarrow> string \<Rightarrow> string \<Rightarrow> bool" where
  "verifyEd25519Signature primitive pk msg sig =
     (case base64UrlDecode pk of
        None \<Rightarrow> False
      | Some keyBytes \<Rightarrow>
          (case base64UrlDecode sig of
             None \<Rightarrow> False
           | Some sigBytes \<Rightarrow>
               (case primitive keyBytes sigBytes (utf8 msg) of None \<Rightarrow> False | Some ok \<Rightarrow> ok)))"


section \<open>The signed messages are unambiguous\<close>

definition one_line :: "string \<Rightarrow> bool" where
  "one_line s \<longleftrightarrow> CHR 0x0A \<notin> set s"

lemma one_line_append [simp]: "one_line (a @ b) \<longleftrightarrow> one_line a \<and> one_line b"
  by (auto simp: one_line_def)

lemma one_line_Cons [simp]: "one_line (c # b) \<longleftrightarrow> c \<noteq> CHR 0x0A \<and> one_line b"
  by (auto simp: one_line_def)

lemma one_line_Nil [simp]: "one_line []"
  by (simp add: one_line_def)

lemma one_line_int_str [simp]: "one_line (int_str i)"
  using nat_str_digits [of "CHR 0x0A"] by (auto simp: one_line_def int_str_def is_digit_def)

lemma one_line_join: "one_line sep \<Longrightarrow> list_all one_line xs \<Longrightarrow> one_line (join sep xs)"
  by (induction sep xs rule: join.induct) auto

lemma name_char_one_line: "is_name_char c \<Longrightarrow> c \<noteq> CHR 0x0A"
  by (auto simp: is_name_char_def is_alnum_def is_digit_def is_lower_def is_upper_def)

lemma one_line_name_pattern: "name_pattern n s \<Longrightarrow> one_line s"
  using name_char_one_line
  by (auto simp: name_pattern_def one_line_def is_name_char_def list_all_iff split: list.splits)

lemma split_on_notin: "c \<notin> set w \<Longrightarrow> split_on c (w @ c # r) = w # split_on c r"
  by (induction w) auto

lemma split_on_notin_all: "c \<notin> set w \<Longrightarrow> split_on c w = [w]"
  by (induction w) auto

lemma split_join_lines: "ls \<noteq> [] \<Longrightarrow> list_all one_line ls \<Longrightarrow> split_on (CHR 0x0A) (join newline ls) = ls"
  by (induction newline ls rule: join.induct)
    (auto simp: one_line_def split_on_notin split_on_notin_all)

lemma join_lines_inj:
  "join newline as = join newline bs \<Longrightarrow> as \<noteq> [] \<Longrightarrow> bs \<noteq> [] \<Longrightarrow>
   list_all one_line as \<Longrightarrow> list_all one_line bs \<Longrightarrow> as = bs"
  by (metis split_join_lines)

text \<open>
  Claim C24. A publish signature binds every field: two publish messages are equal only if sender,
  room, id, topic, time, nonce and payload digest are, provided no field contains a line break.
\<close>

theorem publish_message_binds_fields:
  assumes "buildPublishSigningMessage s r i t ts n h = buildPublishSigningMessage s' r' i' t' ts' n' h'"
    and "list_all one_line [s, r, i, t, n, h]" and "list_all one_line [s', r', i', t', n', h']"
  shows "s = s' \<and> r = r' \<and> i = i' \<and> t = t' \<and> ts = ts' \<and> n = n' \<and> h = h'"
proof -
  have "[''v1'', ''sender='' @ s, ''room='' @ r, ''id='' @ i, ''topic='' @ t,
        ''ts='' @ int_str ts, ''nonce='' @ n, ''payload_sha256='' @ h] =
      [''v1'', ''sender='' @ s', ''room='' @ r', ''id='' @ i', ''topic='' @ t',
        ''ts='' @ int_str ts', ''nonce='' @ n', ''payload_sha256='' @ h']"
    by (rule join_lines_inj [OF assms(1) [unfolded buildPublishSigningMessage_def]])
      (use assms(2,3) in simp_all)
  then show ?thesis by simp
qed

theorem publish_message_binds_fields_witness:
  "buildPublishSigningMessage ''alice'' ''main'' ''m1'' ''notify'' 1 ''n'' ''h'' \<noteq>
   buildPublishSigningMessage ''alice'' ''main'' ''m1'' ''notify'' 1 ''n'' ''g''"
  using publish_message_binds_fields [of "''alice''" "''main''" "''m1''" "''notify''" 1 "''n''" "''h''"
      "''alice''" "''main''" "''m1''" "''notify''" 1 "''n''" "''g''"]
  by auto

text \<open>
  Without that proviso the message is ambiguous: a line break in a sender or an id
  makes two different publishes share one message, and so one signature.
\<close>

theorem publish_message_ambiguous:
  "buildPublishSigningMessage ''a'' ''b'' (''c'' @ newline @ ''room=d'' @ newline @ ''id=e'') t ts n h =
   buildPublishSigningMessage (''a'' @ newline @ ''room=b'' @ newline @ ''id=c'') ''d'' ''e'' t ts n h"
  by (simp add: buildPublishSigningMessage_def)

lemma join_two: "xs \<noteq> [] \<Longrightarrow> join sep (x # xs) = x @ sep @ join sep xs"
  by (cases xs) simp_all


section \<open>Canonical JSON determines the value\<close>

text \<open>
  What the canonical text keeps of a value: everything but the order of members and the
  special numbers, which it writes as \<open>null\<close>.
\<close>

datatype cjson =
    CNull
  | CBool bool
  | CNum rat
  | CStr string
  | CArr "cjson list"
  | CObj "(string \<times> cjson) list"

fun canon_value :: "json \<Rightarrow> cjson" where
  "canon_value JNull = CNull"
| "canon_value (JBool b) = CBool b"
| "canon_value (JNum (Fin r)) = CNum r"
| "canon_value (JNum _) = CNull"
| "canon_value (JStr s) = CStr s"
| "canon_value (JArr xs) = CArr (map canon_value xs)"
| "canon_value (JObj kvs) = CObj (sort_key fst (map (\<lambda>(k, v). (k, canon_value v)) kvs))"

fun render :: "(rat \<Rightarrow> string) \<Rightarrow> cjson \<Rightarrow> string" where
  "render ns CNull = ''null''"
| "render ns (CBool b) = (if b then ''true'' else ''false'')"
| "render ns (CNum r) = ns r"
| "render ns (CStr s) = json_quote s"
| "render ns (CArr xs) = ''['' @ join '','' (map (render ns) xs) @ '']''"
| "render ns (CObj kvs) = ''{'' @ join '','' (map (\<lambda>(k, v). json_quote k @ '':'' @ render ns v) kvs) @ ''}''"

lemma sort_key_map_pairs:
  "sort_key fst (map (\<lambda>(k, v). (k, f k v)) kvs) = map (\<lambda>(k, v). (k, f k v)) (sort_key fst kvs)"
proof (induction kvs)
  case (Cons p kvs)
  have ins: "insort_key fst (case p of (k, v) \<Rightarrow> (k, f k v)) (map (\<lambda>(k, v). (k, f k v)) xs) =
      map (\<lambda>(k, v). (k, f k v)) (insort_key fst p xs)" for xs
    by (induction xs) (auto split: prod.splits)
  show ?case using Cons by (simp add: ins)
qed simp

lemma canonicalize_render: "canonicalizeJson ns j = render ns (canon_value j)"
proof (induction ns j rule: canonicalizeJson.induct)
  case (7 ns kvs)
  have ren: "map (\<lambda>(k, v). (k, json_quote k @ '':'' @ canonicalizeJson ns v)) kvs =
      map (\<lambda>(k, v). (k, json_quote k @ '':'' @ render ns (canon_value v))) kvs"
    using 7 by fastforce
  show ?case
    unfolding canonicalizeJson.simps canon_value.simps render.simps ren sort_key_map_pairs
    by (simp add: case_prod_beta comp_def)
qed (simp_all cong: map_cong)

text \<open>Numbers are printed with the characters of a JSON number, and differently if they differ.\<close>

definition num_char :: "char \<Rightarrow> bool" where
  "num_char c \<longleftrightarrow> is_digit c \<or> c \<in> {CHR ''-'', CHR ''+'', CHR ''.'', CHR ''e''}"

definition num_format :: "(rat \<Rightarrow> string) \<Rightarrow> bool" where
  "num_format ns \<longleftrightarrow> (\<forall>r. ns r \<noteq> [] \<and> list_all num_char (ns r)) \<and> inj ns"

definition delim :: "char \<Rightarrow> bool" where
  "delim c \<longleftrightarrow> c = CHR '','' \<or> c = CHR '']'' \<or> c = CHR ''}''"

definition at_delim :: "string \<Rightarrow> bool" where
  "at_delim r \<longleftrightarrow> (case r of [] \<Rightarrow> True | c # _ \<Rightarrow> delim c)"

lemma at_delim_simps [simp]: "at_delim []" "at_delim (c # r) \<longleftrightarrow> delim c"
  by (simp_all add: at_delim_def)

lemma delim_simps [simp]: "delim (CHR '','')" "delim (CHR '']'')" "delim (CHR ''}'')"
  by (simp_all add: delim_def)

lemma num_char_not: "num_char c \<Longrightarrow> \<not> delim c"
    "num_char c \<Longrightarrow> c \<notin> {CHR ''n'', CHR ''t'', CHR ''f'', CHR 0x22, CHR ''['', CHR ''{''}"
  by (auto simp: num_char_def delim_def is_digit_def)

lemma number_text_inj:
  assumes "num_format ns" "ns a @ r = ns b @ r'" "at_delim r" "at_delim r'"
  shows "a = b \<and> r = r'"
proof -
  have tw: "takeWhile num_char (ns x @ y) = ns x" if "at_delim y" for x y
    using assms(1) that num_char_not(1)
    by (cases y) (auto simp: num_format_def list_all_iff takeWhile_append)
  have "ns a = ns b" using tw [of r a] tw [of r' b] assms by simp
  moreover have "a = b" using assms(1) calculation by (auto simp: num_format_def dest: injD)
  ultimately show ?thesis using assms(2) by simp
qed

definition hex_value :: "char \<Rightarrow> nat" where
  "hex_value c = (if is_digit c then of_char c - 48 else of_char c - 87)"

fun unescape :: "string \<Rightarrow> char \<times> string" where
  "unescape (c # e # r) =
     (if c \<noteq> CHR 0x5C then (c, e # r)
      else if e = CHR ''b'' then (CHR 0x08, r)
      else if e = CHR ''t'' then (CHR 0x09, r)
      else if e = CHR ''n'' then (CHR 0x0A, r)
      else if e = CHR ''f'' then (CHR 0x0C, r)
      else if e = CHR ''r'' then (CHR 0x0D, r)
      else if e = CHR ''u'' then (char_of (16 * hex_value (r ! 2) + hex_value (r ! 3)), drop 4 r)
      else (e, r))"
| "unescape [c] = (c, [])"
| "unescape [] = (CHR 0x00, [])"

lemma hex_value_hex_digit: "d < 16 \<Longrightarrow> hex_value (hex_digit d) = d"
  by (auto simp: hex_value_def hex_digit_def is_digit_def)

lemma unescape_esc_char: "unescape (esc_char c @ x # y) = (c, x # y)"
proof -
  have "of_char c div 16 < (16 :: nat)"
    using nat_of_char_less_256 [of c] by (simp add: div_less_iff_less_mult)
  then show ?thesis
    by (auto simp: esc_char_def hex_value_hex_digit)
qed


lemma esc_char_hd: "esc_char c \<noteq> []" "hd (esc_char c) \<noteq> CHR 0x22"
  by (auto simp: esc_char_def)

lemma esc_char_not_quote: "CHR 0x22 # r \<noteq> esc_char c @ x" "esc_char c @ x \<noteq> CHR 0x22 # r"
  by (auto simp: esc_char_def split: if_splits)

lemma esc_text_inj:
  "concat (map esc_char s) @ CHR 0x22 # r = concat (map esc_char s') @ CHR 0x22 # r' \<Longrightarrow> s = s' \<and> r = r'"
proof (induction s arbitrary: s')
  case Nil
  then show ?case
    by (cases s') (auto simp: esc_char_not_quote)
next
  case (Cons c s)
  then obtain c' t' where s': "s' = c' # t'"
    by (cases s') (auto simp: esc_char_not_quote)
  have "unescape (concat (map esc_char (x # t)) @ CHR 0x22 # y) = (x, concat (map esc_char t) @ CHR 0x22 # y)"
    for x t y
    using unescape_esc_char [of x "hd (concat (map esc_char t) @ CHR 0x22 # y)"
        "tl (concat (map esc_char t) @ CHR 0x22 # y)"] by simp
  then have "(c, concat (map esc_char s) @ CHR 0x22 # r) = (c', concat (map esc_char t') @ CHR 0x22 # r')"
    using Cons.prems unfolding s' by metis
  then show ?case using Cons.IH [of t'] by (simp add: s')
qed

lemma quote_inj: "json_quote s @ r = json_quote s' @ r' \<Longrightarrow> s = s' \<and> r = r'"
proof -
  assume "json_quote s @ r = json_quote s' @ r'"
  then have "concat (map esc_char s) @ CHR 0x22 # r = concat (map esc_char s') @ CHR 0x22 # r'"
    by (simp add: json_quote_def)
  then show ?thesis by (rule esc_text_inj)
qed

definition list_text :: "('a \<Rightarrow> string) \<Rightarrow> 'a list \<Rightarrow> string" where
  "list_text f xs = join '','' (map f xs)"

text \<open>A comma-separated list up to its closing bracket is read back in one way only.\<close>

lemma list_text_inj:
  assumes el: "\<And>x y r r'. x \<in> set xs \<Longrightarrow> f x @ r = f y @ r' \<Longrightarrow> at_delim r \<Longrightarrow> at_delim r' \<Longrightarrow> x = y \<and> r = r'"
    and hd: "\<And>y. f y \<noteq> [] \<and> \<not> delim (hd (f y))"
    and q: "delim q" "q \<noteq> CHR '',''"
  shows "list_text f xs @ q # r = list_text f ys @ q # r' \<Longrightarrow> xs = ys \<and> r = r'"
  using el
proof (induction xs arbitrary: ys)
  case Nil
  show ?case
  proof (cases ys)
    case (Cons y zs)
    have "hd (list_text f ys @ q # r') = hd (f y)"
      using hd [of y] by (cases zs) (simp_all add: Cons list_text_def)
    moreover have "hd (q # r) = hd (list_text f ys @ q # r')"
      using Nil.prems(1) by (simp add: list_text_def)
    ultimately show ?thesis using hd [of y] q by simp
  qed (use Nil in \<open>simp add: list_text_def\<close>)
next
  case (Cons x xs)
  have tail: "\<exists>t. list_text f (z # zs) @ q # w = f z @ t \<and> at_delim t \<and>
      t = (if zs = [] then q # w else CHR '','' # list_text f zs @ q # w)" for z zs w
    using q by (cases zs) (auto simp: list_text_def)
  show ?case
  proof (cases ys)
    case Nil
    have "hd (list_text f (x # xs) @ q # r) = hd (f x)"
      using hd [of x] by (cases xs) (simp_all add: list_text_def)
    moreover have "hd (list_text f (x # xs) @ q # r) = hd (q # r')"
      using Cons.prems(1) by (simp add: Nil list_text_def)
    ultimately show ?thesis using hd [of x] q by simp
  next
    case ys: (Cons y zs)
    obtain t where t: "list_text f (x # xs) @ q # r = f x @ t" "at_delim t"
        "t = (if xs = [] then q # r else CHR '','' # list_text f xs @ q # r)"
      using tail by blast
    obtain t' where t': "list_text f (y # zs) @ q # r' = f y @ t'" "at_delim t'"
        "t' = (if zs = [] then q # r' else CHR '','' # list_text f zs @ q # r')"
      using tail by blast
    have xy: "x = y \<and> t = t'"
      by (rule Cons.prems(2)) (use Cons.prems(1) t t' ys in auto)
    have "xs = zs \<and> r = r'"
    proof (cases "xs = [] \<or> zs = []")
      case True
      with xy t(3) t'(3) q show ?thesis by (auto split: if_splits)
    next
      case False
      with xy t(3) t'(3) have "list_text f xs @ q # r = list_text f zs @ q # r'" by simp
      then show ?thesis by (rule Cons.IH) (use Cons.prems(2) in auto)
    qed
    with xy ys show ?thesis by simp
  qed
qed


lemma render_hd:
  assumes "num_format ns"
  shows "render ns v \<noteq> [] \<and> \<not> delim (hd (render ns v))"
proof (cases v)
  case (CNum r)
  then show ?thesis
    using assms num_char_not(1) by (cases "ns r") (auto simp: num_format_def dest: spec [of _ r])
qed (auto simp: json_quote_def delim_def)

text \<open>The first character tells the kind of value.\<close>

definition kind_char :: "cjson \<Rightarrow> char \<Rightarrow> bool" where
  "kind_char v c =
     (case v of CNull \<Rightarrow> c = CHR ''n'' | CBool b \<Rightarrow> c = (if b then CHR ''t'' else CHR ''f'')
      | CNum _ \<Rightarrow> num_char c | CStr _ \<Rightarrow> c = CHR 0x22 | CArr _ \<Rightarrow> c = CHR ''['' | CObj _ \<Rightarrow> c = CHR ''{'')"

lemma render_kind_char: "num_format ns \<Longrightarrow> kind_char v (hd (render ns v @ r))"
proof (cases v)
  case (CNum x)
  assume "num_format ns"
  then have "ns x \<noteq> []" "list_all num_char (ns x)"
    by (auto simp: num_format_def)
  then have "ns x \<noteq> []" "num_char (hd (ns x))"
    by (cases "ns x"; simp)+
  then show ?thesis using CNum by (simp add: kind_char_def)
qed (auto simp: kind_char_def json_quote_def)

lemma same_kind:
  assumes "num_format ns" "render ns v @ r = render ns w @ r'"
  shows "\<exists>c. kind_char v c \<and> kind_char w c"
  using render_kind_char [OF assms(1), of v r] render_kind_char [OF assms(1), of w r'] assms(2) by auto

lemma kind_char_excl:
  "kind_char CNull c \<Longrightarrow> kind_char w c \<Longrightarrow> w = CNull"
  "kind_char (CBool b) c \<Longrightarrow> kind_char w c \<Longrightarrow> w = CBool b"
  "kind_char (CNum x) c \<Longrightarrow> kind_char w c \<Longrightarrow> \<exists>y. w = CNum y"
  "kind_char (CStr s) c \<Longrightarrow> kind_char w c \<Longrightarrow> \<exists>y. w = CStr y"
  "kind_char (CArr xs) c \<Longrightarrow> kind_char w c \<Longrightarrow> \<exists>y. w = CArr y"
  "kind_char (CObj kvs) c \<Longrightarrow> kind_char w c \<Longrightarrow> \<exists>y. w = CObj y"
  using num_char_not(2)
  by (cases w; force simp: kind_char_def num_char_def is_digit_def split: if_splits)+

lemma render_inj:
  assumes ns: "num_format ns"
  shows "render ns v @ r = render ns w @ r' \<Longrightarrow> at_delim r \<Longrightarrow> at_delim r' \<Longrightarrow> v = w \<and> r = r'"
proof (induction v arbitrary: w r r')
  case (CNum x)
  then obtain y where "w = CNum y"
    using same_kind [OF ns] kind_char_excl(3) by blast
  with CNum show ?case using number_text_inj [OF ns] by auto
next
  case (CStr s)
  then obtain y where w: "w = CStr y"
    using same_kind [OF ns] kind_char_excl(4) by blast
  with CStr.prems(1) have "json_quote s @ r = json_quote y @ r'" by simp
  then show ?case unfolding w using quote_inj by blast
next
  case (CArr xs)
  then obtain ys where w: "w = CArr ys"
    using same_kind [OF ns] kind_char_excl(5) by blast
  have "list_text (render ns) xs @ CHR '']'' # r = list_text (render ns) ys @ CHR '']'' # r'"
    using CArr.prems(1) by (simp add: w list_text_def)
  then have "xs = ys \<and> r = r'"
  proof (rule list_text_inj [rotated -1])
    fix x y t t'
    assume "x \<in> set xs" "render ns x @ t = render ns y @ t'" "at_delim t" "at_delim t'"
    then show "x = y \<and> t = t'" by (rule CArr.IH)
  qed (use render_hd [OF ns] in auto)
  then show ?case by (simp add: w)
next
  case (CObj kvs)
  then obtain ys where w: "w = CObj ys"
    using same_kind [OF ns] kind_char_excl(6) by blast
  let ?f = "\<lambda>(k, v). json_quote k @ '':'' @ render ns v"
  have "list_text ?f kvs @ CHR ''}'' # r = list_text ?f ys @ CHR ''}'' # r'"
    using CObj.prems(1) by (simp add: w list_text_def)
  then have "kvs = ys \<and> r = r'"
  proof (rule list_text_inj [rotated -1])
    fix p q t t'
    assume p: "p \<in> set kvs" and eq: "?f p @ t = ?f q @ t'" and d: "at_delim t" "at_delim t'"
    obtain k v l u where pq: "p = (k, v)" "q = (l, u)" by fastforce
    have "k = l \<and> CHR '':'' # render ns v @ t = CHR '':'' # render ns u @ t'"
      by (rule quote_inj) (use eq pq in simp)
    moreover have "v = u \<and> t = t'" if "render ns v @ t = render ns u @ t'"
      using CObj.IH [OF p, of v] that d pq by auto
    ultimately show "p = q \<and> t = t'" using pq by simp
  qed (auto simp: delim_def json_quote_def)
  then show ?case by (simp add: w)
qed (use same_kind [OF ns] kind_char_excl(1,2) in \<open>blast | auto\<close>)+

lemma canonical_text_eq:
  assumes "num_format ns"
  shows "canonicalizeJson ns a = canonicalizeJson ns b \<longleftrightarrow> canon_value a = canon_value b"
  using render_inj [OF assms, of "canon_value a" "[]" "canon_value b" "[]"]
  by (auto simp: canonicalize_render)

text \<open>A concrete number format: numerator and denominator of the reduced fraction.\<close>

definition fraction_text :: "rat \<Rightarrow> string" where
  "fraction_text r = int_str (fst (quotient_of r)) @ ''e'' @ int_str (snd (quotient_of r))"

lemma split_at_char: "c \<notin> set a \<Longrightarrow> c \<notin> set a' \<Longrightarrow> a @ c # b = a' @ c # b' \<Longrightarrow> a = a' \<and> b = b'"
  by (auto simp: append_eq_append_conv2 Cons_eq_append_conv append_eq_Cons_conv)

lemma num_char_int_str: "list_all num_char (int_str i)"
  using nat_str_digits by (auto simp: int_str_def list_all_iff num_char_def)

lemma int_str_no_e: "CHR ''e'' \<notin> set (int_str i)"
  using nat_str_digits [of "CHR ''e''"] by (auto simp: int_str_def is_digit_def)

lemma num_format_fraction: "num_format fraction_text"
proof -
  have "inj fraction_text"
  proof (rule injI)
    fix r s
    assume "fraction_text r = fraction_text s"
    then have "int_str (fst (quotient_of r)) @ CHR ''e'' # int_str (snd (quotient_of r)) =
        int_str (fst (quotient_of s)) @ CHR ''e'' # int_str (snd (quotient_of s))"
      by (simp add: fraction_text_def)
    from split_at_char [OF int_str_no_e int_str_no_e this]
    have "quotient_of r = quotient_of s" by (simp add: prod_eq_iff)
    then show "r = s" by (rule quotient_of_inject)
  qed
  then show ?thesis
    by (auto simp: num_format_def fraction_text_def num_char_int_str list_all_append) (simp add: num_char_def)
qed

text \<open>
  Claim C23. The canonical text of a JSON value determines the value up to the order of object
  members, whatever strings it contains, so a digest of the text commits to the payload. The
  engine prints different numbers differently and with the characters of a number; infinities
  and NaN are written as \<open>null\<close>.
\<close>

theorem canonicalizeJson_inj:
  assumes "num_format ns"
  shows "canonicalizeJson ns a = canonicalizeJson ns b \<longleftrightarrow> canon_value a = canon_value b"
  by (rule canonical_text_eq [OF assms])

theorem canonicalizeJson_inj_witness:
  "canonicalizeJson fraction_text (JObj [(''a'', JNum (Fin 1)), (''b'', JStr ''x'')]) =
     canonicalizeJson fraction_text (JObj [(''b'', JStr ''x''), (''a'', JNum (Fin 1))]) \<and>
   canonicalizeJson fraction_text (JStr ''null'') \<noteq> canonicalizeJson fraction_text JNull"
  using canonicalizeJson_inj [OF num_format_fraction, of "JStr ''null''" JNull]
    canonicalizeJson_inj [OF num_format_fraction, of "JObj [(''a'', JNum (Fin 1)), (''b'', JStr ''x'')]"
      "JObj [(''b'', JStr ''x''), (''a'', JNum (Fin 1))]"]
  by (simp del: canonicalizeJson.simps)

section \<open>Domain separation\<close>

text \<open>
  The three kinds of signed messages never coincide: a signature on a publish, a
  review or a key rotation cannot be replayed as one of the others, whatever the fields contain.
\<close>

theorem signing_messages_separate:
  "buildPublishSigningMessage s1 r1 i1 t1 ts1 n1 h1 \<noteq> buildReviewSigningMessage s2 r2 p2 v2 ts2 n2 \<and>
   buildPublishSigningMessage s1 r1 i1 t1 ts1 n1 h1 \<noteq> buildRotateSigningMessage s3 k3 ts3 n3 \<and>
   buildReviewSigningMessage s2 r2 p2 v2 ts2 n2 \<noteq> buildRotateSigningMessage s3 k3 ts3 n3"
  by (simp_all add: buildPublishSigningMessage_def buildReviewSigningMessage_def buildRotateSigningMessage_def)

section \<open>Base64url round trip\<close>

fun b64_sextets :: "nat list \<Rightarrow> nat list" where
  "b64_sextets [] = []"
| "b64_sextets [a] = [a div 4, 16 * (a mod 4)]"
| "b64_sextets [a, b] = [a div 4, 16 * (a mod 4) + b div 16, 4 * (b mod 16)]"
| "b64_sextets (a # b # c # r) =
     [a div 4, 16 * (a mod 4) + b div 16, 4 * (b mod 16) + c div 64, c mod 64] @ b64_sextets r"

definition pad_length :: "nat \<Rightarrow> nat" where
  "pad_length n = (4 - n mod 4) mod 4"

lemma of_char_b64_digit:
  assumes "n < 64"
  shows "(of_char (b64_digit n) :: nat) =
    (if n < 26 then 65 + n else if n < 52 then 71 + n else if n < 62 then n - 4 else if n = 62 then 43 else 47)"
  using assms by (simp add: b64_digit_def)

lemma char_eq_code: "c = d \<longleftrightarrow> (of_char c :: nat) = of_char d"
  by simp

lemma b64_digit_facts:
  assumes "n < 64"
  shows "b64_value (b64_digit n) = Some n"
    and "from_url_char (to_url_char (b64_digit n)) = b64_digit n"
    and "to_url_char (b64_digit n) \<noteq> CHR ''=''" and "b64_digit n \<noteq> CHR ''=''"
    and "(of_char (b64_digit n) :: nat) \<notin> {9, 10, 12, 13, 32}"
proof -
  let ?d = "b64_digit n"
  note code = of_char_b64_digit [OF assms]
  have plus: "?d = CHR ''+'' \<longleftrightarrow> n = 62" and slash: "?d = CHR ''/'' \<longleftrightarrow> n = 63"
    and no: "?d \<noteq> CHR ''=''" "?d \<noteq> CHR ''-''" "?d \<noteq> CHR ''_''"
    using assms unfolding char_eq_code [of ?d] code by (auto split: if_splits)
  show "b64_value ?d = Some n"
    using assms unfolding b64_value_def Let_def plus slash is_upper_def is_lower_def is_digit_def code
    by (auto split: if_splits)
  show "from_url_char (to_url_char ?d) = ?d" "to_url_char ?d \<noteq> CHR ''=''"
    using no by (auto simp: to_url_char_def from_url_char_def)
  show "?d \<noteq> CHR ''=''" by (rule no(1))
  show "(of_char ?d :: nat) \<notin> {9, 10, 12, 13, 32}"
    using assms unfolding code by (auto split: if_splits)
qed

lemma b64_encode_sextets:
  "b64_encode xs = map b64_digit (b64_sextets xs) @ replicate (pad_length (length (b64_sextets xs))) (CHR ''='')"
proof (induction xs rule: b64_encode.induct)
  case (4 a b c r)
  have "pad_length (length (b64_sextets (a # b # c # r))) = pad_length (length (b64_sextets r))"
    by (simp add: pad_length_def)
  with 4 show ?case by simp
qed (simp_all add: pad_length_def numeral_2_eq_2)

lemma sextet_bounds:
  fixes a b c :: nat
  assumes "a < 256" "b < 256" "c < 256"
  shows "a div 4 < 64" "16 * (a mod 4) < 64" "16 * (a mod 4) + b div 16 < 64"
    "4 * (b mod 16) < 64" "4 * (b mod 16) + c div 64 < 64" "c mod 64 < 64"
proof -
  have q: "a div 4 < 64" "b div 16 < 16" "c div 64 < 4" using assms by (simp_all add: less_mult_imp_div_less)
  have "a mod 4 < 4" "b mod 16 < 16" "c mod 64 < 64" by simp_all
  then have r: "a mod 4 \<le> 3" "b mod 16 \<le> 15" "c mod 64 \<le> 63" by simp_all
  show "a div 4 < 64" by (fact q(1))
  show "16 * (a mod 4) < 64" "16 * (a mod 4) + b div 16 < 64"
    "4 * (b mod 16) < 64" "4 * (b mod 16) + c div 64 < 64" "c mod 64 < 64"
    using q r by simp_all
qed

lemma b64_sextets_bound: "(\<And>x. x \<in> set xs \<Longrightarrow> x < 256) \<Longrightarrow> y \<in> set (b64_sextets xs) \<Longrightarrow> y < 64"
proof (induction xs rule: b64_sextets.induct)
  case (4 a b c r)
  have lt: "a < 256" "b < 256" "c < 256" using 4(2) by simp_all
  have "y \<in> set (b64_sextets r) \<Longrightarrow> y < 64" using 4(1) 4(2) by simp
  then show ?case using 4(3) sextet_bounds [OF lt] by auto
next
  case (3 a b)
  then have "a < 256" "b < 256" by simp_all
  then show ?case using 3(2) sextet_bounds [of a b 0] by auto
next
  case (2 a)
  then have "a < 256" by simp
  then show ?case using 2(2) sextet_bounds [of a 0 0] by auto
qed simp

lemma b64_sextets_mod: "length (b64_sextets xs) mod 4 \<noteq> 1"
  by (induction xs rule: b64_sextets.induct) auto

lemma byte_split:
  fixes a b c :: nat
  assumes "a < 256" "b < 256" "c < 256"
  shows "4 * (a div 4) + (16 * (a mod 4) + b div 16) div 16 = a"
    and "16 * ((16 * (a mod 4) + b div 16) mod 16) + (4 * (b mod 16) + c div 64) div 4 = b"
    and "64 * ((4 * (b mod 16) + c div 64) mod 4) + c mod 64 = c"
proof -
  have q: "b div 16 < 16" "c div 64 < 4" using assms by (simp_all add: less_mult_imp_div_less)
  have e: "(16 * (a mod 4) + b div 16) div 16 = a mod 4" "(16 * (a mod 4) + b div 16) mod 16 = b div 16"
    "(4 * (b mod 16) + c div 64) div 4 = b mod 16" "(4 * (b mod 16) + c div 64) mod 4 = c div 64"
    using q by simp_all
  show "4 * (a div 4) + (16 * (a mod 4) + b div 16) div 16 = a"
    "16 * ((16 * (a mod 4) + b div 16) mod 16) + (4 * (b mod 16) + c div 64) div 4 = b"
    "64 * ((4 * (b mod 16) + c div 64) mod 4) + c mod 64 = c"
    unfolding e by (rule mult_div_mod_eq)+
qed

lemma b64_decode_sextets: "(\<And>x. x \<in> set xs \<Longrightarrow> x < 256) \<Longrightarrow> b64_decode (b64_sextets xs) = xs"
proof (induction xs rule: b64_sextets.induct)
  case (4 a b c r)
  have lt: "a < 256" "b < 256" "c < 256" using 4(2) by simp_all
  have "b64_decode (b64_sextets r) = r" using 4 by simp
  then show ?case
    unfolding b64_sextets.simps append.simps b64_decode.simps byte_split [OF lt] by simp
next
  case (3 a b)
  then have "a < 256" "b < 256" by simp_all
  then show ?case using byte_split(1,2) [of a b 0] by simp
next
  case (2 a)
  then have "a < 256" by simp
  then show ?case using byte_split(1) [of a 0 0] by simp
qed simp

lemma not_suffix_snoc: "x \<notin> set ds \<Longrightarrow> \<not> suffix (xs @ [x]) ds"
  by (auto simp: suffix_def)

lemma strip_padding_pad:
  assumes "length ds mod 4 \<noteq> 1" "CHR ''='' \<notin> set ds"
  shows "strip_padding (ds @ replicate (pad_length (length ds)) (CHR ''='')) = ds"
proof -
  have "length ds mod 4 < 4" by simp
  then consider (none) "length ds mod 4 = 0" | (two) "length ds mod 4 = 2" | (one) "length ds mod 4 = 3"
    using assms(1) by fastforce
  then show ?thesis
  proof cases
    case none
    then show ?thesis
      using not_suffix_snoc [OF assms(2), of "''=''"] not_suffix_snoc [OF assms(2), of "[]"]
      by (simp add: strip_padding_def pad_length_def)
  next
    case two
    then have p: "pad_length (length ds) = 2" by (simp add: pad_length_def)
    have m: "(length ds + 2) mod 4 = 0" using mod_add_left_eq [of "length ds" 4 2] two by simp
    then have "length (ds @ ''=='') mod 4 = 0" by simp
    then show ?thesis
      unfolding strip_padding_def p by (simp add: numeral_2_eq_2 suffix_def)
  next
    case one
    then have p: "pad_length (length ds) = 1" by (simp add: pad_length_def)
    have "(length ds + 1) mod 4 = 0" using mod_add_left_eq [of "length ds" 4 1] one by simp
    then have m: "length (ds @ ''='') mod 4 = 0" by simp
    have "\<not> suffix ''=='' (ds @ ''='')"
    proof
      assume "suffix ''=='' (ds @ ''='')"
      then obtain zs where "ds @ ''='' = zs @ ''==''" by (auto simp: suffix_def)
      then have "ds = zs @ ''=''" by simp
      then show False using assms(2) by simp
    qed
    with m show ?thesis
      unfolding strip_padding_def p by (simp add: suffix_def)
  qed
qed

lemma b64_digits_clean:
  assumes "\<forall>y\<in>set ys. y < 64"
  shows "CHR ''='' \<notin> set (map b64_digit ys)"
    and "map (\<lambda>c. the (b64_value c)) (map b64_digit ys) = ys"
    and "list_all (\<lambda>c. b64_value c \<noteq> None) (map b64_digit ys)"
    and "filter (\<lambda>c. (of_char c :: nat) \<notin> {9, 10, 12, 13, 32}) (map b64_digit ys) = map b64_digit ys"
    and "CHR ''='' \<notin> set (map to_url_char (map b64_digit ys))"
    and "map from_url_char (map to_url_char (map b64_digit ys)) = map b64_digit ys"
proof -
  note d = b64_digit_facts [OF bspec [OF assms]]
  show "CHR ''='' \<notin> set (map b64_digit ys)" using d(4) by fastforce
  show "map (\<lambda>c. the (b64_value c)) (map b64_digit ys) = ys"
    unfolding map_map by (rule map_idI) (simp add: d(1))
  show "list_all (\<lambda>c. b64_value c \<noteq> None) (map b64_digit ys)"
    unfolding list_all_iff by (auto simp: d(1))
  show "filter (\<lambda>c. (of_char c :: nat) \<notin> {9, 10, 12, 13, 32}) (map b64_digit ys) = map b64_digit ys"
  proof (intro filter_True ballI)
    fix c
    assume "c \<in> set (map b64_digit ys)"
    then obtain y where "y \<in> set ys" "c = b64_digit y" by auto
    then show "(of_char c :: nat) \<notin> {9, 10, 12, 13, 32}" using d(5) by simp
  qed
  show "CHR ''='' \<notin> set (map to_url_char (map b64_digit ys))" using d(3) by fastforce
  show "map from_url_char (map to_url_char (map b64_digit ys)) = map b64_digit ys"
    unfolding map_map by (rule map_cong) (simp_all add: d(2))
qed

lemma atob_sextets:
  assumes "\<forall>y\<in>set ys. y < 64" "length ys mod 4 \<noteq> 1"
  shows "atob (map b64_digit ys @ replicate (pad_length (length ys)) (CHR ''='')) =
    Some (map char_of (b64_decode ys))"
proof -
  let ?ds = "map b64_digit ys"
  note clean = b64_digits_clean [of ys, OF assms(1)]
  have fil: "filter (\<lambda>c. (of_char c :: nat) \<notin> {9, 10, 12, 13, 32})
      (?ds @ replicate (pad_length (length ys)) (CHR ''='')) =
      ?ds @ replicate (pad_length (length ys)) (CHR ''='')"
    unfolding filter_append clean(4) by (simp add: filter_id_conv)
  have strip: "strip_padding (?ds @ replicate (pad_length (length ys)) (CHR ''='')) = ?ds"
    using strip_padding_pad [of ?ds] assms(2) clean(1) by (simp only: length_map simp_thms)
  show ?thesis
    unfolding atob_def fil strip Let_def clean(2) using clean(3) assms(2)
    by (simp only: length_map if_False if_True)
qed

lemma dropWhile_rev_pad:
  assumes "c \<notin> set zs"
  shows "dropWhile (\<lambda>x. x = c) (replicate n c @ rev zs) = rev zs"
proof (induction n)
  case 0
  show ?case using assms by (cases zs rule: rev_cases) auto
qed simp

text \<open>
  Decoding what \<open>base64UrlEncode\<close> wrote gives the bytes back, for every byte sequence.
\<close>

theorem base64Url_decode_encode: "base64UrlDecode (base64UrlEncode bs) = Some bs"
proof -
  let ?ys = "b64_sextets (map of_char bs)"
  have bound: "\<forall>y\<in>set ?ys. y < 64"
    by (intro ballI b64_sextets_bound) auto
  note clean = b64_digits_clean [of ?ys, OF bound]
  let ?pad = "replicate (pad_length (length ?ys)) (CHR ''='')"
  have pad: "map to_url_char ?pad = ?pad"
    by (simp add: to_url_char_def)
  have enc: "base64UrlEncode bs = map to_url_char (map b64_digit ?ys)"
    using dropWhile_rev_pad [OF clean(5), of "pad_length (length ?ys)"]
    unfolding base64UrlEncode_def btoa_def b64_encode_sextets map_append pad rev_append rev_replicate
    by (simp only: rev_rev_ident)
  have "base64UrlDecode (base64UrlEncode bs) = atob (map b64_digit ?ys @ ?pad)"
    unfolding enc base64UrlDecode_def Let_def clean(6) pad_length_def by (simp only: length_map)
  also have "\<dots> = Some (map char_of (b64_decode ?ys))"
    by (rule atob_sextets [OF bound b64_sextets_mod])
  also have "b64_decode ?ys = map of_char bs"
    by (rule b64_decode_sextets) auto
  finally show ?thesis by (simp add: comp_def)
qed

end
