(* ===== verification/Http.thy ===== *)
theory Http
  imports Signing
begin

text \<open>
  The request and response values of \<open>src/memory_handler.ts\<close>, its name patterns, and its
  readers of headers, query parameters and bodies: \<open>normalizeLimit\<close>, \<open>extractPresentedToken\<close>,
  \<open>timingSafeEqual\<close>, \<open>parseAckIds\<close>, \<open>parsePublishAuthHeaders\<close> and their neighbours.

  A request carries its method, the path and the query of its URL, its headers under lower-case
  names, and its body text. What the runtime supplies to a handler is collected in the record
  \<open>relay_env\<close>: two readings of the clock (when the request arrives and after its body has been
  read), the JSON parser, the Web Crypto primitives, the engine's text of a finite number, a
  fresh UUID, \<open>Date.parse\<close>, the answer of \<open>github.com\<close>, and, per socket, whether it is open and
  whether a \<open>send\<close> on it succeeds.
\<close>

section \<open>Requests, responses and the runtime\<close>

record request =
  req_method :: string
  req_path :: string
  req_query :: "(string \<times> string) list"
  req_headers :: "(string \<times> string) list"
  req_text :: string

definition query_get :: "request \<Rightarrow> string \<Rightarrow> string option" where
  "query_get r k = map_of (req_query r) k"

definition header_get :: "request \<Rightarrow> string \<Rightarrow> string option" where
  "header_get r k = map_of (req_headers r) k"

text \<open>\<open>(url.searchParams.get(k) ?? '').trim()\<close> and its counterpart for headers.\<close>

definition query_trim :: "request \<Rightarrow> string \<Rightarrow> string" where
  "query_trim r k = js_trim (or_empty (query_get r k))"

definition header_trim :: "request \<Rightarrow> string \<Rightarrow> string" where
  "header_trim r k = js_trim (or_empty (header_get r k))"

datatype resp_body = JsonBody json | TextBody string | NoBody

record response =
  resp_status :: int
  resp_headers :: "(string \<times> string) list"
  resp_body :: resp_body

definition response_json :: "json \<Rightarrow> int \<Rightarrow> response" where
  "response_json j s = \<lparr>resp_status = s, resp_headers = [], resp_body = JsonBody j\<rparr>"

definition toErrorResponse :: "string \<Rightarrow> int \<Rightarrow> response" where
  "toErrorResponse msg s = response_json (JObj [(''ok'', JBool False), (''error'', JStr msg)]) s"

definition invalidRoomResponse :: response where
  "invalidRoomResponse = response_json (JObj [(''ok'', JBool False), (''error'', JStr ''invalid room'')]) 400"

definition healthResponse :: response where
  "healthResponse = response_json (JObj [(''status'', JStr ''ok''), (''service'', JStr ''bit-relay'')]) 200"

definition notFoundResponse :: response where
  "notFoundResponse = response_json (JObj [(''ok'', JBool False), (''error'', JStr ''not found'')]) 404"

definition methodNotAllowedResponse :: response where
  "methodNotAllowedResponse =
     response_json (JObj [(''ok'', JBool False), (''error'', JStr ''method not allowed'')]) 405"

definition unauthorizedResponse :: response where
  "unauthorizedResponse =
     \<lparr>resp_status = 401, resp_headers = [(''www-authenticate'', ''Bearer'')],
      resp_body = JsonBody (JObj [(''ok'', JBool False), (''error'', JStr ''unauthorized'')])\<rparr>"

definition text_response :: "string \<Rightarrow> int \<Rightarrow> response" where
  "text_response t s = \<lparr>resp_status = s, resp_headers = [], resp_body = TextBody t\<rparr>"

text \<open>What \<open>fetch\<close> answers for a user's keys: a thrown message, or a status and a body.\<close>

datatype key_fetch = FetchThrew string | FetchStatus int string

datatype ws_runtime = WorkerPair | DenoUpgrade | NoWebSocket

record relay_env =
  arrival_ms :: int
  body_ms :: int
  json_parse :: "string \<Rightarrow> json option"
  digest :: "string \<Rightarrow> string"
  hmac :: "string \<Rightarrow> string \<Rightarrow> string"
  ed25519 :: ed25519
  num_text :: "rat \<Rightarrow> string"
  fresh_uuid :: string
  date_parse :: "string \<Rightarrow> js_num"
  github_keys_url :: "string \<Rightarrow> key_fetch"
  ws_kind :: ws_runtime
  ws_new :: nat
  ws_open :: "nat \<Rightarrow> bool"
  ws_send_ok :: "nat \<Rightarrow> bool"

text \<open>\<open>Math.floor(Date.now() / 1000)\<close>.\<close>

definition nowEpochSec :: "int \<Rightarrow> int" where
  "nowEpochSec ms = ms div 1000"

section \<open>Name patterns\<close>

definition DEFAULT_ROOM :: string where
  "DEFAULT_ROOM = ''main''"

definition isValidRoomName :: "string \<Rightarrow> bool" where
  "isValidRoomName room = name_pattern 63 room"

definition is_topic_char :: "char \<Rightarrow> bool" where
  "is_topic_char c \<longleftrightarrow> is_lower c \<or> is_digit c \<or> c \<in> {CHR ''.'', CHR ''_'', CHR ''-''}"

definition isValidTopic :: "string \<Rightarrow> bool" where
  "isValidTopic topic =
     (case topic of [] \<Rightarrow> False | c # cs \<Rightarrow> is_lower c \<and> length cs \<le> 63 \<and> list_all is_topic_char cs)"

definition pr_id_pattern :: "string \<Rightarrow> bool" where
  "pr_id_pattern s = name_pattern 127 s"

definition VALID_VERDICTS :: "string list" where
  "VALID_VERDICTS = [''approve'', ''deny'']"

section \<open>Query parameters\<close>

definition parseIntOr :: "string option \<Rightarrow> int \<Rightarrow> int" where
  "parseIntOr raw fallback =
     (case finite_trunc (js_parse_int (or_empty raw)) of Some v \<Rightarrow> v | None \<Rightarrow> fallback)"

definition normalizeLimit :: "string option \<Rightarrow> int \<Rightarrow> int" where
  "normalizeLimit raw fallback = max 1 (parseIntOr raw fallback)"

definition normalizeAfter :: "string option \<Rightarrow> int \<Rightarrow> int" where
  "normalizeAfter raw fallback = max 0 (parseIntOr raw fallback)"

definition normalizeRoom :: "string option \<Rightarrow> string" where
  "normalizeRoom raw = js_trim (case raw of None \<Rightarrow> DEFAULT_ROOM | Some r \<Rightarrow> r)"

definition incoming_prefix :: string where
  "incoming_prefix = ''refs/relay/incoming/''"

definition deriveRoomFromIncomingRef :: "string \<Rightarrow> string" where
  "deriveRoomFromIncomingRef ref =
     (let trimmed = js_trim ref
      in if \<not> prefix incoming_prefix trimmed then DEFAULT_ROOM
         else let suff = js_trim (drop (length incoming_prefix) trimmed)
           in if suff = [] then DEFAULT_ROOM
              else let first = js_trim (hd (split_on (CHR ''/'') suff))
                in if isValidRoomName first then first else DEFAULT_ROOM)"

definition extractClientIp :: "request \<Rightarrow> string" where
  "extractClientIp r =
     (let cfIp = header_trim r ''cf-connecting-ip'';
          xff = header_trim r ''x-forwarded-for'';
          first = js_trim (hd (split_on (CHR '','') xff))
      in if cfIp \<noteq> [] then cfIp
         else if xff \<noteq> [] \<and> first \<noteq> [] then first
         else header_trim r ''x-real-ip'')"

section \<open>Tokens\<close>

definition normalizeAuthToken :: "string option \<Rightarrow> string" where
  "normalizeAuthToken raw = js_trim (or_empty raw)"

definition extractPresentedToken :: "request \<Rightarrow> string" where
  "extractPresentedToken r =
     (let auth = header_trim r ''authorization''
      in if auth = [] then []
         else if to_lower (take 6 auth) = ''bearer'' \<and> drop 6 auth \<noteq> [] \<and> is_space (hd (drop 6 auth))
           then js_trim (dropWhile is_space (drop 6 auth))
           else auth)"

unbundle bit_operations_syntax

definition timingSafeEqual :: "string \<Rightarrow> string \<Rightarrow> bool" where
  "timingSafeEqual a b =
     (if length a \<noteq> length b then False
      else foldl (\<lambda>mismatch (x, y). mismatch OR ((of_char x :: nat) XOR of_char y)) 0 (zip a b) = 0)"

definition shouldRequireAuth :: "string \<Rightarrow> bool" where
  "shouldRequireAuth pathname =
     (if pathname = ''/api/v1/github/webhook'' then False
      else pathname = ''/ws'' \<or> prefix ''/api/v1/'' pathname)"

text \<open>Options are the record's entries in order; a later entry for a room overwrites.\<close>

definition parseRoomTokens :: "(string \<times> string) list \<Rightarrow> (string, string) omap" where
  "parseRoomTokens raw =
     foldl (\<lambda>out (room, token).
       let normalizedRoom = js_trim room; normalizedToken = js_trim token
       in if \<not> isValidRoomName normalizedRoom then out
          else if normalizedToken = [] then out
          else AList.update normalizedRoom normalizedToken out) [] raw"

definition readRoomToken :: "request \<Rightarrow> string" where
  "readRoomToken r =
     (let q = query_trim r ''room_token'' in if q \<noteq> [] then q else header_trim r ''x-room-token'')"

section \<open>Numbers in headers\<close>

text \<open>
  \<open>Number(s)\<close>: the empty string is zero; otherwise a signed decimal literal with optional
  fraction and exponent, \<open>Infinity\<close>, or an unsigned hexadecimal, octal or binary literal.
\<close>

definition radix_digit :: "char \<Rightarrow> nat" where
  "radix_digit c =
     (let n = (of_char c :: nat)
      in if is_digit c then n - 48
         else if 97 \<le> n \<and> n \<le> 102 then n - 87
         else if 65 \<le> n \<and> n \<le> 70 then n - 55 else 16)"

definition radix_number :: "nat \<Rightarrow> string \<Rightarrow> js_num" where
  "radix_number b ds =
     (if ds \<noteq> [] \<and> list_all (\<lambda>c. radix_digit c < b) ds
      then (let v = foldl (\<lambda>v c. int b * v + int (radix_digit c)) 0 ds
            in if v \<ge> max_double_bound then PosInf else of_integer v)
      else NaN)"

definition exponent_of :: "string \<Rightarrow> int option" where
  "exponent_of s =
     (case s of
        [] \<Rightarrow> Some 0
      | e # r \<Rightarrow>
          if e \<noteq> CHR ''e'' \<and> e \<noteq> CHR ''E'' then None
          else let neg = (r \<noteq> [] \<and> hd r = CHR ''-'');
                   ds = (if r \<noteq> [] \<and> (hd r = CHR ''-'' \<or> hd r = CHR ''+'') then tl r else r)
            in if ds \<noteq> [] \<and> list_all is_digit ds
               then Some (if neg then - int (digits_val ds) else int (digits_val ds)) else None)"

definition scale10 :: "rat \<Rightarrow> int \<Rightarrow> rat" where
  "scale10 r e = (if 0 \<le> e then r * 10 ^ nat e else r / 10 ^ nat (- e))"

definition decimal_number :: "bool \<Rightarrow> string \<Rightarrow> js_num" where
  "decimal_number neg s =
     (let ip = takeWhile is_digit s;
          r1 = dropWhile is_digit s;
          dot = (r1 \<noteq> [] \<and> hd r1 = CHR ''.'');
          fp = (if dot then takeWhile is_digit (tl r1) else []);
          r2 = (if dot then dropWhile is_digit (tl r1) else r1)
      in if ip = [] \<and> fp = [] then NaN
         else case exponent_of r2 of
             None \<Rightarrow> NaN
           | Some e \<Rightarrow>
               let v = scale10 (of_int (int (digits_val (ip @ fp)))) (e - int (length fp))
               in if v \<ge> of_int max_double_bound then (if neg then NegInf else PosInf)
                  else Fin (if neg then - v else v))"

definition js_number :: "string \<Rightarrow> js_num" where
  "js_number s =
     (let t = js_trim s
      in if t = [] then Fin 0
         else if to_lower (take 2 t) = ''0x'' then radix_number 16 (drop 2 t)
         else if to_lower (take 2 t) = ''0o'' then radix_number 8 (drop 2 t)
         else if to_lower (take 2 t) = ''0b'' then radix_number 2 (drop 2 t)
         else let neg = (hd t = CHR ''-'');
                  u = (if hd t = CHR ''-'' \<or> hd t = CHR ''+'' then tl t else t)
           in if u = ''Infinity'' then (if neg then NegInf else PosInf) else decimal_number neg u)"

text \<open>\<open>Number.isFinite(x) && x > n\<close>.\<close>

definition finite_above :: "js_num \<Rightarrow> int \<Rightarrow> bool" where
  "finite_above x n = (case x of Fin r \<Rightarrow> r > of_int n | _ \<Rightarrow> False)"

definition jsonByteLength :: "string \<Rightarrow> int" where
  "jsonByteLength t = int (length (utf8 t))"

section \<open>Request bodies\<close>

definition normalizePublishPayload :: "json \<Rightarrow> json" where
  "normalizePublishPayload parsed =
     (if \<not> is_record parsed then parsed
      else case jprop parsed ''payload'' of
          None \<Rightarrow> parsed
        | Some payload \<Rightarrow>
            let keys = filter (\<lambda>k. k \<noteq> ''auth'') (map fst (members parsed));
                hasKind = (str_opt (jprop parsed ''kind'') \<noteq> None)
            in if \<not> hasKind \<or> keys = [''payload''] then payload else parsed)"

definition ack_many :: "string list \<Rightarrow> json list \<Rightarrow> string list" where
  "ack_many ids many =
     foldl (\<lambda>ids item.
       case item of
         JStr s \<Rightarrow> (let trimmed = js_trim s in if trimmed = [] then ids else set_add trimmed ids)
       | _ \<Rightarrow> ids) ids many"

text \<open>\<open>Inl\<close> is the error the source returns with \<open>ok: false\<close>.\<close>

definition parseAckIds :: "(string \<Rightarrow> json option) \<Rightarrow> string \<Rightarrow> string + string list" where
  "parseAckIds parse txt =
     (case parse txt of
        Some (JObj kvs) \<Rightarrow>
          let parsed = JObj kvs;
              ids0 = (case jprop parsed ''id'' of
                        Some (JStr s) \<Rightarrow> (if js_trim s \<noteq> [] then [js_trim s] else [])
                      | _ \<Rightarrow> []);
              ids = (case jprop parsed ''ids'' of Some (JArr many) \<Rightarrow> ack_many ids0 many | _ \<Rightarrow> ids0)
          in if ids = [] then Inl ''missing field: ids'' else Inr ids
      | _ \<Rightarrow> Inl ''invalid json payload'')"

lemma ack_many_clean: "\<forall>i\<in>set ids. clean i \<Longrightarrow> \<forall>i\<in>set (ack_many ids many). clean i"
proof (induction many arbitrary: ids)
  case (Cons x many)
  let ?next = "case x of JStr s \<Rightarrow> (let trimmed = js_trim s in if trimmed = [] then ids else set_add trimmed ids) | _ \<Rightarrow> ids"
  have "\<forall>i\<in>set ?next. clean i"
    using Cons.prems by (auto simp: Let_def clean_js_trim split: json.split)
  from Cons.IH [OF this] show ?case by (simp add: ack_many_def)
qed (simp add: ack_many_def)

lemma parseAckIds_clean: "parseAckIds parse txt = Inr ids \<Longrightarrow> i \<in> set ids \<Longrightarrow> clean i"
proof -
  assume a: "parseAckIds parse txt = Inr ids" "i \<in> set ids"
  then obtain kvs where kvs: "parse txt = Some (JObj kvs)"
    by (auto simp: parseAckIds_def split: option.splits json.splits)
  define ids0 where "ids0 = (case jprop (JObj kvs) ''id'' of
      Some (JStr s) \<Rightarrow> (if js_trim s \<noteq> [] then [js_trim s] else []) | _ \<Rightarrow> [])"
  have "\<forall>i\<in>set ids0. clean i"
    by (auto simp: ids0_def clean_js_trim split: option.split json.split)
  moreover have "ids = (case jprop (JObj kvs) ''ids'' of Some (JArr many) \<Rightarrow> ack_many ids0 many | _ \<Rightarrow> ids0)"
    using a(1) unfolding parseAckIds_def kvs option.case json.case Let_def ids0_def
    by (simp del: jprop_JObj split: if_split_asm)
  ultimately show "clean i"
    using a(2) ack_many_clean [of ids0] by (auto split: option.splits json.splits)
qed

text \<open>The early \<open>try/catch\<close> of the handlers: a thrown parse or a non-object is the same error.\<close>

definition parse_object :: "(string \<Rightarrow> json option) \<Rightarrow> string \<Rightarrow> json option" where
  "parse_object parse txt =
     (case parse txt of Some (JObj kvs) \<Rightarrow> Some (JObj kvs) | _ \<Rightarrow> None)"

section \<open>Signature headers\<close>

record publish_auth =
  auth_publicKey :: string
  auth_signature :: string
  auth_timestampSec :: int
  auth_nonce :: string

definition parsePublishAuthHeaders :: "request \<Rightarrow> (int \<times> string) + publish_auth option" where
  "parsePublishAuthHeaders r =
     (let publicKey = header_trim r ''x-relay-public-key'';
          signature = header_trim r ''x-relay-signature'';
          timestampRaw = header_trim r ''x-relay-timestamp'';
          nonce = header_trim r ''x-relay-nonce''
      in if publicKey = [] \<and> signature = [] \<and> timestampRaw = [] \<and> nonce = [] then Inr None
         else if publicKey = [] \<or> signature = [] \<or> timestampRaw = [] \<or> nonce = []
           then Inl (400, ''incomplete signature headers'')
         else if \<not> isLikelyBase64Url publicKey \<or> \<not> isLikelyBase64Url signature
           then Inl (400, ''invalid signature headers'')
         else case finite_trunc (js_parse_int timestampRaw) of
             None \<Rightarrow> Inl (400, ''invalid signature timestamp'')
           | Some timestampSec \<Rightarrow>
               if timestampSec \<le> 0 then Inl (400, ''invalid signature timestamp'')
               else if length nonce > 256 then Inl (400, ''invalid nonce'')
               else Inr (Some \<lparr>auth_publicKey = publicKey, auth_signature = signature,
                               auth_timestampSec = timestampSec, auth_nonce = nonce\<rparr>))"

section \<open>Facts about the readers\<close>

lemma normalizeLimit_pos: "1 \<le> normalizeLimit raw d"
  by (simp add: normalizeLimit_def)

lemma normalizeAfter_nonneg: "0 \<le> normalizeAfter raw d"
  by (simp add: normalizeAfter_def)

lemma isValidRoomName_one_line: "isValidRoomName r \<Longrightarrow> one_line r"
  unfolding isValidRoomName_def by (rule one_line_name_pattern)

lemma isValidRoomName_nonempty: "isValidRoomName r \<Longrightarrow> r \<noteq> []"
  by (cases r) (simp_all add: isValidRoomName_def name_pattern_def)

lemma default_room_valid: "isValidRoomName DEFAULT_ROOM"
  by (simp add: isValidRoomName_def DEFAULT_ROOM_def name_pattern_def is_alnum_def is_name_char_def
      is_lower_def is_digit_def)

lemma derived_room_valid: "isValidRoomName (deriveRoomFromIncomingRef ref)"
  by (simp add: deriveRoomFromIncomingRef_def Let_def default_room_valid)

lemma xor_nat_zero: "Bit_Operations.xor (x :: nat) y = 0 \<longleftrightarrow> x = y"
proof
  assume "Bit_Operations.xor x y = 0"
  then have "bit x n = bit y n" for n
    by (metis bit_xor_iff bit_0_eq bot_apply bot_bool_def)
  then show "x = y" by (simp add: bit_eq_iff)
qed simp

lemma mismatch_zero:
  "length a = length b \<Longrightarrow>
   foldl (\<lambda>m (x, y). Bit_Operations.or m (Bit_Operations.xor (of_char x :: nat) (of_char y))) k (zip a b) = 0
     \<longleftrightarrow> k = 0 \<and> a = b"
  by (induction a b arbitrary: k rule: list_induct2) (auto simp: or_eq_0_iff xor_nat_zero)

lemma timingSafeEqual_iff: "timingSafeEqual a b \<longleftrightarrow> a = b"
  using mismatch_zero [of a b 0] by (auto simp: timingSafeEqual_def)

lemma parseRoomTokens_okeys: "okeys (parseRoomTokens raw)"
proof -
  have "okeys (foldl (\<lambda>out (room, token).
       let normalizedRoom = js_trim room; normalizedToken = js_trim token
       in if \<not> isValidRoomName normalizedRoom then out
          else if normalizedToken = [] then out
          else AList.update normalizedRoom normalizedToken out) m raw)" if "okeys m" for m
    using that by (induction raw arbitrary: m) (auto simp: Let_def)
  then show ?thesis by (simp add: parseRoomTokens_def)
qed

section \<open>A runtime for examples\<close>

text \<open>
  A concrete runtime for the witnesses: every body parses to the object the example needs, a
  digest is empty, and a signature is good when it repeats the key.
\<close>

definition demo_env :: "int \<Rightarrow> json \<Rightarrow> relay_env" where
  "demo_env ms body =
     \<lparr>arrival_ms = ms, body_ms = ms, json_parse = (\<lambda>_. Some body), digest = (\<lambda>_. []),
      hmac = (\<lambda>_ m. m), ed25519 = (\<lambda>pk sg _. Some (sg = pk)), num_text = (\<lambda>r. int_str \<lfloor>r\<rfloor>),
      fresh_uuid = ''uuid'', date_parse = (\<lambda>_. NaN), github_keys_url = (\<lambda>_. FetchStatus 404 []),
      ws_kind = WorkerPair, ws_new = 0, ws_open = (\<lambda>_. True), ws_send_ok = (\<lambda>_. True)\<rparr>"

definition signed_headers :: "string \<Rightarrow> string \<Rightarrow> (string \<times> string) list" where
  "signed_headers ts nonce =
     [(''x-relay-public-key'', ''AAAA''), (''x-relay-signature'', ''AAAA''),
      (''x-relay-timestamp'', ts), (''x-relay-nonce'', nonce)]"

definition demo_request :: "string \<Rightarrow> string \<Rightarrow> (string \<times> string) list \<Rightarrow> (string \<times> string) list \<Rightarrow> request" where
  "demo_request m path query headers =
     \<lparr>req_method = m, req_path = path, req_query = query, req_headers = headers, req_text = ''{}''\<rparr>"

end
