(* ===== verification/Rate_Limit.thy ===== *)
theory Rate_Limit
  imports Relay_Prelude
begin

text \<open>
  \<open>fallbackRateLimit\<close> of \<open>src/memory_handler.ts\<close>, the fixed-window counter behind the limits per
  address, per sender and per room, and the counter maps that hold one counter per key. The
  lemmas bound what a sequence of requests under one key can get through.
\<close>

record rate_counter =
  rc_count :: int
  rc_windowStart :: int

definition fallbackRateLimit :: "rate_counter option \<Rightarrow> int \<Rightarrow> int \<Rightarrow> int \<Rightarrow> rate_counter \<times> bool" where
  "fallbackRateLimit entry now mx windowMs =
     (let nxt = (case entry of
            None \<Rightarrow> \<lparr>rc_count = 1, rc_windowStart = now\<rparr>
          | Some e \<Rightarrow>
              if now - rc_windowStart e \<ge> windowMs then \<lparr>rc_count = 1, rc_windowStart = now\<rparr>
              else \<lparr>rc_count = rc_count e + 1, rc_windowStart = rc_windowStart e\<rparr>)
      in (nxt, rc_count nxt \<le> mx))"

type_synonym rate_map = "(string, rate_counter) omap"

text \<open>Look the key up, store the next counter, report the verdict.\<close>

definition rate_check :: "rate_map \<Rightarrow> string \<Rightarrow> int \<Rightarrow> int \<Rightarrow> int \<Rightarrow> rate_map \<times> bool" where
  "rate_check counts key now mx windowMs =
     (let r = fallbackRateLimit (map_of counts key) now mx windowMs
      in (AList.update key (fst r) counts, snd r))"

definition rate_map_ok :: "rate_map \<Rightarrow> bool" where
  "rate_map_ok m \<longleftrightarrow> okeys m \<and> (\<forall>k e. map_of m k = Some e \<longrightarrow> 1 \<le> rc_count e)"

lemma rate_map_ok_Nil [simp]: "rate_map_ok []"
  by (simp add: rate_map_ok_def)

lemma rate_check_ok [inv_intros]: "rate_map_ok m \<Longrightarrow> rate_map_ok (fst (rate_check m k now mx w))"
  by (fastforce simp: rate_map_ok_def rate_check_def fallbackRateLimit_def Let_def split: option.splits)

lemma rate_check_other: "k' \<noteq> k \<Longrightarrow> map_of (fst (rate_check m k now mx w)) k' = map_of m k'"
  by (simp add: rate_check_def Let_def)

text \<open>The verdicts on a sequence of requests under one key.\<close>

fun verdicts :: "rate_map \<Rightarrow> string \<Rightarrow> int \<Rightarrow> int \<Rightarrow> int list \<Rightarrow> bool list" where
  "verdicts m k mx w [] = []"
| "verdicts m k mx w (t # ts) =
     (let r = rate_check m k t mx w in snd r # verdicts (fst r) k mx w ts)"

definition allowed_count :: "rate_map \<Rightarrow> string \<Rightarrow> int \<Rightarrow> int \<Rightarrow> int list \<Rightarrow> int" where
  "allowed_count m k mx w ts = int (length (filter (\<lambda>b. b) (verdicts m k mx w ts)))"

lemma allowed_count_Nil [simp]: "allowed_count m k mx w [] = 0"
  by (simp add: allowed_count_def)

lemma allowed_count_Cons:
  "allowed_count m k mx w (t # ts) =
     (if snd (rate_check m k t mx w) then 1 else 0) + allowed_count (fst (rate_check m k t mx w)) k mx w ts"
  by (simp add: allowed_count_def Let_def)

lemma rate_check_within:
  assumes "map_of m k = Some e" "t - rc_windowStart e < w"
  shows "map_of (fst (rate_check m k t mx w)) k = Some \<lparr>rc_count = rc_count e + 1, rc_windowStart = rc_windowStart e\<rparr>"
    and "snd (rate_check m k t mx w) \<longleftrightarrow> rc_count e + 1 \<le> mx"
  using assms by (simp_all add: rate_check_def fallbackRateLimit_def Let_def)

lemma rate_check_reset:
  assumes "case map_of m k of None \<Rightarrow> True | Some e \<Rightarrow> t - rc_windowStart e \<ge> w"
  shows "map_of (fst (rate_check m k t mx w)) k = Some \<lparr>rc_count = 1, rc_windowStart = t\<rparr>"
    and "snd (rate_check m k t mx w) \<longleftrightarrow> 1 \<le> mx"
  using assms by (auto simp: rate_check_def fallbackRateLimit_def Let_def split: option.splits)

lemma allowed_within_window:
  assumes "map_of m k = Some e" "\<forall>t\<in>set ts. t - rc_windowStart e < w" "1 \<le> rc_count e"
  shows "allowed_count m k mx w ts \<le> max 0 (mx - rc_count e)"
  using assms
proof (induction ts arbitrary: m e)
  case (Cons t ts)
  have lt: "t - rc_windowStart e < w" using Cons.prems(2) by simp
  note step = rate_check_within [OF Cons.prems(1) lt]
  have "allowed_count (fst (rate_check m k t mx w)) k mx w ts \<le> max 0 (mx - (rc_count e + 1))"
    by (rule order_trans [OF Cons.IH [OF step(1)]]) (use Cons.prems in auto)
  then show ?case by (auto simp: allowed_count_Cons step(2) max_def split: if_splits)
qed simp

lemma allowed_after_reset:
  assumes "case map_of m k of None \<Rightarrow> True | Some e \<Rightarrow> t - rc_windowStart e \<ge> w"
    and "\<forall>u\<in>set ts. u - t < w" "1 \<le> mx"
  shows "allowed_count m k mx w (t # ts) \<le> mx"
proof -
  note step = rate_check_reset [OF assms(1)]
  have "allowed_count (fst (rate_check m k t mx w)) k mx w ts \<le> max 0 (mx - 1)"
    by (rule order_trans [OF allowed_within_window [OF step(1)]]) (use assms(2) in auto)
  then show ?thesis using assms(3) by (simp add: allowed_count_Cons step(2))
qed

lemma allowed_in_interval:
  assumes "sorted ts" "\<forall>t\<in>set ts. a \<le> t \<and> t < a + w" "1 \<le> mx"
    and "case map_of m k of None \<Rightarrow> True | Some e \<Rightarrow> 1 \<le> rc_count e"
  shows "allowed_count m k mx w ts \<le>
    mx + (case map_of m k of None \<Rightarrow> 0 | Some e \<Rightarrow> max 0 (mx - rc_count e))"
  using assms
proof (induction ts arbitrary: m)
  case Nil
  then show ?case by (simp split: option.splits)
next
  case (Cons t ts)
  have near: "\<forall>u\<in>set ts. u - t < w" using Cons.prems(2) by auto
  show ?case
  proof (cases "case map_of m k of None \<Rightarrow> True | Some e \<Rightarrow> t - rc_windowStart e \<ge> w")
    case True
    show ?thesis
      using allowed_after_reset [OF True near Cons.prems(3)] by (auto simp: max_def split: option.splits)
  next
    case False
    then obtain e where e: "map_of m k = Some e" "t - rc_windowStart e < w"
      by (auto split: option.splits)
    note step = rate_check_within [OF e]
    have "1 \<le> rc_count e" using Cons.prems(4) e by simp
    then have "allowed_count (fst (rate_check m k t mx w)) k mx w ts \<le> mx + max 0 (mx - (rc_count e + 1))"
      using Cons.IH [of "fst (rate_check m k t mx w)"] Cons.prems step(1) by simp
    then show ?thesis by (auto simp: allowed_count_Cons step(2) e(1) max_def split: if_splits)
  qed
qed

text \<open>
  Claim C25. Whatever the counters hold, the requests under one key that arrive within any span
  of one window length get at most twice the limit through, and a key not seen before at most
  the limit.
\<close>

theorem rate_limit_bounds_traffic:
  assumes "rate_map_ok m" "sorted ts" "\<forall>t\<in>set ts. a \<le> t \<and> t < a + w" "1 \<le> mx"
  shows "allowed_count m k mx w ts \<le> 2 * mx \<and> (map_of m k = None \<longrightarrow> allowed_count m k mx w ts \<le> mx)"
proof -
  have pos: "1 \<le> rc_count e" if "map_of m k = Some e" for e
    using assms(1) that by (auto simp: rate_map_ok_def)
  have "allowed_count m k mx w ts \<le> mx + (case map_of m k of None \<Rightarrow> 0 | Some e \<Rightarrow> max 0 (mx - rc_count e))"
    using allowed_in_interval [OF assms(2-4)] pos by (simp split: option.splits)
  moreover have "(case map_of m k of None \<Rightarrow> 0 | Some e \<Rightarrow> max 0 (mx - rc_count e)) \<le> mx"
    using pos assms(4) by (fastforce split: option.splits)
  ultimately show ?thesis by auto
qed

theorem rate_limit_bounds_traffic_witness:
  "allowed_count [] ''alice'' 2 1000 [0, 10, 20] \<le> 2"
  using rate_limit_bounds_traffic [of "[]" "[0, 10, 20]" 0 1000 2 "''alice''"] by simp

end
