(* ===== verification/Rooms.thy ===== *)
theory Rooms
  imports Http
begin

text \<open>
  The room of \<open>src/memory_handler.ts\<close>: its messages, acknowledgements, web-socket sessions,
  presence and reviews, and the functions that work on one room (\<open>publishIntoRoom\<close>,
  \<open>pollFromRoom\<close>, \<open>inboxPendingFromRoom\<close>, \<open>ackIntoRoom\<close>, the three broadcasts, \<open>prunePresence\<close>,
  \<open>computeReviewStatus\<close>). A socket is a number; what a \<open>send\<close> or \<open>close\<close> does is an effect in
  the returned list, and whether it succeeds is decided by the runtime record.
\<close>

section \<open>State\<close>

record envelope =
  env_room :: string
  env_id :: string
  env_sender :: string
  env_topic :: string
  env_payload :: json
  env_signature :: "string option"

datatype verdict = Approve | Deny

record review_record =
  rv_sender :: string
  rv_verdict :: verdict
  rv_submittedAt :: js_num
  rv_updatedAt :: js_num

record presence_record =
  pr_participantId :: string
  pr_status :: string
  pr_metadata :: json
  pr_lastHeartbeat :: js_num

record room_state =
  rm_messages :: "envelope list"
  rm_acks :: "(string, string list) omap"
  rm_sessions :: "(nat, int) omap"
  rm_presence :: "(string, presence_record) omap"
  rm_reviews :: "(string, (string, review_record) omap) omap"

definition createRoomState :: room_state where
  "createRoomState =
     \<lparr>rm_messages = [], rm_acks = [], rm_sessions = [], rm_presence = [], rm_reviews = []\<rparr>"

type_synonym rooms_map = "(string, room_state) omap"

text \<open>A look-up that stores a fresh room when there is none.\<close>

definition getOrCreateRoomState :: "rooms_map \<Rightarrow> string \<Rightarrow> rooms_map \<times> room_state" where
  "getOrCreateRoomState rooms room =
     (case map_of rooms room of
        Some found \<Rightarrow> (rooms, found)
      | None \<Rightarrow> (AList.update room createRoomState rooms, createRoomState))"

definition verdict_text :: "verdict \<Rightarrow> string" where
  "verdict_text v = (case v of Approve \<Rightarrow> ''approve'' | Deny \<Rightarrow> ''deny'')"

definition verdict_of :: "string \<Rightarrow> verdict option" where
  "verdict_of s = (if s = ''approve'' then Some Approve else if s = ''deny'' then Some Deny else None)"

lemma verdict_of_text [simp]: "verdict_of (verdict_text v) = Some v"
  by (cases v) (simp_all add: verdict_of_def verdict_text_def)

lemma verdict_of_valid: "verdict_of s \<noteq> None \<longleftrightarrow> s \<in> set VALID_VERDICTS"
  by (simp add: verdict_of_def VALID_VERDICTS_def)

datatype effect =
    WsSend nat json
  | WsClose nat
  | Persist envelope int

section \<open>Publishing\<close>

definition sanitizeEnvelope :: "envelope \<Rightarrow> json" where
  "sanitizeEnvelope e = JObj
     [(''room'', JStr (env_room e)), (''id'', JStr (env_id e)), (''sender'', JStr (env_sender e)),
      (''topic'', JStr (env_topic e)), (''payload'', env_payload e)]"

record publish_result =
  pub_status :: int
  pub_body :: json
  pub_changed :: bool
  pub_envelope :: "envelope option"

text \<open>\<open>messages.push(envelope)\<close> and the \<open>splice(0, overflow)\<close> that keeps the newest messages.\<close>

definition append_message :: "nat \<Rightarrow> room_state \<Rightarrow> envelope \<Rightarrow> room_state" where
  "append_message maxMessages rs e = rs\<lparr>rm_messages := last_n maxMessages (rm_messages rs @ [e])\<rparr>"

definition publishIntoRoom ::
    "room_state \<Rightarrow> string \<Rightarrow> string \<Rightarrow> string \<Rightarrow> string \<Rightarrow> string \<Rightarrow> json \<Rightarrow> nat \<Rightarrow> room_state \<times> publish_result" where
  "publishIntoRoom rs room sender topic eid signature payload maxMessages =
     (if \<not> isValidTopic topic
      then (rs, \<lparr>pub_status = 400,
                 pub_body = JObj [(''ok'', JBool False), (''error'', JStr (''invalid topic: '' @ topic))],
                 pub_changed = False, pub_envelope = None\<rparr>)
      else if list_ex (\<lambda>item. env_id item = eid) (rm_messages rs)
      then (rs, \<lparr>pub_status = 200,
                 pub_body = JObj [(''ok'', JBool True), (''accepted'', JBool False),
                                  (''cursor'', jint (int (length (rm_messages rs))))],
                 pub_changed = False, pub_envelope = None\<rparr>)
      else
        let sig = js_trim signature;
            envelope = \<lparr>env_room = room, env_id = eid, env_sender = sender, env_topic = topic,
                        env_payload = payload, env_signature = (if sig \<noteq> [] then Some sig else None)\<rparr>;
            rs' = append_message maxMessages rs envelope
        in (rs',
            \<lparr>pub_status = 200,
             pub_body = JObj [(''ok'', JBool True), (''accepted'', JBool True), (''cursor'', jint (int (length (rm_messages rs'))))],
             pub_changed = True, pub_envelope = Some envelope\<rparr>))"

text \<open>The condition under which a handler broadcasts, records and persists a publish.\<close>

definition pub_cursor :: "publish_result \<Rightarrow> int option" where
  "pub_cursor r = finite_int_opt (jprop (pub_body r) ''cursor'')"

definition pub_accepted :: "publish_result \<Rightarrow> bool" where
  "pub_accepted r = (jprop (pub_body r) ''accepted'' = Some (JBool True))"

definition pub_committed :: "publish_result \<Rightarrow> (envelope \<times> int) option" where
  "pub_committed r =
     (if pub_changed r \<and> pub_status r = 200 \<and> pub_accepted r
      then (case (pub_envelope r, pub_cursor r) of (Some e, Some c) \<Rightarrow> Some (e, c) | _ \<Rightarrow> None)
      else None)"

section \<open>Reading\<close>

text \<open>\<open>xs.slice(after, after + limit)\<close> for \<open>after \<ge> 0\<close>.\<close>

definition slice :: "'a list \<Rightarrow> int \<Rightarrow> int \<Rightarrow> 'a list" where
  "slice xs after limit = take (nat limit) (drop (nat after) xs)"

definition pollFromRoom :: "room_state \<Rightarrow> string \<Rightarrow> int \<Rightarrow> int \<Rightarrow> json" where
  "pollFromRoom rs room after limit =
     (let page = map sanitizeEnvelope (slice (rm_messages rs) after limit)
      in JObj [(''ok'', JBool True), (''room'', JStr room),
               (''next_cursor'', jint (after + int (length page))), (''envelopes'', JArr page)])"

definition findEnvelopeById :: "room_state \<Rightarrow> string \<Rightarrow> envelope option" where
  "findEnvelopeById rs eid = find (\<lambda>item. env_id item = eid) (rm_messages rs)"

definition acked_by :: "room_state \<Rightarrow> string \<Rightarrow> string list" where
  "acked_by rs consumer = (case map_of (rm_acks rs) consumer of None \<Rightarrow> [] | Some ids \<Rightarrow> ids)"

definition pending_messages :: "room_state \<Rightarrow> string \<Rightarrow> envelope list" where
  "pending_messages rs consumer =
     filter (\<lambda>item. env_id item \<notin> set (acked_by rs consumer)) (rm_messages rs)"

definition inboxPendingFromRoom :: "room_state \<Rightarrow> string \<Rightarrow> string \<Rightarrow> int \<Rightarrow> json" where
  "inboxPendingFromRoom rs room consumer limit =
     (let pending = pending_messages rs consumer;
          page = map sanitizeEnvelope (slice pending 0 limit)
      in JObj [(''ok'', JBool True), (''room'', JStr room), (''consumer'', JStr consumer),
               (''pending_count'', jint (int (length pending))),
               (''returned_count'', jint (int (length page))), (''envelopes'', JArr page)])"

section \<open>Acknowledging\<close>

definition add_acks :: "string list \<Rightarrow> string list \<Rightarrow> string list \<times> int" where
  "add_acks ackSet ids =
     foldl (\<lambda>(acc, n) eid. if eid \<in> set acc then (acc, n) else (acc @ [eid], n + 1)) (ackSet, 0) ids"

definition ackIntoRoom ::
    "(string \<Rightarrow> json option) \<Rightarrow> room_state \<Rightarrow> string \<Rightarrow> string \<Rightarrow> string \<Rightarrow> room_state \<times> int \<times> json" where
  "ackIntoRoom parse rs room consumer txt =
     (case parseAckIds parse txt of
        Inl err \<Rightarrow> (rs, 400, JObj [(''ok'', JBool False), (''error'', JStr err)])
      | Inr ids \<Rightarrow>
          let r = add_acks (acked_by rs consumer) ids
          in (rs\<lparr>rm_acks := AList.update consumer (fst r) (rm_acks rs)\<rparr>, 200,
              JObj [(''ok'', JBool True), (''room'', JStr room), (''consumer'', JStr consumer),
                    (''newly_acked'', jint (snd r)), (''acked_total'', jint (int (length (fst r)))),
                    (''requested_count'', jint (int (length ids)))]))"

section \<open>Broadcasting\<close>

text \<open>
  The loop over \<open>sessions.keys()\<close>: a socket that is not open is skipped, a failing \<open>send\<close>
  drops the session.
\<close>

definition broadcast :: "relay_env \<Rightarrow> room_state \<Rightarrow> json \<Rightarrow> room_state \<times> effect list" where
  "broadcast env rs message =
     (rs\<lparr>rm_sessions := filter (\<lambda>(s, _). \<not> ws_open env s \<or> ws_send_ok env s) (rm_sessions rs)\<rparr>,
      map (\<lambda>(s, _). WsSend s message)
        (filter (\<lambda>(s, _). ws_open env s \<and> ws_send_ok env s) (rm_sessions rs)))"

definition broadcastPublish ::
    "relay_env \<Rightarrow> room_state \<Rightarrow> string \<Rightarrow> envelope \<Rightarrow> int \<Rightarrow> room_state \<times> effect list" where
  "broadcastPublish env rs room e cursor =
     broadcast env rs (JObj [(''type'', JStr (env_topic e)), (''room'', JStr room), (''cursor'', jint cursor),
       (''envelope'', sanitizeEnvelope e)])"

definition broadcastPresenceChange ::
    "relay_env \<Rightarrow> room_state \<Rightarrow> string \<Rightarrow> string \<Rightarrow> string \<Rightarrow> json \<Rightarrow> string \<Rightarrow> room_state \<times> effect list" where
  "broadcastPresenceChange env rs room participant status metadata event =
     broadcast env rs (JObj [(''type'', JStr ''presence''), (''room'', JStr room),
       (''participant'', JStr participant), (''status'', JStr status), (''metadata'', metadata),
       (''event'', JStr event)])"

definition broadcastReviewChange ::
    "relay_env \<Rightarrow> room_state \<Rightarrow> string \<Rightarrow> string \<Rightarrow> string \<Rightarrow> string \<Rightarrow> string \<Rightarrow> bool \<Rightarrow> int \<Rightarrow> int \<Rightarrow>
     room_state \<times> effect list" where
  "broadcastReviewChange env rs room prId sender verdict event resolved approve deny =
     broadcast env rs (JObj [(''type'', JStr ''review''), (''room'', JStr room), (''pr_id'', JStr prId),
       (''sender'', JStr sender), (''verdict'', JStr verdict), (''event'', JStr event),
       (''resolved'', JBool resolved), (''approve_count'', jint approve), (''deny_count'', jint deny)])"

section \<open>Sockets\<close>

text \<open>Registering a socket: the ready message is sent at once or on \<open>open\<close>.\<close>

definition subscribeSocket :: "room_state \<Rightarrow> nat \<Rightarrow> int \<Rightarrow> int \<Rightarrow> int \<Rightarrow> room_state \<times> effect list" where
  "subscribeSocket rs socket now pingMs idleMs =
     (rs\<lparr>rm_sessions := AList.update socket now (rm_sessions rs)\<rparr>,
      [WsSend socket (JObj [(''type'', JStr ''ready''),
         (''keepalive'', JObj [(''ping_interval_ms'', jint pingMs), (''idle_timeout_ms'', jint idleMs)])])])"

text \<open>The \<open>message\<close>, \<open>close\<close> and \<open>error\<close> listeners of a subscribed socket.\<close>

definition socketMessage :: "relay_env \<Rightarrow> room_state \<Rightarrow> nat \<Rightarrow> string \<Rightarrow> room_state \<times> effect list" where
  "socketMessage env rs socket data =
     (if map_of (rm_sessions rs) socket = None then rs
      else rs\<lparr>rm_sessions := AList.update socket (arrival_ms env) (rm_sessions rs)\<rparr>,
      case json_parse env data of
        Some parsed \<Rightarrow>
          if jprop parsed ''type'' = Some (JStr ''ping'') \<and> ws_send_ok env socket
          then [WsSend socket (JObj [(''type'', JStr ''pong'')])] else []
      | None \<Rightarrow> [])"

definition socketClosed :: "room_state \<Rightarrow> nat \<Rightarrow> room_state" where
  "socketClosed rs socket = rs\<lparr>rm_sessions := AList.delete socket (rm_sessions rs)\<rparr>"

text \<open>One room's part of \<open>reapDeadConnections\<close>.\<close>

definition reap_room :: "relay_env \<Rightarrow> int \<Rightarrow> room_state \<Rightarrow> room_state \<times> effect list" where
  "reap_room env idleMs rs =
     (let now = arrival_ms env;
          idle = (\<lambda>(s, lastActive). ws_open env s \<and> now - lastActive \<ge> idleMs);
          live = (\<lambda>(s, lastActive). ws_open env s \<and> now - lastActive < idleMs \<and> ws_send_ok env s)
      in (rs\<lparr>rm_sessions := filter live (rm_sessions rs)\<rparr>,
          concat (map (\<lambda>p. if idle p then [WsClose (fst p)]
                           else if live p then [WsSend (fst p) (JObj [(''type'', JStr ''ping'')])]
                           else []) (rm_sessions rs))))"

section \<open>Presence and reviews\<close>

definition prunePresence :: "room_state \<Rightarrow> int \<Rightarrow> int \<Rightarrow> room_state" where
  "prunePresence rs nowSec ttlSec =
     rs\<lparr>rm_presence := filter (\<lambda>(_, p). \<not> diff_ge nowSec (pr_lastHeartbeat p) ttlSec) (rm_presence rs)\<rparr>"

record review_status =
  approve_count :: int
  deny_count :: int
  review_total :: int
  resolved :: bool

definition computeReviewStatus :: "(string, review_record) omap \<Rightarrow> review_status" where
  "computeReviewStatus reviews =
     (let counts = foldl (\<lambda>(a, d) (_, record).
            if rv_verdict record = Approve then (a + 1, d) else (a, d + 1)) (0, 0) reviews;
          a = fst counts; d = snd counts; total = a + d
      in \<lparr>approve_count = a, deny_count = d, review_total = total,
          resolved = (total > 0 \<and> rat_of_int a / rat_of_int total \<ge> 1 / 2)\<rparr>)"

definition presence_json :: "presence_record \<Rightarrow> json" where
  "presence_json p = JObj
     [(''participant_id'', JStr (pr_participantId p)), (''status'', JStr (pr_status p)),
      (''metadata'', pr_metadata p), (''last_heartbeat'', JNum (pr_lastHeartbeat p))]"

definition review_json :: "review_record \<Rightarrow> json" where
  "review_json r = JObj
     [(''sender'', JStr (rv_sender r)), (''verdict'', JStr (verdict_text (rv_verdict r))),
      (''submitted_at'', JNum (rv_submittedAt r)), (''updated_at'', JNum (rv_updatedAt r))]"

text \<open>\<open>JSON.parse(JSON.stringify(x))\<close>: infinities and NaN become \<open>null\<close>.\<close>

fun json_clone :: "json \<Rightarrow> json" where
  "json_clone (JNum (Fin r)) = JNum (Fin r)"
| "json_clone (JNum _) = JNull"
| "json_clone (JArr xs) = JArr (map json_clone xs)"
| "json_clone (JObj kvs) = JObj (map (\<lambda>p. (fst p, json_clone (snd p))) kvs)"
| "json_clone (JStr s) = JStr s"
| "json_clone (JBool b) = JBool b"
| "json_clone JNull = JNull"

definition envelope_json :: "envelope \<Rightarrow> json" where
  "envelope_json e = JObj
     [(''room'', JStr (env_room e)), (''id'', JStr (env_id e)), (''sender'', JStr (env_sender e)),
      (''topic'', JStr (env_topic e)), (''payload'', json_clone (env_payload e)),
      (''signature'', jstr_opt (env_signature e))]"

section \<open>The room invariant\<close>

definition presence_ok :: "(string, presence_record) omap \<Rightarrow> bool" where
  "presence_ok m \<longleftrightarrow> okeys m \<and>
     (\<forall>p\<in>set m. pr_participantId (snd p) = fst p \<and> clean (fst p) \<and> whole_num (pr_lastHeartbeat (snd p)))"

definition reviews_ok :: "(string, review_record) omap \<Rightarrow> bool" where
  "reviews_ok m \<longleftrightarrow> okeys m \<and>
     (\<forall>q\<in>set m. rv_sender (snd q) = fst q \<and> clean (fst q) \<and>
        whole_num (rv_submittedAt (snd q)) \<and> whole_num (rv_updatedAt (snd q)))"

definition room_ok :: "nat \<Rightarrow> room_state \<Rightarrow> bool" where
  "room_ok cap rs \<longleftrightarrow>
     length (rm_messages rs) \<le> cap \<and>
     okeys (rm_acks rs) \<and> (\<forall>p\<in>set (rm_acks rs). distinct (snd p) \<and> (\<forall>i\<in>set (snd p). clean i)) \<and>
     okeys (rm_sessions rs) \<and> presence_ok (rm_presence rs) \<and> okeys (rm_reviews rs) \<and>
     (\<forall>p\<in>set (rm_reviews rs). pr_id_pattern (fst p) \<and> snd p \<noteq> [] \<and> reviews_ok (snd p))"

definition ids_distinct :: "room_state \<Rightarrow> bool" where
  "ids_distinct rs \<longleftrightarrow> distinct (map env_id (rm_messages rs))"

text \<open>Every stored message names an id and a sender and has a valid topic and room.\<close>

definition message_ok :: "envelope \<Rightarrow> bool" where
  "message_ok e \<longleftrightarrow> env_id e \<noteq> [] \<and> env_sender e \<noteq> [] \<and> isValidTopic (env_topic e) \<and> isValidRoomName (env_room e)"

definition messages_ok :: "room_state \<Rightarrow> bool" where
  "messages_ok rs \<longleftrightarrow> ids_distinct rs \<and> (\<forall>e\<in>set (rm_messages rs). message_ok e)"

lemma createRoomState_ok [simp]: "room_ok cap createRoomState" "ids_distinct createRoomState"
    "messages_ok createRoomState"
  by (simp_all add: room_ok_def ids_distinct_def messages_ok_def createRoomState_def presence_ok_def)

lemma messages_ok_same: "rm_messages r' = rm_messages r \<Longrightarrow> messages_ok r' = messages_ok r"
  by (simp add: messages_ok_def ids_distinct_def)

lemma room_okI:
  assumes "room_ok cap rs" "length (rm_messages rs') \<le> cap"
    "rm_acks rs' = rm_acks rs" "okeys (rm_sessions rs')" "rm_presence rs' = rm_presence rs"
    "rm_reviews rs' = rm_reviews rs"
  shows "room_ok cap rs'"
  using assms by (simp add: room_ok_def)

interpretation room_log: bounded_log "append_message cap" rm_messages cap for cap
  by unfold_locales (simp add: append_message_def)

lemma append_message_fields [simp]:
  "rm_acks (append_message cap rs e) = rm_acks rs" "rm_sessions (append_message cap rs e) = rm_sessions rs"
  "rm_presence (append_message cap rs e) = rm_presence rs" "rm_reviews (append_message cap rs e) = rm_reviews rs"
  by (simp_all add: append_message_def)

lemma append_message_ok: "room_ok cap rs \<Longrightarrow> room_ok cap (append_message cap rs e)"
  by (rule room_okI) (auto simp: room_log.push_bounded, simp add: room_ok_def)

lemma distinct_map_last_n: "distinct (map f xs) \<Longrightarrow> distinct (map f (last_n n xs))"
  by (simp add: last_n_def drop_map [symmetric])

lemma publishIntoRoom_ok [inv_intros]:
  "room_ok cap rs \<Longrightarrow> room_ok cap (fst (publishIntoRoom rs room sender topic eid sig payload cap))"
  by (simp add: publishIntoRoom_def Let_def append_message_ok)

lemma publishIntoRoom_distinct [inv_intros]:
  "ids_distinct rs \<Longrightarrow> ids_distinct (fst (publishIntoRoom rs room sender topic eid sig payload cap))"
  by (auto simp: publishIntoRoom_def Let_def append_message_def ids_distinct_def list_ex_iff
      intro!: distinct_map_last_n)

lemma publishIntoRoom_messages [inv_intros]:
  assumes "messages_ok rs" "sender \<noteq> []" "eid \<noteq> []" "isValidRoomName room"
  shows "messages_ok (fst (publishIntoRoom rs room sender topic eid sig payload cap))"
proof -
  have "message_ok e"
    if "e \<in> set (rm_messages (fst (publishIntoRoom rs room sender topic eid sig payload cap)))" for e
    using that assms set_last_n by (fastforce simp: publishIntoRoom_def Let_def append_message_def messages_ok_def
        message_ok_def split: if_splits)
  then show ?thesis
    using assms(1) publishIntoRoom_distinct by (simp add: messages_ok_def)
qed

lemma broadcast_ok [inv_intros]: "room_ok cap rs \<Longrightarrow> room_ok cap (fst (broadcast env rs m))"
  by (rule room_okI) (auto simp: broadcast_def room_ok_def)

lemma broadcast_messages [simp]:
  "rm_messages (fst (broadcast env rs m)) = rm_messages rs" "rm_acks (fst (broadcast env rs m)) = rm_acks rs"
  "rm_presence (fst (broadcast env rs m)) = rm_presence rs" "rm_reviews (fst (broadcast env rs m)) = rm_reviews rs"
  by (simp_all add: broadcast_def)

lemma broadcasts_ok [inv_intros]:
  "room_ok cap rs \<Longrightarrow> room_ok cap (fst (broadcastPublish env rs room e c))"
  "room_ok cap rs \<Longrightarrow> room_ok cap (fst (broadcastPresenceChange env rs room p st md ev))"
  "room_ok cap rs \<Longrightarrow> room_ok cap (fst (broadcastReviewChange env rs room pr sn vd ev res a d))"
  by (simp_all add: broadcastPublish_def broadcastPresenceChange_def broadcastReviewChange_def broadcast_ok)

lemma broadcasts_messages [simp]:
  "rm_messages (fst (broadcastPublish env rs room e c)) = rm_messages rs"
  "rm_messages (fst (broadcastPresenceChange env rs room p st md ev)) = rm_messages rs"
  "rm_messages (fst (broadcastReviewChange env rs room pr sn vd ev res a d)) = rm_messages rs"
  by (simp_all add: broadcastPublish_def broadcastPresenceChange_def broadcastReviewChange_def)

lemma add_acks_props:
  "distinct xs \<Longrightarrow> distinct (fst (add_acks xs ids)) \<and> set (fst (add_acks xs ids)) = set xs \<union> set ids"
proof -
  have "distinct (fst (foldl (\<lambda>(acc, n) eid. if eid \<in> set acc then (acc, n) else (acc @ [eid], n + 1)) (xs, k) ids)) \<and>
      set (fst (foldl (\<lambda>(acc, n) eid. if eid \<in> set acc then (acc, n) else (acc @ [eid], n + 1)) (xs, k) ids)) =
      set xs \<union> set ids" if "distinct xs" for xs and k :: int
    using that by (induction ids arbitrary: xs k) auto
  then show "distinct xs \<Longrightarrow> ?thesis" by (simp add: add_acks_def)
qed

lemma add_acks_count: "snd (add_acks xs ids) = int (length (fst (add_acks xs ids))) - int (length xs)"
proof -
  have "snd (foldl (\<lambda>(acc, n) eid. if eid \<in> set acc then (acc, n) else (acc @ [eid], n + 1)) (xs, k) ids) =
      int (length (fst (foldl (\<lambda>(acc, n) eid. if eid \<in> set acc then (acc, n) else (acc @ [eid], n + 1)) (xs, k) ids))) -
      int (length xs) + k" for k
    by (induction ids arbitrary: xs k) auto
  then show ?thesis by (simp add: add_acks_def)
qed

lemma add_acks_noop: "set ids \<subseteq> set xs \<Longrightarrow> add_acks xs ids = (xs, 0)"
proof -
  have "foldl (\<lambda>(acc, n) eid. if eid \<in> set acc then (acc, n) else (acc @ [eid], n + 1)) (xs, k :: int) ids = (xs, k)"
    if "set ids \<subseteq> set xs" for k
    using that by (induction ids) auto
  then show "set ids \<subseteq> set xs \<Longrightarrow> ?thesis" by (simp add: add_acks_def)
qed

lemma acked_by_distinct: "room_ok cap rs \<Longrightarrow> distinct (acked_by rs c)"
  by (fastforce simp: room_ok_def acked_by_def dest: map_of_SomeD split: option.splits)

lemma acked_by_clean:
  assumes "room_ok cap rs" "i \<in> set (acked_by rs c)"
  shows "clean i"
proof -
  obtain ids where "map_of (rm_acks rs) c = Some ids" "i \<in> set ids"
    using assms(2) that by (cases "map_of (rm_acks rs) c") (auto simp: acked_by_def)
  then show ?thesis using assms(1) map_of_SomeD [of "rm_acks rs" c ids] by (auto simp: room_ok_def)
qed

lemma ackIntoRoom_ok [inv_intros]:
  assumes "room_ok cap rs"
  shows "room_ok cap (fst (ackIntoRoom parse rs room c txt))"
proof (cases "parseAckIds parse txt")
  case (Inr ids)
  let ?new = "fst (add_acks (acked_by rs c) ids)"
  have "distinct ?new" "set ?new = set (acked_by rs c) \<union> set ids"
    using add_acks_props acked_by_distinct [OF assms] by blast+
  then have "distinct ?new \<and> (\<forall>i\<in>set ?new. clean i)"
    using acked_by_clean [OF assms] parseAckIds_clean [OF Inr] by auto
  then have "\<forall>p\<in>set (AList.update c ?new (rm_acks rs)). distinct (snd p) \<and> (\<forall>i\<in>set (snd p). clean i)"
    using assms by (auto simp: room_ok_def dest!: set_update_cases)
  then show ?thesis using assms by (simp add: ackIntoRoom_def Inr Let_def room_ok_def)
qed (simp add: ackIntoRoom_def assms)

lemma ackIntoRoom_messages [simp]: "rm_messages (fst (ackIntoRoom parse rs room c txt)) = rm_messages rs"
  by (simp add: ackIntoRoom_def Let_def split: sum.splits)

lemma prunePresence_ok [inv_intros]: "room_ok cap rs \<Longrightarrow> room_ok cap (prunePresence rs now ttl)"
  by (auto simp: room_ok_def prunePresence_def presence_ok_def)

lemma prunePresence_messages [simp]: "rm_messages (prunePresence rs now ttl) = rm_messages rs"
  by (simp add: prunePresence_def)

lemma reap_room_ok [inv_intros]: "room_ok cap rs \<Longrightarrow> room_ok cap (fst (reap_room env idle rs))"
  by (auto simp: room_ok_def reap_room_def Let_def)

lemma reap_room_messages [simp]: "rm_messages (fst (reap_room env idle rs)) = rm_messages rs"
  by (simp add: reap_room_def Let_def)

lemma subscribeSocket_ok [inv_intros]: "room_ok cap rs \<Longrightarrow> room_ok cap (fst (subscribeSocket rs s now p i))"
  by (auto simp: room_ok_def subscribeSocket_def)

lemma socket_listeners_ok [inv_intros]:
  "room_ok cap rs \<Longrightarrow> room_ok cap (fst (socketMessage env rs s d))"
  "room_ok cap rs \<Longrightarrow> room_ok cap (socketClosed rs s)"
  by (auto simp: room_ok_def socketMessage_def socketClosed_def)

section \<open>What publishing, polling and acknowledging promise\<close>

lemma publishIntoRoom_invalid: "\<not> isValidTopic topic \<Longrightarrow> fst (publishIntoRoom rs room sender topic eid sig payload cap) = rs"
  by (simp add: publishIntoRoom_def)

lemma publishIntoRoom_dup:
  "e \<in> set (rm_messages rs) \<Longrightarrow> env_id e = eid \<Longrightarrow> fst (publishIntoRoom rs room sender topic eid sig payload cap) = rs"
  by (auto simp: publishIntoRoom_def list_ex_iff)

definition made_envelope :: "string \<Rightarrow> string \<Rightarrow> string \<Rightarrow> string \<Rightarrow> string \<Rightarrow> json \<Rightarrow> envelope" where
  "made_envelope room sender topic eid sig payload =
     \<lparr>env_room = room, env_id = eid, env_sender = sender, env_topic = topic, env_payload = payload,
      env_signature = (if js_trim sig \<noteq> [] then Some (js_trim sig) else None)\<rparr>"

lemma publishIntoRoom_new:
  assumes "isValidTopic topic" "eid \<notin> env_id ` set (rm_messages rs)"
  shows "publishIntoRoom rs room sender topic eid sig payload cap =
    (append_message cap rs (made_envelope room sender topic eid sig payload),
     \<lparr>pub_status = 200,
      pub_body = JObj [(''ok'', JBool True), (''accepted'', JBool True),
        (''cursor'', jint (min (int cap) (int (length (rm_messages rs)) + 1)))],
      pub_changed = True, pub_envelope = Some (made_envelope room sender topic eid sig payload)\<rparr>)"
  using assms
  by (auto simp: publishIntoRoom_def Let_def list_ex_iff made_envelope_def append_message_def min_def)

lemma publishIntoRoom_committed:
  "pub_committed (snd (publishIntoRoom rs room sender topic eid sig payload cap)) =
    (if isValidTopic topic \<and> eid \<notin> env_id ` set (rm_messages rs)
     then Some (made_envelope room sender topic eid sig payload, min (int cap) (int (length (rm_messages rs)) + 1))
     else None)"
proof (cases "isValidTopic topic \<and> eid \<notin> env_id ` set (rm_messages rs)")
  case True
  then show ?thesis
    by (simp add: publishIntoRoom_new pub_committed_def pub_accepted_def pub_cursor_def)
qed (auto simp: publishIntoRoom_def pub_committed_def list_ex_iff)

type_synonym publish_call = "string \<times> string \<times> string \<times> string \<times> json"

definition publish_all :: "nat \<Rightarrow> string \<Rightarrow> room_state \<Rightarrow> publish_call list \<Rightarrow> room_state" where
  "publish_all cap room rs calls =
     foldl (\<lambda>s (sender, topic, eid, sig, payload). fst (publishIntoRoom s room sender topic eid sig payload cap))
       rs calls"

definition call_id :: "publish_call \<Rightarrow> string" where
  "call_id = (\<lambda>(sender, topic, eid, sig, payload). eid)"

definition call_topic :: "publish_call \<Rightarrow> string" where
  "call_topic = (\<lambda>(sender, topic, eid, sig, payload). topic)"

definition call_envelope :: "string \<Rightarrow> publish_call \<Rightarrow> envelope" where
  "call_envelope room = (\<lambda>(sender, topic, eid, sig, payload). made_envelope room sender topic eid sig payload)"

lemma env_id_made [simp]: "env_id (made_envelope room sender topic eid sig payload) = eid"
  by (simp add: made_envelope_def)

lemma find_append: "find P (xs @ ys) = (case find P xs of None \<Rightarrow> find P ys | Some x \<Rightarrow> Some x)"
  by (induction xs) auto

lemma publish_one_find:
  assumes "length (rm_messages rs) < cap"
  shows "findEnvelopeById (fst (publishIntoRoom rs room sender topic eid sig payload cap)) i =
      (case findEnvelopeById rs i of
         Some e \<Rightarrow> Some e
       | None \<Rightarrow> if i = eid \<and> isValidTopic topic then Some (made_envelope room sender topic eid sig payload) else None)"
    and "length (rm_messages (fst (publishIntoRoom rs room sender topic eid sig payload cap))) \<le> Suc (length (rm_messages rs))"
proof -
  have none: "findEnvelopeById rs eid = None \<longleftrightarrow> eid \<notin> env_id ` set (rm_messages rs)"
    by (auto simp: findEnvelopeById_def find_None_iff)
  show "findEnvelopeById (fst (publishIntoRoom rs room sender topic eid sig payload cap)) i =
      (case findEnvelopeById rs i of
         Some e \<Rightarrow> Some e
       | None \<Rightarrow> if i = eid \<and> isValidTopic topic then Some (made_envelope room sender topic eid sig payload) else None)"
  proof (cases "isValidTopic topic \<and> eid \<notin> env_id ` set (rm_messages rs)")
    case True
    then show ?thesis
      using assms none
      by (auto simp: publishIntoRoom_new append_message_def last_n_id findEnvelopeById_def find_append
          split: option.splits)
  next
    case False
    then have "fst (publishIntoRoom rs room sender topic eid sig payload cap) = rs"
      by (auto simp: publishIntoRoom_def list_ex_iff)
    then show ?thesis using False none by (auto split: option.splits)
  qed
  show "length (rm_messages (fst (publishIntoRoom rs room sender topic eid sig payload cap))) \<le> Suc (length (rm_messages rs))"
    by (auto simp: publishIntoRoom_def Let_def append_message_def)
qed

lemma publish_all_find:
  assumes "length (rm_messages rs) + length calls \<le> cap"
  shows "findEnvelopeById (publish_all cap room rs calls) i =
    (case findEnvelopeById rs i of
       Some e \<Rightarrow> Some e
     | None \<Rightarrow> map_option (call_envelope room) (find (\<lambda>c. call_id c = i \<and> isValidTopic (call_topic c)) calls))"
  using assms
proof (induction calls arbitrary: rs)
  case Nil
  then show ?case by (simp add: publish_all_def split: option.splits)
next
  case (Cons c calls)
  obtain sender topic eid sig payload where c: "c = (sender, topic, eid, sig, payload)"
    by (cases c) auto
  let ?rs = "fst (publishIntoRoom rs room sender topic eid sig payload cap)"
  have lt: "length (rm_messages rs) < cap" using Cons.prems by simp
  note one = publish_one_find [OF lt, of room sender topic eid sig payload]
  have "publish_all cap room rs (c # calls) = publish_all cap room ?rs calls"
    by (simp add: publish_all_def c)
  moreover have "length (rm_messages ?rs) + length calls \<le> cap"
    using one(2) Cons.prems by simp
  ultimately show ?case
    using Cons.IH [of ?rs] one(1) [of i]
    by (auto simp: c call_id_def call_topic_def call_envelope_def split: option.splits)
qed

lemma publish_all_distinct: "ids_distinct rs \<Longrightarrow> ids_distinct (publish_all cap room rs calls)"
proof (induction calls arbitrary: rs)
  case (Cons c calls)
  then show ?case
    by (cases c) (auto simp: publish_all_def intro: publishIntoRoom_distinct)
qed (simp add: publish_all_def)

text \<open>
  Claim C15. Publishing is idempotent per message id: after any calls, in any order and with any
  repetitions, that fit the room's cap, the room holds for each id exactly the message of the
  first call with that id and a valid topic, and nothing else.
\<close>

theorem publish_exactly_once:
  assumes "length calls \<le> cap"
  shows "findEnvelopeById (publish_all cap room createRoomState calls) i =
      map_option (call_envelope room) (find (\<lambda>c. call_id c = i \<and> isValidTopic (call_topic c)) calls) \<and>
    ids_distinct (publish_all cap room createRoomState calls)"
  using publish_all_find [of createRoomState calls cap room i] assms
    publish_all_distinct [OF createRoomState_ok(2), of cap room calls]
  by (simp add: createRoomState_def findEnvelopeById_def)

theorem publish_exactly_once_witness:
  "findEnvelopeById (publish_all 2 ''main'' createRoomState
      [(''alice'', ''notify'', ''m1'', [], JNull), (''bob'', ''notify'', ''m1'', [], JBool True)]) ''m1'' =
   Some (made_envelope ''main'' ''alice'' ''notify'' ''m1'' [] JNull) \<and>
   ids_distinct (publish_all 2 ''main'' createRoomState
      [(''alice'', ''notify'', ''m1'', [], JNull), (''bob'', ''notify'', ''m1'', [], JBool True)])"
proof -
  have "isValidTopic ''notify''"
    by (simp add: isValidTopic_def is_topic_char_def is_lower_def)
  then show ?thesis
    using publish_exactly_once [of "[(''alice'', ''notify'', ''m1'', [], JNull), (''bob'', ''notify'', ''m1'', [], JBool True)]"
        2 "''main''" "''m1''"]
    by (simp add: call_id_def call_topic_def call_envelope_def)
qed

section \<open>Draining a room by polling\<close>

definition page_cursor :: "json \<Rightarrow> int" where
  "page_cursor j = (case finite_int_opt (jprop j ''next_cursor'') of Some c \<Rightarrow> c | None \<Rightarrow> 0)"

definition page_envelopes :: "json \<Rightarrow> json list" where
  "page_envelopes j = (case arr_opt (jprop j ''envelopes'') of Some xs \<Rightarrow> xs | None \<Rightarrow> [])"

text \<open>A consumer that feeds each answer's \<open>next_cursor\<close> into the next poll.\<close>

fun poll_drain :: "nat \<Rightarrow> room_state \<Rightarrow> string \<Rightarrow> int \<Rightarrow> int \<Rightarrow> json list" where
  "poll_drain 0 rs room after limit = []"
| "poll_drain (Suc n) rs room after limit =
     (let page = pollFromRoom rs room after limit
      in page_envelopes page @ poll_drain n rs room (page_cursor page) limit)"

lemma page_fields:
  "page_envelopes (pollFromRoom rs room after limit) = map sanitizeEnvelope (slice (rm_messages rs) after limit)"
  "page_cursor (pollFromRoom rs room after limit) = after + int (length (slice (rm_messages rs) after limit))"
  by (simp_all add: page_envelopes_def page_cursor_def pollFromRoom_def Let_def arr_opt_def)

lemma length_slice: "0 \<le> after \<Longrightarrow> 1 \<le> limit \<Longrightarrow>
    int (length (slice xs after limit)) = min limit (max 0 (int (length xs) - after))"
  by (auto simp: slice_def min_def max_def)

lemma slice_drop:
  "0 \<le> after \<Longrightarrow> slice xs after limit @ drop (nat (after + int (length (slice xs after limit)))) xs = drop (nat after) xs"
proof -
  assume a: "0 \<le> after"
  have "nat (after + int (length (slice xs after limit))) = length (slice xs after limit) + nat after"
    using a by simp
  then have "drop (nat (after + int (length (slice xs after limit)))) xs =
      drop (length (slice xs after limit)) (drop (nat after) xs)"
    by (simp add: drop_drop)
  moreover have "slice xs after limit = take (length (slice xs after limit)) (drop (nat after) xs)"
    by (simp add: slice_def min_def)
  ultimately show ?thesis by (metis append_take_drop_id)
qed

text \<open>
  Polling a room that does not change, from any cursor and with any page size, returns
  every message after the cursor, in order and without repetition; a number of polls that covers
  the remaining messages is enough.
\<close>

theorem poll_drain_complete:
  assumes "0 \<le> after" "1 \<le> limit" "int (length (rm_messages rs)) \<le> after + int n * limit"
  shows "poll_drain n rs room after limit = map sanitizeEnvelope (drop (nat after) (rm_messages rs))"
  using assms
proof (induction n arbitrary: after)
  case 0
  then show ?case by simp
next
  case (Suc n)
  let ?p = "slice (rm_messages rs) after limit"
  have nn: "0 \<le> limit * int n"
    using Suc.prems(2) by (intro mult_nonneg_nonneg) auto
  have len: "int (length ?p) = min limit (max 0 (int (length (rm_messages rs)) - after))"
    using Suc.prems(1,2) by (rule length_slice)
  have "int (length (rm_messages rs)) \<le> after + limit + limit * int n"
    using Suc.prems(3) by (simp add: algebra_simps)
  with len nn have "int (length (rm_messages rs)) \<le> after + int (length ?p) + limit * int n"
    by linarith
  then have "poll_drain n rs room (after + int (length ?p)) limit =
      map sanitizeEnvelope (drop (nat (after + int (length ?p))) (rm_messages rs))"
    using Suc.IH Suc.prems by (simp add: mult.commute)
  then show ?case
    using slice_drop [OF Suc.prems(1), of "rm_messages rs" limit]
    by (simp add: page_fields Let_def flip: map_append)
qed

definition two_messages :: room_state where
  "two_messages = publish_all 2 ''main'' createRoomState
     [(''alice'', ''notify'', ''m1'', [], JNull), (''bob'', ''notify'', ''m2'', [], JNull)]"

lemma two_messages_length: "length (rm_messages two_messages) = 2"
  by code_simp

theorem poll_drain_complete_witness:
  "poll_drain 2 two_messages ''main'' 0 1 = map sanitizeEnvelope (drop (nat 0) (rm_messages two_messages))"
  by (rule poll_drain_complete) (simp_all add: two_messages_length)

text \<open>
  Claim C18. The cursor of a poll is a position in the room's message array, and the array slides
  once the room is full: a consumer that has read a full room and polls again with the cursor
  it was given gets nothing, although a message was accepted in between.
\<close>

theorem poll_misses_after_trim:
  assumes "length (rm_messages rs) = cap" "1 \<le> cap" "1 \<le> limit"
    and "isValidTopic topic" "eid \<notin> env_id ` set (rm_messages rs)"
  shows "page_cursor (pollFromRoom rs room 0 (int cap)) = int cap \<and>
    pub_accepted (snd (publishIntoRoom rs room sender topic eid sig payload cap)) \<and>
    page_envelopes (pollFromRoom (fst (publishIntoRoom rs room sender topic eid sig payload cap)) room
      (int cap) limit) = []"
proof -
  note new = publishIntoRoom_new [OF assms(4,5)]
  have "length (rm_messages (append_message cap rs e)) = cap" for e
    using assms(1) by (simp add: append_message_def)
  then have "page_envelopes (pollFromRoom (append_message cap rs e) room (int cap) limit) = []" for e
    by (simp add: page_fields slice_def)
  moreover have "page_cursor (pollFromRoom rs room 0 (int cap)) = int cap"
    using assms(1,2) by (simp add: page_fields slice_def)
  ultimately show ?thesis
    by (simp add: new pub_accepted_def)
qed

theorem poll_misses_after_trim_witness:
  "page_envelopes (pollFromRoom (fst (publishIntoRoom two_messages ''main'' ''carol'' ''notify'' ''m3'' [] JNull 2))
     ''main'' (int 2) 100) = []"
proof -
  have fresh: "''m3'' \<notin> env_id ` set (rm_messages two_messages)"
    by code_simp
  have "isValidTopic ''notify''"
    by (simp add: isValidTopic_def is_topic_char_def is_lower_def)
  then show ?thesis
    using poll_misses_after_trim [OF two_messages_length _ _ _ fresh] by simp
qed

section \<open>The inbox\<close>

definition ack_count :: "int \<times> json \<Rightarrow> int" where
  "ack_count r = (case finite_int_opt (jprop (snd r) ''newly_acked'') of Some n \<Rightarrow> n | None \<Rightarrow> 0)"

lemma acked_by_ack:
  assumes "parseAckIds parse txt = Inr ids" "distinct (acked_by rs c)"
  shows "set (acked_by (fst (ackIntoRoom parse rs room c txt)) c) = set (acked_by rs c) \<union> set ids"
    and "c' \<noteq> c \<Longrightarrow> acked_by (fst (ackIntoRoom parse rs room c txt)) c' = acked_by rs c'"
  using assms add_acks_props [of "acked_by rs c" ids]
  by (simp_all add: ackIntoRoom_def Let_def acked_by_def)

lemma ack_count_ackIntoRoom:
  "parseAckIds parse txt = Inr ids \<Longrightarrow>
   ack_count (snd (ackIntoRoom parse rs room c txt)) = snd (add_acks (acked_by rs c) ids)"
  by (simp add: ack_count_def ackIntoRoom_def Let_def)

lemma pending_messages_filter:
  assumes "set (acked_by rs' c) = set (acked_by rs c) \<union> A" "rm_messages rs' = rm_messages rs"
  shows "pending_messages rs' c = filter (\<lambda>m. env_id m \<notin> A) (pending_messages rs c)"
  using assms by (auto simp: pending_messages_def intro: filter_cong)

text \<open>
  Acknowledging removes exactly the named messages from the consumer's inbox, leaves
  every other consumer's inbox alone, and is idempotent: the same request again acknowledges
  nothing new and leaves the inbox as it is.
\<close>

theorem ack_removes_and_is_idempotent:
  assumes "room_ok cap rs" "parseAckIds parse txt = Inr ids"
  shows "pending_messages (fst (ackIntoRoom parse rs room c txt)) c =
      filter (\<lambda>m. env_id m \<notin> set ids) (pending_messages rs c) \<and>
    (\<forall>c'. c' \<noteq> c \<longrightarrow> pending_messages (fst (ackIntoRoom parse rs room c txt)) c' = pending_messages rs c') \<and>
    ack_count (snd (ackIntoRoom parse (fst (ackIntoRoom parse rs room c txt)) room c txt)) = 0 \<and>
    pending_messages (fst (ackIntoRoom parse (fst (ackIntoRoom parse rs room c txt)) room c txt)) c =
      pending_messages (fst (ackIntoRoom parse rs room c txt)) c"
proof -
  let ?rs = "fst (ackIntoRoom parse rs room c txt)"
  have ok: "room_ok cap ?rs" by (rule ackIntoRoom_ok) (rule assms(1))
  note one = acked_by_ack [where room = room and c = c, OF assms(2) acked_by_distinct [OF assms(1)]]
  note two = acked_by_ack [where room = room and c = c, OF assms(2) acked_by_distinct [OF ok]]
  have noop: "add_acks (acked_by ?rs c) ids = (acked_by ?rs c, 0)"
    by (rule add_acks_noop) (simp add: one(1))
  have "pending_messages ?rs c' = pending_messages rs c'" if "c' \<noteq> c" for c'
    unfolding pending_messages_def one(2) [OF that] by simp
  moreover have "pending_messages (fst (ackIntoRoom parse ?rs room c txt)) c = pending_messages ?rs c"
    using pending_messages_filter [OF two(1)] by (simp add: pending_messages_def one(1) filter_id_conv)
  ultimately show ?thesis
    using pending_messages_filter [OF one(1)] noop by (simp add: ack_count_ackIntoRoom [OF assms(2)])
qed

definition ack_parser :: "string \<Rightarrow> json option" where
  "ack_parser txt = Some (JObj [(''id'', JStr ''m1'')])"

theorem ack_removes_and_is_idempotent_witness:
  "pending_messages (fst (ackIntoRoom ack_parser two_messages ''main'' ''bob'' ''{}'')) ''bob'' =
    filter (\<lambda>m. env_id m \<notin> set [''m1'']) (pending_messages two_messages ''bob'')"
proof -
  have "room_ok 2 two_messages" and "parseAckIds ack_parser ''{}'' = Inr [''m1'']"
    by code_simp+
  then show ?thesis
    using ack_removes_and_is_idempotent by blast
qed

section \<open>Review outcome\<close>

lemma review_counts:
  "foldl (\<lambda>(a, d) (_, record). if rv_verdict record = Approve then (a + 1, d) else (a, d + 1)) (a0, d0 :: int) reviews =
   (a0 + int (length (filter (\<lambda>p. rv_verdict (snd p) = Approve) reviews)),
    d0 + int (length (filter (\<lambda>p. rv_verdict (snd p) = Deny) reviews)))"
proof (induction reviews arbitrary: a0 d0)
  case (Cons p reviews)
  then show ?case
    by (cases p; cases "rv_verdict (snd p)") auto
qed simp

lemma computeReviewStatus_counts:
  "approve_count (computeReviewStatus rv) = int (length (filter (\<lambda>p. rv_verdict (snd p) = Approve) rv))"
  "deny_count (computeReviewStatus rv) = int (length (filter (\<lambda>p. rv_verdict (snd p) = Deny) rv))"
  "review_total (computeReviewStatus rv) = int (length rv)"
proof -
  show "approve_count (computeReviewStatus rv) = int (length (filter (\<lambda>p. rv_verdict (snd p) = Approve) rv))"
    "deny_count (computeReviewStatus rv) = int (length (filter (\<lambda>p. rv_verdict (snd p) = Deny) rv))"
    by (simp_all add: computeReviewStatus_def Let_def review_counts)
  have "(\<lambda>p. rv_verdict (snd p) = Deny) = (\<lambda>p :: string \<times> review_record. \<not> rv_verdict (snd p) = Approve)"
    using verdict.exhaust by (intro ext) (metis verdict.distinct(1))
  then show "review_total (computeReviewStatus rv) = int (length rv)"
    using sum_length_filter_compl [of "\<lambda>p. rv_verdict (snd p) = Approve" rv]
    by (simp add: computeReviewStatus_def Let_def review_counts)
qed

lemma resolved_iff:
  "resolved (computeReviewStatus rv) \<longleftrightarrow> rv \<noteq> [] \<and> 2 * approve_count (computeReviewStatus rv) \<ge> int (length rv)"
proof -
  have total: "review_total (computeReviewStatus rv) = int (length rv)"
    by (rule computeReviewStatus_counts)
  have "resolved (computeReviewStatus rv) \<longleftrightarrow> review_total (computeReviewStatus rv) > 0 \<and>
      rat_of_int (approve_count (computeReviewStatus rv)) / rat_of_int (review_total (computeReviewStatus rv)) \<ge> 1 / 2"
    by (simp add: computeReviewStatus_def Let_def)
  also have "\<dots> \<longleftrightarrow> rv \<noteq> [] \<and> rat_of_int (2 * approve_count (computeReviewStatus rv)) \<ge> rat_of_int (int (length rv))"
    unfolding total by (cases rv) (auto simp: field_simps)
  finally show ?thesis unfolding of_int_le_iff by simp
qed

end
