(* ===== verification/GitHub_Keys.thy ===== *)
theory GitHub_Keys
  imports Http
begin

text \<open>
  \<open>src/github_keys.ts\<close>: the OpenSSH \<open>authorized_keys\<close> parser for Ed25519 keys, the fetch of a
  user's keys and the comparison with a relay key. The network is the parameter
  \<open>github_keys_url\<close> of the runtime record.
\<close>

section \<open>Parsing OpenSSH lines\<close>

text \<open>\<open>s.split(/\s+/)\<close>.\<close>

function split_spaces :: "string \<Rightarrow> string list" where
  "split_spaces s =
     (let w = takeWhile (\<lambda>c. \<not> is_space c) s; r = dropWhile (\<lambda>c. \<not> is_space c) s
      in if r = [] then [w] else w # split_spaces (dropWhile is_space r))"
  by pat_completeness auto

lemma dropWhile_twice_shorter:
  assumes "dropWhile (\<lambda>c. \<not> P c) s \<noteq> []"
  shows "length (dropWhile P (dropWhile (\<lambda>c. \<not> P c) s)) < length s"
proof -
  obtain c r where r: "dropWhile (\<lambda>c. \<not> P c) s = c # r"
    using assms by (cases "dropWhile (\<lambda>c. \<not> P c) s") auto
  moreover have "P c" using hd_dropWhile_not [of "\<lambda>c. \<not> P c" s] r by simp
  moreover have "length (c # r) \<le> length s" unfolding r [symmetric] by (rule length_dropWhile_le)
  ultimately show ?thesis using length_dropWhile_le [of P r] by simp
qed

termination split_spaces
  by (relation "measure length") (auto intro: dropWhile_twice_shorter)

declare split_spaces.simps [simp del]

definition SSH_ED25519_PREFIX :: string where
  "SSH_ED25519_PREFIX = ''ssh-ed25519''"

text \<open>\<open>view.getUint32(offset)\<close>, big endian.\<close>

definition getUint32 :: "string \<Rightarrow> nat \<Rightarrow> nat" where
  "getUint32 bs off = foldl (\<lambda>v c. 256 * v + of_char c) 0 (take 4 (drop off bs))"

definition parseOpenSshEd25519Line :: "string \<Rightarrow> string option" where
  "parseOpenSshEd25519Line line =
     (let trimmed = js_trim line
      in if trimmed = [] \<or> hd trimmed = CHR ''#'' then None
         else let parts = split_spaces trimmed
           in if length parts < 2 then None
              else if hd parts \<noteq> SSH_ED25519_PREFIX then None
              else case atob (parts ! 1) of
                  None \<Rightarrow> None
                | Some decoded \<Rightarrow>
                    if length decoded < 51 then None
                    else let typeLen = getUint32 decoded 0
                      in if typeLen \<noteq> 11 then None
                         else if take typeLen (drop 4 decoded) \<noteq> SSH_ED25519_PREFIX then None
                         else let keyOffset = 4 + typeLen
                           in if keyOffset + 4 > length decoded then None
                              else let keyLen = getUint32 decoded keyOffset
                                in if keyLen \<noteq> 32 then None
                                   else let keyStart = keyOffset + 4
                                     in if keyStart + keyLen > length decoded then None
                                        else Some (take keyLen (drop keyStart decoded)))"

definition parseOpenSshEd25519Keys :: "string \<Rightarrow> string list" where
  "parseOpenSshEd25519Keys txt = List.map_filter parseOpenSshEd25519Line (split_on (CHR 0x0A) txt)"

section \<open>Fetching and matching\<close>

definition upper_hex_digit :: "nat \<Rightarrow> char" where
  "upper_hex_digit d = (if d < 10 then char_of (48 + d) else char_of (55 + d))"

definition encodeURIComponent :: "string \<Rightarrow> string" where
  "encodeURIComponent s =
     concat (map (\<lambda>c.
       if is_alnum c \<or> c \<in> set ''-_.!~*()'' \<or> c = CHR 0x27 then [c]
       else concat (map (\<lambda>b. [CHR ''%'', upper_hex_digit (of_char b div 16), upper_hex_digit (of_char b mod 16)])
              (utf8 [c]))) s)"

text \<open>\<open>Inl\<close> is \<open>ok: false\<close> with its error.\<close>

definition fetchGitHubEd25519Keys :: "relay_env \<Rightarrow> string \<Rightarrow> string + string list" where
  "fetchGitHubEd25519Keys env username =
     (case github_keys_url env (''https://github.com/'' @ encodeURIComponent username @ ''.keys'') of
        FetchThrew message \<Rightarrow> Inl message
      | FetchStatus status txt \<Rightarrow>
          if \<not> (200 \<le> status \<and> status \<le> 299) then Inl (''github returned '' @ int_str status)
          else Inr (parseOpenSshEd25519Keys txt))"

definition matchesGitHubKey :: "string \<Rightarrow> string list \<Rightarrow> bool" where
  "matchesGitHubKey relayKey keys =
     (case base64UrlDecode relayKey of
        None \<Rightarrow> False
      | Some relayBytes \<Rightarrow>
          if length relayBytes \<noteq> 32 then False
          else list_ex (\<lambda>k. length k = 32 \<and> list_all (\<lambda>i. relayBytes ! i = k ! i) [0..<32]) keys)"

definition verifyKeyAgainstGitHub :: "relay_env \<Rightarrow> string \<Rightarrow> string \<Rightarrow> bool \<times> string option" where
  "verifyKeyAgainstGitHub env relayKey username =
     (case fetchGitHubEd25519Keys env username of
        Inl err \<Rightarrow> (False, Some err)
      | Inr keys \<Rightarrow>
          if keys = [] then (False, Some ''no ed25519 keys found for github user'')
          else (matchesGitHubKey relayKey keys, None))"

section \<open>The parser accepts what OpenSSH writes\<close>

definition be32 :: "nat \<Rightarrow> string" where
  "be32 n = [char_of (n div 16777216 mod 256), char_of (n div 65536 mod 256), char_of (n div 256 mod 256), char_of (n mod 256)]"

definition ssh_wire :: "string \<Rightarrow> string" where
  "ssh_wire key = be32 11 @ SSH_ED25519_PREFIX @ be32 32 @ key"

definition ssh_line :: "string \<Rightarrow> string \<Rightarrow> string" where
  "ssh_line key comment = SSH_ED25519_PREFIX @ '' '' @ btoa (ssh_wire key) @ '' '' @ comment"

lemma atob_btoa: "atob (btoa bs) = Some bs"
proof -
  let ?ys = "b64_sextets (map of_char bs)"
  have bound: "\<forall>y\<in>set ?ys. y < 64"
    by (intro ballI b64_sextets_bound) auto
  have "b64_decode ?ys = map of_char bs"
    by (rule b64_decode_sextets) auto
  then show ?thesis
    using atob_sextets [OF bound b64_sextets_mod]
    by (simp add: btoa_def b64_encode_sextets comp_def)
qed

lemma btoa_no_space:
  assumes "c \<in> set (btoa bs)"
  shows "\<not> is_space c" "c \<noteq> CHR 0x0A"
proof -
  let ?ys = "b64_sextets (map of_char bs)"
  have bound: "y < 64" if "y \<in> set ?ys" for y
    by (rule b64_sextets_bound [OF _ that]) auto
  have "c = CHR ''='' \<or> (\<exists>y<64. c = b64_digit y)"
    using assms bound by (auto simp: btoa_def b64_encode_sextets)
  then show "\<not> is_space c"
    by (auto simp: is_space_def of_char_b64_digit split: if_splits)
  then show "c \<noteq> CHR 0x0A" by (auto simp: is_space_def)
qed

lemma split_spaces_word:
  assumes "\<And>c. c \<in> set w \<Longrightarrow> \<not> is_space c" "is_space s"
  shows "split_spaces (w @ s # r) = w # split_spaces (dropWhile is_space r)"
  using assms by (subst split_spaces.simps) (simp add: takeWhile_append dropWhile_append)

lemma split_spaces_last: "(\<And>c. c \<in> set w \<Longrightarrow> \<not> is_space c) \<Longrightarrow> split_spaces w = [w]"
  by (subst split_spaces.simps) (simp add: dropWhile_eq_Nil_conv [THEN iffD2] takeWhile_eq_all_conv [THEN iffD2])

lemma be32_value [simp]:
  "getUint32 (be32 11 @ x) 0 = 11" "length (be32 n) = 4"
  by (simp_all add: getUint32_def be32_def)

lemma wire_fields:
  "length (ssh_wire key) = 19 + length key"
  "getUint32 (ssh_wire key) 0 = 11"
  "take 11 (drop 4 (ssh_wire key)) = SSH_ED25519_PREFIX"
  "getUint32 (ssh_wire key) 15 = 32"
  "drop 19 (ssh_wire key) = key"
  by (simp_all add: ssh_wire_def SSH_ED25519_PREFIX_def be32_def getUint32_def)

text \<open>Trimming keeps the first two words of a line that starts with a word.\<close>

lemma trim_keeps_prefix:
  assumes "p \<noteq> []" "\<not> is_space (hd p)" "\<not> is_space (last p)"
  shows "\<exists>q. js_trim (p @ r) = p @ q \<and> (q = [] \<or> hd q = hd r \<and> r \<noteq> [])"
proof -
  have d: "dropWhile is_space (p @ r) = p @ r"
    using assms by (intro dropWhile_id) simp
  let ?q = "rev (dropWhile is_space (rev r))"
  have "dropWhile is_space (rev (p @ r)) = dropWhile is_space (rev r) @ rev p"
  proof (cases "dropWhile is_space (rev r) = []")
    case True
    then have all: "\<forall>c\<in>set (rev r). is_space c" by (simp add: dropWhile_eq_Nil_conv)
    then have "dropWhile is_space (rev r @ rev p) = dropWhile is_space (rev p)"
      by (intro dropWhile_append2) auto
    moreover have "dropWhile is_space (rev p) = rev p"
      using assms by (intro dropWhile_id) (simp add: hd_rev)
    ultimately show ?thesis using True by simp
  next
    case False
    then obtain x where "x \<in> set (rev r)" "\<not> is_space x" by (auto simp: dropWhile_eq_Nil_conv)
    then show ?thesis by (simp add: dropWhile_append1)
  qed
  then have t: "js_trim (p @ r) = p @ ?q"
    by (simp add: js_trim_def d)
  have "?q = [] \<or> hd ?q = hd r \<and> r \<noteq> []"
  proof (cases ?q)
    case (Cons x xs)
    have "rev r = takeWhile is_space (rev r) @ dropWhile is_space (rev r)" by simp
    then have "r = ?q @ rev (takeWhile is_space (rev r))"
      by (metis rev_append rev_rev_ident)
    then show ?thesis using Cons by (metis append_Cons list.sel(1) list.distinct(1))
  qed simp
  with t show ?thesis by blast
qed

text \<open>
  A line as OpenSSH writes it, the key type, the base64 of the wire format and a
  comment, is parsed back to the 32 raw key bytes, whatever the comment.
\<close>

theorem openssh_line_roundtrip:
  assumes "length key = 32"
  shows "parseOpenSshEd25519Line (ssh_line key comment) = Some key"
proof -
  let ?b = "btoa (ssh_wire key)" and ?p = SSH_ED25519_PREFIX
  have pre: "\<not> is_space c" if "c \<in> set ?p" for c
    using that by (auto simp: SSH_ED25519_PREFIX_def is_space_def)
  have nonempty: "?b \<noteq> []"
    by (simp add: btoa_def ssh_wire_def be32_def)
  let ?w = "?p @ '' '' @ ?b"
  have ends: "?w \<noteq> []" "\<not> is_space (hd ?w)" "\<not> is_space (last ?w)"
    using nonempty btoa_no_space(1) [OF last_in_set [OF nonempty]]
    by (simp_all add: SSH_ED25519_PREFIX_def is_space_def)
  obtain q where t: "js_trim (ssh_line key comment) = ?w @ q" and q: "q = [] \<or> hd q = CHR '' '' \<and> q \<noteq> []"
    using trim_keeps_prefix [OF ends, of "'' '' @ comment"] by (auto simp: ssh_line_def)
  have one: "split_spaces (?w @ q) = ?p # split_spaces (dropWhile is_space (?b @ q))"
    using split_spaces_word [OF pre, of ?p "CHR '' ''" "?b @ q"] by (simp add: is_space_def)
  have "dropWhile is_space (?b @ q) = ?b @ q"
    using nonempty btoa_no_space(1) [OF hd_in_set [OF nonempty]] by (intro dropWhile_id) simp
  moreover have "\<exists>rest. split_spaces (?b @ q) = ?b # rest"
  proof (cases q)
    case Nil
    then show ?thesis using split_spaces_last [of ?b] btoa_no_space(1) by auto
  next
    case (Cons s r)
    then have "is_space s" using q by (simp add: is_space_def)
    then show ?thesis using split_spaces_word [of ?b s r] btoa_no_space(1) Cons by auto
  qed
  ultimately obtain rest where words: "split_spaces (?w @ q) = ?p # ?b # rest"
    using one by auto
  show ?thesis
    unfolding parseOpenSshEd25519Line_def t Let_def words
    using assms by (simp add: SSH_ED25519_PREFIX_def atob_btoa wire_fields [unfolded SSH_ED25519_PREFIX_def])
qed

theorem openssh_line_roundtrip_witness:
  "parseOpenSshEd25519Line (ssh_line (replicate 32 (CHR ''k'')) ''me@host'') = Some (replicate 32 (CHR ''k''))"
  by (rule openssh_line_roundtrip) simp

lemma parsed_key_length: "parseOpenSshEd25519Line l = Some k \<Longrightarrow> length k = 32"
  by (auto simp: parseOpenSshEd25519Line_def Let_def split: if_splits option.splits)

lemma matchesGitHubKey_iff:
  "matchesGitHubKey rk keys \<longleftrightarrow> (\<exists>b. base64UrlDecode rk = Some b \<and> length b = 32 \<and> b \<in> set keys)"
proof -
  have eq: "(length k = 32 \<and> (\<forall>i\<in>{..<32}. b ! i = k ! i)) \<longleftrightarrow> k = b" if "length b = 32" for b k :: string
    using that by (auto intro: nth_equalityI)
  show ?thesis
    unfolding matchesGitHubKey_def list_ex_iff list_all_iff set_upt atLeast0LessThan
    by (auto simp: eq simp del: lessThan_iff split: option.splits)
qed

end
