(* ===== verification/Relay_Config.thy ===== *)
theory Relay_Config
  imports Http
begin

text \<open>
  The options of \<open>createMemoryRelayService\<close> (\<open>src/memory_handler.ts\<close>) and the configuration it
  computes from them once: every limit is truncated and clamped to at least one, the web-socket
  intervals to each other, the node name and the repository metadata are normalised. A numeric
  option is a finite number or absent.
\<close>

definition option_or :: "'a option \<Rightarrow> 'a \<Rightarrow> 'a" where
  "option_or x d = (case x of None \<Rightarrow> d | Some v \<Rightarrow> v)"

datatype issue_source = LastWrite | FromGithub | FromBit

record relay_options =
  op_authToken :: "string option"
  op_peerAuthToken :: "string option"
  op_issueSourceOfTruth :: "issue_source option"
  op_maxMessagesPerRoom :: "rat option"
  op_publishPayloadMaxBytes :: "rat option"
  op_publishLimitPerWindow :: "rat option"
  op_publishWindowMs :: "rat option"
  op_ipPublishLimitPerWindow :: "rat option"
  op_roomPublishLimitPerWindow :: "rat option"
  op_roomTokens :: "(string \<times> string) list"
  op_maxWsSessions :: "rat option"
  op_requireSignatures :: "bool option"
  op_maxClockSkewSec :: "rat option"
  op_nonceTtlSec :: "rat option"
  op_maxNoncesPerSender :: "rat option"
  op_presenceTtlSec :: "rat option"
  op_wsPingIntervalMs :: "rat option"
  op_wsIdleTimeoutMs :: "rat option"
  op_relayNodeId :: "string option"
  op_peerRelayUrls :: "string list"
  op_repositoryId :: "string option"
  op_repositoryOwner :: "string option"
  op_repositoryName :: "string option"
  op_repositoryRecentCommits :: "string list"
  op_cacheExchangeMaxHops :: "rat option"
  op_cacheExchangeMaxRecords :: "rat option"
  op_githubWebhookSecret :: "string option"

section \<open>Normalisation\<close>

definition clamped :: "int \<Rightarrow> rat option \<Rightarrow> int \<Rightarrow> int" where
  "clamped lo raw fallback = max lo (rtrunc (case raw of None \<Rightarrow> of_int fallback | Some r \<Rightarrow> r))"

definition generateRelayNodeId :: "string \<Rightarrow> string" where
  "generateRelayNodeId uuid = ''relay-'' @ take 12 (filter (\<lambda>c. c \<noteq> CHR ''-'') uuid)"

definition normalizeRelayNodeId :: "string \<Rightarrow> string option \<Rightarrow> string" where
  "normalizeRelayNodeId uuid raw =
     (let value = js_trim (or_empty raw)
      in if value \<noteq> [] \<and> name_pattern 63 value then value else generateRelayNodeId uuid)"

definition normalizePeerRelayUrls :: "string list \<Rightarrow> string list" where
  "normalizePeerRelayUrls raw = dedupe (filter (\<lambda>s. s \<noteq> []) (map js_trim raw))"

definition normalizeRepositoryToken :: "string option \<Rightarrow> string option" where
  "normalizeRepositoryToken raw =
     (let value = to_lower (js_trim (or_empty raw))
      in if value = [] then None else if \<not> list_all is_topic_char value then None else Some value)"

definition is_hex :: "char \<Rightarrow> bool" where
  "is_hex c \<longleftrightarrow> radix_digit c < 16"

definition commit_hash_pattern :: "string \<Rightarrow> bool" where
  "commit_hash_pattern s \<longleftrightarrow> 7 \<le> length s \<and> length s \<le> 40 \<and> list_all is_hex s"

definition normalizeRepositoryCommits :: "string list \<Rightarrow> string list" where
  "normalizeRepositoryCommits raw =
     take 30 (dedupe (filter commit_hash_pattern (map (\<lambda>s. to_lower (js_trim s)) raw)))"

definition strip_github :: "string \<Rightarrow> string" where
  "strip_github s = (if to_lower (take 7 s) = ''github:'' then drop 7 s else s)"

definition parseOwnerNameFromRepositoryId :: "string \<Rightarrow> string option \<times> string option" where
  "parseOwnerNameFromRepositoryId repoId =
     (let trimmed = strip_github (js_trim repoId);
          cleaned = (if suffix ''.git'' trimmed then take (length trimmed - 4) trimmed else trimmed);
          segments = filter (\<lambda>e. e \<noteq> []) (map js_trim (split_on (CHR ''/'') cleaned))
      in if segments = [] then (None, None)
         else (if length segments \<ge> 2
               then normalizeRepositoryToken (Some (segments ! (length segments - 2))) else None,
               normalizeRepositoryToken (Some (last segments))))"

record repository_metadata =
  md_repoId :: "string option"
  md_owner :: "string option"
  md_name :: "string option"
  md_recentCommits :: "string list"

definition normalizeRepositoryMetadata :: "relay_options \<Rightarrow> repository_metadata" where
  "normalizeRepositoryMetadata o' =
     (let repoIdRaw = js_trim (or_empty (op_repositoryId o'));
          repoId = (if repoIdRaw \<noteq> [] then Some (to_lower (strip_github repoIdRaw)) else None);
          from_id = (case repoId of
              None \<Rightarrow> (None, None)
            | Some r \<Rightarrow> if r = [] then (None, None) else parseOwnerNameFromRepositoryId r);
          owner = normalizeRepositoryToken (op_repositoryOwner o');
          name = normalizeRepositoryToken (op_repositoryName o')
      in \<lparr>md_repoId = repoId,
          md_owner = (if owner = None then fst from_id else owner),
          md_name = (if name = None then snd from_id else name),
          md_recentCommits = normalizeRepositoryCommits (op_repositoryRecentCommits o')\<rparr>)"

section \<open>The configuration\<close>

record relay_config =
  cf_authToken :: string
  cf_peerAuthToken :: string
  cf_roomTokens :: "(string, string) omap"
  cf_maxMessages :: nat
  cf_payloadMaxBytes :: int
  cf_publishLimit :: int
  cf_windowMs :: int
  cf_ipLimit :: int
  cf_roomLimit :: int
  cf_maxWsSessions :: int
  cf_requireSignatures :: bool
  cf_maxClockSkewSec :: int
  cf_nonceTtlSec :: int
  cf_maxNonces :: nat
  cf_presenceTtlSec :: int
  cf_wsPingMs :: int
  cf_wsIdleMs :: int
  cf_nodeId :: string
  cf_peers :: "string list"
  cf_repository :: repository_metadata
  cf_maxHops :: int
  cf_maxRecords :: nat
  cf_webhookSecret :: string
  cf_issueSource :: issue_source

definition relay_config_of :: "string \<Rightarrow> relay_options \<Rightarrow> relay_config" where
  "relay_config_of uuid o' =
     (let ping = clamped 1000 (op_wsPingIntervalMs o') 30000
      in \<lparr>cf_authToken = normalizeAuthToken (op_authToken o'),
          cf_peerAuthToken = normalizeAuthToken (op_peerAuthToken o'),
          cf_roomTokens = parseRoomTokens (op_roomTokens o'),
          cf_maxMessages = nat (clamped 1 (op_maxMessagesPerRoom o') 1000),
          cf_payloadMaxBytes = clamped 1 (op_publishPayloadMaxBytes o') 65536,
          cf_publishLimit = clamped 1 (op_publishLimitPerWindow o') 30,
          cf_windowMs = clamped 1 (op_publishWindowMs o') 60000,
          cf_ipLimit = clamped 1 (op_ipPublishLimitPerWindow o') 60,
          cf_roomLimit = clamped 1 (op_roomPublishLimitPerWindow o') 60,
          cf_maxWsSessions = clamped 1 (op_maxWsSessions o') 100,
          cf_requireSignatures = option_or (op_requireSignatures o') True,
          cf_maxClockSkewSec = clamped 1 (op_maxClockSkewSec o') 300,
          cf_nonceTtlSec = clamped 1 (op_nonceTtlSec o') 600,
          cf_maxNonces = nat (clamped 1 (op_maxNoncesPerSender o') 2048),
          cf_presenceTtlSec = clamped 1 (op_presenceTtlSec o') 60,
          cf_wsPingMs = ping,
          cf_wsIdleMs = clamped (ping + 1000) (op_wsIdleTimeoutMs o') 90000,
          cf_nodeId = normalizeRelayNodeId uuid (op_relayNodeId o'),
          cf_peers = normalizePeerRelayUrls (op_peerRelayUrls o'),
          cf_repository = normalizeRepositoryMetadata o',
          cf_maxHops = clamped 1 (op_cacheExchangeMaxHops o') 3,
          cf_maxRecords = nat (clamped 1 (op_cacheExchangeMaxRecords o') 10000),
          cf_webhookSecret = js_trim (or_empty (op_githubWebhookSecret o')),
          cf_issueSource = option_or (op_issueSourceOfTruth o') LastWrite\<rparr>)"

definition no_options :: relay_options where
  "no_options =
     \<lparr>op_authToken = None, op_peerAuthToken = None, op_issueSourceOfTruth = None,
      op_maxMessagesPerRoom = None, op_publishPayloadMaxBytes = None, op_publishLimitPerWindow = None,
      op_publishWindowMs = None, op_ipPublishLimitPerWindow = None, op_roomPublishLimitPerWindow = None,
      op_roomTokens = [], op_maxWsSessions = None, op_requireSignatures = None,
      op_maxClockSkewSec = None, op_nonceTtlSec = None, op_maxNoncesPerSender = None,
      op_presenceTtlSec = None, op_wsPingIntervalMs = None, op_wsIdleTimeoutMs = None,
      op_relayNodeId = None, op_peerRelayUrls = [], op_repositoryId = None, op_repositoryOwner = None,
      op_repositoryName = None, op_repositoryRecentCommits = [], op_cacheExchangeMaxHops = None,
      op_cacheExchangeMaxRecords = None, op_githubWebhookSecret = None\<rparr>"

text \<open>What every computed configuration satisfies.\<close>

definition config_ok :: "relay_config \<Rightarrow> bool" where
  "config_ok cf \<longleftrightarrow>
     1 \<le> cf_maxMessages cf \<and> 1 \<le> cf_payloadMaxBytes cf \<and> 1 \<le> cf_publishLimit cf \<and> 1 \<le> cf_windowMs cf \<and>
     1 \<le> cf_ipLimit cf \<and> 1 \<le> cf_roomLimit cf \<and> 1 \<le> cf_maxWsSessions cf \<and> 1 \<le> cf_maxClockSkewSec cf \<and>
     1 \<le> cf_nonceTtlSec cf \<and> 1 \<le> cf_maxNonces cf \<and> 1 \<le> cf_presenceTtlSec cf \<and>
     cf_wsPingMs cf < cf_wsIdleMs cf \<and> 1 \<le> cf_maxHops cf \<and> 1 \<le> cf_maxRecords cf \<and>
     okeys (cf_roomTokens cf) \<and> js_trim (cf_nodeId cf) = cf_nodeId cf \<and> cf_nodeId cf \<noteq> []"

lemma clamped_ge: "lo \<le> clamped lo raw d"
  by (simp add: clamped_def)

lemma node_id_trimmed:
  assumes "\<forall>c\<in>set uuid. \<not> is_space c"
  shows "js_trim (normalizeRelayNodeId uuid raw) = normalizeRelayNodeId uuid raw \<and> normalizeRelayNodeId uuid raw \<noteq> []"
proof -
  have "\<forall>c\<in>set (generateRelayNodeId uuid). \<not> is_space c"
    using assms by (auto simp: generateRelayNodeId_def is_space_def dest!: in_set_takeD)
  then have "js_trim (generateRelayNodeId uuid) = generateRelayNodeId uuid"
    by (intro js_trim_id) auto
  then show ?thesis by (simp add: normalizeRelayNodeId_def Let_def generateRelayNodeId_def)
qed

lemma relay_config_ok:
  assumes "\<forall>c\<in>set uuid. \<not> is_space c"
  shows "config_ok (relay_config_of uuid o')"
proof -
  have "1 \<le> nat (clamped 1 raw d)" for raw d
    using clamped_ge [of 1 raw d] by linarith
  moreover have "x < clamped (x + 1000) raw d" for x raw d
    using clamped_ge [of "x + 1000" raw d] by linarith
  ultimately show ?thesis
    by (simp add: config_ok_def relay_config_of_def Let_def clamped_ge parseRoomTokens_okeys
        node_id_trimmed [OF assms])
qed

text \<open>The default configuration of a node named by the UUID \<open>0000\<close>, computed.\<close>

definition demo_config :: relay_config where
  "demo_config =
     \<lparr>cf_authToken = [], cf_peerAuthToken = [], cf_roomTokens = [], cf_maxMessages = 1000,
      cf_payloadMaxBytes = 65536, cf_publishLimit = 30, cf_windowMs = 60000, cf_ipLimit = 60,
      cf_roomLimit = 60, cf_maxWsSessions = 100, cf_requireSignatures = True, cf_maxClockSkewSec = 300,
      cf_nonceTtlSec = 600, cf_maxNonces = 2048, cf_presenceTtlSec = 60, cf_wsPingMs = 30000,
      cf_wsIdleMs = 90000, cf_nodeId = ''relay-0000'', cf_peers = [],
      cf_repository = \<lparr>md_repoId = None, md_owner = None, md_name = None, md_recentCommits = []\<rparr>,
      cf_maxHops = 3, cf_maxRecords = 10000, cf_webhookSecret = [], cf_issueSource = LastWrite\<rparr>"

lemma clamped_default: "lo \<le> d \<Longrightarrow> clamped lo None d = d"
  by (simp add: clamped_def del: of_int_numeral)

lemma demo_config_computed: "demo_config = relay_config_of ''0000'' no_options"
  by (simp add: demo_config_def relay_config_of_def no_options_def clamped_default Let_def
      normalizeAuthToken_def or_empty_def parseRoomTokens_def option_or_def normalizeRelayNodeId_def
      generateRelayNodeId_def normalizePeerRelayUrls_def dedupe_def normalizeRepositoryMetadata_def
      normalizeRepositoryToken_def normalizeRepositoryCommits_def to_lower_def)

lemma demo_config_ok: "config_ok demo_config"
  unfolding demo_config_computed by (rule relay_config_ok) (simp add: is_space_def)

end
