(* ===== verification/Identity.thy ===== *)
theory Identity
  imports Relay_Config GitHub_Keys
begin

text \<open>
  Sender identity in \<open>src/memory_handler.ts\<close>: the trust-on-first-use key registry, the nonces
  already used by each sender, the signature check of publish and review, the key endpoints
  (\<open>handleKeyInfo\<close>, \<open>handleKeyRotate\<close>, \<open>handleKeyVerifyGitHub\<close>), and \<open>identitySnapshot\<close> with
  \<open>restoreIdentity\<close>. The checks that run before the asynchronous signature verification and the
  commit that runs after it are separate definitions, because other requests can run between
  them.
\<close>

section \<open>State\<close>

datatype key_status = KeyActive | KeyRevoked

record key_record =
  kr_publicKey :: string
  kr_status :: key_status
  kr_firstSeenAt :: js_num
  kr_lastSeenAt :: js_num
  kr_rotatedAt :: "js_num option"
  kr_revokedAt :: "js_num option"
  kr_githubUsername :: "string option"
  kr_githubVerifiedAt :: "js_num option"

type_synonym nonce_map = "(string, int) omap"

record identity =
  id_keys :: "(string, key_record) omap"
  id_nonces :: "(string, nonce_map) omap"

definition no_identity :: identity where
  "no_identity = \<lparr>id_keys = [], id_nonces = []\<rparr>"

definition key_status_text :: "key_status \<Rightarrow> string" where
  "key_status_text s = (case s of KeyActive \<Rightarrow> ''active'' | KeyRevoked \<Rightarrow> ''revoked'')"

section \<open>Nonces\<close>

text \<open>Expired nonces go, then the oldest entries beyond the cap.\<close>

definition pruned_nonces :: "relay_config \<Rightarrow> nonce_map \<Rightarrow> int \<Rightarrow> nonce_map" where
  "pruned_nonces cf m nowSec =
     last_n (cf_maxNonces cf) (filter (\<lambda>(_, ts). \<not> nowSec - ts > cf_nonceTtlSec cf) m)"

definition sender_nonces :: "identity \<Rightarrow> string \<Rightarrow> nonce_map" where
  "sender_nonces idn sender = (case map_of (id_nonces idn) sender of None \<Rightarrow> [] | Some m \<Rightarrow> m)"

definition pruneSenderNonces :: "relay_config \<Rightarrow> identity \<Rightarrow> string \<Rightarrow> int \<Rightarrow> identity" where
  "pruneSenderNonces cf idn sender nowSec =
     idn\<lparr>id_nonces := AList.update sender (pruned_nonces cf (sender_nonces idn sender) nowSec) (id_nonces idn)\<rparr>"

definition isReplayNonce :: "relay_config \<Rightarrow> identity \<Rightarrow> string \<Rightarrow> string \<Rightarrow> int \<Rightarrow> identity \<times> bool" where
  "isReplayNonce cf idn sender nonce nowSec =
     (let idn' = pruneSenderNonces cf idn sender nowSec
      in (idn', map_of (sender_nonces idn' sender) nonce \<noteq> None))"

definition rememberNonce :: "relay_config \<Rightarrow> identity \<Rightarrow> string \<Rightarrow> string \<Rightarrow> int \<Rightarrow> int \<Rightarrow> identity" where
  "rememberNonce cf idn sender nonce ts nowSec =
     (let idn' = pruneSenderNonces cf idn sender nowSec
      in idn'\<lparr>id_nonces := AList.update sender
           (last_n (cf_maxNonces cf) (AList.update nonce ts (sender_nonces idn' sender))) (id_nonces idn')\<rparr>)"

section \<open>Trust on first use\<close>

definition ensureTofuKey :: "identity \<Rightarrow> string \<Rightarrow> string \<Rightarrow> int \<Rightarrow> identity \<times> response option" where
  "ensureTofuKey idn sender publicKey nowSec =
     (case map_of (id_keys idn) sender of
        None \<Rightarrow>
          (idn\<lparr>id_keys := AList.update sender
             \<lparr>kr_publicKey = publicKey, kr_status = KeyActive, kr_firstSeenAt = of_integer nowSec,
              kr_lastSeenAt = of_integer nowSec, kr_rotatedAt = None, kr_revokedAt = None,
              kr_githubUsername = None, kr_githubVerifiedAt = None\<rparr> (id_keys idn)\<rparr>, None)
      | Some record \<Rightarrow>
          if kr_status record \<noteq> KeyActive then (idn, Some (toErrorResponse ''sender key revoked'' 403))
          else if \<not> timingSafeEqual (kr_publicKey record) publicKey
            then (idn, Some (toErrorResponse ''sender key mismatch'' 409))
          else (idn\<lparr>id_keys := AList.update sender (record\<lparr>kr_lastSeenAt := of_integer nowSec\<rparr>) (id_keys idn)\<rparr>, None))"

section \<open>The signature check\<close>

text \<open>
  Before the asynchronous verification: the headers, the clock, the nonce. \<open>Inl\<close> is the error
  response, \<open>Inr None\<close> an unsigned request that is let through.
\<close>

definition signature_precheck ::
    "relay_config \<Rightarrow> bool \<Rightarrow> int \<Rightarrow> identity \<Rightarrow> request \<Rightarrow> string \<Rightarrow> identity \<times> (response + publish_auth option)" where
  "signature_precheck cf required nowSec idn r sender =
     (case parsePublishAuthHeaders r of
        Inl (status, err) \<Rightarrow> (idn, Inl (toErrorResponse err status))
      | Inr None \<Rightarrow>
          if required then (idn, Inl (toErrorResponse ''missing signature headers'' 401)) else (idn, Inr None)
      | Inr (Some auth) \<Rightarrow>
          if \<bar>nowSec - auth_timestampSec auth\<bar> > cf_maxClockSkewSec cf
          then (idn, Inl (toErrorResponse ''stale signature timestamp'' 401))
          else let res = isReplayNonce cf idn sender (auth_nonce auth) nowSec
            in if snd res then (fst res, Inl (toErrorResponse ''replayed nonce'' 409))
               else (fst res, Inr (Some auth)))"

text \<open>After it: the registry and the nonce.\<close>

definition signature_commit ::
    "relay_config \<Rightarrow> int \<Rightarrow> identity \<Rightarrow> string \<Rightarrow> publish_auth \<Rightarrow> identity \<times> response option" where
  "signature_commit cf nowSec idn sender auth =
     (let res = ensureTofuKey idn sender (auth_publicKey auth) nowSec
      in case snd res of
          Some err \<Rightarrow> (fst res, Some err)
        | None \<Rightarrow> (rememberNonce cf (fst res) sender (auth_nonce auth) (auth_timestampSec auth) nowSec, None))"

definition publish_message :: "relay_env \<Rightarrow> publish_auth \<Rightarrow> string \<Rightarrow> string \<Rightarrow> string \<Rightarrow> string \<Rightarrow> json \<Rightarrow> string" where
  "publish_message env auth sender room eid topic payload =
     buildPublishSigningMessage sender room eid topic (auth_timestampSec auth) (auth_nonce auth)
       (sha256Hex (digest env) (canonicalizeJson (num_text env) payload))"

definition signature_verified :: "relay_env \<Rightarrow> publish_auth \<Rightarrow> string \<Rightarrow> bool" where
  "signature_verified env auth message =
     verifyEd25519Signature (ed25519 env) (auth_publicKey auth) message (auth_signature auth)"

definition handleSignatureVerification ::
    "relay_config \<Rightarrow> relay_env \<Rightarrow> identity \<Rightarrow> request \<Rightarrow> string \<Rightarrow> string \<Rightarrow> string \<Rightarrow> string \<Rightarrow> json \<Rightarrow>
     identity \<times> (response + string option)" where
  "handleSignatureVerification cf env idn r sender room eid topic payload =
     (let nowSec = nowEpochSec (body_ms env);
          pre = signature_precheck cf (cf_requireSignatures cf) nowSec idn r sender
      in case snd pre of
          Inl err \<Rightarrow> (fst pre, Inl err)
        | Inr None \<Rightarrow> (fst pre, Inr None)
        | Inr (Some auth) \<Rightarrow>
            if \<not> signature_verified env auth (publish_message env auth sender room eid topic payload)
            then (fst pre, Inl (toErrorResponse ''invalid signature'' 401))
            else let com = signature_commit cf nowSec (fst pre) sender auth
              in case snd com of
                  Some err \<Rightarrow> (fst com, Inl err)
                | None \<Rightarrow> (fst com, Inr (Some (auth_signature auth))))"

section \<open>The key endpoints\<close>

definition key_json :: "key_record \<Rightarrow> json" where
  "key_json k = JObj
     [(''public_key'', JStr (kr_publicKey k)), (''status'', JStr (key_status_text (kr_status k))),
      (''first_seen_at'', JNum (kr_firstSeenAt k)), (''last_seen_at'', JNum (kr_lastSeenAt k)),
      (''rotated_at'', jnum_opt (kr_rotatedAt k)), (''revoked_at'', jnum_opt (kr_revokedAt k)),
      (''github_username'', jstr_opt (kr_githubUsername k)),
      (''github_verified_at'', jnum_opt (kr_githubVerifiedAt k))]"

definition handleKeyInfo :: "identity \<Rightarrow> request \<Rightarrow> response" where
  "handleKeyInfo idn r =
     (if req_method r \<noteq> ''GET'' then methodNotAllowedResponse
      else let sender = query_trim r ''sender''
        in if sender = [] then toErrorResponse ''missing query: sender'' 400
           else case map_of (id_keys idn) sender of
               None \<Rightarrow> toErrorResponse ''sender key not found'' 404
             | Some record \<Rightarrow>
                 response_json (JObj [(''ok'', JBool True), (''sender'', JStr sender), (''key'', key_json record)]) 200)"

definition body_field :: "json \<Rightarrow> string \<Rightarrow> string" where
  "body_field parsed k = js_trim (str_or_empty (jprop parsed k))"

text \<open>The time of a rotation request: a number is truncated, a string parsed.\<close>

definition rotate_ts :: "json \<Rightarrow> js_num" where
  "rotate_ts parsed =
     (case jprop parsed ''ts'' of
        Some (JNum x) \<Rightarrow> num_trunc x
      | Some (JStr s) \<Rightarrow> js_parse_int s
      | _ \<Rightarrow> NaN)"

record rotate_request =
  ro_sender :: string
  ro_newPublicKey :: string
  ro_ts :: int
  ro_nonce :: string
  ro_oldSignature :: string
  ro_newSignature :: string

definition parse_rotate :: "json \<Rightarrow> response + rotate_request" where
  "parse_rotate parsed =
     (let sender = body_field parsed ''sender'';
          newPublicKey = body_field parsed ''new_public_key'';
          nonce = body_field parsed ''nonce'';
          oldSignature = body_field parsed ''old_signature'';
          newSignature = body_field parsed ''new_signature''
      in if sender = [] then Inl (toErrorResponse ''missing field: sender'' 400)
         else if newPublicKey = [] \<or> \<not> isLikelyBase64Url newPublicKey
           then Inl (toErrorResponse ''invalid field: new_public_key'' 400)
         else case finite_trunc (rotate_ts parsed) of
             None \<Rightarrow> Inl (toErrorResponse ''invalid field: ts'' 400)
           | Some ts \<Rightarrow>
               if ts \<le> 0 then Inl (toErrorResponse ''invalid field: ts'' 400)
               else if nonce = [] \<or> length nonce > 256 then Inl (toErrorResponse ''invalid field: nonce'' 400)
               else if oldSignature = [] \<or> newSignature = [] \<or> \<not> isLikelyBase64Url oldSignature \<or>
                       \<not> isLikelyBase64Url newSignature
                 then Inl (toErrorResponse ''invalid signature payload'' 400)
               else Inr \<lparr>ro_sender = sender, ro_newPublicKey = newPublicKey, ro_ts = ts, ro_nonce = nonce,
                         ro_oldSignature = oldSignature, ro_newSignature = newSignature\<rparr>)"

definition rotate_message :: "rotate_request \<Rightarrow> string" where
  "rotate_message q = buildRotateSigningMessage (ro_sender q) (ro_newPublicKey q) (ro_ts q) (ro_nonce q)"

definition rotated :: "key_record \<Rightarrow> string \<Rightarrow> int \<Rightarrow> key_record" where
  "rotated record newKey nowSec =
     record\<lparr>kr_publicKey := newKey, kr_rotatedAt := Some (of_integer nowSec), kr_lastSeenAt := of_integer nowSec,
            kr_githubUsername := None, kr_githubVerifiedAt := None\<rparr>"

definition rotate_key :: "relay_config \<Rightarrow> relay_env \<Rightarrow> identity \<Rightarrow> rotate_request \<Rightarrow> identity \<times> response" where
  "rotate_key cf env idn q =
     (let nowSec = nowEpochSec (body_ms env); sender = ro_sender q
      in if \<bar>nowSec - ro_ts q\<bar> > cf_maxClockSkewSec cf
         then (idn, toErrorResponse ''stale signature timestamp'' 401)
         else let rep = isReplayNonce cf idn sender (ro_nonce q) nowSec
           in if snd rep then (fst rep, toErrorResponse ''replayed nonce'' 409)
              else case map_of (id_keys (fst rep)) sender of
                  None \<Rightarrow> (fst rep, toErrorResponse ''sender key not found'' 404)
                | Some record \<Rightarrow>
                    if kr_status record \<noteq> KeyActive then (fst rep, toErrorResponse ''sender key revoked'' 403)
                    else if \<not> verifyEd25519Signature (ed25519 env) (kr_publicKey record) (rotate_message q) (ro_oldSignature q)
                      then (fst rep, toErrorResponse ''invalid old signature'' 401)
                    else if \<not> verifyEd25519Signature (ed25519 env) (ro_newPublicKey q) (rotate_message q) (ro_newSignature q)
                      then (fst rep, toErrorResponse ''invalid new signature'' 401)
                    else
                      let idn1 = (fst rep)\<lparr>id_keys := AList.update sender (rotated record (ro_newPublicKey q) nowSec)
                                            (id_keys (fst rep))\<rparr>
                      in (rememberNonce cf idn1 sender (ro_nonce q) (ro_ts q) nowSec,
                          response_json (JObj [(''ok'', JBool True), (''sender'', JStr sender),
                            (''public_key'', JStr (ro_newPublicKey q)), (''rotated_at'', jint nowSec)]) 200))"

definition handleKeyRotate :: "relay_config \<Rightarrow> relay_env \<Rightarrow> identity \<Rightarrow> request \<Rightarrow> identity \<times> response" where
  "handleKeyRotate cf env idn r =
     (if req_method r \<noteq> ''POST'' then (idn, methodNotAllowedResponse)
      else case parse_object (json_parse env) (req_text r) of
          None \<Rightarrow> (idn, toErrorResponse ''invalid json payload'' 400)
        | Some parsed \<Rightarrow>
            (case parse_rotate parsed of
               Inl err \<Rightarrow> (idn, err)
             | Inr q \<Rightarrow> rotate_key cf env idn q))"

definition handleKeyVerifyGitHub :: "relay_env \<Rightarrow> identity \<Rightarrow> request \<Rightarrow> identity \<times> response" where
  "handleKeyVerifyGitHub env idn r =
     (if req_method r \<noteq> ''POST'' then (idn, methodNotAllowedResponse)
      else case parse_object (json_parse env) (req_text r) of
          None \<Rightarrow> (idn, toErrorResponse ''invalid json payload'' 400)
        | Some parsed \<Rightarrow>
            let sender = body_field parsed ''sender''; githubUsername = body_field parsed ''github_username''
            in if sender = [] then (idn, toErrorResponse ''missing field: sender'' 400)
               else if githubUsername = [] then (idn, toErrorResponse ''missing field: github_username'' 400)
               else if sender \<noteq> githubUsername
                 then (idn, toErrorResponse ''sender must match github_username'' 400)
               else case map_of (id_keys idn) sender of
                   None \<Rightarrow> (idn, toErrorResponse ''sender key not found'' 404)
                 | Some record \<Rightarrow>
                     (case fetchGitHubEd25519Keys env githubUsername of
                        Inl err \<Rightarrow> (idn, toErrorResponse (''github key fetch failed: '' @ err) 502)
                      | Inr keys \<Rightarrow>
                          if \<not> matchesGitHubKey (kr_publicKey record) keys
                          then (idn, response_json (JObj [(''ok'', JBool False), (''verified'', JBool False),
                                  (''error'', JStr ''key not found in github keys''), (''sender'', JStr sender),
                                  (''github_username'', JStr githubUsername)]) 200)
                          else let nowSec = nowEpochSec (body_ms env)
                            in (idn\<lparr>id_keys := AList.update sender
                                  (record\<lparr>kr_githubUsername := Some githubUsername,
                                          kr_githubVerifiedAt := Some (of_integer nowSec)\<rparr>) (id_keys idn)\<rparr>,
                                response_json (JObj [(''ok'', JBool True), (''verified'', JBool True),
                                  (''sender'', JStr sender), (''github_username'', JStr githubUsername),
                                  (''github_verified_at'', jint nowSec)]) 200)))"

section \<open>Snapshot and restore\<close>

definition keys_snapshot :: "(string, key_record) omap \<Rightarrow> json" where
  "keys_snapshot keys = JObj (obj_of_map key_json keys)"

definition nonces_snapshot :: "(string, nonce_map) omap \<Rightarrow> json" where
  "nonces_snapshot nonces = JObj (obj_of_map (\<lambda>m. JObj (obj_of_map jint m)) nonces)"

definition identitySnapshot :: "identity \<Rightarrow> json" where
  "identitySnapshot idn =
     JObj [(''keys_by_sender'', keys_snapshot (id_keys idn)), (''nonces_by_sender'', nonces_snapshot (id_nonces idn))]"

definition num_or_zero :: "json option \<Rightarrow> js_num" where
  "num_or_zero v = (case num_opt v of Some x \<Rightarrow> num_trunc x | None \<Rightarrow> of_integer 0)"

definition restored_key :: "string \<Rightarrow> json \<Rightarrow> key_record option" where
  "restored_key sender value =
     (if \<not> is_record value then None
      else let publicKey = body_field value ''public_key''
        in if js_trim sender = [] \<or> publicKey = [] then None
           else Some \<lparr>kr_publicKey = publicKey,
                     kr_status = (if jprop value ''status'' = Some (JStr ''revoked'') then KeyRevoked else KeyActive),
                     kr_firstSeenAt = num_or_zero (jprop value ''first_seen_at''),
                     kr_lastSeenAt = num_or_zero (jprop value ''last_seen_at''),
                     kr_rotatedAt = map_option num_trunc (num_opt (jprop value ''rotated_at'')),
                     kr_revokedAt = map_option num_trunc (num_opt (jprop value ''revoked_at'')),
                     kr_githubUsername = str_opt (jprop value ''github_username''),
                     kr_githubVerifiedAt = map_option num_trunc (num_opt (jprop value ''github_verified_at''))\<rparr>)"

definition restored_nonce :: "relay_config \<Rightarrow> int \<Rightarrow> string \<Rightarrow> json \<Rightarrow> int option" where
  "restored_nonce cf nowSec nonce tsRaw =
     (if js_trim nonce = [] then None
      else case finite_int_opt (Some tsRaw) of
          None \<Rightarrow> None
        | Some ts \<Rightarrow> if nowSec - ts > cf_nonceTtlSec cf then None else Some ts)"

definition restored_sender_nonces :: "relay_config \<Rightarrow> int \<Rightarrow> string \<Rightarrow> json \<Rightarrow> nonce_map option" where
  "restored_sender_nonces cf nowSec sender value =
     (if \<not> is_record value then None
      else let m = map_of_entries (restored_nonce cf nowSec) (members value)
        in if m = [] then None else Some m)"

definition restore_keys :: "json \<Rightarrow> (string, key_record) omap" where
  "restore_keys data =
     (case jprop data ''keys_by_sender'' of
        Some (JObj kvs) \<Rightarrow> map_of_entries restored_key kvs
      | _ \<Rightarrow> [])"

definition restore_nonces :: "relay_config \<Rightarrow> int \<Rightarrow> json \<Rightarrow> (string, nonce_map) omap" where
  "restore_nonces cf nowSec data =
     (case jprop data ''nonces_by_sender'' of
        Some (JObj kvs) \<Rightarrow> map_of_entries (restored_sender_nonces cf nowSec) kvs
      | _ \<Rightarrow> [])"

text \<open>Both tables are cleared first, so the old state does not matter.\<close>

definition restoreIdentity :: "relay_config \<Rightarrow> int \<Rightarrow> json \<Rightarrow> identity" where
  "restoreIdentity cf nowSec data =
     (if \<not> is_record data then no_identity
      else \<lparr>id_keys = restore_keys data, id_nonces = restore_nonces cf nowSec data\<rparr>)"

section \<open>The identity invariant\<close>

definition key_ok :: "key_record \<Rightarrow> bool" where
  "key_ok k \<longleftrightarrow> kr_publicKey k \<noteq> [] \<and> js_trim (kr_publicKey k) = kr_publicKey k \<and>
     whole_num (kr_firstSeenAt k) \<and> whole_num (kr_lastSeenAt k) \<and>
     (\<forall>x\<in>set_option (kr_rotatedAt k). whole_num x) \<and> (\<forall>x\<in>set_option (kr_revokedAt k). whole_num x) \<and>
     (\<forall>x\<in>set_option (kr_githubVerifiedAt k). whole_num x)"

definition nonce_map_ok :: "nonce_map \<Rightarrow> bool" where
  "nonce_map_ok m \<longleftrightarrow> okeys m \<and> (\<forall>n\<in>fst ` set m. js_trim n \<noteq> [])"

definition identity_ok :: "identity \<Rightarrow> bool" where
  "identity_ok idn \<longleftrightarrow>
     okeys (id_keys idn) \<and> (\<forall>p\<in>set (id_keys idn). js_trim (fst p) \<noteq> [] \<and> key_ok (snd p)) \<and>
     okeys (id_nonces idn) \<and> (\<forall>p\<in>set (id_nonces idn). nonce_map_ok (snd p))"

text \<open>
  The nonce tables are bounded once a sender has been pruned; \<open>restoreIdentity\<close> takes any number,
  so the bound is a statement about the senders touched since.
\<close>

definition nonces_bounded :: "relay_config \<Rightarrow> identity \<Rightarrow> string \<Rightarrow> bool" where
  "nonces_bounded cf idn sender \<longleftrightarrow> length (sender_nonces idn sender) \<le> cf_maxNonces cf"

lemma no_identity_ok [simp]: "identity_ok no_identity"
  by (simp add: identity_ok_def no_identity_def)

lemma okeys_last_n [simp, intro]: "okeys m \<Longrightarrow> okeys (last_n n m)"
  by (simp add: last_n_def okeys_drop)

lemma nonce_map_ok_last_n [simp]: "nonce_map_ok m \<Longrightarrow> nonce_map_ok (last_n n m)"
  using set_last_n [of n m] by (auto simp: nonce_map_ok_def)

lemma nonce_map_ok_filter [simp]: "nonce_map_ok m \<Longrightarrow> nonce_map_ok (filter P m)"
  by (auto simp: nonce_map_ok_def)

lemma nonce_map_ok_pruned [simp]: "nonce_map_ok m \<Longrightarrow> nonce_map_ok (pruned_nonces cf m now)"
  by (simp add: pruned_nonces_def)

lemma nonce_map_ok_update [simp]: "nonce_map_ok m \<Longrightarrow> js_trim n \<noteq> [] \<Longrightarrow> nonce_map_ok (AList.update n t m)"
  by (auto simp: nonce_map_ok_def dest!: set_update_cases)

lemma identity_ok_sender_nonces: "identity_ok idn \<Longrightarrow> nonce_map_ok (sender_nonces idn sender)"
  by (fastforce simp: identity_ok_def sender_nonces_def nonce_map_ok_def dest: map_of_SomeD split: option.splits)

lemma identity_ok_set_nonces:
  "identity_ok idn \<Longrightarrow> nonce_map_ok m \<Longrightarrow> identity_ok (idn\<lparr>id_nonces := AList.update sender m (id_nonces idn)\<rparr>)"
  by (auto simp: identity_ok_def dest!: set_update_cases)

lemma identity_ok_set_key:
  "identity_ok idn \<Longrightarrow> js_trim sender \<noteq> [] \<Longrightarrow> key_ok k \<Longrightarrow>
   identity_ok (idn\<lparr>id_keys := AList.update sender k (id_keys idn)\<rparr>)"
  by (auto simp: identity_ok_def dest!: set_update_cases)

lemma identity_ok_key: "identity_ok idn \<Longrightarrow> map_of (id_keys idn) s = Some k \<Longrightarrow> key_ok k"
  by (fastforce simp: identity_ok_def dest: map_of_SomeD)

lemma pruneSenderNonces_ok [inv_intros]: "identity_ok idn \<Longrightarrow> identity_ok (pruneSenderNonces cf idn sender now)"
  unfolding pruneSenderNonces_def
  by (rule identity_ok_set_nonces) (simp_all add: identity_ok_sender_nonces)

lemma isReplayNonce_ok [inv_intros]: "identity_ok idn \<Longrightarrow> identity_ok (fst (isReplayNonce cf idn sender n now))"
  by (simp add: isReplayNonce_def Let_def pruneSenderNonces_ok)

lemma rememberNonce_ok [inv_intros]:
  "identity_ok idn \<Longrightarrow> js_trim n \<noteq> [] \<Longrightarrow> identity_ok (rememberNonce cf idn sender n ts now)"
  unfolding rememberNonce_def Let_def
  by (rule identity_ok_set_nonces) (simp_all add: pruneSenderNonces_ok identity_ok_sender_nonces)

lemma sender_nonces_simps [simp]:
  "sender_nonces (pruneSenderNonces cf idn s now) s = pruned_nonces cf (sender_nonces idn s) now"
  "s' \<noteq> s \<Longrightarrow> sender_nonces (pruneSenderNonces cf idn s now) s' = sender_nonces idn s'"
  "sender_nonces (fst (isReplayNonce cf idn s n now)) s' = sender_nonces (pruneSenderNonces cf idn s now) s'"
  "sender_nonces (rememberNonce cf idn s n t now) s =
     last_n (cf_maxNonces cf) (AList.update n t (pruned_nonces cf (sender_nonces idn s) now))"
  "s' \<noteq> s \<Longrightarrow> sender_nonces (rememberNonce cf idn s n t now) s' = sender_nonces idn s'"
  by (simp_all add: pruneSenderNonces_def rememberNonce_def isReplayNonce_def sender_nonces_def Let_def)

lemma id_keys_nonce_ops [simp]:
  "id_keys (pruneSenderNonces cf idn s now) = id_keys idn"
  "id_keys (fst (isReplayNonce cf idn s n now)) = id_keys idn"
  "id_keys (rememberNonce cf idn s n t now) = id_keys idn"
  by (simp_all add: pruneSenderNonces_def rememberNonce_def isReplayNonce_def Let_def)

lemma nonces_bounded_prune: "nonces_bounded cf (pruneSenderNonces cf idn s now) s"
  by (simp add: nonces_bounded_def pruned_nonces_def)

lemma nonces_bounded_remember: "nonces_bounded cf (rememberNonce cf idn s n t now) s"
  by (simp add: nonces_bounded_def)

lemma key_ok_new:
  "js_trim pk = pk \<Longrightarrow> pk \<noteq> [] \<Longrightarrow>
   key_ok \<lparr>kr_publicKey = pk, kr_status = st, kr_firstSeenAt = of_integer a, kr_lastSeenAt = of_integer b,
     kr_rotatedAt = None, kr_revokedAt = None, kr_githubUsername = None, kr_githubVerifiedAt = None\<rparr>"
  by (simp add: key_ok_def)

lemma ensureTofuKey_ok [inv_intros]:
  assumes "identity_ok idn" "js_trim sender \<noteq> []" "js_trim pk = pk" "pk \<noteq> []"
  shows "identity_ok (fst (ensureTofuKey idn sender pk now))"
proof (cases "map_of (id_keys idn) sender")
  case None
  then show ?thesis
    using assms by (simp add: ensureTofuKey_def identity_ok_set_key key_ok_new)
next
  case (Some k)
  then have "key_ok (k\<lparr>kr_lastSeenAt := of_integer now\<rparr>)"
    using identity_ok_key [OF assms(1) Some] by (simp add: key_ok_def)
  then show ?thesis
    using assms Some by (simp add: ensureTofuKey_def identity_ok_set_key)
qed

lemma header_trim_trimmed [simp]: "js_trim (header_trim r h) = header_trim r h"
  by (simp add: header_trim_def)

lemma query_trim_clean: "query_trim r h \<noteq> [] \<Longrightarrow> clean (query_trim r h)"
  by (simp add: query_trim_def clean_js_trim)

lemma query_trim_trimmed [simp]: "js_trim (query_trim r h) = query_trim r h"
  by (simp add: query_trim_def)

lemma auth_headers_trimmed:
  assumes "parsePublishAuthHeaders r = Inr (Some a)"
  shows "js_trim (auth_publicKey a) = auth_publicKey a" "auth_publicKey a \<noteq> []"
    "js_trim (auth_nonce a) = auth_nonce a" "auth_nonce a \<noteq> []"
  using assms by (auto simp: parsePublishAuthHeaders_def Let_def split: if_splits option.splits)

lemma signature_precheck_ok [inv_intros]:
  "identity_ok idn \<Longrightarrow> identity_ok (fst (signature_precheck cf req now idn r sender))"
  by (simp add: signature_precheck_def Let_def isReplayNonce_ok split: sum.splits option.splits prod.splits)

lemma signature_precheck_keys [simp]: "id_keys (fst (signature_precheck cf req now idn r sender)) = id_keys idn"
  by (simp add: signature_precheck_def Let_def split: sum.splits option.splits prod.splits)

lemma signature_precheck_auth:
  assumes "snd (signature_precheck cf req now idn r sender) = Inr (Some a)"
  shows "parsePublishAuthHeaders r = Inr (Some a)" "\<bar>now - auth_timestampSec a\<bar> \<le> cf_maxClockSkewSec cf"
    "map_of (pruned_nonces cf (sender_nonces idn sender) now) (auth_nonce a) = None"
    "fst (signature_precheck cf req now idn r sender) = pruneSenderNonces cf idn sender now"
  using assms
  by (auto simp: signature_precheck_def Let_def isReplayNonce_def split: sum.splits option.splits prod.splits if_splits)

lemma signature_commit_ok [inv_intros]:
  assumes "identity_ok idn" "js_trim sender \<noteq> []" "parsePublishAuthHeaders r = Inr (Some a)"
  shows "identity_ok (fst (signature_commit cf now idn sender a))"
proof -
  note a = auth_headers_trimmed [OF assms(3)]
  have "identity_ok (fst (ensureTofuKey idn sender (auth_publicKey a) now))"
    using assms a by (intro ensureTofuKey_ok) auto
  then show ?thesis
    using a by (simp add: signature_commit_def Let_def rememberNonce_ok split: option.splits)
qed

lemma handleSignatureVerification_ok [inv_intros]:
  assumes "identity_ok idn" "js_trim sender \<noteq> []"
  shows "identity_ok (fst (handleSignatureVerification cf env idn r sender room eid topic payload))"
proof -
  let ?now = "nowEpochSec (body_ms env)"
  let ?pre = "signature_precheck cf (cf_requireSignatures cf) ?now idn r sender"
  have pre: "identity_ok (fst ?pre)" by (rule signature_precheck_ok) (rule assms(1))
  have "identity_ok (fst (signature_commit cf ?now (fst ?pre) sender a))" if "snd ?pre = Inr (Some a)" for a
    using pre assms(2) signature_precheck_auth(1) [OF that] by (rule signature_commit_ok)
  then show ?thesis
    using pre by (auto simp: handleSignatureVerification_def Let_def split: sum.splits option.splits)
qed

lemma parse_rotate_fields:
  assumes "parse_rotate parsed = Inr q"
  shows "ro_sender q \<noteq> []" "js_trim (ro_sender q) = ro_sender q" "ro_newPublicKey q \<noteq> []"
    "js_trim (ro_newPublicKey q) = ro_newPublicKey q" "js_trim (ro_nonce q) \<noteq> []"
  using assms by (auto simp: parse_rotate_def Let_def body_field_def split: if_splits option.splits)

lemma rotated_ok: "key_ok k \<Longrightarrow> js_trim pk = pk \<Longrightarrow> pk \<noteq> [] \<Longrightarrow> key_ok (rotated k pk now)"
  by (simp add: key_ok_def rotated_def)

lemma rotate_key_ok:
  assumes "identity_ok idn" "parse_rotate parsed = Inr q"
  shows "identity_ok (fst (rotate_key cf env idn q))"
proof -
  note q = parse_rotate_fields [OF assms(2)]
  let ?now = "nowEpochSec (body_ms env)"
  let ?rep = "isReplayNonce cf idn (ro_sender q) (ro_nonce q) ?now"
  have rep: "identity_ok (fst ?rep)" by (rule isReplayNonce_ok) (rule assms(1))
  have "identity_ok (rememberNonce cf ((fst ?rep)\<lparr>id_keys := AList.update (ro_sender q)
      (rotated k (ro_newPublicKey q) ?now) (id_keys (fst ?rep))\<rparr>) (ro_sender q) (ro_nonce q) (ro_ts q) ?now)"
    if "map_of (id_keys (fst ?rep)) (ro_sender q) = Some k" for k
    using rep q that identity_ok_key [OF rep that]
    by (intro rememberNonce_ok identity_ok_set_key rotated_ok) auto
  then show ?thesis
    using rep assms(1) by (auto simp: rotate_key_def Let_def split: option.splits)
qed

lemma handleKeyRotate_ok [inv_intros]: "identity_ok idn \<Longrightarrow> identity_ok (fst (handleKeyRotate cf env idn r))"
  by (auto simp: handleKeyRotate_def intro: rotate_key_ok split: option.splits sum.splits)

lemma handleKeyVerifyGitHub_ok [inv_intros]:
  assumes "identity_ok idn"
  shows "identity_ok (fst (handleKeyVerifyGitHub env idn r))"
proof -
  have "identity_ok (idn\<lparr>id_keys := AList.update s (k\<lparr>kr_githubUsername := Some u, kr_githubVerifiedAt := Some (of_integer t)\<rparr>)
      (id_keys idn)\<rparr>)" if "map_of (id_keys idn) s = Some k" for s k u t
  proof -
    have "(s, k) \<in> set (id_keys idn)" using that by (rule map_of_SomeD)
    then have "js_trim s \<noteq> []" "key_ok k" using assms by (auto simp: identity_ok_def)
    then show ?thesis using assms by (intro identity_ok_set_key) (auto simp: key_ok_def)
  qed
  then show ?thesis
    using assms by (simp add: handleKeyVerifyGitHub_def Let_def split: option.split sum.split)
qed

lemma restored_key_ok: "restored_key s v = Some k \<Longrightarrow> js_trim s \<noteq> [] \<and> key_ok k"
  by (auto simp: restored_key_def Let_def key_ok_def body_field_def num_or_zero_def
      split: if_splits option.splits)

lemma restored_nonces_ok:
  assumes "restored_sender_nonces cf now s v = Some m"
  shows "nonce_map_ok m"
proof -
  have m: "m = map_of_entries (restored_nonce cf now) (members v)"
    using assms by (auto simp: restored_sender_nonces_def Let_def split: if_splits)
  have "js_trim n \<noteq> []" if "n \<in> fst ` set m" for n
    using that set_map_of_entries [of _ "restored_nonce cf now" "members v"]
    by (fastforce simp: m restored_nonce_def split: if_splits)
  then show ?thesis by (simp add: nonce_map_ok_def m okeys_map_of_entries_any)
qed

lemma restoreIdentity_ok [inv_intros]: "identity_ok (restoreIdentity cf now data)"
  using set_map_of_entries [of _ restored_key] set_map_of_entries [of _ "restored_sender_nonces cf now"]
  by (fastforce simp: restoreIdentity_def identity_ok_def restore_keys_def restore_nonces_def no_identity_def
      okeys_map_of_entries_any dest: restored_key_ok restored_nonces_ok split: option.splits json.splits)

section \<open>Authenticity\<close>

lemma ensureTofuKey_accepts:
  assumes "snd (ensureTofuKey idn sender pk now) = None"
  shows "\<exists>k. map_of (id_keys (fst (ensureTofuKey idn sender pk now))) sender = Some k \<and>
      kr_status k = KeyActive \<and> kr_publicKey k = pk"
    and "map_of (id_keys idn) sender = Some k0 \<Longrightarrow> kr_publicKey k0 = pk \<and> kr_status k0 = KeyActive"
  using assms by (auto simp: ensureTofuKey_def timingSafeEqual_iff split: option.splits if_splits)

lemma ensureTofuKey_keeps:
  "map_of (id_keys idn) s = Some k \<Longrightarrow>
   \<exists>k'. map_of (id_keys (fst (ensureTofuKey idn sender pk now))) s = Some k' \<and> kr_publicKey k' = kr_publicKey k"
  by (auto simp: ensureTofuKey_def split: option.splits)

lemma ensureTofuKey_nonces [simp]: "id_nonces (fst (ensureTofuKey idn sender pk now)) = id_nonces idn"
  by (simp add: ensureTofuKey_def split: option.splits)

lemma signature_commit_keys [simp]:
  "id_keys (fst (signature_commit cf now idn sender a)) = id_keys (fst (ensureTofuKey idn sender (auth_publicKey a) now))"
  by (simp add: signature_commit_def Let_def split: option.splits)

lemma signature_commit_None:
  "snd (signature_commit cf now idn sender a) = None \<longleftrightarrow> snd (ensureTofuKey idn sender (auth_publicKey a) now) = None"
  by (simp add: signature_commit_def Let_def split: option.splits)

lemma verification_accepted:
  assumes "snd (handleSignatureVerification cf env idn r sender room eid topic payload) = Inr (Some sig)"
  obtains a where
    "snd (signature_precheck cf (cf_requireSignatures cf) (nowEpochSec (body_ms env)) idn r sender) = Inr (Some a)"
    "sig = auth_signature a" "signature_verified env a (publish_message env a sender room eid topic payload)"
    "snd (ensureTofuKey (pruneSenderNonces cf idn sender (nowEpochSec (body_ms env))) sender (auth_publicKey a)
       (nowEpochSec (body_ms env))) = None"
    "fst (handleSignatureVerification cf env idn r sender room eid topic payload) =
       rememberNonce cf (fst (ensureTofuKey (pruneSenderNonces cf idn sender (nowEpochSec (body_ms env))) sender
         (auth_publicKey a) (nowEpochSec (body_ms env)))) sender (auth_nonce a) (auth_timestampSec a)
         (nowEpochSec (body_ms env))"
proof -
  let ?now = "nowEpochSec (body_ms env)"
  let ?pre = "signature_precheck cf (cf_requireSignatures cf) ?now idn r sender"
  obtain a where a: "snd ?pre = Inr (Some a)"
    using assms by (auto simp: handleSignatureVerification_def Let_def split: sum.splits option.splits if_splits)
  note pre = signature_precheck_auth(4) [OF a]
  have ver: "signature_verified env a (publish_message env a sender room eid topic payload)"
    and com: "snd (signature_commit cf ?now (pruneSenderNonces cf idn sender ?now) sender a) = None"
    and sg: "sig = auth_signature a"
    using assms by (auto simp: handleSignatureVerification_def Let_def a pre split: option.splits if_splits)
  have fin: "fst (handleSignatureVerification cf env idn r sender room eid topic payload) =
      fst (signature_commit cf ?now (pruneSenderNonces cf idn sender ?now) sender a)"
    using ver com by (simp add: handleSignatureVerification_def Let_def a pre)
  show thesis
    by (rule that [OF a sg ver]) (use com fin in \<open>simp_all add: signature_commit_def Let_def split: option.splits\<close>)
qed

text \<open>
  Claim C1. A publish whose signature check succeeds with a signature is authentic: the headers
  carry a key, a nonce and a time within the allowed skew, the signature verifies under that key
  over the message built from sender, room, id, topic, time, nonce and the payload's digest, the
  sender's registered key is that key and active, and if the sender was known before, its key
  was already that one.
\<close>

theorem accepted_publish_is_authentic:
  assumes "handleSignatureVerification cf env idn r sender room eid topic payload = (idn', Inr (Some sig))"
  shows "\<exists>a. parsePublishAuthHeaders r = Inr (Some a) \<and> sig = auth_signature a \<and>
    \<bar>nowEpochSec (body_ms env) - auth_timestampSec a\<bar> \<le> cf_maxClockSkewSec cf \<and>
    verifyEd25519Signature (ed25519 env) (auth_publicKey a)
      (buildPublishSigningMessage sender room eid topic (auth_timestampSec a) (auth_nonce a)
        (sha256Hex (digest env) (canonicalizeJson (num_text env) payload))) sig \<and>
    (\<exists>k. map_of (id_keys idn') sender = Some k \<and> kr_publicKey k = auth_publicKey a \<and> kr_status k = KeyActive) \<and>
    (\<forall>k0. map_of (id_keys idn) sender = Some k0 \<longrightarrow> kr_publicKey k0 = auth_publicKey a \<and> kr_status k0 = KeyActive)"
proof -
  let ?now = "nowEpochSec (body_ms env)"
  have s: "snd (handleSignatureVerification cf env idn r sender room eid topic payload) = Inr (Some sig)"
    and f: "idn' = fst (handleSignatureVerification cf env idn r sender room eid topic payload)"
    using assms by simp_all
  obtain a where a: "snd (signature_precheck cf (cf_requireSignatures cf) ?now idn r sender) = Inr (Some a)"
    and sg: "sig = auth_signature a"
    and ver: "signature_verified env a (publish_message env a sender room eid topic payload)"
    and tofu: "snd (ensureTofuKey (pruneSenderNonces cf idn sender ?now) sender (auth_publicKey a) ?now) = None"
    and fin: "fst (handleSignatureVerification cf env idn r sender room eid topic payload) =
      rememberNonce cf (fst (ensureTofuKey (pruneSenderNonces cf idn sender ?now) sender (auth_publicKey a) ?now))
        sender (auth_nonce a) (auth_timestampSec a) ?now"
    using verification_accepted [OF s] by blast
  show ?thesis
    using signature_precheck_auth(1,2) [OF a] sg ver ensureTofuKey_accepts [OF tofu]
    unfolding f fin signature_verified_def publish_message_def by auto
qed

definition demo_publish :: "string \<Rightarrow> string \<Rightarrow> request" where
  "demo_publish ts nonce = demo_request ''POST'' ''/api/v1/publish'' [] (signed_headers ts nonce)"

definition demo_verify :: "int \<Rightarrow> identity \<Rightarrow> string \<Rightarrow> identity \<times> (response + string option)" where
  "demo_verify ms idn nonce =
     handleSignatureVerification demo_config (demo_env ms JNull) idn (demo_publish ''1000'' nonce) ''alice'' ''main''
       ''m1'' ''notify'' JNull"

lemma demo_verify_accepts: "snd (demo_verify 1000000 no_identity ''n1'') = Inr (Some ''AAAA'')"
  by code_simp

theorem accepted_publish_is_authentic_witness:
  "\<exists>a. parsePublishAuthHeaders (demo_publish ''1000'' ''n1'') = Inr (Some a) \<and> ''AAAA'' = auth_signature a"
proof -
  have "handleSignatureVerification demo_config (demo_env 1000000 JNull) no_identity (demo_publish ''1000'' ''n1'')
      ''alice'' ''main'' ''m1'' ''notify'' JNull = (fst (demo_verify 1000000 no_identity ''n1''), Inr (Some ''AAAA''))"
    using demo_verify_accepts by (metis demo_verify_def prod.collapse)
  from accepted_publish_is_authentic [OF this] show ?thesis by blast
qed

end
