(* ===== verification/Identity_Facts.thy ===== *)
theory Identity_Facts
  imports Identity
begin

text \<open>
  What the identity component of \<open>Identity\<close> promises beyond its invariant: a signed request is
  not accepted twice, only a rotation under both keys changes a key, and a snapshot with a
  restore keeps keys and live nonces.
\<close>


section \<open>Replays\<close>

text \<open>The nonce is in the sender's table, with at most \<open>a\<close> newer entries behind it.\<close>

definition remembered :: "identity \<Rightarrow> string \<Rightarrow> string \<Rightarrow> int \<Rightarrow> nat \<Rightarrow> bool" where
  "remembered idn s n ts a \<longleftrightarrow>
     (\<exists>xs ys. sender_nonces idn s = xs @ (n, ts) # ys \<and> n \<notin> fst ` set xs \<and> length ys \<le> a)"

lemma update_append:
  "AList.update k v (xs @ ys) =
    (if k \<in> fst ` set xs then AList.update k v xs @ ys else xs @ AList.update k v ys)"
  by (induction xs) auto

lemma last_n_keeps:
  assumes "length ys < m"
  shows "\<exists>xs'. last_n m (xs @ p # ys) = xs' @ p # ys \<and> set xs' \<subseteq> set xs"
proof -
  have "length (xs @ p # ys) - m \<le> length xs" using assms by simp
  then have "last_n m (xs @ p # ys) = drop (length (xs @ p # ys) - m) xs @ p # ys"
    by (simp add: last_n_def)
  then show ?thesis using set_drop_subset [of "length (xs @ p # ys) - m" xs] by blast
qed

lemma remembered_pruned:
  assumes "sender_nonces idn s = xs @ (n, ts) # ys" "n \<notin> fst ` set xs" "length ys \<le> a" "a < cf_maxNonces cf"
    and "now - ts \<le> cf_nonceTtlSec cf"
  shows "\<exists>xs' ys'. pruned_nonces cf (sender_nonces idn s) now = xs' @ (n, ts) # ys' \<and>
    n \<notin> fst ` set xs' \<and> length ys' \<le> a"
proof -
  let ?f = "filter (\<lambda>(_, ts). \<not> now - ts > cf_nonceTtlSec cf)"
  have "length (?f ys) < cf_maxNonces cf"
    by (rule le_less_trans [OF length_filter_le le_less_trans [OF assms(3,4)]])
  from last_n_keeps [OF this, of "?f xs" "(n, ts)"]
  obtain xs' where "last_n (cf_maxNonces cf) (?f xs @ (n, ts) # ?f ys) = xs' @ (n, ts) # ?f ys"
    and "set xs' \<subseteq> set (?f xs)" by blast
  moreover have "length (?f ys) \<le> a"
    using assms(3) by (rule order_trans [OF length_filter_le])
  ultimately show ?thesis
    using assms(1,2,5) unfolding pruned_nonces_def by (fastforce simp: image_iff)
qed

lemma remembered_prune:
  assumes "remembered idn s n ts a" "a < cf_maxNonces cf" "now - ts \<le> cf_nonceTtlSec cf"
  shows "remembered (pruneSenderNonces cf idn s now) s n ts a"
  using assms remembered_pruned unfolding remembered_def by (metis sender_nonces_simps(1))

lemma remembered_replay:
  assumes "remembered idn s n ts a" "a < cf_maxNonces cf" "now - ts \<le> cf_nonceTtlSec cf"
  shows "map_of (pruned_nonces cf (sender_nonces idn s) now) n = Some ts"
proof -
  obtain xs' ys' where "pruned_nonces cf (sender_nonces idn s) now = xs' @ (n, ts) # ys'" "n \<notin> fst ` set xs'"
    using assms remembered_pruned unfolding remembered_def by blast
  moreover from this have "map_of xs' n = None" by (simp add: map_of_eq_None_iff)
  ultimately show ?thesis by (simp add: map_add_def)
qed

lemma remembered_remember:
  assumes "remembered idn s n ts a" "Suc a < cf_maxNonces cf" "now - ts \<le> cf_nonceTtlSec cf" "n' \<noteq> n"
  shows "remembered (rememberNonce cf idn s n' t' now) s n ts (Suc a)"
proof -
  obtain xs ys where m: "pruned_nonces cf (sender_nonces idn s) now = xs @ (n, ts) # ys"
    and n: "n \<notin> fst ` set xs" and len: "length ys \<le> a"
    using assms remembered_pruned unfolding remembered_def by (metis Suc_lessD)
  let ?xs = "if n' \<in> fst ` set xs then AList.update n' t' xs else xs"
  let ?ys = "if n' \<in> fst ` set xs then ys else AList.update n' t' ys"
  have u: "AList.update n' t' (xs @ (n, ts) # ys) = ?xs @ (n, ts) # ?ys"
    using assms(4) by (simp add: update_append)
  have ys: "length ?ys \<le> Suc a" using len by (simp add: length_update)
  have xs: "n \<notin> fst ` set ?xs" using n assms(4) by (auto dest!: set_update_cases)
  have "length ?ys < cf_maxNonces cf" using ys assms(2) by simp
  from last_n_keeps [OF this, of ?xs "(n, ts)"]
  obtain xs' where "last_n (cf_maxNonces cf) (?xs @ (n, ts) # ?ys) = xs' @ (n, ts) # ?ys" "set xs' \<subseteq> set ?xs"
    by blast
  then show ?thesis
    unfolding remembered_def sender_nonces_simps m u using ys xs by blast
qed

lemma remembered_new:
  assumes "map_of (pruned_nonces cf (sender_nonces idn s) now) n = None" "1 \<le> cf_maxNonces cf"
  shows "remembered (rememberNonce cf idn s n ts now) s n ts 0"
proof -
  let ?m = "pruned_nonces cf (sender_nonces idn s) now"
  have "n \<notin> fst ` set ?m" using assms(1) by (simp add: map_of_eq_None_iff)
  then have u: "AList.update n ts ?m = ?m @ [(n, ts)]"
    using update_append [of n ts ?m "[]"] by simp
  have "length [] < cf_maxNonces cf" using assms(2) by simp
  from last_n_keeps [OF this, of ?m "(n, ts)"] show ?thesis
    unfolding remembered_def sender_nonces_simps u using \<open>n \<notin> fst ` set ?m\<close> by fastforce
qed


lemma pruned_nonces_none: "map_of m n = None \<Longrightarrow> map_of (pruned_nonces cf m now) n = None"
  using set_last_n [of "cf_maxNonces cf" "filter (\<lambda>(_, ts). \<not> now - ts > cf_nonceTtlSec cf) m"]
  unfolding map_of_eq_None_iff pruned_nonces_def by (meson filter_is_subset image_mono subset_iff)

lemma nonces_only:
  "id_nonces i = id_nonces j \<Longrightarrow> sender_nonces i s = sender_nonces j s"
  "id_nonces i = id_nonces j \<Longrightarrow> remembered i s n ts a = remembered j s n ts a"
  "id_nonces i = id_nonces j \<Longrightarrow> id_nonces (rememberNonce cf i s n ts now) = id_nonces (rememberNonce cf j s n ts now)"
  by (simp_all add: sender_nonces_def remembered_def rememberNonce_def pruneSenderNonces_def Let_def)

lemma remembered_mono: "remembered i s n ts a \<Longrightarrow> a \<le> b \<Longrightarrow> remembered i s n ts b"
  unfolding remembered_def using order_trans by blast

lemma remembered_other:
  "s' \<noteq> s \<Longrightarrow> remembered (pruneSenderNonces cf i s' now) s n ts a = remembered i s n ts a"
  "s' \<noteq> s \<Longrightarrow> remembered (rememberNonce cf i s' n' t' now) s n ts a = remembered i s n ts a"
  by (simp_all add: remembered_def)

lemma signature_commit_nonces:
  "id_nonces (fst (signature_commit cf now i s a)) =
    (if snd (ensureTofuKey i s (auth_publicKey a) now) = None
     then id_nonces (rememberNonce cf i s (auth_nonce a) (auth_timestampSec a) now) else id_nonces i)"
  using nonces_only(3) [of "fst (ensureTofuKey i s (auth_publicKey a) now)" i]
  by (simp add: signature_commit_def Let_def split: option.splits)

lemma verification_nonces:
  fixes cf env idn r sender room eid topic payload
  defines "now \<equiv> nowEpochSec (body_ms env)"
    and "idn' \<equiv> fst (handleSignatureVerification cf env idn r sender room eid topic payload)"
  shows "id_nonces idn' = id_nonces idn \<or> id_nonces idn' = id_nonces (pruneSenderNonces cf idn sender now) \<or>
    (\<exists>n' t'. map_of (pruned_nonces cf (sender_nonces idn sender) now) n' = None \<and>
       id_nonces idn' = id_nonces (rememberNonce cf (pruneSenderNonces cf idn sender now) sender n' t' now))"
proof (cases "snd (signature_precheck cf (cf_requireSignatures cf) now idn r sender)")
  case (Inl e)
  then have "idn' = fst (signature_precheck cf (cf_requireSignatures cf) now idn r sender)"
    by (simp add: idn'_def handleSignatureVerification_def now_def Let_def)
  then show ?thesis
    by (simp add: signature_precheck_def isReplayNonce_def Let_def split: sum.splits option.splits prod.splits)
next
  case (Inr b)
  show ?thesis
  proof (cases b)
    case None
    then have "idn' = fst (signature_precheck cf (cf_requireSignatures cf) now idn r sender)"
      using Inr by (simp add: idn'_def handleSignatureVerification_def now_def Let_def)
    then show ?thesis
      by (simp add: signature_precheck_def isReplayNonce_def Let_def split: sum.splits option.splits prod.splits)
  next
    case (Some a)
    with Inr have pre: "snd (signature_precheck cf (cf_requireSignatures cf) now idn r sender) = Inr (Some a)" by simp
    note fresh = signature_precheck_auth(3) [OF pre] and st = signature_precheck_auth(4) [OF pre]
    let ?p = "pruneSenderNonces cf idn sender now"
    have "idn' = ?p \<or> idn' = fst (signature_commit cf now ?p sender a)"
      using pre st by (simp add: idn'_def handleSignatureVerification_def now_def Let_def split: option.splits)
    then have "id_nonces idn' = id_nonces ?p \<or>
        id_nonces idn' = id_nonces (rememberNonce cf ?p sender (auth_nonce a) (auth_timestampSec a) now)"
      by (auto simp: signature_commit_nonces)
    then show ?thesis using fresh by blast
  qed
qed

type_synonym verify_call = "relay_env \<times> request \<times> string \<times> string \<times> string \<times> string \<times> json"

fun run_verification :: "relay_config \<Rightarrow> identity \<Rightarrow> verify_call \<Rightarrow> identity \<times> (response + string option)" where
  "run_verification cf idn (env, r, sender, room, eid, topic, payload) =
     handleSignatureVerification cf env idn r sender room eid topic payload"

fun call_sender :: "verify_call \<Rightarrow> string" where
  "call_sender (env, r, sender, room, eid, topic, payload) = sender"

fun call_now :: "verify_call \<Rightarrow> int" where
  "call_now (env, r, sender, room, eid, topic, payload) = nowEpochSec (body_ms env)"

fun call_request :: "verify_call \<Rightarrow> request" where
  "call_request (env, r, sender, room, eid, topic, payload) = r"

definition run_verifications :: "relay_config \<Rightarrow> identity \<Rightarrow> verify_call list \<Rightarrow> identity" where
  "run_verifications cf idn calls = foldl (\<lambda>i c. fst (run_verification cf i c)) idn calls"

lemma remembered_call:
  assumes "remembered idn s n ts a" "a + (if call_sender c = s then 1 else 0) < cf_maxNonces cf"
    and "call_now c - ts \<le> cf_nonceTtlSec cf"
  shows "remembered (fst (run_verification cf idn c)) s n ts (a + (if call_sender c = s then 1 else 0))"
proof -
  obtain env r s' room eid topic payload where c: "c = (env, r, s', room, eid, topic, payload)"
    by (cases c) auto
  let ?now = "nowEpochSec (body_ms env)" and ?res = "fst (run_verification cf idn c)"
  have now: "?now - ts \<le> cf_nonceTtlSec cf" and a: "a < cf_maxNonces cf" using assms c by auto
  consider "id_nonces ?res = id_nonces idn" | "id_nonces ?res = id_nonces (pruneSenderNonces cf idn s' ?now)"
    | n' t' where "map_of (pruned_nonces cf (sender_nonces idn s') ?now) n' = None"
      "id_nonces ?res = id_nonces (rememberNonce cf (pruneSenderNonces cf idn s' ?now) s' n' t' ?now)"
    using verification_nonces [of cf env idn r s' room eid topic payload] unfolding c run_verification.simps by blast
  then show ?thesis
  proof cases
    case 1
    then show ?thesis using nonces_only(2) [OF 1] assms(1) remembered_mono by (metis le_add1)
  next
    case 2
    have "remembered (pruneSenderNonces cf idn s' ?now) s n ts a"
      using assms(1) remembered_prune [OF assms(1) a now] remembered_other(1) by (cases "s' = s") auto
    then show ?thesis using nonces_only(2) [OF 2] remembered_mono by (metis le_add1)
  next
    case 3
    show ?thesis
    proof (cases "s' = s")
      case True
      then have "n' \<noteq> n" using 3(1) remembered_replay [OF assms(1) a now] by auto
      moreover have "Suc a < cf_maxNonces cf" using assms(2) True c by simp
      ultimately have "remembered (rememberNonce cf (pruneSenderNonces cf idn s ?now) s n' t' ?now) s n ts (Suc a)"
        using remembered_remember [OF remembered_prune [OF assms(1) a now]] now by blast
      then show ?thesis using nonces_only(2) [OF 3(2)] True c by simp
    next
      case False
      then show ?thesis using nonces_only(2) [OF 3(2)] assms(1) c by (simp add: remembered_other)
    qed
  qed
qed

lemma remembered_run:
  assumes "remembered idn s n ts a" "a + length (filter (\<lambda>c. call_sender c = s) calls) < cf_maxNonces cf"
    and "\<forall>c\<in>set calls. call_now c - ts \<le> cf_nonceTtlSec cf"
  shows "remembered (run_verifications cf idn calls) s n ts (a + length (filter (\<lambda>c. call_sender c = s) calls))"
  using assms
proof (induction calls arbitrary: idn a)
  case (Cons c calls)
  let ?k = "if call_sender c = s then 1 else 0 :: nat"
  have "remembered (fst (run_verification cf idn c)) s n ts (a + ?k)"
    using Cons.prems by (intro remembered_call) (auto split: if_splits)
  then have "remembered (run_verifications cf (fst (run_verification cf idn c)) calls) s n ts
      (a + ?k + length (filter (\<lambda>c. call_sender c = s) calls))"
    using Cons.prems by (intro Cons.IH) (auto split: if_splits)
  then show ?case by (simp add: run_verifications_def split: if_splits)
qed (simp add: run_verifications_def)

text \<open>
  Claim C3. A signed request is accepted once. After an accepted request of a sender, whatever
  requests are checked in between (fewer than the nonce cap of that sender's own, none later
  than the replay), a request of the same sender that repeats its nonce and its time is refused,
  as long as nonces are kept at least as long as the allowed skew.
\<close>

theorem replay_is_refused:
  assumes "cf_maxClockSkewSec cf \<le> cf_nonceTtlSec cf" "1 \<le> cf_maxNonces cf"
    and "snd (run_verification cf idn first) = Inr (Some sig)"
    and "parsePublishAuthHeaders (call_request first) = Inr (Some a)"
    and "parsePublishAuthHeaders (call_request again) = Inr (Some b)"
    and "call_sender again = call_sender first" "auth_nonce b = auth_nonce a"
      "auth_timestampSec b = auth_timestampSec a"
    and "length (filter (\<lambda>c. call_sender c = call_sender first) calls) < cf_maxNonces cf"
    and "\<forall>c\<in>set calls. call_now c \<le> call_now again"
  shows "\<exists>err. snd (run_verification cf (run_verifications cf (fst (run_verification cf idn first)) calls) again) = Inl err
    \<and> (resp_status err = 401 \<or> resp_status err = 409)"
proof -
  obtain env r s room eid topic payload where f: "first = (env, r, s, room, eid, topic, payload)"
    by (cases first) auto
  obtain env2 r2 s2 room2 eid2 topic2 payload2 where g: "again = (env2, r2, s2, room2, eid2, topic2, payload2)"
    by (cases again) auto
  have s2: "s2 = s" using assms(6) f g by simp
  let ?now = "nowEpochSec (body_ms env)" and ?now2 = "nowEpochSec (body_ms env2)"
  let ?i1 = "fst (run_verification cf idn first)"
  let ?i2 = "run_verifications cf ?i1 calls"
  have acc: "snd (handleSignatureVerification cf env idn r s room eid topic payload) = Inr (Some sig)"
    using assms(3) f by simp
  obtain a' where pre: "snd (signature_precheck cf (cf_requireSignatures cf) ?now idn r s) = Inr (Some a')"
    and tofu: "snd (ensureTofuKey (pruneSenderNonces cf idn s ?now) s (auth_publicKey a') ?now) = None"
    and fin: "?i1 = rememberNonce cf (fst (ensureTofuKey (pruneSenderNonces cf idn s ?now) s (auth_publicKey a') ?now))
        s (auth_nonce a') (auth_timestampSec a') ?now"
    using verification_accepted [OF acc] f by auto
  have a': "a' = a" using signature_precheck_auth(1) [OF pre] assms(4) f by simp
  show ?thesis
  proof (cases "\<bar>?now2 - auth_timestampSec b\<bar> > cf_maxClockSkewSec cf")
    case True
    then show ?thesis
      using assms(5) g
      by (simp add: handleSignatureVerification_def signature_precheck_def toErrorResponse_def response_json_def Let_def)
  next
    case False
    have near: "t \<le> ?now2 \<Longrightarrow> t - auth_timestampSec a \<le> cf_nonceTtlSec cf" for t
      using False assms(1,8) by linarith
    let ?p = "pruneSenderNonces cf idn s ?now"
    have tn: "sender_nonces (fst (ensureTofuKey ?p s (auth_publicKey a) ?now)) s = sender_nonces ?p s"
      by (rule nonces_only(1)) simp
    have "map_of (pruned_nonces cf (pruned_nonces cf (sender_nonces idn s) ?now) ?now) (auth_nonce a) = None"
      using signature_precheck_auth(3) [OF pre] pruned_nonces_none by (simp add: a')
    then have "remembered ?i1 s (auth_nonce a) (auth_timestampSec a) 0"
      unfolding fin a' using assms(2) by (intro remembered_new) (simp_all add: tn)
    moreover have "\<forall>c\<in>set calls. call_now c - auth_timestampSec a \<le> cf_nonceTtlSec cf"
      using assms(10) near g by auto
    ultimately have "remembered ?i2 s (auth_nonce a) (auth_timestampSec a) (length (filter (\<lambda>c. call_sender c = s) calls))"
      using remembered_run [of ?i1 s "auth_nonce a" "auth_timestampSec a" 0 calls cf] assms(9) f by simp
    then have "map_of (pruned_nonces cf (sender_nonces ?i2 s) ?now2) (auth_nonce a) = Some (auth_timestampSec a)"
      by (rule remembered_replay) (use assms(9) f near in auto)
    then show ?thesis
      using False assms(5,7) g s2
      by (simp add: handleSignatureVerification_def signature_precheck_def isReplayNonce_def toErrorResponse_def
          response_json_def Let_def)
  qed
qed

definition demo_call :: "int \<Rightarrow> string \<Rightarrow> verify_call" where
  "demo_call ms nonce = (demo_env ms JNull, demo_publish ''1000'' nonce, ''alice'', ''main'', ''m1'', ''notify'', JNull)"

lemma demo_call_auth: "parsePublishAuthHeaders (call_request (demo_call 1000000 ''n1'')) =
    Inr (Some \<lparr>auth_publicKey = ''AAAA'', auth_signature = ''AAAA'', auth_timestampSec = 1000, auth_nonce = ''n1''\<rparr>)"
  by code_simp

theorem replay_is_refused_witness:
  "\<exists>err. snd (run_verification demo_config (run_verifications demo_config
       (fst (run_verification demo_config no_identity (demo_call 1000000 ''n1''))) [demo_call 1000000 ''n2''])
     (demo_call 1000000 ''n1'')) = Inl err \<and> (resp_status err = 401 \<or> resp_status err = 409)"
proof (rule replay_is_refused [OF _ _ _ demo_call_auth demo_call_auth])
  show "snd (run_verification demo_config no_identity (demo_call 1000000 ''n1'')) = Inr (Some ''AAAA'')"
    using demo_verify_accepts by (simp add: demo_call_def demo_verify_def)
qed (simp_all add: demo_config_def demo_call_def)



section \<open>Rotation\<close>

lemma rotate_key_keys:
  "id_keys (fst (rotate_key cf env idn q)) =
    (case map_of (id_keys idn) (ro_sender q) of
       None \<Rightarrow> id_keys idn
     | Some k \<Rightarrow>
         if resp_status (snd (rotate_key cf env idn q)) = 200 then
           AList.update (ro_sender q) (rotated k (ro_newPublicKey q) (nowEpochSec (body_ms env))) (id_keys idn)
         else id_keys idn)"
  by (auto simp: rotate_key_def Let_def toErrorResponse_def response_json_def split: option.split)

lemma rotate_key_verified:
  assumes "resp_status (snd (rotate_key cf env idn q)) = 200" "map_of (id_keys idn) (ro_sender q) = Some k"
  shows "kr_status k = KeyActive"
    "verifyEd25519Signature (ed25519 env) (kr_publicKey k) (rotate_message q) (ro_oldSignature q)"
    "verifyEd25519Signature (ed25519 env) (ro_newPublicKey q) (rotate_message q) (ro_newSignature q)"
  using assms
  by (auto simp: rotate_key_def Let_def toErrorResponse_def response_json_def split: if_splits)

lemma handleKeyRotate_cases:
  "id_keys (fst (handleKeyRotate cf env idn r)) = id_keys idn \<or>
   (\<exists>parsed q. parse_object (json_parse env) (req_text r) = Some parsed \<and> parse_rotate parsed = Inr q \<and>
      handleKeyRotate cf env idn r = rotate_key cf env idn q)"
  by (auto simp: handleKeyRotate_def split: option.split sum.split)

text \<open>
  Claim C19. Only a rotation signed by both keys changes a registered key: when the key of a
  sender differs after a rotation request, the request named that sender and the new key, the
  old key was active, the request's message verifies under the old and under the new key, and
  the answer is a success.
\<close>

theorem rotation_needs_both_keys:
  assumes "map_of (id_keys idn) s = Some k"
    and "map_of (id_keys (fst (handleKeyRotate cf env idn r))) s = Some k'"
    and "kr_publicKey k' \<noteq> kr_publicKey k"
  shows "\<exists>parsed q. parse_object (json_parse env) (req_text r) = Some parsed \<and> parse_rotate parsed = Inr q \<and>
    ro_sender q = s \<and> ro_newPublicKey q = kr_publicKey k' \<and> kr_status k = KeyActive \<and>
    resp_status (snd (handleKeyRotate cf env idn r)) = 200 \<and>
    verifyEd25519Signature (ed25519 env) (kr_publicKey k) (rotate_message q) (ro_oldSignature q) \<and>
    verifyEd25519Signature (ed25519 env) (kr_publicKey k') (rotate_message q) (ro_newSignature q)"
proof -
  obtain parsed q where q: "parse_object (json_parse env) (req_text r) = Some parsed" "parse_rotate parsed = Inr q"
    and rot: "handleKeyRotate cf env idn r = rotate_key cf env idn q"
    using handleKeyRotate_cases [of cf env idn r] assms by fastforce
  have "ro_sender q = s \<and> resp_status (snd (rotate_key cf env idn q)) = 200 \<and> ro_newPublicKey q = kr_publicKey k'"
    using assms unfolding rot rotate_key_keys
    by (auto simp: rotated_def split: option.splits if_splits)
  then show ?thesis
    using q rot rotate_key_verified [of cf env idn q k] assms(1) by auto
qed

definition rotate_body :: json where
  "rotate_body = JObj [(''sender'', JStr ''alice''), (''new_public_key'', JStr ''BBBB''), (''ts'', jint 1000),
     (''nonce'', JStr ''r1''), (''old_signature'', JStr ''AAAA''), (''new_signature'', JStr ''BBBB'')]"

definition alice_key :: key_record where
  "alice_key = \<lparr>kr_publicKey = ''AAAA'', kr_status = KeyActive, kr_firstSeenAt = of_integer 1,
     kr_lastSeenAt = of_integer 1, kr_rotatedAt = None, kr_revokedAt = None, kr_githubUsername = None,
     kr_githubVerifiedAt = None\<rparr>"

definition alice_identity :: identity where
  "alice_identity = \<lparr>id_keys = [(''alice'', alice_key)], id_nonces = []\<rparr>"

lemma rotate_demo: "map_option kr_publicKey (map_of (id_keys (fst (handleKeyRotate demo_config
    (demo_env 1000000 rotate_body) alice_identity (demo_request ''POST'' ''/'' [] [])))) ''alice'') = Some ''BBBB''"
  by code_simp

theorem rotation_needs_both_keys_witness:
  "resp_status (snd (handleKeyRotate demo_config (demo_env 1000000 rotate_body) alice_identity
     (demo_request ''POST'' ''/'' [] []))) = 200"
proof -
  obtain k' where k': "map_of (id_keys (fst (handleKeyRotate demo_config (demo_env 1000000 rotate_body)
      alice_identity (demo_request ''POST'' ''/'' [] [])))) ''alice'' = Some k'" "kr_publicKey k' = ''BBBB''"
    using rotate_demo by auto
  have a: "map_of (id_keys alice_identity) ''alice'' = Some alice_key"
    by (simp add: alice_identity_def)
  show ?thesis
    using rotation_needs_both_keys [OF a k'(1)] k'(2) by (auto simp: alice_key_def)
qed

section \<open>Persistence of the identity\<close>

lemma restored_key_json:
  assumes "key_ok k" "js_trim s \<noteq> []"
  shows "restored_key s (key_json k) = Some k"
proof -
  have opt: "map_option num_trunc (num_opt (Some (jnum_opt x))) = x" if "\<forall>y\<in>set_option x. whole_num y" for x
    using that by (cases x) (simp_all add: jnum_opt_def whole_num_def)
  have st: "(if key_status_text (kr_status k) = ''revoked'' then KeyRevoked else KeyActive) = kr_status k"
    by (cases "kr_status k") (simp_all add: key_status_text_def)
  have str: "str_opt (Some (jstr_opt x)) = x" for x
    by (cases x) (simp_all add: jstr_opt_def)
  show ?thesis
    using assms
    by (simp add: restored_key_def key_json_def body_field_def Let_def opt st str key_ok_def num_or_zero_def whole_num_def)
qed

lemma keys_roundtrip:
  assumes "identity_ok idn"
  shows "map_of (map_of_entries restored_key (obj_of_map key_json (id_keys idn))) s =
    (if s = ''__proto__'' then None else map_of (id_keys idn) s)"
proof -
  have "Option.bind (map_option key_json (map_of (id_keys idn) s)) (restored_key s) = map_of (id_keys idn) s"
  proof (cases "map_of (id_keys idn) s")
    case (Some k)
    then have "key_ok k" "js_trim s \<noteq> []"
      using assms by (fastforce simp: identity_ok_def dest: map_of_SomeD)+
    then show ?thesis by (simp add: Some restored_key_json)
  qed simp
  moreover have "okeys (id_keys idn)" using assms by (simp add: identity_ok_def)
  ultimately show ?thesis
    by (simp add: map_of_map_of_entries okeys_obj_of_map map_of_obj_of_map)
qed

definition live_nonces :: "relay_config \<Rightarrow> int \<Rightarrow> nonce_map \<Rightarrow> string \<Rightarrow> int option" where
  "live_nonces cf now m n =
     (if n = ''__proto__'' then None
      else case map_of m n of None \<Rightarrow> None | Some ts \<Rightarrow> if now - ts > cf_nonceTtlSec cf then None else Some ts)"

lemma nonce_map_roundtrip:
  assumes "nonce_map_ok m"
  shows "map_of (map_of_entries (restored_nonce cf now) (obj_of_map jint m)) n = live_nonces cf now m n"
proof -
  have ok: "okeys m" using assms by (simp add: nonce_map_ok_def)
  have "js_trim n \<noteq> []" if "map_of m n = Some ts" for ts
    using assms that by (fastforce simp: nonce_map_ok_def dest: map_of_SomeD)
  then show ?thesis
    by (auto simp: map_of_map_of_entries okeys_obj_of_map [OF ok] map_of_obj_of_map [OF ok] live_nonces_def
        restored_nonce_def split: option.splits)
qed

lemma nonces_roundtrip:
  assumes "identity_ok idn"
  shows "map_of (case map_of (map_of_entries (restored_sender_nonces cf now)
      (obj_of_map (\<lambda>m. JObj (obj_of_map jint m)) (id_nonces idn))) s of None \<Rightarrow> [] | Some m \<Rightarrow> m) n =
    (if s = ''__proto__'' then None else live_nonces cf now (sender_nonces idn s) n)"
proof -
  have ok: "okeys (id_nonces idn)" using assms by (simp add: identity_ok_def)
  show ?thesis
  proof (cases "map_of (id_nonces idn) s")
    case None
    then show ?thesis
      by (simp add: map_of_map_of_entries okeys_obj_of_map [OF ok] map_of_obj_of_map [OF ok] sender_nonces_def live_nonces_def)
  next
    case (Some m)
    then have "nonce_map_ok m"
      using assms by (fastforce simp: identity_ok_def dest: map_of_SomeD)
    note rt = nonce_map_roundtrip [OF this, of cf now n]
    let ?r = "map_of_entries (restored_nonce cf now) (obj_of_map jint m)"
    have "?r = [] \<Longrightarrow> live_nonces cf now m n = None" using rt by simp
    then show ?thesis
      using Some rt
      by (simp add: map_of_map_of_entries okeys_obj_of_map [OF ok] map_of_obj_of_map [OF ok] sender_nonces_def
          restored_sender_nonces_def Let_def)
  qed
qed

text \<open>
  Restoring an identity snapshot gives back every registered key unchanged and every
  nonce that has not expired, except for what is filed under the name \<open>__proto__\<close>, which the
  snapshot loses.
\<close>

theorem identity_snapshot_roundtrip:
  assumes "identity_ok idn"
  shows "map_of (id_keys (restoreIdentity cf now (identitySnapshot idn))) s =
      (if s = ''__proto__'' then None else map_of (id_keys idn) s) \<and>
    map_of (sender_nonces (restoreIdentity cf now (identitySnapshot idn)) s) n =
      (if s = ''__proto__'' then None else live_nonces cf now (sender_nonces idn s) n)"
  using keys_roundtrip [OF assms, of s] nonces_roundtrip [OF assms, of cf now s n]
  by (simp add: restoreIdentity_def identitySnapshot_def restore_keys_def restore_nonces_def keys_snapshot_def
      nonces_snapshot_def sender_nonces_def)

theorem identity_snapshot_roundtrip_witness:
  "map_of (id_keys (restoreIdentity demo_config 5 (identitySnapshot alice_identity))) ''alice'' = Some alice_key"
proof -
  have "identity_ok alice_identity"
    by code_simp
  from identity_snapshot_roundtrip [OF this, of demo_config 5 "''alice''"] show ?thesis
    by (simp add: alice_identity_def)
qed

text \<open>
  The sender name \<open>__proto__\<close> loses its trust on first use at a restart: after its key
  is registered, a snapshot and a restore, a different key is accepted for it.
\<close>

theorem proto_sender_loses_key:
  assumes "identity_ok idn"
  shows "snd (ensureTofuKey (restoreIdentity cf now (identitySnapshot idn)) ''__proto__'' anyKey later) = None"
proof -
  have "map_of (id_keys (restoreIdentity cf now (identitySnapshot idn))) ''__proto__'' = None"
    using keys_roundtrip [OF assms, of "''__proto__''"]
    by (simp add: restoreIdentity_def identitySnapshot_def restore_keys_def keys_snapshot_def)
  then show ?thesis by (simp add: ensureTofuKey_def)
qed

definition proto_identity :: identity where
  "proto_identity = \<lparr>id_keys = [(''__proto__'', alice_key)], id_nonces = []\<rparr>"

theorem proto_sender_loses_key_witness:
  "snd (ensureTofuKey proto_identity ''__proto__'' ''BBBB'' 6) \<noteq> None \<and>
   snd (ensureTofuKey (restoreIdentity demo_config 5 (identitySnapshot proto_identity)) ''__proto__'' ''BBBB'' 6) = None"
proof -
  have "identity_ok proto_identity" by code_simp
  moreover have "snd (ensureTofuKey proto_identity ''__proto__'' ''BBBB'' 6) \<noteq> None" by code_simp
  ultimately show ?thesis using proto_sender_loses_key by blast
qed

end
