(* ===== verification/Cache_Exchange.thy ===== *)
theory Cache_Exchange
  imports Rooms
begin

text \<open>
  The cache exchange between relays: \<open>src/cache_exchange.ts\<close> (parsing an incoming entry,
  classifying a collision, selecting the entries of a pull) and the bounded record log that
  \<open>src/memory_handler.ts\<close> keeps for it (\<open>appendCacheExchangeRecord\<close>, \<open>recordCacheExchange\<close>).
\<close>

section \<open>Data\<close>

record exchange_record =
  xr_cursor :: int
  xr_envelope :: envelope
  xr_origin :: string
  xr_hopCount :: int
  xr_maxHops :: int

record exchange_entry =
  xe_cursor :: int
  xe_room :: string
  xe_id :: string
  xe_sender :: string
  xe_topic :: string
  xe_payload :: json
  xe_signature :: "string option"
  xe_origin :: string
  xe_hop_count :: int
  xe_max_hops :: int

record incoming_entry =
  in_room :: string
  in_id :: string
  in_sender :: string
  in_topic :: string
  in_payload :: json
  in_signature :: "string option"
  in_origin :: string
  in_hopCount :: int
  in_maxHops :: int

datatype collision = Duplicate | Conflict

section \<open>Parsing an incoming entry\<close>

definition asString :: "json option \<Rightarrow> string option" where
  "asString v = (case v of Some (JStr s) \<Rightarrow> if js_trim s \<noteq> [] then Some (js_trim s) else None | _ \<Rightarrow> None)"

definition asNonNegativeInt :: "json option \<Rightarrow> int option" where
  "asNonNegativeInt v =
     (case finite_int_opt v of Some t \<Rightarrow> if t < 0 then None else Some t | None \<Rightarrow> None)"

definition normalizeSignature :: "json option \<Rightarrow> string option" where
  "normalizeSignature v = (case v of Some (JStr s) \<Rightarrow> if js_trim s \<noteq> [] then Some (js_trim s) else None | _ \<Rightarrow> None)"

definition parseIncomingCacheExchangeEntry :: "json \<Rightarrow> int \<Rightarrow> string + incoming_entry" where
  "parseIncomingCacheExchangeEntry value defaultMaxHops =
     (if \<not> is_record value then Inl ''entry must be object''
      else
        need ''invalid room'' (asString (jprop value ''room'')) (\<lambda>room.
        need ''invalid id'' (asString (jprop value ''id'')) (\<lambda>eid.
        need ''invalid sender'' (asString (jprop value ''sender'')) (\<lambda>sender.
        need ''invalid topic'' (asString (jprop value ''topic'')) (\<lambda>topic.
        need ''invalid payload'' (jprop value ''payload'') (\<lambda>payload.
        need ''invalid origin'' (asString (jprop value ''origin'')) (\<lambda>origin.
        need ''invalid hop_count'' (asNonNegativeInt (jprop value ''hop_count'')) (\<lambda>hopCount.
          let maxHops = (case asNonNegativeInt (jprop value ''max_hops'') of None \<Rightarrow> defaultMaxHops | Some m \<Rightarrow> m)
          in if maxHops < 1 then Inl ''invalid max_hops''
             else Inr \<lparr>in_room = room, in_id = eid, in_sender = sender, in_topic = topic, in_payload = payload,
                       in_signature = normalizeSignature (jprop value ''signature''), in_origin = origin,
                       in_hopCount = hopCount, in_maxHops = maxHops\<rparr>))))))))"

section \<open>Collisions\<close>

definition envelopeCanonicalSignature :: "(rat \<Rightarrow> string) \<Rightarrow> envelope \<Rightarrow> string" where
  "envelopeCanonicalSignature ns e =
     join newline [env_sender e, env_topic e, canonicalizeJson ns (env_payload e), or_empty (env_signature e)]"

definition classifyCacheExchangeCollision :: "(rat \<Rightarrow> string) \<Rightarrow> envelope \<Rightarrow> envelope \<Rightarrow> collision" where
  "classifyCacheExchangeCollision ns existing incoming =
     (if envelopeCanonicalSignature ns existing = envelopeCanonicalSignature ns incoming then Duplicate else Conflict)"

section \<open>Selecting the entries of a pull\<close>

definition entry_of :: "exchange_record \<Rightarrow> exchange_entry" where
  "entry_of r =
     \<lparr>xe_cursor = xr_cursor r, xe_room = env_room (xr_envelope r), xe_id = env_id (xr_envelope r),
      xe_sender = env_sender (xr_envelope r), xe_topic = env_topic (xr_envelope r),
      xe_payload = env_payload (xr_envelope r), xe_signature = env_signature (xr_envelope r),
      xe_origin = xr_origin r, xe_hop_count = xr_hopCount r + 1, xe_max_hops = xr_maxHops r\<rparr>"

text \<open>A filter that is \<open>null\<close> or empty does not apply.\<close>

definition filter_excludes :: "string option \<Rightarrow> (string \<Rightarrow> bool) \<Rightarrow> bool" where
  "filter_excludes f P = (case f of None \<Rightarrow> False | Some s \<Rightarrow> s \<noteq> [] \<and> P s)"

fun select_loop ::
    "int \<Rightarrow> int \<Rightarrow> string option \<Rightarrow> string option \<Rightarrow> exchange_record list \<Rightarrow> exchange_entry list \<Rightarrow> int \<Rightarrow>
     exchange_entry list \<times> int" where
  "select_loop after limit peer room [] entries nextCursor = (entries, nextCursor)"
| "select_loop after limit peer room (r # rs) entries nextCursor =
     (if xr_cursor r \<le> after then select_loop after limit peer room rs entries nextCursor
      else if filter_excludes room (\<lambda>s. env_room (xr_envelope r) \<noteq> s)
        then select_loop after limit peer room rs entries (xr_cursor r)
      else if filter_excludes peer (\<lambda>s. xr_origin r = s)
        then select_loop after limit peer room rs entries (xr_cursor r)
      else if xr_hopCount r \<ge> xr_maxHops r
        then select_loop after limit peer room rs entries (xr_cursor r)
      else if int (length (entries @ [entry_of r])) \<ge> limit then (entries @ [entry_of r], xr_cursor r)
      else select_loop after limit peer room rs (entries @ [entry_of r]) (xr_cursor r))"

definition selectCacheExchangeEntries ::
    "exchange_record list \<Rightarrow> int \<Rightarrow> int \<Rightarrow> string option \<Rightarrow> string option \<Rightarrow> exchange_entry list \<times> int" where
  "selectCacheExchangeEntries records after limit peer room =
     select_loop after (max 1 limit) peer room records [] (max 0 after)"

section \<open>The record log\<close>

record exchange =
  ex_records :: "exchange_record list"
  ex_cursor :: int

definition no_exchange :: exchange where
  "no_exchange = \<lparr>ex_records = [], ex_cursor = 0\<rparr>"

definition appendCacheExchangeRecord :: "nat \<Rightarrow> exchange \<Rightarrow> exchange_record \<Rightarrow> exchange" where
  "appendCacheExchangeRecord cap ex r = ex\<lparr>ex_records := last_n cap (ex_records ex @ [r])\<rparr>"

definition recordCacheExchange :: "nat \<Rightarrow> exchange \<Rightarrow> envelope \<Rightarrow> string \<Rightarrow> int \<Rightarrow> int \<Rightarrow> exchange" where
  "recordCacheExchange cap ex e origin hopCount maxHops =
     (let cursor = ex_cursor ex + 1
      in appendCacheExchangeRecord cap (ex\<lparr>ex_cursor := cursor\<rparr>)
           \<lparr>xr_cursor = cursor, xr_envelope = e, xr_origin = origin, xr_hopCount = hopCount, xr_maxHops = maxHops\<rparr>)"

interpretation exchange_log: bounded_log "appendCacheExchangeRecord cap" ex_records cap for cap
  by unfold_locales (simp add: appendCacheExchangeRecord_def)

text \<open>
  The log is bounded, its cursors increase and stay below the counter, and every record may
  still travel.
\<close>

definition record_ok :: "exchange_record \<Rightarrow> bool" where
  "record_ok r \<longleftrightarrow> message_ok (xr_envelope r) \<and>
     js_trim (xr_origin r) = xr_origin r \<and> xr_origin r \<noteq> [] \<and>
     0 < xr_cursor r \<and> 0 \<le> xr_hopCount r \<and> xr_hopCount r < xr_maxHops r"

definition exchange_ok :: "nat \<Rightarrow> exchange \<Rightarrow> bool" where
  "exchange_ok cap ex \<longleftrightarrow>
     length (ex_records ex) \<le> cap \<and> 0 \<le> ex_cursor ex \<and>
     sorted_wrt (<) (map xr_cursor (ex_records ex)) \<and>
     (\<forall>r\<in>set (ex_records ex). xr_cursor r \<le> ex_cursor ex \<and> record_ok r)"

lemma no_exchange_ok [simp]: "exchange_ok cap no_exchange"
  by (simp add: exchange_ok_def no_exchange_def)

lemma recordCacheExchange_ok [inv_intros]:
  assumes "exchange_ok cap ex" "0 \<le> hop" "hop < mx" "message_ok e"
    and "js_trim origin = origin" "origin \<noteq> []"
  shows "exchange_ok cap (recordCacheExchange cap ex e origin hop mx)"
proof -
  let ?c = "ex_cursor ex + 1"
  let ?r = "\<lparr>xr_cursor = ?c, xr_envelope = e, xr_origin = origin, xr_hopCount = hop, xr_maxHops = mx\<rparr>"
  have recs: "ex_records (recordCacheExchange cap ex e origin hop mx) = last_n cap (ex_records ex @ [?r])"
    and cur: "ex_cursor (recordCacheExchange cap ex e origin hop mx) = ?c"
    by (simp_all add: recordCacheExchange_def appendCacheExchangeRecord_def Let_def)
  have "sorted_wrt (<) (map xr_cursor (ex_records ex @ [?r]))"
    using assms(1) by (auto simp: exchange_ok_def sorted_wrt_append)
  then have "sorted_wrt (<) (map xr_cursor (last_n cap (ex_records ex @ [?r])))"
    by (rule sorted_map_last_n)
  moreover have "record_ok ?r" using assms by (simp add: record_ok_def exchange_ok_def)
  then have "\<forall>r\<in>set (ex_records ex @ [?r]). xr_cursor r \<le> ?c \<and> record_ok r"
    using assms(1) by (fastforce simp: exchange_ok_def)
  ultimately show ?thesis
    using set_last_n [of cap "ex_records ex @ [?r]"] assms(1)
    unfolding exchange_ok_def recs cur by (auto simp: exchange_ok_def)
qed

lemma asString_trimmed: "asString v = Some s \<Longrightarrow> js_trim s = s \<and> s \<noteq> []"
  by (auto simp: asString_def split: if_splits option.splits json.splits)

lemma asNonNegativeInt_nonneg: "asNonNegativeInt v = Some i \<Longrightarrow> 0 \<le> i"
  by (auto simp: asNonNegativeInt_def split: if_splits option.splits)

lemma parseIncoming_fields:
  assumes "parseIncomingCacheExchangeEntry v d = Inr e"
  shows "0 \<le> in_hopCount e" "1 \<le> in_maxHops e" "js_trim (in_room e) = in_room e" "in_id e \<noteq> []"
    "in_sender e \<noteq> []" "js_trim (in_origin e) = in_origin e" "in_origin e \<noteq> []"
proof -
  have "is_record v" using assms by (simp add: parseIncomingCacheExchangeEntry_def split: if_split_asm)
  then obtain room eid sender topic payload origin hop where
    f: "asString (jprop v ''room'') = Some room" "asString (jprop v ''id'') = Some eid"
      "asString (jprop v ''sender'') = Some sender" "asString (jprop v ''origin'') = Some origin"
      "asNonNegativeInt (jprop v ''hop_count'') = Some hop"
    and e: "(let maxHops = (case asNonNegativeInt (jprop v ''max_hops'') of None \<Rightarrow> d | Some m \<Rightarrow> m)
          in if maxHops < 1 then Inl ''invalid max_hops''
             else Inr \<lparr>in_room = room, in_id = eid, in_sender = sender, in_topic = topic, in_payload = payload,
                       in_signature = normalizeSignature (jprop v ''signature''), in_origin = origin,
                       in_hopCount = hop, in_maxHops = maxHops\<rparr>) = Inr e"
    using assms unfolding parseIncomingCacheExchangeEntry_def 
    by (simp only: need_Inr not_True_eq_False if_False simp_thms) (elim exE conjE, rule that)
  show "0 \<le> in_hopCount e" "1 \<le> in_maxHops e" "js_trim (in_room e) = in_room e" "in_id e \<noteq> []"
    "in_sender e \<noteq> []" "js_trim (in_origin e) = in_origin e" "in_origin e \<noteq> []"
    using e f(1-4) [THEN asString_trimmed] asNonNegativeInt_nonneg [OF f(5)]
    by (auto simp: Let_def split: if_split_asm)
qed

section \<open>What a pull returns\<close>

definition eligible :: "int \<Rightarrow> string option \<Rightarrow> string option \<Rightarrow> exchange_record \<Rightarrow> bool" where
  "eligible after peer room r \<longleftrightarrow>
     after < xr_cursor r \<and> \<not> filter_excludes room (\<lambda>s. env_room (xr_envelope r) \<noteq> s) \<and>
     \<not> filter_excludes peer (\<lambda>s. xr_origin r = s) \<and> xr_hopCount r < xr_maxHops r"

lemma select_loop_entries:
  assumes "int (length entries) < limit"
  shows "fst (select_loop after limit peer room rs entries nx) =
    entries @ map entry_of (take (nat limit - length entries) (filter (eligible after peer room) rs))"
  using assms
proof (induction rs arbitrary: entries nx)
  case (Cons r rs)
  obtain k where k: "nat limit - length entries = Suc k"
    using Cons.prems by (metis Suc_diff_Suc nat_less_iff of_nat_0_le_iff zless_nat_conj zless_nat_eq_int_zless)
  then have k': "nat limit - length (entries @ [entry_of r]) = k" by simp
  show ?case
  proof (cases "eligible after peer room r")
    case False
    then show ?thesis using Cons by (auto simp: eligible_def)
  next
    case True
    show ?thesis
    proof (cases "int (length (entries @ [entry_of r])) \<ge> limit")
      case False
      then show ?thesis
        using True Cons.IH [of "entries @ [entry_of r]" "xr_cursor r"] k k' by (auto simp: eligible_def)
    next
      case full: True
      then have "k = 0" using k by simp
      then show ?thesis using True full k by (auto simp: eligible_def)
    qed
  qed
qed simp

lemma eligible_later: "after \<le> c \<Longrightarrow> eligible c peer room r \<longleftrightarrow> c < xr_cursor r \<and> eligible after peer room r"
  by (auto simp: eligible_def)

lemma select_loop_cursor:
  assumes "int (length entries) < limit" "sorted_wrt (<) (map xr_cursor rs)" "after \<le> nx"
    and "\<forall>r\<in>set rs. nx < xr_cursor r \<or> xr_cursor r \<le> after"
  shows "nx \<le> snd (select_loop after limit peer room rs entries nx) \<and>
    filter (eligible (snd (select_loop after limit peer room rs entries nx)) peer room) rs =
      drop (nat limit - length entries) (filter (eligible after peer room) rs)"
  using assms
proof (induction rs arbitrary: entries nx)
  case (Cons r rs)
  have sorted: "sorted_wrt (<) (map xr_cursor rs)" and above: "\<forall>q\<in>set rs. xr_cursor r < xr_cursor q"
    using Cons.prems(2) by auto
  show ?case
  proof (cases "xr_cursor r \<le> after")
    case True
    then show ?thesis
      using Cons.IH [of entries nx] Cons.prems sorted by (auto simp: eligible_def)
  next
    case False
    then have nx: "nx < xr_cursor r" using Cons.prems(4) by auto
    have le: "after \<le> xr_cursor r" using False by simp
    have rest: "filter (eligible (xr_cursor r) peer room) rs = filter (eligible after peer room) rs"
      using above le by (intro filter_cong) (auto simp: eligible_later [OF le])
    have self: "c \<ge> xr_cursor r \<Longrightarrow> \<not> eligible c peer room r" for c by (simp add: eligible_def)
    have sub: "\<forall>q\<in>set rs. xr_cursor r < xr_cursor q \<or> xr_cursor q \<le> after" using above by simp
    show ?thesis
    proof (cases "eligible after peer room r")
      case notel: False
      then have "select_loop after limit peer room (r # rs) entries nx =
          select_loop after limit peer room rs entries (xr_cursor r)"
        using False by (auto simp: eligible_def)
      then show ?thesis
        using Cons.IH [OF Cons.prems(1) sorted le sub] nx notel self by auto
    next
      case el: True
      obtain k where k: "nat limit - length entries = Suc k"
        using Cons.prems(1) by (metis Suc_diff_Suc nat_less_iff of_nat_0_le_iff zless_nat_conj zless_nat_eq_int_zless)
      show ?thesis
      proof (cases "int (length (entries @ [entry_of r])) \<ge> limit")
        case full: True
        then have "k = 0" using k by simp
        moreover have "select_loop after limit peer room (r # rs) entries nx = (entries @ [entry_of r], xr_cursor r)"
          using el full False by (auto simp: eligible_def)
        ultimately show ?thesis using nx self el rest k by simp
      next
        case room: False
        then have "select_loop after limit peer room (r # rs) entries nx =
            select_loop after limit peer room rs (entries @ [entry_of r]) (xr_cursor r)"
          using el False by (auto simp: eligible_def)
        moreover have "nat limit - length (entries @ [entry_of r]) = k" using k by simp
        ultimately show ?thesis
          using Cons.IH [of "entries @ [entry_of r]" "xr_cursor r"] room sorted le sub nx self el k by auto
      qed
    qed
  qed
qed simp

lemma select_cursor:
  assumes "sorted_wrt (<) (map xr_cursor records)" "0 \<le> after"
  shows "after \<le> snd (selectCacheExchangeEntries records after limit peer room)"
    and "filter (eligible (snd (selectCacheExchangeEntries records after limit peer room)) peer room) records =
      drop (nat (max 1 limit)) (filter (eligible after peer room) records)"
proof -
  have "\<forall>r\<in>set records. after < xr_cursor r \<or> xr_cursor r \<le> after" by auto
  from select_loop_cursor [OF _ assms(1) order_refl this, of "[]" "max 1 limit" peer room] assms(2)
  show "after \<le> snd (selectCacheExchangeEntries records after limit peer room)"
    and "filter (eligible (snd (selectCacheExchangeEntries records after limit peer room)) peer room) records =
      drop (nat (max 1 limit)) (filter (eligible after peer room) records)"
    by (simp_all add: selectCacheExchangeEntries_def)
qed

text \<open>The selection without the cursor: at most \<open>limit\<close> of the eligible records, oldest first.\<close>

lemma select_entries:
  "fst (selectCacheExchangeEntries records after limit peer room) =
   map entry_of (take (nat (max 1 limit)) (filter (eligible after peer room) records))"
  unfolding selectCacheExchangeEntries_def by (subst select_loop_entries) auto

lemma int_diff_nat: "int (a - nat (max 1 m)) = max 0 (int a - max 1 m)"
  by linarith

text \<open>A peer that feeds each answer's cursor into its next pull.\<close>

fun pull_drain ::
    "nat \<Rightarrow> exchange_record list \<Rightarrow> int \<Rightarrow> int \<Rightarrow> string option \<Rightarrow> string option \<Rightarrow> exchange_entry list" where
  "pull_drain 0 records after limit peer room = []"
| "pull_drain (Suc n) records after limit peer room =
     (let page = selectCacheExchangeEntries records after limit peer room
      in fst page @ pull_drain n records (snd page) limit peer room)"

text \<open>
  Claim C21. Pulling repeatedly from an exchange log in cursor order, each time from the cursor
  the last answer gave, returns every eligible record after the start exactly once and in order,
  whatever the page size and filters; no record that is filtered out stops the walk.
\<close>

theorem pull_drain_complete:
  assumes "exchange_ok cap ex" "0 \<le> after"
    and "int (length (filter (eligible after peer room) (ex_records ex))) \<le> int n * max 1 limit"
  shows "pull_drain n (ex_records ex) after limit peer room =
    map entry_of (filter (eligible after peer room) (ex_records ex))"
  using assms(2,3)
proof (induction n arbitrary: after)
  case (Suc n)
  let ?page = "selectCacheExchangeEntries (ex_records ex) after limit peer room"
  let ?f = "filter (eligible after peer room) (ex_records ex)"
  have sorted: "sorted_wrt (<) (map xr_cursor (ex_records ex))" using assms(1) by (simp add: exchange_ok_def)
  note cur = select_cursor [OF sorted Suc.prems(1), where limit = limit and peer = peer and room = room]
  have "int (length (filter (eligible (snd ?page) peer room) (ex_records ex))) \<le> int n * max 1 limit"
    using Suc.prems(2) unfolding cur(2) length_drop int_diff_nat by (simp add: algebra_simps)
  then have "pull_drain n (ex_records ex) (snd ?page) limit peer room = map entry_of (drop (nat (max 1 limit)) ?f)"
    using Suc.IH [of "snd ?page"] cur Suc.prems(1) by simp
  then show ?case
    by (simp add: Let_def select_entries flip: map_append)
qed simp

text \<open>
  A pull never hands a peer its own records, and a record only travels within its hop
  limit: every returned entry comes from a stored record after the cursor that passes the room
  filter, whose origin is not the asking peer, and counts one hop more than the record, within
  the record's maximum.
\<close>

theorem pull_respects_origin_and_hops:
  assumes "e \<in> set (fst (selectCacheExchangeEntries records after limit peer room))"
  shows "\<exists>r\<in>set records. e = entry_of r \<and> after < xe_cursor e \<and> xe_hop_count e = xr_hopCount r + 1 \<and>
    xe_hop_count e \<le> xe_max_hops e \<and> (peer = Some p \<and> p \<noteq> [] \<longrightarrow> xe_origin e \<noteq> p) \<and>
    (room = Some q \<and> q \<noteq> [] \<longrightarrow> xe_room e = q)"
  using assms unfolding select_entries
  by (auto dest!: in_set_takeD simp: eligible_def filter_excludes_def entry_of_def)

definition demo_envelope :: "string \<Rightarrow> string \<Rightarrow> envelope" where
  "demo_envelope room eid =
     \<lparr>env_room = room, env_id = eid, env_sender = ''alice'', env_topic = ''notify'', env_payload = JNull,
      env_signature = None\<rparr>"

definition demo_exchange :: exchange where
  "demo_exchange =
     recordCacheExchange 10 (recordCacheExchange 10 (recordCacheExchange 10 no_exchange
       (demo_envelope ''main'' ''m1'') ''relay-a'' 0 3) (demo_envelope ''main'' ''m2'') ''relay-b'' 1 3)
       (demo_envelope ''main'' ''m3'') ''relay-a'' 0 3"

lemma demo_exchange_ok: "exchange_ok 10 demo_exchange"
proof -
  have "message_ok (demo_envelope ''main'' i)" if "i \<noteq> []" for i
    using that default_room_valid
    by (simp add: message_ok_def demo_envelope_def DEFAULT_ROOM_def isValidTopic_def is_topic_char_def is_lower_def)
  moreover have "js_trim ''relay-a'' = ''relay-a''" "js_trim ''relay-b'' = ''relay-b''"
    by (simp_all add: js_trim_def is_space_def)
  ultimately show ?thesis
    unfolding demo_exchange_def by (intro recordCacheExchange_ok no_exchange_ok) simp_all
qed

theorem pull_drain_complete_witness:
  "pull_drain 3 (ex_records demo_exchange) 0 1 (Some ''relay-b'') None =
     map entry_of (filter (eligible 0 (Some ''relay-b'') None) (ex_records demo_exchange))"
  by (rule pull_drain_complete [OF demo_exchange_ok])
    (simp_all add: demo_exchange_def recordCacheExchange_def appendCacheExchangeRecord_def no_exchange_def
      last_n_def Let_def eligible_def filter_excludes_def)

theorem pull_respects_origin_and_hops_witness:
  "\<exists>e \<in> set (fst (selectCacheExchangeEntries (ex_records demo_exchange) 0 10 (Some ''relay-b'') None)).
     xe_origin e \<noteq> ''relay-b'' \<and> xe_hop_count e \<le> xe_max_hops e"
proof -
  have "fst (selectCacheExchangeEntries (ex_records demo_exchange) 0 10 (Some ''relay-b'') None) \<noteq> []"
    by (simp add: select_entries demo_exchange_def recordCacheExchange_def appendCacheExchangeRecord_def
        no_exchange_def last_n_def Let_def eligible_def filter_excludes_def)
  then obtain e where e: "e \<in> set (fst (selectCacheExchangeEntries (ex_records demo_exchange) 0 10 (Some ''relay-b'') None))"
    using hd_in_set by blast
  from pull_respects_origin_and_hops [OF this, of "''relay-b''"] show ?thesis using e by auto
qed

section \<open>What a collision says\<close>

lemma one_line_esc: "one_line (esc_char c)"
proof -
  have "hex_digit d \<noteq> CHR 0x0A" if "d < 16" for d
    using that char_eq_code [of "hex_digit d" "CHR 0x0A"] by (simp add: hex_digit_def)
  then have h: "hex_digit (of_char c div 16) \<noteq> CHR 0x0A" "hex_digit (of_char c mod 16) \<noteq> CHR 0x0A"
    by (simp_all add: less_mult_imp_div_less)
  then show ?thesis by (simp add: esc_char_def)
qed

lemma one_line_quote [simp]: "one_line (json_quote s)"
  by (induction s) (simp_all add: json_quote_def one_line_esc)

lemma canonical_one_line:
  assumes "num_format ns"
  shows "one_line (canonicalizeJson ns j)"
proof -
  have "\<not> num_char (CHR 0x0A)" by (simp add: num_char_def is_digit_def)
  then have num: "one_line (ns r)" for r
    using assms unfolding num_format_def one_line_def list_all_iff by blast
  have "one_line (render ns v)" for v
  proof (induction v)
    case (CArr xs)
    then show ?case by (simp add: one_line_join list_all_iff)
  next
    case (CObj kvs)
    have "list_all one_line (map (\<lambda>(k, v). json_quote k @ '':'' @ render ns v) kvs)"
      using CObj by (fastforce simp: list_all_iff)
    then show ?case by (simp add: one_line_join)
  qed (simp_all add: num)
  then show ?thesis by (simp add: canonicalize_render)
qed

lemma four_lines_inj:
  assumes "join newline [a, b, c, d] = join newline [a', b', c', d']"
    and "one_line a" "one_line b" "one_line c" "one_line a'" "one_line b'" "one_line c'"
  shows "a = a' \<and> b = b' \<and> c = c' \<and> d = d'"
proof -
  have head: "x = x' \<and> r = r'" if "one_line x" "one_line x'" "x @ CHR 0x0A # r = x' @ CHR 0x0A # r'" for x x' r r'
    by (rule split_at_char [of "CHR 0x0A"]) (use that in \<open>simp_all add: one_line_def\<close>)
  have "a @ CHR 0x0A # b @ CHR 0x0A # c @ CHR 0x0A # d = a' @ CHR 0x0A # b' @ CHR 0x0A # c' @ CHR 0x0A # d'"
    using assms(1) by simp
  note 1 = head [OF assms(2,5) this]
  note 2 = head [OF assms(3,6) conjunct2 [OF 1]]
  note 3 = head [OF assms(4,7) conjunct2 [OF 2]]
  from 1 2 3 show ?thesis by blast
qed

text \<open>
  Two messages with the same id are classified as a duplicate exactly when they agree
  on sender, topic, signature (an absent one counts as empty) and payload, the payload up to the
  order of members: the canonical text neither merges different messages nor splits equal ones.
\<close>

theorem collision_is_duplicate_iff_same:
  assumes "num_format ns" "one_line (env_sender e)" "one_line (env_topic e)" "one_line (env_sender f)"
    "one_line (env_topic f)"
  shows "classifyCacheExchangeCollision ns e f = Duplicate \<longleftrightarrow>
    env_sender e = env_sender f \<and> env_topic e = env_topic f \<and>
    canon_value (env_payload e) = canon_value (env_payload f) \<and>
    or_empty (env_signature e) = or_empty (env_signature f)"
proof
  assume "classifyCacheExchangeCollision ns e f = Duplicate"
  then have "envelopeCanonicalSignature ns e = envelopeCanonicalSignature ns f"
    by (simp add: classifyCacheExchangeCollision_def split: if_splits)
  then have "env_sender e = env_sender f \<and> env_topic e = env_topic f \<and>
      canonicalizeJson ns (env_payload e) = canonicalizeJson ns (env_payload f) \<and>
      or_empty (env_signature e) = or_empty (env_signature f)"
    unfolding envelopeCanonicalSignature_def
    by (rule four_lines_inj) (rule assms canonical_one_line [OF assms(1)])+
  then show "env_sender e = env_sender f \<and> env_topic e = env_topic f \<and>
      canon_value (env_payload e) = canon_value (env_payload f) \<and>
      or_empty (env_signature e) = or_empty (env_signature f)"
    using canonical_text_eq [OF assms(1)] by simp
next
  assume "env_sender e = env_sender f \<and> env_topic e = env_topic f \<and>
      canon_value (env_payload e) = canon_value (env_payload f) \<and>
      or_empty (env_signature e) = or_empty (env_signature f)"
  then show "classifyCacheExchangeCollision ns e f = Duplicate"
    by (simp add: classifyCacheExchangeCollision_def envelopeCanonicalSignature_def canonicalize_render)
qed


definition object_message :: "(string \<times> json) list \<Rightarrow> envelope" where
  "object_message kvs = (demo_envelope ''main'' ''m1'')\<lparr>env_payload := JObj kvs\<rparr>"

theorem collision_is_duplicate_iff_same_witness:
  "classifyCacheExchangeCollision fraction_text (object_message [(''a'', JNull), (''b'', JBool True)])
     (object_message [(''b'', JBool True), (''a'', JNull)]) = Duplicate"
  by (subst collision_is_duplicate_iff_same [OF num_format_fraction])
    (simp_all add: object_message_def demo_envelope_def)

end
