(* ===== verification/Issue_Sync.thy ===== *)
theory Issue_Sync
  imports Rooms
begin

text \<open>
  The issue-sync engine, \<open>src/issue_sync_engine.ts\<close>: deliveries are applied at most once, failed
  ones wait in a dead-letter queue with an exponential back-off. \<open>applyDelivery\<close> takes the
  mapping of a delivery to an envelope and the publication of the envelope as parameters; the
  latter works on a state of its own, the type variable of the outer state.
\<close>

section \<open>State\<close>

record dlq_entry =
  dl_delivery_id :: string
  dl_event :: string
  dl_body :: string
  dl_created_at :: int
  dl_updated_at :: int
  dl_retry_count :: int
  dl_next_retry_at :: int
  dl_last_error :: string

record engine_options =
  en_maxDeliveryIds :: int
  en_maxDlqEntries :: int
  en_retryBaseSec :: int

record engine =
  en_deliveryIds :: "(string, int) omap"
  en_dlq :: "(string, dlq_entry) omap"
  en_dlqOrder :: "string list"

definition normalizePositiveInt :: "rat option \<Rightarrow> int \<Rightarrow> int" where
  "normalizePositiveInt raw fallback =
     (case raw of None \<Rightarrow> fallback | Some r \<Rightarrow> if r \<le> 0 then fallback else rtrunc r)"

definition createIssueSyncEngine :: "rat option \<Rightarrow> rat option \<Rightarrow> rat option \<Rightarrow> engine_options \<times> engine" where
  "createIssueSyncEngine maxIds maxDlq base =
     (\<lparr>en_maxDeliveryIds = normalizePositiveInt maxIds 10000, en_maxDlqEntries = normalizePositiveInt maxDlq 10000,
       en_retryBaseSec = normalizePositiveInt base 30\<rparr>,
      \<lparr>en_deliveryIds = [], en_dlq = [], en_dlqOrder = []\<rparr>)"

definition no_engine :: engine where
  "no_engine = \<lparr>en_deliveryIds = [], en_dlq = [], en_dlqOrder = []\<rparr>"

section \<open>Operations\<close>

definition hasDeliveryId :: "engine \<Rightarrow> string \<Rightarrow> bool" where
  "hasDeliveryId en d \<longleftrightarrow> map_of (en_deliveryIds en) d \<noteq> None"

text \<open>The loop deletes keys from the front until the overflow is gone.\<close>

definition rememberDeliveryId :: "engine_options \<Rightarrow> engine \<Rightarrow> string \<Rightarrow> int \<Rightarrow> engine" where
  "rememberDeliveryId eo en d ts =
     (let ids = AList.update d ts (en_deliveryIds en)
      in if int (length ids) \<le> en_maxDeliveryIds eo then en\<lparr>en_deliveryIds := ids\<rparr>
         else en\<lparr>en_deliveryIds := drop (nat (int (length ids) - en_maxDeliveryIds eo)) ids\<rparr>)"

definition computeNextRetryAt :: "engine_options \<Rightarrow> int \<Rightarrow> int \<Rightarrow> int" where
  "computeNextRetryAt eo currentSec retryCount =
     currentSec + min 3600 (en_retryBaseSec eo * max 1 (2 ^ nat retryCount))"

definition delete_all :: "string list \<Rightarrow> (string, 'a) omap \<Rightarrow> (string, 'a) omap" where
  "delete_all ks m = foldl (\<lambda>m k. AList.delete k m) m ks"

definition enqueueDlq ::
    "engine_options \<Rightarrow> int \<Rightarrow> engine \<Rightarrow> string \<Rightarrow> string \<Rightarrow> string \<Rightarrow> string \<Rightarrow> bool \<Rightarrow> engine \<times> dlq_entry" where
  "enqueueDlq eo now en d event body err incrementRetry =
     (let existing = map_of (en_dlq en) d;
          inc = (if incrementRetry then 1 else 0);
          retryCount = (case existing of Some e \<Rightarrow> dl_retry_count e + inc | None \<Rightarrow> inc);
          entry = \<lparr>dl_delivery_id = d, dl_event = event, dl_body = body,
                   dl_created_at = (case existing of Some e \<Rightarrow> dl_created_at e | None \<Rightarrow> now),
                   dl_updated_at = now, dl_retry_count = retryCount,
                   dl_next_retry_at = computeNextRetryAt eo now retryCount, dl_last_error = err\<rparr>;
          dlq = AList.update d entry (en_dlq en);
          order = (if existing = None then en_dlqOrder en @ [d] else en_dlqOrder en);
          overflow = nat (int (length order) - en_maxDlqEntries eo)
      in (en\<lparr>en_dlq := delete_all (take overflow order) dlq, en_dlqOrder := drop overflow order\<rparr>, entry))"

definition removeDlq :: "engine \<Rightarrow> string \<Rightarrow> engine" where
  "removeDlq en d =
     (if map_of (en_dlq en) d = None then en
      else en\<lparr>en_dlq := AList.delete d (en_dlq en), en_dlqOrder := remove1 d (en_dlqOrder en)\<rparr>)"

definition getDlqEntry :: "engine \<Rightarrow> string \<Rightarrow> dlq_entry option" where
  "getDlqEntry en d = map_of (en_dlq en) d"

definition listDlq :: "engine \<Rightarrow> int \<Rightarrow> int \<Rightarrow> dlq_entry list \<times> int" where
  "listDlq en after limit =
     (let pageIds = slice (en_dlqOrder en) after limit;
          entries = List.map_filter (\<lambda>d. map_of (en_dlq en) d) pageIds;
          nxt = after + int (length pageIds)
      in (entries, if nxt < int (length (en_dlqOrder en)) then nxt else after + int (length entries)))"

section \<open>Applying a delivery\<close>

record mapped_envelope =
  mp_room :: string
  mp_sender :: string
  mp_topic :: string
  mp_issueId :: string
  mp_action :: string
  mp_envelopeId :: string
  mp_payload :: json

record sync_publish =
  sp_status :: int
  sp_accepted :: bool
  sp_cursor :: "int option"

record applied =
  ap_accepted :: bool
  ap_duplicate :: bool
  ap_deliveryId :: string
  ap_event :: string
  ap_action :: string
  ap_topic :: "string option"
  ap_room :: "string option"
  ap_issueId :: "string option"
  ap_cursor :: "int option"

record apply_error =
  ae_deliveryId :: string
  ae_event :: string
  ae_error :: string

type_synonym apply_result = "apply_error + applied"

text \<open>\<open>mapf\<close> gets the event, the delivery id and the parsed body.\<close>

definition applyDelivery ::
    "engine_options \<Rightarrow> int \<Rightarrow> (string \<Rightarrow> json option) \<Rightarrow> (string \<Rightarrow> string \<Rightarrow> json \<Rightarrow> string + mapped_envelope) \<Rightarrow>
     ('s \<Rightarrow> mapped_envelope \<Rightarrow> 's \<times> sync_publish) \<Rightarrow> engine \<Rightarrow> 's \<Rightarrow> string \<Rightarrow> string \<Rightarrow> string \<Rightarrow>
     engine \<times> 's \<times> apply_result" where
  "applyDelivery eo now parse mapf publish en s rawEvent rawId body =
     (let event = to_lower (js_trim rawEvent);
          d = js_trim rawId;
          fail = (\<lambda>s msg. (en, s, Inl \<lparr>ae_deliveryId = d, ae_event = event, ae_error = msg\<rparr>))
      in if event = [] then fail s ''missing issue sync event''
         else if d = [] then fail s ''missing issue sync delivery id''
         else if hasDeliveryId en d then
           (en, s, Inr \<lparr>ap_accepted = False, ap_duplicate = True, ap_deliveryId = d, ap_event = event,
                       ap_action = [], ap_topic = None, ap_room = None, ap_issueId = None, ap_cursor = None\<rparr>)
         else case parse_object parse body of
             None \<Rightarrow> fail s ''invalid json payload''
           | Some parsed \<Rightarrow>
               (case mapf event d parsed of
                  Inl err \<Rightarrow> fail s err
                | Inr m \<Rightarrow>
                    let pub = publish s m; s' = fst pub; p = snd pub
                    in if sp_status p \<noteq> 200 then fail s' (''publish failed: status='' @ int_str (sp_status p))
                       else let en1 = rememberDeliveryId eo en d now;
                                en2 = (if sp_accepted p then removeDlq en1 d else en1)
                         in (en2, s', Inr \<lparr>ap_accepted = sp_accepted p, ap_duplicate = (\<not> sp_accepted p),
                               ap_deliveryId = d, ap_event = event, ap_action = mp_action m,
                               ap_topic = Some (mp_topic m), ap_room = Some (mp_room m),
                               ap_issueId = Some (mp_issueId m), ap_cursor = sp_cursor p\<rparr>)))"

section \<open>Snapshot and restore\<close>

definition dlq_json :: "dlq_entry \<Rightarrow> json" where
  "dlq_json e = JObj
     [(''delivery_id'', JStr (dl_delivery_id e)), (''event'', JStr (dl_event e)), (''body'', JStr (dl_body e)),
      (''created_at'', jint (dl_created_at e)), (''updated_at'', jint (dl_updated_at e)),
      (''retry_count'', jint (dl_retry_count e)), (''next_retry_at'', jint (dl_next_retry_at e)),
      (''last_error'', JStr (dl_last_error e))]"

definition engine_deliveries :: "engine \<Rightarrow> (string \<times> json) list" where
  "engine_deliveries en =
     obj_of_map (\<lambda>ts. jint (max 0 ts)) (filter (\<lambda>p. js_trim (fst p) \<noteq> []) (en_deliveryIds en))"

definition engine_entries :: "engine \<Rightarrow> dlq_entry list" where
  "engine_entries en = List.map_filter (\<lambda>d. map_of (en_dlq en) d) (en_dlqOrder en)"

definition engine_snapshot :: "engine \<Rightarrow> json" where
  "engine_snapshot en =
     JObj [(''deliveries'', JObj (engine_deliveries en)), (''dlq'', JArr (map dlq_json (engine_entries en)))]"

definition restored_delivery :: "string \<Rightarrow> json \<Rightarrow> int option" where
  "restored_delivery d tsRaw =
     (if js_trim d = [] then None else map_option (max 0) (finite_int_opt (Some tsRaw)))"

definition nonneg_field :: "json \<Rightarrow> string \<Rightarrow> int \<Rightarrow> int" where
  "nonneg_field v k dflt = (case finite_int_opt (jprop v k) of Some i \<Rightarrow> max 0 i | None \<Rightarrow> dflt)"

definition restored_entry :: "engine_options \<Rightarrow> int \<Rightarrow> json \<Rightarrow> dlq_entry option" where
  "restored_entry eo now v =
     (if \<not> is_record v then None
      else let d = js_trim (str_or_empty (jprop v ''delivery_id''))
        in if d = [] then None
           else let createdAt = nonneg_field v ''created_at'' 0;
                    retryCount = nonneg_field v ''retry_count'' 0
             in Some \<lparr>dl_delivery_id = d, dl_event = js_trim (str_or_empty (jprop v ''event'')),
                      dl_body = str_or_empty (jprop v ''body''), dl_created_at = createdAt,
                      dl_updated_at = nonneg_field v ''updated_at'' createdAt, dl_retry_count = retryCount,
                      dl_next_retry_at = nonneg_field v ''next_retry_at'' (computeNextRetryAt eo now retryCount),
                      dl_last_error = str_or_empty (jprop v ''last_error'')\<rparr>)"

text \<open>The loop stops once the order has reached the cap.\<close>

fun restore_dlq :: "engine_options \<Rightarrow> int \<Rightarrow> json list \<Rightarrow> engine \<Rightarrow> engine" where
  "restore_dlq eo now [] en = en"
| "restore_dlq eo now (v # vs) en =
     (case restored_entry eo now v of
        None \<Rightarrow> restore_dlq eo now vs en
      | Some e \<Rightarrow>
          let en' = en\<lparr>en_dlq := AList.update (dl_delivery_id e) e (en_dlq en),
                       en_dlqOrder := en_dlqOrder en @ [dl_delivery_id e]\<rparr>
          in if int (length (en_dlqOrder en')) \<ge> en_maxDlqEntries eo then en' else restore_dlq eo now vs en')"

definition engine_restore :: "engine_options \<Rightarrow> int \<Rightarrow> json \<Rightarrow> engine" where
  "engine_restore eo now data =
     (let en0 = (case jprop data ''deliveries'' of
            Some (JObj kvs) \<Rightarrow> no_engine\<lparr>en_deliveryIds := map_of_entries restored_delivery kvs\<rparr>
          | _ \<Rightarrow> no_engine)
      in case jprop data ''dlq'' of Some (JArr vs) \<Rightarrow> restore_dlq eo now vs en0 | _ \<Rightarrow> en0)"

section \<open>The engine invariant\<close>

definition options_ok :: "engine_options \<Rightarrow> bool" where
  "options_ok eo \<longleftrightarrow> 1 \<le> en_maxDeliveryIds eo \<and> 1 \<le> en_maxDlqEntries eo \<and> 1 \<le> en_retryBaseSec eo"

definition entry_ok :: "string \<Rightarrow> dlq_entry \<Rightarrow> bool" where
  "entry_ok d e \<longleftrightarrow> dl_delivery_id e = d \<and> 0 \<le> dl_retry_count e \<and> 0 \<le> dl_created_at e \<and> 0 \<le> dl_updated_at e \<and>
     0 \<le> dl_next_retry_at e \<and> js_trim (dl_event e) = dl_event e"

definition engine_ok :: "engine_options \<Rightarrow> engine \<Rightarrow> bool" where
  "engine_ok eo en \<longleftrightarrow>
     okeys (en_deliveryIds en) \<and> int (length (en_deliveryIds en)) \<le> en_maxDeliveryIds eo \<and>
     (\<forall>p\<in>set (en_deliveryIds en). js_trim (fst p) \<noteq> [] \<and> 0 \<le> snd p) \<and>
     okeys (en_dlq en) \<and> distinct (en_dlqOrder en) \<and> set (en_dlqOrder en) = fst ` set (en_dlq en) \<and>
     int (length (en_dlqOrder en)) \<le> en_maxDlqEntries eo \<and>
     (\<forall>p\<in>set (en_dlq en). js_trim (fst p) = fst p \<and> fst p \<noteq> [] \<and> entry_ok (fst p) (snd p))"

lemma no_engine_ok: "options_ok eo \<Longrightarrow> engine_ok eo no_engine"
  by (simp add: engine_ok_def no_engine_def options_ok_def)

lemma map_of_delete_all: "map_of (delete_all ks m) k = (if k \<in> set ks then None else map_of m k)"
  unfolding delete_all_def by (induction ks arbitrary: m) auto

lemma okeys_delete_all [simp]: "okeys m \<Longrightarrow> okeys (delete_all ks m)"
  unfolding delete_all_def by (induction ks arbitrary: m) auto

lemma okeys_mem: "okeys m \<Longrightarrow> (k, v) \<in> set m \<longleftrightarrow> map_of m k = Some v"
  by (simp add: okeys_def)

lemma set_delete_all:
  assumes "okeys (m :: (string, 'a) omap)"
  shows "set (delete_all ks m) = {p \<in> set m. fst p \<notin> set ks}"
proof (intro set_eqI)
  fix p :: "string \<times> 'a"
  obtain k v where p: "p = (k, v)" by (cases p)
  show "p \<in> set (delete_all ks m) \<longleftrightarrow> p \<in> {p \<in> set m. fst p \<notin> set ks}"
    unfolding p okeys_mem [OF okeys_delete_all [OF assms]] map_of_delete_all mem_Collect_eq okeys_mem [OF assms]
    by simp
qed

lemma rememberDeliveryId_ok [inv_intros]:
  assumes "engine_ok eo en" "options_ok eo" "js_trim d \<noteq> []" "0 \<le> ts"
  shows "engine_ok eo (rememberDeliveryId eo en d ts)"
proof -
  let ?ids = "AList.update d ts (en_deliveryIds en)"
  have ok: "okeys ?ids" "\<forall>p\<in>set ?ids. js_trim (fst p) \<noteq> [] \<and> 0 \<le> snd p"
    using assms by (auto simp: engine_ok_def dest!: set_update_cases)
  have "\<forall>p\<in>set (drop k ?ids). js_trim (fst p) \<noteq> [] \<and> 0 \<le> snd p" for k
    using ok(2) by (meson in_set_dropD)
  then show ?thesis
    using assms(1,2) ok by (auto simp: rememberDeliveryId_def Let_def engine_ok_def options_ok_def)
qed

lemma computeNextRetryAt_bounds:
  assumes "1 \<le> en_retryBaseSec eo"
  shows "now + 1 \<le> computeNextRetryAt eo now k" "computeNextRetryAt eo now k \<le> now + 3600"
proof -
  have "1 * 1 \<le> en_retryBaseSec eo * max 1 (2 ^ nat k)"
    using assms by (intro mult_mono) auto
  then show "now + 1 \<le> computeNextRetryAt eo now k" "computeNextRetryAt eo now k \<le> now + 3600"
    by (simp_all add: computeNextRetryAt_def)
qed

lemma set_drop_distinct: "distinct xs \<Longrightarrow> set (drop n xs) = set xs - set (take n xs)"
proof -
  assume "distinct xs"
  then have "distinct (take n xs @ drop n xs)" by simp
  then have "set (take n xs) \<inter> set (drop n xs) = {}" by (simp only: distinct_append)
  moreover have "set (take n xs) \<union> set (drop n xs) = set xs"
    by (simp flip: set_append)
  ultimately show ?thesis by blast
qed

lemma keys_update: "fst ` set (AList.update k v m) = insert k (fst ` set m)"
  by (induction m) auto

text \<open>The order of the queue is a bounded log of the ids that enter it.\<close>

definition push_order :: "engine_options \<Rightarrow> string list \<Rightarrow> string \<Rightarrow> string list" where
  "push_order eo order d =
     drop (nat (int (length (order @ [d])) - en_maxDlqEntries eo)) (order @ [d])"

interpretation dlq_log: bounded_log "push_order eo" "\<lambda>order. order" "nat (en_maxDlqEntries eo)" for eo
proof
  fix s and x :: string
  have "nat (int (length (s @ [x])) - en_maxDlqEntries eo) = length (s @ [x]) - nat (en_maxDlqEntries eo) \<or>
      en_maxDlqEntries eo < 0"
    by linarith
  then show "push_order eo s x = last_n (nat (en_maxDlqEntries eo)) (s @ [x])"
    by (auto simp: push_order_def last_n_def)
qed

lemma enqueueDlq_order:
  assumes "engine_ok eo en"
  shows "en_dlqOrder (fst (enqueueDlq eo now en d event body err inc)) =
    (if map_of (en_dlq en) d = None then push_order eo (en_dlqOrder en) d else en_dlqOrder en)"
  using assms by (simp add: enqueueDlq_def Let_def push_order_def engine_ok_def)

lemma enqueueDlq_entry_ok:
  assumes "engine_ok eo en" "options_ok eo" "0 \<le> now" "js_trim event = event"
  shows "entry_ok d (snd (enqueueDlq eo now en d event body err inc))"
proof -
  have "0 \<le> computeNextRetryAt eo now k" for k
    using computeNextRetryAt_bounds(1) [of eo now k] assms(2,3) by (simp add: options_ok_def)
  moreover have "0 \<le> dl_retry_count e \<and> 0 \<le> dl_created_at e" if "map_of (en_dlq en) d = Some e" for e
    using assms(1) that by (fastforce simp: engine_ok_def entry_ok_def dest: map_of_SomeD)
  ultimately show ?thesis
    using assms(3,4) by (auto simp: entry_ok_def enqueueDlq_def Let_def split: option.split)
qed

lemma enqueueDlq_ok [inv_intros]:
  assumes "engine_ok eo en" "options_ok eo" "js_trim d = d" "d \<noteq> []" "0 \<le> now" "js_trim event = event"
  shows "engine_ok eo (fst (enqueueDlq eo now en d event body err inc))"
proof -
  let ?e = "snd (enqueueDlq eo now en d event body err inc)"
  let ?order = "if map_of (en_dlq en) d = None then en_dlqOrder en @ [d] else en_dlqOrder en"
  let ?ov = "nat (int (length ?order) - en_maxDlqEntries eo)"
  let ?dlq = "AList.update d ?e (en_dlq en)"
  have st: "fst (enqueueDlq eo now en d event body err inc) =
      en\<lparr>en_dlq := delete_all (take ?ov ?order) ?dlq, en_dlqOrder := drop ?ov ?order\<rparr>"
    by (simp add: enqueueDlq_def Let_def)
  have keys: "set (en_dlqOrder en) = fst ` set (en_dlq en)" "okeys ?dlq"
    using assms(1) by (simp_all add: engine_ok_def)
  have order: "distinct ?order" "set ?order = fst ` set ?dlq"
    using assms(1) keys map_of_eq_None_iff [of "en_dlq en" d] by (auto simp: engine_ok_def keys_update)
  have "int (length (drop ?ov ?order)) \<le> en_maxDlqEntries eo"
    using assms(2) by (auto simp: options_ok_def)
  moreover have "set (drop ?ov ?order) = fst ` set (delete_all (take ?ov ?order) ?dlq)"
    unfolding set_drop_distinct [OF order(1)] set_delete_all [OF keys(2)] order(2) by auto
  moreover have "\<forall>p\<in>set ?dlq. js_trim (fst p) = fst p \<and> fst p \<noteq> [] \<and> entry_ok (fst p) (snd p)"
    using assms enqueueDlq_entry_ok [OF assms(1,2,5,6)] by (auto simp: engine_ok_def dest!: set_update_cases)
  moreover have "okeys (delete_all (take ?ov ?order) ?dlq)" using keys(2) by simp
  ultimately show ?thesis
    unfolding st using assms(1) order(1) set_delete_all [OF keys(2)] by (simp add: engine_ok_def)
qed

lemma enqueueDlq_get:
  assumes "engine_ok eo en" "options_ok eo"
  shows "getDlqEntry (fst (enqueueDlq eo now en d event body err inc)) d =
    Some (snd (enqueueDlq eo now en d event body err inc))"
proof -
  have "d \<notin> set (take (nat (int (length (en_dlqOrder en @ [d])) - en_maxDlqEntries eo)) (en_dlqOrder en @ [d]))"
    if "map_of (en_dlq en) d = None"
  proof -
    have "d \<notin> set (en_dlqOrder en)" using assms(1) that by (simp add: engine_ok_def map_of_eq_None_iff)
    moreover have "nat (int (length (en_dlqOrder en @ [d])) - en_maxDlqEntries eo) \<le> length (en_dlqOrder en)"
      using assms(2) unfolding options_ok_def by (simp add: nat_le_iff)
    ultimately show ?thesis by (auto dest: in_set_takeD)
  qed
  moreover have "nat (int (length (en_dlqOrder en)) - en_maxDlqEntries eo) = 0"
    using assms(1) by (simp add: engine_ok_def)
  ultimately show ?thesis
    by (simp add: getDlqEntry_def enqueueDlq_def Let_def map_of_delete_all)
qed

lemma set_delete: "set (AList.delete k m) = {p \<in> set m. fst p \<noteq> k}"
  by (auto simp: AList.delete_eq)

lemma removeDlq_ok [inv_intros]:
  assumes "engine_ok eo en"
  shows "engine_ok eo (removeDlq en d)"
proof (cases "map_of (en_dlq en) d")
  case (Some e)
  have "fst ` set (AList.delete d (en_dlq en)) = fst ` set (en_dlq en) - {d}"
    unfolding set_delete by auto
  then show ?thesis
    using assms Some length_remove1 [of d "en_dlqOrder en"]
    by (auto simp: removeDlq_def engine_ok_def set_remove1_eq set_delete)
qed (simp add: removeDlq_def assms)

lemma removeDlq_deliveries [simp]: "en_deliveryIds (removeDlq en d) = en_deliveryIds en"
  by (simp add: removeDlq_def)

lemma rememberDeliveryId_dlq [simp]:
  "en_dlq (rememberDeliveryId eo en d ts) = en_dlq en" "en_dlqOrder (rememberDeliveryId eo en d ts) = en_dlqOrder en"
  by (simp_all add: rememberDeliveryId_def Let_def)

lemma applyDelivery_engine:
  "fst (applyDelivery eo now parse mapf publish en s event d body) = en \<or>
   (js_trim d \<noteq> [] \<and> fst (applyDelivery eo now parse mapf publish en s event d body) \<in>
      {rememberDeliveryId eo en (js_trim d) now, removeDlq (rememberDeliveryId eo en (js_trim d) now) (js_trim d)})"
  by (simp add: applyDelivery_def Let_def split: option.split sum.split)

lemma applyDelivery_ok [inv_intros]:
  assumes "engine_ok eo en" "options_ok eo" "0 \<le> now"
  shows "engine_ok eo (fst (applyDelivery eo now parse mapf publish en s event d body))"
  using applyDelivery_engine [of eo now parse mapf publish en s event d body] assms
  by (auto intro!: removeDlq_ok rememberDeliveryId_ok)

lemma applyDelivery_outer:
  assumes "P s" "\<And>event d parsed m. mapf event d parsed = Inr m \<Longrightarrow> P (fst (publish s m))"
  shows "P (fst (snd (applyDelivery eo now parse mapf publish en s event d body)))"
  using assms by (simp add: applyDelivery_def Let_def split: option.split sum.split)

section \<open>At most once\<close>

fun run_deliveries ::
    "engine_options \<Rightarrow> (string \<Rightarrow> json option) \<Rightarrow> (string \<Rightarrow> string \<Rightarrow> json \<Rightarrow> string + mapped_envelope) \<Rightarrow>
     ('s \<Rightarrow> mapped_envelope \<Rightarrow> 's \<times> sync_publish) \<Rightarrow> engine \<Rightarrow> 's \<Rightarrow> (int \<times> string \<times> string \<times> string) list \<Rightarrow>
     apply_result list" where
  "run_deliveries eo parse mapf publish en s [] = []"
| "run_deliveries eo parse mapf publish en s ((now, event, d, body) # ds) =
     (let r = applyDelivery eo now parse mapf publish en s event d body
      in snd (snd r) # run_deliveries eo parse mapf publish (fst r) (fst (snd r)) ds)"

text \<open>A result that comes from a successful publication carries the envelope's topic.\<close>

definition was_published :: "apply_result \<Rightarrow> bool" where
  "was_published r = (case r of Inl e \<Rightarrow> False | Inr a \<Rightarrow> ap_topic a \<noteq> None)"

definition result_id :: "apply_result \<Rightarrow> string" where
  "result_id r = (case r of Inl e \<Rightarrow> ae_deliveryId e | Inr a \<Rightarrow> ap_deliveryId a)"

lemma applyDelivery_not_published:
  "\<not> was_published (snd (snd (applyDelivery eo now parse mapf publish en s event d body))) \<Longrightarrow>
   fst (applyDelivery eo now parse mapf publish en s event d body) = en"
  by (auto simp: applyDelivery_def Let_def was_published_def split: option.splits sum.splits if_splits)

lemma applyDelivery_published:
  assumes "was_published (snd (snd (applyDelivery eo now parse mapf publish en s event d body)))"
  shows "result_id (snd (snd (applyDelivery eo now parse mapf publish en s event d body))) = js_trim d"
    and "\<not> hasDeliveryId en (js_trim d)"
    and "en_deliveryIds (fst (applyDelivery eo now parse mapf publish en s event d body)) =
      en_deliveryIds (rememberDeliveryId eo en (js_trim d) now)"
  using assms
  by (auto simp: applyDelivery_def Let_def was_published_def result_id_def split: option.splits sum.splits if_splits)

lemma remember_no_overflow:
  assumes "int (length (en_deliveryIds en)) + 1 \<le> en_maxDeliveryIds eo"
  shows "en_deliveryIds (rememberDeliveryId eo en d ts) = AList.update d ts (en_deliveryIds en)"
proof -
  have "int (length (AList.update d ts (en_deliveryIds en))) \<le> en_maxDeliveryIds eo"
    using assms by (simp add: length_update)
  then show ?thesis by (simp add: rememberDeliveryId_def Let_def)
qed

lemma run_deliveries_once:
  assumes "int (length (en_deliveryIds en)) + int (length ds) \<le> en_maxDeliveryIds eo"
  shows "length (filter (\<lambda>r. was_published r \<and> result_id r = i) (run_deliveries eo parse mapf publish en s ds)) \<le>
    (if hasDeliveryId en i then 0 else 1)"
  using assms
proof (induction ds arbitrary: en s)
  case (Cons x ds)
  obtain now event d body where x: "x = (now, event, d, body)" by (cases x)
  let ?r = "applyDelivery eo now parse mapf publish en s event d body"
  show ?case
  proof (cases "was_published (snd (snd ?r))")
    case False
    then have "fst ?r = en" by (rule applyDelivery_not_published)
    then show ?thesis
      using Cons.IH [of en "fst (snd ?r)"] Cons.prems False by (simp add: x Let_def)
  next
    case True
    note pub = applyDelivery_published [OF True]
    have ids: "en_deliveryIds (fst ?r) = AList.update (js_trim d) now (en_deliveryIds en)"
      unfolding pub(3) by (rule remember_no_overflow) (use Cons.prems in simp)
    have has: "hasDeliveryId (fst ?r) i \<longleftrightarrow> i = js_trim d \<or> hasDeliveryId en i"
      by (simp add: hasDeliveryId_def ids)
    have "int (length (en_deliveryIds (fst ?r))) + int (length ds) \<le> en_maxDeliveryIds eo"
      using Cons.prems by (simp add: ids length_update)
    from Cons.IH [OF this, of "fst (snd ?r)"] show ?thesis
      using True pub(1,2) has by (auto simp: x Let_def split: if_splits)
  qed
qed simp


definition demo_engine_options :: engine_options where
  "demo_engine_options = \<lparr>en_maxDeliveryIds = 10000, en_maxDlqEntries = 10000, en_retryBaseSec = 30\<rparr>"

definition demo_map :: "string \<Rightarrow> string \<Rightarrow> json \<Rightarrow> string + mapped_envelope" where
  "demo_map event d parsed = Inr \<lparr>mp_room = ''main'', mp_sender = ''github:webhook'', mp_topic = event, mp_issueId = d,
     mp_action = [], mp_envelopeId = ''gh-'' @ d, mp_payload = parsed\<rparr>"

definition demo_sync_publish :: "int \<Rightarrow> mapped_envelope \<Rightarrow> int \<times> sync_publish" where
  "demo_sync_publish n m = (n + 1, \<lparr>sp_status = 200, sp_accepted = True, sp_cursor = Some n\<rparr>)"


section \<open>The dead-letter queue\<close>

text \<open>
  A failed delivery waits in the queue: after it is enqueued its entry is there with
  the given event, body and error, its first creation time, a retry count that grew by the
  increment and a next attempt between one second and an hour away; the queue stays within its
  cap, and no other entry changes unless a new delivery enters a full queue.
\<close>

theorem dlq_keeps_failed_delivery:
  assumes "engine_ok eo en" "options_ok eo"
  shows "\<exists>e. getDlqEntry (fst (enqueueDlq eo now en d event body err inc)) d = Some e \<and>
    dl_event e = event \<and> dl_body e = body \<and> dl_last_error e = err \<and>
    dl_created_at e = (case getDlqEntry en d of Some old \<Rightarrow> dl_created_at old | None \<Rightarrow> now) \<and>
    dl_retry_count e = (case getDlqEntry en d of Some old \<Rightarrow> dl_retry_count old | None \<Rightarrow> 0) + (if inc then 1 else 0) \<and>
    now < dl_next_retry_at e \<and> dl_next_retry_at e \<le> now + 3600 \<and>
    int (length (en_dlqOrder (fst (enqueueDlq eo now en d event body err inc)))) \<le> en_maxDlqEntries eo \<and>
    (\<forall>d'. d' \<noteq> d \<and> (getDlqEntry en d \<noteq> None \<or> int (length (en_dlqOrder en)) < en_maxDlqEntries eo) \<longrightarrow>
       getDlqEntry (fst (enqueueDlq eo now en d event body err inc)) d' = getDlqEntry en d')"
proof -
  let ?en = "fst (enqueueDlq eo now en d event body err inc)"
  let ?e = "snd (enqueueDlq eo now en d event body err inc)"
  have base: "1 \<le> en_retryBaseSec eo" using assms(2) by (simp add: options_ok_def)
  have fields: "dl_event ?e = event" "dl_body ?e = body" "dl_last_error ?e = err"
    "dl_created_at ?e = (case getDlqEntry en d of Some old \<Rightarrow> dl_created_at old | None \<Rightarrow> now)"
    "dl_retry_count ?e = (case getDlqEntry en d of Some old \<Rightarrow> dl_retry_count old | None \<Rightarrow> 0) + (if inc then 1 else 0)"
    "dl_next_retry_at ?e = computeNextRetryAt eo now (dl_retry_count ?e)"
    by (simp_all add: enqueueDlq_def Let_def getDlqEntry_def split: option.split)
  have "int (length (en_dlqOrder ?en)) \<le> en_maxDlqEntries eo"
    using dlq_log.push_bounded [of eo "en_dlqOrder en" d] assms
    by (auto simp: enqueueDlq_order [OF assms(1)] engine_ok_def options_ok_def)
  moreover have "getDlqEntry ?en d' = getDlqEntry en d'"
    if "d' \<noteq> d" "getDlqEntry en d \<noteq> None \<or> int (length (en_dlqOrder en)) < en_maxDlqEntries eo" for d'
    using that assms(1) by (auto simp: enqueueDlq_def Let_def getDlqEntry_def map_of_delete_all engine_ok_def)
  ultimately show ?thesis
    using enqueueDlq_get [OF assms] fields computeNextRetryAt_bounds [OF base, of now "dl_retry_count ?e"] by auto
qed

lemma demo_engine_ok: "engine_ok demo_engine_options no_engine" "options_ok demo_engine_options"
  by (simp_all add: engine_ok_def options_ok_def demo_engine_options_def no_engine_def)

theorem dlq_keeps_failed_delivery_witness:
  "\<exists>e. getDlqEntry (fst (enqueueDlq demo_engine_options 100 no_engine ''d1'' ''issues'' ''{'' ''invalid json payload'' False)) ''d1'' =
     Some e \<and> dl_retry_count e = 0 \<and> dl_next_retry_at e \<le> 3700"
  using dlq_keeps_failed_delivery [OF demo_engine_ok, of 100 "''d1''" "''issues''" "''{''" "''invalid json payload''" False]
  by (auto simp: getDlqEntry_def no_engine_def)

lemma engine_ids_present:
  assumes "engine_ok eo en" "d \<in> set (en_dlqOrder en)"
  obtains e where "map_of (en_dlq en) d = Some e" "entry_ok d e" "js_trim d = d" "d \<noteq> []"
proof -
  from assms obtain e where e: "map_of (en_dlq en) d = Some e"
    using map_of_eq_None_iff [of "en_dlq en" d] by (auto simp: engine_ok_def)
  then have "(d, e) \<in> set (en_dlq en)" by (rule map_of_SomeD)
  with assms(1) e that show thesis by (auto simp: engine_ok_def)
qed

lemma map_filter_total: "(\<And>x. x \<in> set xs \<Longrightarrow> f x \<noteq> None) \<Longrightarrow> List.map_filter f xs = map (\<lambda>x. the (f x)) xs"
  by (induction xs) (force simp: List.map_filter_simps split: option.split)+

lemma engine_entries_map:
  "engine_ok eo en \<Longrightarrow> engine_entries en = map (\<lambda>d. the (map_of (en_dlq en) d)) (en_dlqOrder en)"
  unfolding engine_entries_def by (rule map_filter_total) (auto elim: engine_ids_present)

text \<open>
  Listing the queue is paging through it: a page holds the entries at its positions,
  none missing, and the next cursor is the position after the page.
\<close>

theorem listDlq_pages_the_queue:
  assumes "engine_ok eo en" "0 \<le> after"
  shows "listDlq en after limit = (slice (engine_entries en) after limit,
    after + int (length (slice (engine_entries en) after limit)))"
proof -
  have "List.map_filter (map_of (en_dlq en)) (slice (en_dlqOrder en) after limit) =
      map (\<lambda>d. the (map_of (en_dlq en) d)) (slice (en_dlqOrder en) after limit)"
    by (rule map_filter_total)
      (use assms(1) in \<open>auto simp: slice_def dest!: in_set_takeD in_set_dropD elim: engine_ids_present\<close>)
  moreover have "slice (map f xs) a l = map f (slice xs a l)" for f :: "string \<Rightarrow> dlq_entry" and xs a l
    by (simp add: slice_def take_map drop_map)
  ultimately show ?thesis
    by (simp add: listDlq_def Let_def engine_entries_map [OF assms(1)])
qed

theorem listDlq_pages_the_queue_witness:
  "listDlq no_engine 0 10 = (slice (engine_entries no_engine) 0 10, 0 + int (length (slice (engine_entries no_engine) 0 10)))"
  by (rule listDlq_pages_the_queue [OF demo_engine_ok(1)]) simp

section \<open>Persistence\<close>

lemma restored_entry_json:
  assumes "entry_ok d e" "js_trim d = d" "d \<noteq> []"
  shows "restored_entry eo now (dlq_json e) = Some e"
  using assms by (auto simp: restored_entry_def dlq_json_def Let_def entry_ok_def nonneg_field_def)

lemma restore_dlq_entries:
  assumes "\<forall>e\<in>set es. entry_ok (dl_delivery_id e) e \<and> js_trim (dl_delivery_id e) = dl_delivery_id e \<and> dl_delivery_id e \<noteq> []"
    and "int (length (en_dlqOrder en)) + int (length es) \<le> en_maxDlqEntries eo"
    and "distinct (map dl_delivery_id es)"
  shows "en_deliveryIds (restore_dlq eo now (map dlq_json es) en) = en_deliveryIds en \<and>
    en_dlqOrder (restore_dlq eo now (map dlq_json es) en) = en_dlqOrder en @ map dl_delivery_id es \<and>
    map_of (en_dlq (restore_dlq eo now (map dlq_json es) en)) =
      map_of (en_dlq en) ++ map_of (map (\<lambda>e. (dl_delivery_id e, e)) es)"
  using assms
proof (induction es arbitrary: en)
  case (Cons e es)
  let ?en = "en\<lparr>en_dlq := AList.update (dl_delivery_id e) e (en_dlq en),
      en_dlqOrder := en_dlqOrder en @ [dl_delivery_id e]\<rparr>"
  have e: "restored_entry eo now (dlq_json e) = Some e"
    using Cons.prems(1) by (intro restored_entry_json) auto
  have fresh: "map_of (map (\<lambda>e. (dl_delivery_id e, e)) es) (dl_delivery_id e) = None"
    using Cons.prems(3) by (auto simp: map_of_eq_None_iff)
  show ?case
  proof (cases "int (length (en_dlqOrder ?en)) \<ge> en_maxDlqEntries eo")
    case True
    then have "es = []" using Cons.prems(2) by (cases es) auto
    with True e show ?thesis by (simp add: fun_upd_def fun_eq_iff map_add_def)
  next
    case False
    have step: "restore_dlq eo now (map dlq_json (e # es)) en = restore_dlq eo now (map dlq_json es) ?en"
      using False e by (simp add: Let_def)
    have merge: "map_of (en_dlq ?en) ++ map_of (map (\<lambda>e. (dl_delivery_id e, e)) es) =
        map_of (en_dlq en) ++ map_of (map (\<lambda>e. (dl_delivery_id e, e)) (e # es))"
      using fresh by (auto simp: fun_eq_iff map_add_def split: option.split)
    have "en_deliveryIds (restore_dlq eo now (map dlq_json es) ?en) = en_deliveryIds ?en \<and>
      en_dlqOrder (restore_dlq eo now (map dlq_json es) ?en) = en_dlqOrder ?en @ map dl_delivery_id es \<and>
      map_of (en_dlq (restore_dlq eo now (map dlq_json es) ?en)) =
        map_of (en_dlq ?en) ++ map_of (map (\<lambda>e. (dl_delivery_id e, e)) es)"
      by (rule Cons.IH) (use Cons.prems in simp_all)
    moreover have "en_deliveryIds ?en = en_deliveryIds en"
      and "en_dlqOrder ?en @ map dl_delivery_id es = en_dlqOrder en @ map dl_delivery_id (e # es)"
      by simp_all
    ultimately show ?thesis by (simp only: step merge simp_thms)
  qed
qed simp

lemma engine_roundtrip:
  assumes "engine_ok eo en"
  shows "en_dlqOrder (engine_restore eo now (engine_snapshot en)) = en_dlqOrder en \<and>
    map_of (en_dlq (engine_restore eo now (engine_snapshot en))) = map_of (en_dlq en) \<and>
    map_of (en_deliveryIds (engine_restore eo now (engine_snapshot en))) d =
      (if d = ''__proto__'' then None else map_of (en_deliveryIds en) d)"
proof -
  let ?es = "engine_entries en"
  let ?ids = "map_of_entries restored_delivery (engine_deliveries en)"
  have ids: "map dl_delivery_id ?es = en_dlqOrder en"
    unfolding engine_entries_map [OF assms] map_map
    by (rule map_idI) (auto elim!: engine_ids_present [OF assms] simp: entry_ok_def)
  have good: "\<forall>e\<in>set ?es. entry_ok (dl_delivery_id e) e \<and> js_trim (dl_delivery_id e) = dl_delivery_id e \<and> dl_delivery_id e \<noteq> []"
    unfolding engine_entries_map [OF assms] by (auto elim!: engine_ids_present [OF assms] simp: entry_ok_def)
  have len: "length ?es = length (en_dlqOrder en)" by (simp add: engine_entries_map [OF assms])
  have dlq: "map_of (map (\<lambda>e. (dl_delivery_id e, e)) ?es) = map_of (en_dlq en)"
  proof
    fix k
    have eq: "map (\<lambda>e. (dl_delivery_id e, e)) ?es = map (\<lambda>d. (d, the (map_of (en_dlq en) d))) (en_dlqOrder en)"
      unfolding engine_entries_map [OF assms] map_map
      by (rule map_cong) (auto elim!: engine_ids_present [OF assms] simp: entry_ok_def)
    show "map_of (map (\<lambda>e. (dl_delivery_id e, e)) ?es) k = map_of (en_dlq en) k"
    proof (cases "k \<in> set (en_dlqOrder en)")
      case True
      then show ?thesis unfolding eq map_of_map_restrict by (auto elim: engine_ids_present [OF assms])
    next
      case False
      then have "map_of (en_dlq en) k = None" using assms by (auto simp: engine_ok_def map_of_eq_None_iff)
      then show ?thesis using False unfolding eq map_of_map_restrict by simp
    qed
  qed
  have "int (length (en_dlqOrder (no_engine\<lparr>en_deliveryIds := ?ids\<rparr>))) + int (length ?es) \<le> en_maxDlqEntries eo"
    using assms len by (simp add: no_engine_def engine_ok_def)
  moreover have "distinct (map dl_delivery_id ?es)" using assms ids by (simp add: engine_ok_def)
  ultimately have r: "engine_restore eo now (engine_snapshot en) = restore_dlq eo now (map dlq_json ?es) (no_engine\<lparr>en_deliveryIds := ?ids\<rparr>)"
    and rs: "en_deliveryIds (restore_dlq eo now (map dlq_json ?es) (no_engine\<lparr>en_deliveryIds := ?ids\<rparr>)) = ?ids"
      "en_dlqOrder (restore_dlq eo now (map dlq_json ?es) (no_engine\<lparr>en_deliveryIds := ?ids\<rparr>)) = en_dlqOrder en"
      "map_of (en_dlq (restore_dlq eo now (map dlq_json ?es) (no_engine\<lparr>en_deliveryIds := ?ids\<rparr>))) = map_of (en_dlq en)"
    using restore_dlq_entries [OF good, of "no_engine\<lparr>en_deliveryIds := ?ids\<rparr>" eo now] ids dlq
    by (simp_all add: engine_restore_def engine_snapshot_def no_engine_def)
  have okd: "okeys (filter (\<lambda>p. js_trim (fst p) \<noteq> []) (en_deliveryIds en))" "okeys (en_deliveryIds en)"
    using assms by (simp_all add: engine_ok_def)
  have "js_trim d \<noteq> [] \<and> 0 \<le> ts" if "map_of (en_deliveryIds en) d = Some ts" for ts
    using assms that by (fastforce simp: engine_ok_def dest: map_of_SomeD)
  then have "map_of ?ids d = (if d = ''__proto__'' then None else map_of (en_deliveryIds en) d)"
    unfolding engine_deliveries_def
    by (auto simp: map_of_map_of_entries okeys_obj_of_map [OF okd(1)] map_of_obj_of_map [OF okd(1)]
        map_of_filter_okeys [OF okd(2)] restored_delivery_def split: option.splits)
  with r rs show ?thesis by simp
qed

lemma okeys_restore_dlq: "okeys (en_dlq en) \<Longrightarrow> okeys (en_dlq (restore_dlq eo now vs en))"
  by (induction vs arbitrary: en) (simp_all add: Let_def split: option.split)

lemma restore_dlq_deliveries [simp]: "en_deliveryIds (restore_dlq eo now vs en) = en_deliveryIds en"
  by (induction vs arbitrary: en) (simp_all add: Let_def split: option.split)

lemma engine_restore_okeys:
  "okeys (en_dlq (engine_restore eo now data))" "okeys (en_deliveryIds (engine_restore eo now data))"
  by (simp_all add: engine_restore_def Let_def no_engine_def okeys_restore_dlq okeys_map_of_entries_any
      split: option.split json.split)

lemma okeys_length_le:
  assumes "okeys m'" "okeys m" "\<And>k v. map_of m' k = Some v \<Longrightarrow> map_of m k \<noteq> None"
  shows "length m' \<le> length m"
proof -
  have "fst ` set m' \<subseteq> fst ` set m"
  proof
    fix k
    assume "k \<in> fst ` set m'"
    then obtain v where "map_of m' k = Some v" by (auto simp: assms(1) [unfolded okeys_def] map_of_eq_None_iff dest: weak_map_of_SomeI)
    then show "k \<in> fst ` set m" using assms(3) by (simp add: map_of_eq_None_iff)
  qed
  then have "card (set (map fst m')) \<le> card (set (map fst m))" by (intro card_mono) simp_all
  then show ?thesis using assms(1,2) by (simp only: okeys_def distinct_card length_map)
qed

lemma engine_ok_like:
  assumes "engine_ok eo en" "okeys (en_deliveryIds en')" "okeys (en_dlq en')"
    and "en_dlqOrder en' = en_dlqOrder en" "map_of (en_dlq en') = map_of (en_dlq en)"
    and "\<And>d t. map_of (en_deliveryIds en') d = Some t \<Longrightarrow> map_of (en_deliveryIds en) d = Some t"
  shows "engine_ok eo en'"
proof -
  have "fst ` set (en_dlq en') = fst ` set (en_dlq en)"
    using assms(5) by (simp flip: dom_map_of_conv_image_fst)
  moreover have "p \<in> set (en_dlq en)" if "p \<in> set (en_dlq en')" for p
    using that assms(3,5) by (metis map_of_SomeD map_of_eq_Some_iff okeys_def prod.collapse)
  moreover have "p \<in> set (en_deliveryIds en)" if "p \<in> set (en_deliveryIds en')" for p
    using that assms(2,6) by (metis map_of_SomeD map_of_eq_Some_iff okeys_def prod.collapse)
  moreover have "length (en_deliveryIds en') \<le> length (en_deliveryIds en)"
    using assms(1,2,6) by (intro okeys_length_le) (auto simp: engine_ok_def)
  ultimately show ?thesis
    using assms by (auto simp: engine_ok_def)
qed

lemma engine_restore_ok:
  assumes "engine_ok eo en"
  shows "engine_ok eo (engine_restore eo now (engine_snapshot en))"
  using engine_roundtrip [OF assms] engine_restore_okeys
  by (intro engine_ok_like [OF assms]) (auto split: if_splits)

text \<open>
  Restoring an engine's snapshot gives an engine in good order again, with its queue, in the same order and with every
  entry unchanged, and its delivery ids with their times, except an id \<open>__proto__\<close>.
\<close>

theorem engine_snapshot_roundtrip:
  assumes "engine_ok eo en"
  shows "engine_ok eo (engine_restore eo now (engine_snapshot en)) \<and>
    en_dlqOrder (engine_restore eo now (engine_snapshot en)) = en_dlqOrder en \<and>
    map_of (en_dlq (engine_restore eo now (engine_snapshot en))) = map_of (en_dlq en) \<and>
    map_of (en_deliveryIds (engine_restore eo now (engine_snapshot en))) d =
      (if d = ''__proto__'' then None else map_of (en_deliveryIds en) d)"
  using engine_roundtrip [OF assms, of now d] engine_restore_ok [OF assms] by simp

theorem engine_snapshot_roundtrip_witness:
  "en_dlqOrder (engine_restore demo_engine_options 200 (engine_snapshot
     (fst (enqueueDlq demo_engine_options 100 no_engine ''d1'' ''issues'' ''{'' ''bad'' False)))) =
   en_dlqOrder (fst (enqueueDlq demo_engine_options 100 no_engine ''d1'' ''issues'' ''{'' ''bad'' False))"
proof -
  have t: "js_trim ''d1'' = ''d1''" "js_trim ''issues'' = ''issues''"
    by (simp_all add: js_trim_def is_space_def)
  have "engine_ok demo_engine_options (fst (enqueueDlq demo_engine_options 100 no_engine ''d1'' ''issues'' ''{'' ''bad'' False))"
    by (rule enqueueDlq_ok [OF demo_engine_ok t(1) _ _ t(2)]) simp_all
  then show ?thesis using engine_snapshot_roundtrip by blast
qed

end
