(* ===== verification/Relay_State.thy ===== *)
theory Relay_State
  imports Identity Cache_Exchange Issue_Sync Rate_Limit
begin

text \<open>
  The state of one relay (the closure variables of \<open>createMemoryRelayService\<close> in
  \<open>src/memory_handler.ts\<close>), the guards its handlers share (\<open>checkRoomToken\<close>, \<open>checkPeerAuth\<close>), the
  publication into a room with its broadcast and its exchange record, and the reaper of idle
  web sockets. A handler returns the next state, the effects it performs in order, and the
  response.
\<close>

record relay_state =
  rs_rooms :: rooms_map
  rs_senderRates :: rate_map
  rs_ipRates :: rate_map
  rs_roomRates :: rate_map
  rs_identity :: identity
  rs_exchange :: exchange
  rs_engine :: engine
  rs_issueCursors :: "(string, int) omap"
  rs_lastReapAt :: int

definition initial_state :: "int \<Rightarrow> relay_state" where
  "initial_state now =
     \<lparr>rs_rooms = [], rs_senderRates = [], rs_ipRates = [], rs_roomRates = [], rs_identity = no_identity,
      rs_exchange = no_exchange, rs_engine = no_engine, rs_issueCursors = [], rs_lastReapAt = now\<rparr>"

text \<open>The engine inside the relay is created with the constants of \<open>memory_handler.ts\<close>.\<close>

definition relay_engine_options :: engine_options where
  "relay_engine_options = fst (createIssueSyncEngine (Some 10000) (Some 10000) (Some 30))"

type_synonym handled = "relay_state \<times> effect list \<times> response"

definition answer :: "relay_state \<Rightarrow> response \<Rightarrow> handled" where
  "answer st r = (st, [], r)"

definition room_of :: "relay_state \<Rightarrow> string \<Rightarrow> room_state" where
  "room_of st room = snd (getOrCreateRoomState (rs_rooms st) room)"

definition set_room :: "relay_state \<Rightarrow> string \<Rightarrow> room_state \<Rightarrow> relay_state" where
  "set_room st room r = st\<lparr>rs_rooms := AList.update room r (rs_rooms st)\<rparr>"

text \<open>\<open>getOrCreateRoomState(rooms, room)\<close> as a step: the room exists afterwards.\<close>

definition touch_room :: "relay_state \<Rightarrow> string \<Rightarrow> relay_state" where
  "touch_room st room = st\<lparr>rs_rooms := fst (getOrCreateRoomState (rs_rooms st) room)\<rparr>"

section \<open>Guards\<close>

definition checkRoomToken :: "relay_config \<Rightarrow> request \<Rightarrow> string \<Rightarrow> response option" where
  "checkRoomToken cf r room =
     (case map_of (cf_roomTokens cf) room of
        None \<Rightarrow> None
      | Some expected \<Rightarrow>
          if expected = [] then None
          else let provided = readRoomToken r
            in if provided = [] \<or> \<not> timingSafeEqual provided expected
               then Some (toErrorResponse ''forbidden'' 403) else None)"

definition checkPeerAuth :: "relay_config \<Rightarrow> request \<Rightarrow> response option" where
  "checkPeerAuth cf r =
     (if cf_peerAuthToken cf = [] then None
      else let presented = extractPresentedToken r
        in if presented = [] \<or> \<not> timingSafeEqual presented (cf_peerAuthToken cf)
           then Some unauthorizedResponse else None)"

definition guarded :: "relay_state \<Rightarrow> response option \<Rightarrow> handled \<Rightarrow> handled" where
  "guarded st g k = (case g of Some err \<Rightarrow> answer st err | None \<Rightarrow> k)"

text \<open>The opening of the room handlers: the room parameter, its pattern, its token.\<close>

definition with_room :: "relay_config \<Rightarrow> relay_state \<Rightarrow> request \<Rightarrow> (string \<Rightarrow> handled) \<Rightarrow> handled" where
  "with_room cf st r k =
     (let room = normalizeRoom (query_get r ''room'')
      in if \<not> isValidRoomName room then answer st invalidRoomResponse
         else guarded st (checkRoomToken cf r room) (k room))"

section \<open>Publication into a room\<close>

text \<open>
  What publish, cache push, the webhook and the trigger callback share: publish into the room
  and, when the message is new, broadcast it, record it for the exchange and persist it.
\<close>

definition publish_and_record ::
    "relay_config \<Rightarrow> relay_env \<Rightarrow> relay_state \<Rightarrow> string \<Rightarrow> string \<Rightarrow> string \<Rightarrow> string \<Rightarrow> string \<Rightarrow> json \<Rightarrow>
     string \<Rightarrow> int \<Rightarrow> int \<Rightarrow> relay_state \<times> effect list \<times> publish_result" where
  "publish_and_record cf env st room sender topic eid signature payload origin hopCount maxHops =
     (let pub = publishIntoRoom (room_of st room) room sender topic eid signature payload (cf_maxMessages cf);
          result = snd pub
      in case pub_committed result of
          None \<Rightarrow> (set_room st room (fst pub), [], result)
        | Some (envelope, cursor) \<Rightarrow>
            let bc = broadcastPublish env (fst pub) room envelope cursor;
                st1 = set_room st room (fst bc)
            in (st1\<lparr>rs_exchange := recordCacheExchange (cf_maxRecords cf) (rs_exchange st1) envelope origin hopCount maxHops\<rparr>,
                snd bc @ [Persist envelope cursor], result))"

section \<open>Reaping\<close>

definition reapDeadConnections :: "relay_config \<Rightarrow> relay_env \<Rightarrow> relay_state \<Rightarrow> relay_state \<times> effect list" where
  "reapDeadConnections cf env st =
     (st\<lparr>rs_rooms := map (\<lambda>(room, r). (room, fst (reap_room env (cf_wsIdleMs cf) r))) (rs_rooms st),
         rs_lastReapAt := arrival_ms env\<rparr>,
      concat (map (\<lambda>(room, r). snd (reap_room env (cf_wsIdleMs cf) r)) (rs_rooms st)))"

section \<open>The invariant\<close>

definition state_ok :: "relay_config \<Rightarrow> relay_state \<Rightarrow> bool" where
  "state_ok cf st \<longleftrightarrow>
     okeys (rs_rooms st) \<and>
     (\<forall>p\<in>set (rs_rooms st). isValidRoomName (fst p) \<and> room_ok (cf_maxMessages cf) (snd p) \<and> messages_ok (snd p)) \<and>
     rate_map_ok (rs_senderRates st) \<and> rate_map_ok (rs_ipRates st) \<and> rate_map_ok (rs_roomRates st) \<and>
     identity_ok (rs_identity st) \<and>
     exchange_ok (cf_maxRecords cf) (rs_exchange st) \<and>
     engine_ok relay_engine_options (rs_engine st)"

lemma relay_engine_options_values:
  "en_maxDeliveryIds relay_engine_options = 10000" "en_maxDlqEntries relay_engine_options = 10000"
  "en_retryBaseSec relay_engine_options = 30"
proof -
  have "rtrunc 10000 = 10000" "rtrunc 30 = 30"
    using rtrunc_of_int [of 10000] rtrunc_of_int [of 30] by simp_all
  then show "en_maxDeliveryIds relay_engine_options = 10000" "en_maxDlqEntries relay_engine_options = 10000"
    "en_retryBaseSec relay_engine_options = 30"
    by (simp_all add: relay_engine_options_def createIssueSyncEngine_def normalizePositiveInt_def)
qed

lemma relay_engine_options_ok: "options_ok relay_engine_options"
  by (simp add: options_ok_def relay_engine_options_values)

lemma initial_state_ok: "state_ok cf (initial_state now)"
  by (simp add: state_ok_def initial_state_def no_engine_ok relay_engine_options_ok)

lemma state_ok_room_of:
  assumes "state_ok cf st"
  shows "room_ok (cf_maxMessages cf) (room_of st room)" "messages_ok (room_of st room)"
proof -
  have "room_ok (cf_maxMessages cf) r \<and> messages_ok r" if "map_of (rs_rooms st) room = Some r" for r
    using map_of_SomeD [OF that] assms by (fastforce simp: state_ok_def)
  then show "room_ok (cf_maxMessages cf) (room_of st room)" "messages_ok (room_of st room)"
    by (auto simp: room_of_def getOrCreateRoomState_def split: option.split)
qed

lemma set_room_ok [inv_intros]:
  "state_ok cf st \<Longrightarrow> isValidRoomName room \<Longrightarrow> room_ok (cf_maxMessages cf) r \<Longrightarrow> messages_ok r \<Longrightarrow>
   state_ok cf (set_room st room r)"
  by (auto simp: state_ok_def set_room_def dest!: set_update_cases)

lemma touch_room_ok [inv_intros]:
  "state_ok cf st \<Longrightarrow> isValidRoomName room \<Longrightarrow> state_ok cf (touch_room st room)"
  by (auto simp: state_ok_def touch_room_def getOrCreateRoomState_def split: option.splits dest!: set_update_cases)

lemma state_ok_exchange [inv_intros]:
  "state_ok cf st \<Longrightarrow> exchange_ok (cf_maxRecords cf) ex \<Longrightarrow> state_ok cf (st\<lparr>rs_exchange := ex\<rparr>)"
  by (simp add: state_ok_def)

lemma state_ok_identity [inv_intros]:
  "state_ok cf st \<Longrightarrow> identity_ok idn \<Longrightarrow> state_ok cf (st\<lparr>rs_identity := idn\<rparr>)"
  by (simp add: state_ok_def)

lemma state_ok_engine [inv_intros]:
  "state_ok cf st \<Longrightarrow> engine_ok relay_engine_options en \<Longrightarrow> state_ok cf (st\<lparr>rs_engine := en\<rparr>)"
  by (simp add: state_ok_def)

lemma state_ok_rates [inv_intros]:
  "state_ok cf st \<Longrightarrow> rate_map_ok m \<Longrightarrow> state_ok cf (st\<lparr>rs_senderRates := m\<rparr>)"
  "state_ok cf st \<Longrightarrow> rate_map_ok m \<Longrightarrow> state_ok cf (st\<lparr>rs_ipRates := m\<rparr>)"
  "state_ok cf st \<Longrightarrow> rate_map_ok m \<Longrightarrow> state_ok cf (st\<lparr>rs_roomRates := m\<rparr>)"
  by (simp_all add: state_ok_def)

lemma state_ok_parts:
  assumes "state_ok cf st"
  shows "identity_ok (rs_identity st)" "exchange_ok (cf_maxRecords cf) (rs_exchange st)"
    "engine_ok relay_engine_options (rs_engine st)" "rate_map_ok (rs_senderRates st)"
    "rate_map_ok (rs_ipRates st)" "rate_map_ok (rs_roomRates st)"
  using assms by (simp_all add: state_ok_def)

lemma set_room_fields [simp]:
  "rs_exchange (set_room st room r) = rs_exchange st" "rs_identity (set_room st room r) = rs_identity st"
  "rs_engine (set_room st room r) = rs_engine st"
  by (simp_all add: set_room_def)

lemma publish_and_record_ok [inv_intros]:
  assumes "state_ok cf st" "isValidRoomName room" "0 \<le> hop" "hop < mx" "sender \<noteq> []" "eid \<noteq> []"
    and "js_trim origin = origin" "origin \<noteq> []"
  shows "state_ok cf (fst (publish_and_record cf env st room sender topic eid sig payload origin hop mx))"
proof -
  let ?pub = "publishIntoRoom (room_of st room) room sender topic eid sig payload (cf_maxMessages cf)"
  have r: "room_ok (cf_maxMessages cf) (fst ?pub)" "messages_ok (fst ?pub)"
    using state_ok_room_of [OF assms(1)] assms(2,5,6) by (simp_all add: publishIntoRoom_ok publishIntoRoom_messages)
  have "state_ok cf (set_room st room (fst ?pub))"
    using assms r by (intro set_room_ok)
  moreover have "state_ok cf (set_room st room (fst (broadcastPublish env (fst ?pub) room e c)))" for e c
    using assms(1,2) r messages_ok_same [OF broadcasts_messages(1)] by (intro set_room_ok broadcasts_ok) simp_all
  moreover have "message_ok e" if "pub_committed (snd ?pub) = Some (e, c)" for e c
    using that assms(2,5,6) by (auto simp: publishIntoRoom_committed message_ok_def made_envelope_def split: if_splits)
  ultimately show ?thesis
    using state_ok_parts(2) [OF assms(1)] assms
    by (auto simp: publish_and_record_def Let_def split: option.split intro!: state_ok_exchange recordCacheExchange_ok)
qed

lemma reapDeadConnections_ok [inv_intros]:
  assumes "state_ok cf st"
  shows "state_ok cf (fst (reapDeadConnections cf env st))"
proof -
  have "map fst (map (\<lambda>(room, r). (room, fst (reap_room env i r))) m) = map fst m" for i and m :: rooms_map
    by (induction m) auto
  then have "okeys (map (\<lambda>(room, r). (room, fst (reap_room env i r))) m) = okeys m" for i and m :: rooms_map
    by (simp only: okeys_def)
  then show ?thesis
    using assms by (auto simp: reapDeadConnections_def state_ok_def messages_ok_same [OF reap_room_messages]
        intro!: reap_room_ok)
qed

lemma guarded_ok:
  "state_ok cf st \<Longrightarrow> (g = None \<Longrightarrow> state_ok cf (fst k)) \<Longrightarrow> state_ok cf (fst (guarded st g k))"
  by (simp add: guarded_def answer_def split: option.split)

lemma with_room_ok:
  "state_ok cf st \<Longrightarrow> (\<And>room. isValidRoomName room \<Longrightarrow> state_ok cf (fst (k room))) \<Longrightarrow>
   state_ok cf (fst (with_room cf st r k))"
  by (simp add: with_room_def Let_def answer_def guarded_ok)

lemma answer_ok [simp]: "fst (answer st r) = st"
  by (simp add: answer_def)

text \<open>The clock does not run before the epoch, and a UUID is not blank.\<close>

definition env_ok :: "relay_env \<Rightarrow> bool" where
  "env_ok env \<longleftrightarrow> 0 \<le> arrival_ms env \<and> 0 \<le> body_ms env \<and> js_trim (fresh_uuid env) \<noteq> []"

lemma env_ok_now: "env_ok env \<Longrightarrow> 0 \<le> nowEpochSec (body_ms env)"
  by (simp add: env_ok_def nowEpochSec_def pos_imp_zdiv_nonneg_iff)

end
