(* ===== verification/Json_Text.thy ===== *)
theory Json_Text
  imports Signing
begin

text \<open>
  JSON text as the cache holds it: \<open>JSON.stringify\<close>, \<open>JSON.parse\<close> and the UTF-8 of \<open>TextEncoder\<close> and
  \<open>TextDecoder\<close>. Parsing is recursive descent over the text with fuel; \<open>2 * length s + 1\<close> is enough
  for a text \<open>s\<close>, because every nested value costs at least one character and two calls. A text
  that decodes to a code unit from 256 on is outside the model and does not parse. A number is read
  exactly; the rounding to a double is not modelled, the overflow to infinity is.
\<close>

section \<open>Writing\<close>

fun json_text :: "(rat \<Rightarrow> string) \<Rightarrow> json \<Rightarrow> string" where
  "json_text ns JNull = ''null''"
| "json_text ns (JBool b) = (if b then ''true'' else ''false'')"
| "json_text ns (JNum (Fin r)) = ns r"
| "json_text ns (JNum _) = ''null''"
| "json_text ns (JStr s) = json_quote s"
| "json_text ns (JArr xs) = ''['' @ join '','' (map (json_text ns) xs) @ '']''"
| "json_text ns (JObj kvs) = ''{'' @ join '','' (map (\<lambda>(k, v). json_quote k @ '':'' @ json_text ns v) kvs) @ ''}''"

section \<open>Reading\<close>

definition is_json_space :: "char \<Rightarrow> bool" where
  "is_json_space c \<longleftrightarrow> c \<in> {CHR '' '', CHR 0x09, CHR 0x0A, CHR 0x0D}"

definition skip_ws :: "string \<Rightarrow> string" where
  "skip_ws = dropWhile is_json_space"

definition hex_of :: "char \<Rightarrow> nat option" where
  "hex_of c =
     (let n = (of_char c :: nat)
      in if is_digit c then Some (n - 48)
         else if 97 \<le> n \<and> n \<le> 102 then Some (n - 87)
         else if 65 \<le> n \<and> n \<le> 70 then Some (n - 55) else None)"

definition hex4 :: "char \<Rightarrow> char \<Rightarrow> char \<Rightarrow> char \<Rightarrow> nat option" where
  "hex4 a b c d =
     (case (hex_of a, hex_of b, hex_of c, hex_of d) of
        (Some p, Some q, Some r, Some s) \<Rightarrow> Some (4096 * p + 256 * q + 16 * r + s)
      | _ \<Rightarrow> None)"

definition simple_escape :: "char \<Rightarrow> char option" where
  "simple_escape e =
     map_of [(CHR 0x22, CHR 0x22), (CHR 0x5C, CHR 0x5C), (CHR ''/'', CHR ''/''), (CHR ''b'', CHR 0x08),
             (CHR ''f'', CHR 0x0C), (CHR ''n'', CHR 0x0A), (CHR ''r'', CHR 0x0D), (CHR ''t'', CHR 0x09)] e"

definition cons_char :: "char \<Rightarrow> (string \<times> string) option \<Rightarrow> (string \<times> string) option" where
  "cons_char c r = map_option (\<lambda>(s, rest). (c # s, rest)) r"

text \<open>The characters of a string after its opening quote, up to and without the closing one.\<close>

fun parse_chars :: "string \<Rightarrow> (string \<times> string) option" where
  "parse_chars [] = None"
| "parse_chars (c # cs) =
     (if c = CHR 0x22 then Some ([], cs)
      else if c = CHR 0x5C then
        (case cs of
           [] \<Rightarrow> None
         | e # r \<Rightarrow>
             if e = CHR ''u'' then
               (case r of
                  h1 # h2 # h3 # h4 # r' \<Rightarrow>
                    (case hex4 h1 h2 h3 h4 of
                       None \<Rightarrow> None
                     | Some n \<Rightarrow> if n < 256 then cons_char (char_of n) (parse_chars r') else None)
                | _ \<Rightarrow> None)
             else (case simple_escape e of None \<Rightarrow> None | Some d \<Rightarrow> cons_char d (parse_chars r)))
      else if (of_char c :: nat) < 32 then None
      else cons_char c (parse_chars cs))"

definition pow10 :: "int \<Rightarrow> rat" where
  "pow10 e = (if 0 \<le> e then 10 ^ nat e else 1 / 10 ^ nat (- e))"

definition number_value :: "bool \<Rightarrow> rat \<Rightarrow> js_num" where
  "number_value neg v =
     (if v \<ge> of_int max_double_bound then (if neg then NegInf else PosInf) else Fin (if neg then - v else v))"

text \<open>The fraction and the exponent of a number, with the text after them.\<close>

definition parse_frac :: "string \<Rightarrow> (string \<times> string) option" where
  "parse_frac s =
     (case s of
        [] \<Rightarrow> Some ([], [])
      | c # cs \<Rightarrow>
          if c = CHR ''.'' then
            (let ds = takeWhile is_digit cs in if ds = [] then None else Some (ds, dropWhile is_digit cs))
          else Some ([], s))"

definition parse_exp :: "string \<Rightarrow> (int \<times> string) option" where
  "parse_exp s =
     (case s of
        [] \<Rightarrow> Some (0, [])
      | c # cs \<Rightarrow>
          if c = CHR ''e'' \<or> c = CHR ''E'' then
            (let neg = (cs \<noteq> [] \<and> hd cs = CHR ''-'');
                 body = (if cs \<noteq> [] \<and> hd cs \<in> {CHR ''-'', CHR ''+''} then tl cs else cs);
                 ds = takeWhile is_digit body
             in if ds = [] then None
                else Some (if neg then - int (digits_val ds) else int (digits_val ds), dropWhile is_digit body))
          else Some (0, s))"

definition parse_number :: "string \<Rightarrow> (js_num \<times> string) option" where
  "parse_number s =
     (let neg = (s \<noteq> [] \<and> hd s = CHR ''-''); body = (if neg then tl s else s); ds = takeWhile is_digit body
      in if ds = [] \<or> nat_str (digits_val ds) \<noteq> ds then None
         else case parse_frac (dropWhile is_digit body) of
             None \<Rightarrow> None
           | Some (fs, r) \<Rightarrow>
               (case parse_exp r of
                  None \<Rightarrow> None
                | Some (e, r') \<Rightarrow>
                    Some (number_value neg (of_nat (digits_val (ds @ fs)) * pow10 (e - int (length fs))), r')))"

text \<open>A later member overwrites an earlier one of its name; an own \<open>__proto__\<close> is kept.\<close>

definition object_of :: "(string \<times> json) list \<Rightarrow> json" where
  "object_of kvs = JObj (obj_order (foldl (\<lambda>m (k, v). AList.update k v m) [] kvs))"

definition after_ws :: "string \<Rightarrow> (char \<times> string) option" where
  "after_ws s = (case skip_ws s of [] \<Rightarrow> None | c # cs \<Rightarrow> Some (c, cs))"

fun parse_value :: "nat \<Rightarrow> string \<Rightarrow> (json \<times> string) option"
  and parse_elems :: "nat \<Rightarrow> string \<Rightarrow> (json list \<times> string) option"
  and parse_members :: "nat \<Rightarrow> string \<Rightarrow> ((string \<times> json) list \<times> string) option" where
  "parse_value 0 s = None"
| "parse_value (Suc n) s =
     (case after_ws s of
        None \<Rightarrow> None
      | Some (c, cs) \<Rightarrow>
          if c = CHR 0x22 then map_option (\<lambda>(t, r). (JStr t, r)) (parse_chars cs)
          else if c = CHR ''['' then
            (if map_option fst (after_ws cs) = Some CHR '']'' then Some (JArr [], tl (skip_ws cs))
             else map_option (\<lambda>(vs, r). (JArr vs, r)) (parse_elems n cs))
          else if c = CHR ''{'' then
            (if map_option fst (after_ws cs) = Some CHR ''}'' then Some (JObj [], tl (skip_ws cs))
             else map_option (\<lambda>(kvs, r). (object_of kvs, r)) (parse_members n cs))
          else if take 4 (c # cs) = ''true'' then Some (JBool True, drop 4 (c # cs))
          else if take 5 (c # cs) = ''false'' then Some (JBool False, drop 5 (c # cs))
          else if take 4 (c # cs) = ''null'' then Some (JNull, drop 4 (c # cs))
          else map_option (\<lambda>(x, r). (JNum x, r)) (parse_number (c # cs)))"
| "parse_elems 0 s = None"
| "parse_elems (Suc n) s =
     (case parse_value n s of
        None \<Rightarrow> None
      | Some (v, r) \<Rightarrow>
          (case after_ws r of
             None \<Rightarrow> None
           | Some (c, r') \<Rightarrow>
               if c = CHR '','' then map_option (\<lambda>(vs, r''). (v # vs, r'')) (parse_elems n r')
               else if c = CHR '']'' then Some ([v], r') else None))"
| "parse_members 0 s = None"
| "parse_members (Suc n) s =
     (case after_ws s of
        None \<Rightarrow> None
      | Some (q, cs) \<Rightarrow>
          if q \<noteq> CHR 0x22 then None
          else case parse_chars cs of
              None \<Rightarrow> None
            | Some (k, r) \<Rightarrow>
                (case after_ws r of
                   None \<Rightarrow> None
                 | Some (c, r1) \<Rightarrow>
                     if c \<noteq> CHR '':'' then None
                     else case parse_value n r1 of
                         None \<Rightarrow> None
                       | Some (v, r2) \<Rightarrow>
                           (case after_ws r2 of
                              None \<Rightarrow> None
                            | Some (d, r3) \<Rightarrow>
                                if d = CHR '','' then map_option (\<lambda>(kvs, r4). ((k, v) # kvs, r4)) (parse_members n r3)
                                else if d = CHR ''}'' then Some ([(k, v)], r3) else None)))"

definition parse_json :: "string \<Rightarrow> json option" where
  "parse_json s =
     (case parse_value (2 * length s + 1) s of
        None \<Rightarrow> None
      | Some (v, r) \<Rightarrow> if skip_ws r = [] then Some v else None)"

section \<open>UTF-8\<close>

fun utf8_decode :: "string \<Rightarrow> string option" where
  "utf8_decode [] = Some []"
| "utf8_decode (c # cs) =
     (let n = (of_char c :: nat)
      in if n < 128 then map_option (Cons c) (utf8_decode cs)
         else case cs of
             d # r \<Rightarrow>
               if (n = 194 \<or> n = 195) \<and> 128 \<le> (of_char d :: nat) \<and> (of_char d :: nat) < 192
               then map_option (Cons (char_of (64 * (n - 192) + (of_char d - 128)))) (utf8_decode r)
               else None
           | [] \<Rightarrow> None)"

text \<open>\<open>JSON.parse(new TextDecoder().decode(bytes))\<close>, and the bytes of \<open>JSON.stringify\<close>.\<close>

definition parse_bytes :: "string \<Rightarrow> json option" where
  "parse_bytes bs = Option.bind (utf8_decode bs) parse_json"

definition json_bytes :: "(rat \<Rightarrow> string) \<Rightarrow> json \<Rightarrow> string" where
  "json_bytes ns v = utf8 (json_text ns v)"

lemma utf8_decode_utf8 [simp]: "utf8_decode (utf8 s) = Some s"
proof (induction s)
  case (Cons c s)
  have b: "(of_char c :: nat) < 256" by simp
  have eq: "utf8 (c # s) = (let n = (of_char c :: nat) in if n < 128 then [c] else [char_of (192 + n div 64), char_of (128 + n mod 64)]) @ utf8 s"
    by (simp add: utf8_def)
  show ?case
  proof (cases "(of_char c :: nat) < 128")
    case True
    then show ?thesis unfolding eq using Cons by (simp add: Let_def)
  next
    case False
    have "128 \<le> m \<Longrightarrow> m < 256 \<Longrightarrow> m div 64 = 2 \<or> m div 64 = 3" for m :: nat
      using div_le_mono [of 128 m 64] less_mult_imp_div_less [of m 4 64] by simp linarith
    then have "(of_char c :: nat) div 64 = 2 \<or> (of_char c :: nat) div 64 = 3" using False b by simp
    moreover have "char_of (64 * (of_char c div 64) + of_char c mod 64 :: nat) = c" by simp
    then have "of_char c div 64 = (2 :: nat) \<Longrightarrow> char_of (128 + of_char c mod 64 :: nat) = c"
      "of_char c div 64 = (3 :: nat) \<Longrightarrow> char_of (192 + of_char c mod 64 :: nat) = c"
      by (simp_all only: mult.commute [of 64]) simp_all
    ultimately show ?thesis unfolding eq using Cons False by (auto simp: Let_def)
  qed
qed (simp add: utf8_def)

section \<open>The round trip\<close>

text \<open>
  A value that comes back as it was: integers below \<open>10^21\<close>, which a number prints in full, and
  objects whose names are distinct and in property order.
\<close>

definition int_bound :: int where
  "int_bound = 10 ^ 21"

definition int_text :: "(rat \<Rightarrow> string) \<Rightarrow> bool" where
  "int_text ns \<longleftrightarrow> (\<forall>i. \<bar>i\<bar> < int_bound \<longrightarrow> ns (of_int i) = int_str i)"

lemma int_bound_double: "\<bar>i\<bar> < int_bound \<Longrightarrow> \<bar>i\<bar> < max_double_bound"
proof -
  have "int_bound \<le> max_double_bound" by code_simp
  then show "\<bar>i\<bar> < int_bound \<Longrightarrow> \<bar>i\<bar> < max_double_bound" by simp
qed

fun plain :: "json \<Rightarrow> bool" where
  "plain (JNum x) \<longleftrightarrow> (\<exists>i. x = of_integer i \<and> \<bar>i\<bar> < int_bound)"
| "plain (JArr xs) \<longleftrightarrow> list_all plain xs"
| "plain (JObj kvs) \<longleftrightarrow> okeys kvs \<and> obj_order kvs = kvs \<and> list_all (\<lambda>p. plain (snd p)) kvs"
| "plain _ \<longleftrightarrow> True"

lemma hex_of_hex_digit: "d < 16 \<Longrightarrow> hex_of (hex_digit d) = Some d"
  by (auto simp: hex_of_def hex_digit_def is_digit_def Let_def)

lemma parse_chars_esc: "parse_chars (esc_char c @ r) = cons_char c (parse_chars r)"
proof -
  have b: "(of_char c :: nat) < 256" by simp
  then have "(of_char c :: nat) div 16 < 16" "(of_char c :: nat) mod 16 < 16" by (simp_all add: div_less_iff_less_mult)
  then have hex: "hex4 CHR ''0'' CHR ''0'' (hex_digit (of_char c div 16)) (hex_digit (of_char c mod 16)) = Some (of_char c)"
    by (simp add: hex4_def hex_of_hex_digit) (simp add: hex_of_def is_digit_def)
  show ?thesis using b by (simp add: esc_char_def hex simple_escape_def)
qed

lemma parse_chars_quoted: "parse_chars (concat (map esc_char s) @ CHR 0x22 # r) = Some (s, r)"
  by (induction s) (simp_all add: parse_chars_esc cons_char_def del: parse_chars.simps(2), simp)

lemma json_quote_hd: "json_quote s @ r = CHR 0x22 # concat (map esc_char s) @ CHR 0x22 # r"
  by (simp add: json_quote_def)

text \<open>What may follow a value in a text.\<close>

definition value_end :: "string \<Rightarrow> bool" where
  "value_end r \<longleftrightarrow> r = [] \<or> hd r \<in> {CHR '','', CHR '']'', CHR ''}''}"

lemma takeWhile_digits: "value_end r \<Longrightarrow> takeWhile is_digit (nat_str n @ r) = nat_str n"
    "value_end r \<Longrightarrow> dropWhile is_digit (nat_str n @ r) = r"
  using nat_str_digits [of _ n]
  by (cases r; auto simp: value_end_def takeWhile_append dropWhile_append is_digit_def)+

lemma parse_number_int:
  assumes "value_end r" "\<bar>i\<bar> < max_double_bound"
  shows "parse_number (int_str i @ r) = Some (of_integer i, r)"
proof -
  have dash: "nat_str n @ r = c # cs \<Longrightarrow> c \<noteq> CHR ''-''" for n c cs
    using nat_str_digits [of c n] nat_str_not_Nil [of n] by (cases "nat_str n") (auto simp: is_digit_def)
  have frac: "parse_frac r = Some ([], r)" "parse_exp r = Some (0, r)"
    using assms(1) by (auto simp: parse_frac_def parse_exp_def value_end_def split: list.split)
  have v: "number_value neg (of_nat n) = of_integer (if neg then - int n else int n)" if "int n < max_double_bound" for neg n
  proof -
    have "(of_nat n :: rat) < of_int max_double_bound" using that by (metis of_int_less_iff of_int_of_nat_eq)
    then show ?thesis by (simp add: number_value_def of_integer_def)
  qed
  show ?thesis
  proof (cases "i < 0")
    case True
    then show ?thesis
      using takeWhile_digits [OF assms(1), of "nat (- i)"] frac v [of "nat (- i)" True] assms(2)
      by (simp add: parse_number_def int_str_def pow10_def Let_def)
  next
    case False
    have "\<not> (nat_str (nat i) @ r \<noteq> [] \<and> hd (nat_str (nat i) @ r) = CHR ''-'')"
      using dash [of "nat i"] by (cases "nat_str (nat i) @ r") auto
    then show ?thesis
      using False takeWhile_digits [OF assms(1), of "nat i"] frac v [of "nat i" False] assms(2)
      by (simp add: parse_number_def int_str_def pow10_def Let_def)
  qed
qed

lemma after_ws_Cons: "\<not> is_json_space c \<Longrightarrow> after_ws (c # cs) = Some (c, cs)"
  by (simp add: after_ws_def skip_ws_def)

lemma int_str_hd: "\<exists>c cs. int_str i = c # cs \<and> (is_digit c \<or> c = CHR ''-'')"
proof -
  obtain c cs where "nat_str (nat i) = c # cs" by (cases "nat_str (nat i)") auto
  moreover from this have "is_digit c" using nat_str_digits [of c "nat i"] by simp
  ultimately show ?thesis by (auto simp: int_str_def)
qed

text \<open>How a value's text begins.\<close>

lemma json_text_hd:
  assumes "plain v" "int_text ns"
  obtains c cs where "json_text ns v = c # cs" "\<not> is_json_space c" "c \<noteq> CHR '']''"
proof (cases v)
  case (JNum x)
  then obtain i where "x = of_integer i" "\<bar>i\<bar> < int_bound" using assms(1) by auto
  then have "json_text ns v = int_str i" using assms(2) by (simp add: JNum of_integer_def int_text_def)
  then show thesis using that int_str_hd [of i] by (fastforce simp: is_digit_def is_json_space_def)
next
  case (JBool b)
  then show thesis using that by (cases b) (auto simp: is_json_space_def)
qed (use that in \<open>auto simp: json_quote_def is_json_space_def\<close>)

definition reads_back :: "(rat \<Rightarrow> string) \<Rightarrow> json \<Rightarrow> bool" where
  "reads_back ns v \<longleftrightarrow> (\<forall>n r. 2 * length (json_text ns v) + 1 \<le> n \<longrightarrow> value_end r \<longrightarrow>
     parse_value n (json_text ns v @ r) = Some (v, r))"

lemma reads_backD:
  "reads_back ns v \<Longrightarrow> 2 * length (json_text ns v) + 1 \<le> n \<Longrightarrow> value_end r \<Longrightarrow> parse_value n (json_text ns v @ r) = Some (v, r)"
  by (simp add: reads_back_def)

lemma reads_backI:
  assumes "\<And>n r. 2 * length (json_text ns v) \<le> n \<Longrightarrow> value_end r \<Longrightarrow> parse_value (Suc n) (json_text ns v @ r) = Some (v, r)"
  shows "reads_back ns v"
  unfolding reads_back_def
proof (intro allI impI)
  fix n r assume n: "2 * length (json_text ns v) + 1 \<le> n" and r: "value_end r"
  then obtain m where m: "n = Suc m" by (cases n) auto
  show "parse_value n (json_text ns v @ r) = Some (v, r)"
    unfolding m by (rule assms) (use n m r in simp_all)
qed

lemma value_end_simps [simp]: "value_end (CHR '','' # r)" "value_end (CHR '']'' # r)" "value_end (CHR ''}'' # r)" "value_end []"
  by (simp_all add: value_end_def)

lemma separators_no_space [simp]: "\<not> is_json_space CHR '',''" "\<not> is_json_space CHR '']''" "\<not> is_json_space CHR ''}''"
    "\<not> is_json_space CHR 0x22" "\<not> is_json_space CHR '':''" "\<not> is_json_space CHR ''[''" "\<not> is_json_space CHR ''{''"
  by (simp_all add: is_json_space_def)

lemma parse_elems_text:
  "xs \<noteq> [] \<Longrightarrow> \<forall>x\<in>set xs. reads_back ns x \<Longrightarrow> 2 * length (join '','' (map (json_text ns) xs)) + 2 \<le> n \<Longrightarrow>
   parse_elems n (join '','' (map (json_text ns) xs) @ CHR '']'' # r) = Some (xs, r)"
proof (induction xs arbitrary: n)
  case (Cons x xs)
  obtain m where n: "n = Suc m" using Cons.prems(3) by (cases n) auto
  show ?case
  proof (cases xs)
    case Nil
    then show ?thesis
      using Cons.prems reads_backD [of ns x m "CHR '']'' # r"] by (simp add: n after_ws_Cons)
  next
    case (Cons y ys)
    let ?tail = "join '','' (map (json_text ns) xs)"
    have eq: "join '','' (map (json_text ns) (x # xs)) = json_text ns x @ CHR '','' # ?tail"
      by (simp add: Cons)
    have "parse_value m (json_text ns x @ CHR '','' # ?tail @ CHR '']'' # r) = Some (x, CHR '','' # ?tail @ CHR '']'' # r)"
      using Cons.prems unfolding eq n by (intro reads_backD) simp_all
    moreover have "parse_elems m (?tail @ CHR '']'' # r) = Some (xs, r)"
      using Cons.prems unfolding eq n by (intro Cons.IH) (simp_all add: Cons)
    ultimately show ?thesis unfolding eq n by (simp add: after_ws_Cons)
  qed
qed simp

abbreviation member_text :: "(rat \<Rightarrow> string) \<Rightarrow> string \<times> json \<Rightarrow> string" where
  "member_text ns \<equiv> \<lambda>(k, v). json_quote k @ '':'' @ json_text ns v"

lemma parse_members_text:
  "kvs \<noteq> [] \<Longrightarrow> \<forall>p\<in>set kvs. reads_back ns (snd p) \<Longrightarrow> 2 * length (join '','' (map (member_text ns) kvs)) + 2 \<le> n \<Longrightarrow>
   parse_members n (join '','' (map (member_text ns) kvs) @ CHR ''}'' # r) = Some (kvs, r)"
proof (induction kvs arbitrary: n)
  case (Cons p kvs)
  obtain k v where p: "p = (k, v)" by (cases p)
  obtain m where n: "n = Suc m" using Cons.prems(3) by (cases n) auto
  show ?case
  proof (cases kvs)
    case Nil
    then show ?thesis
      using Cons.prems reads_backD [of ns v m "CHR ''}'' # r"]
      by (simp add: n p after_ws_Cons json_quote_hd parse_chars_quoted json_quote_def [of k])
  next
    case (Cons q qs)
    let ?tail = "join '','' (map (member_text ns) kvs)"
    have eq: "join '','' (map (member_text ns) (p # kvs)) = json_quote k @ CHR '':'' # json_text ns v @ CHR '','' # ?tail"
      by (simp add: Cons p)
    have "parse_value m (json_text ns v @ CHR '','' # ?tail @ CHR ''}'' # r) = Some (v, CHR '','' # ?tail @ CHR ''}'' # r)"
      using Cons.prems unfolding eq n by (intro reads_backD) (simp_all add: p)
    moreover have "parse_members m (?tail @ CHR ''}'' # r) = Some (kvs, r)"
      using Cons.prems unfolding eq n by (intro Cons.IH) (simp_all add: Cons)
    ultimately show ?thesis
      unfolding eq n by (simp add: p after_ws_Cons json_quote_hd parse_chars_quoted)
  qed
qed simp

lemma update_fold_distinct:
  "distinct (map fst acc @ map fst kvs) \<Longrightarrow> foldl (\<lambda>m (k, v). AList.update k v m) acc kvs = acc @ kvs"
proof (induction kvs arbitrary: acc)
  case (Cons p kvs)
  then have "fst p \<notin> fst ` set acc" by auto
  then have "AList.update (fst p) (snd p) acc = acc @ [p]" by (induction acc) auto
  then show ?case using Cons by (simp add: case_prod_beta)
qed simp

lemma object_of_plain: "okeys kvs \<Longrightarrow> obj_order kvs = kvs \<Longrightarrow> object_of kvs = JObj kvs"
  using update_fold_distinct [of "[]" kvs] by (simp add: object_of_def okeys_def)

lemma text_reads_back: "plain v \<Longrightarrow> int_text ns \<Longrightarrow> reads_back ns v"
proof (induction v)
  case (JNum x)
  then obtain i where i: "x = of_integer i" "\<bar>i\<bar> < int_bound" by auto
  obtain c cs where c: "int_str i = c # cs" "is_digit c \<or> c = CHR ''-''" using int_str_hd by blast
  have eq: "json_text ns (JNum x) = int_str i" using i JNum.prems(2) by (simp add: of_integer_def int_text_def)
  have hd: "\<not> is_json_space c" "c \<noteq> CHR 0x22" "c \<noteq> CHR ''[''" "c \<noteq> CHR ''{''" "c \<noteq> CHR ''t''" "c \<noteq> CHR ''f''" "c \<noteq> CHR ''n''"
    using c(2) by (auto simp: is_json_space_def is_digit_def)
  have "parse_value (Suc n) (int_str i @ r) = Some (JNum x, r)" if "value_end r" for n r
    using parse_number_int [OF that int_bound_double [OF i(2)]] c(2)
    using hd by (simp add: c(1) after_ws_Cons i(1))
  then show ?case by (intro reads_backI) (simp only: eq)
next
  case (JStr s)
  have "parse_value (Suc n) (json_quote s @ r) = Some (JStr s, r)" for n r
    by (simp add: json_quote_hd after_ws_Cons parse_chars_quoted)
  then show ?case by (intro reads_backI) (simp only: json_text.simps)
next
  case (JArr xs)
  then have xs: "\<forall>x\<in>set xs. reads_back ns x" by (auto simp: list_all_iff)
  show ?case
  proof (cases xs)
    case (Cons y ys)
    have py: "plain y" using JArr.prems(1) Cons by simp
    obtain c cs where c: "json_text ns y = c # cs" "\<not> is_json_space c" "c \<noteq> CHR '']''"
      using json_text_hd [OF py JArr.prems(2)] by blast
    have hd: "after_ws (join '','' (map (json_text ns) xs) @ r) \<noteq> None"
      "map_option fst (after_ws (join '','' (map (json_text ns) xs) @ r)) \<noteq> Some CHR '']''" for r
      using c by (cases ys; simp add: Cons after_ws_Cons)+
    show ?thesis
      unfolding reads_back_def
    proof (intro allI impI)
      fix n r assume n: "2 * length (json_text ns (JArr xs)) + 1 \<le> n"
      then obtain m where m: "n = Suc m" by (cases n) auto
      have "parse_elems m (join '','' (map (json_text ns) xs) @ CHR '']'' # r) = Some (xs, r)"
        using n xs m by (intro parse_elems_text) (simp_all add: Cons)
      then show "parse_value n (json_text ns (JArr xs) @ r) = Some (JArr xs, r)"
        using hd(2) [of "CHR '']'' # r"] by (simp add: m after_ws_Cons)
    qed
  qed (auto intro!: reads_backI simp: after_ws_Cons skip_ws_def)
next
  case (JObj kvs)
  then have kvs: "\<forall>p\<in>set kvs. reads_back ns (snd p)" by (fastforce simp: list_all_iff)
  show ?case
  proof (cases kvs)
    case (Cons q qs)
    obtain k v where q: "q = (k, v)" by (cases q)
    have hd: "map_option fst (after_ws (join '','' (map (member_text ns) kvs) @ r)) \<noteq> Some CHR ''}''" for r
      by (cases qs; simp add: Cons q after_ws_Cons json_quote_def)
    show ?thesis
      unfolding reads_back_def
    proof (intro allI impI)
      fix n r assume n: "2 * length (json_text ns (JObj kvs)) + 1 \<le> n"
      then obtain m where m: "n = Suc m" by (cases n) auto
      have "parse_members m (join '','' (map (member_text ns) kvs) @ CHR ''}'' # r) = Some (kvs, r)"
        using n kvs m by (intro parse_members_text) (simp_all add: Cons)
      then show "parse_value n (json_text ns (JObj kvs) @ r) = Some (JObj kvs, r)"
        using hd [of "CHR ''}'' # r"] JObj.prems(1) by (simp add: m after_ws_Cons object_of_plain)
    qed
  qed (auto intro!: reads_backI simp: after_ws_Cons skip_ws_def)
next
  case JNull
  show ?case by (rule reads_backI) (simp add: after_ws_Cons is_json_space_def)
next
  case (JBool b)
  show ?case by (rule reads_backI) (cases b; simp add: after_ws_Cons is_json_space_def)
qed

lemma parse_json_text: "plain v \<Longrightarrow> int_text ns \<Longrightarrow> parse_json (json_text ns v) = Some v"
  using reads_backD [OF text_reads_back, of v ns "2 * length (json_text ns v) + 1" "[]"]
  by (simp add: parse_json_def skip_ws_def)

lemma parse_bytes_json: "plain v \<Longrightarrow> int_text ns \<Longrightarrow> parse_bytes (json_bytes ns v) = Some v"
  by (simp add: parse_bytes_def json_bytes_def parse_json_text)

lemma int_text_floor: "int_text (\<lambda>r. int_str \<lfloor>r\<rfloor>)"
  by (simp add: int_text_def)

end
