(* ===== verification/Cache_Store.thy ===== *)
theory Cache_Store
  imports Json_Text
begin

text \<open>
  \<open>src/cache_store.ts\<close>: the object store the relay caches in. A record has a kind, a key, a body of
  bytes and metadata; a policy gives records a lifetime and the store a size. The in-memory store is
  an insertion-ordered map from storage keys to records. The comparison of \<open>localeCompare\<close> is the
  engine's collation, a parameter \<open>le\<close> that says whether it is at most zero. A store operation is
  given the second it runs at, and answers with an error where the code throws.
\<close>

section \<open>Kinds, keys and policies\<close>

definition VALID_KINDS :: "string list" where
  "VALID_KINDS = [''object'', ''pack'', ''ref'', ''issue'']"

record put_request =
  pq_kind :: string
  pq_key :: string
  pq_body :: string
  pq_room :: "string option"
  pq_ref :: "string option"
  pq_contentHash :: "string option"
  pq_contentType :: "string option"
  pq_updatedAt :: "js_num option"

record store_metadata =
  sm_kind :: string
  sm_key :: string
  sm_size :: int
  sm_updatedAt :: int
  sm_room :: "string option"
  sm_ref :: "string option"
  sm_contentHash :: "string option"
  sm_contentType :: "string option"

record store_object =
  so_body :: string
  so_metadata :: store_metadata

record list_query =
  lq_kind :: "string option"
  lq_prefix :: "string option"
  lq_room :: "string option"
  lq_limit :: "js_num option"
  lq_cursor :: "string option"

record list_result =
  lr_entries :: "store_metadata list"
  lr_cursor :: "string option"

record store_policy =
  sp_ttlSec :: "int option"
  sp_maxBytes :: "int option"

text \<open>\<open>s ? s : undefined\<close>.\<close>

definition truthy :: "string option \<Rightarrow> string option" where
  "truthy s = (case s of None \<Rightarrow> None | Some t \<Rightarrow> if t = [] then None else Some t)"

definition listLimit :: "js_num option \<Rightarrow> int" where
  "listLimit raw = (case Option.bind raw finite_trunc of None \<Rightarrow> 100 | Some i \<Rightarrow> max 1 i)"

definition normalizeOffset :: "string option \<Rightarrow> int" where
  "normalizeOffset raw =
     (case finite_trunc (js_parse_int (case raw of None \<Rightarrow> ''0'' | Some s \<Rightarrow> s)) of None \<Rightarrow> 0 | Some i \<Rightarrow> max 0 i)"

definition normalizeKind :: "string \<Rightarrow> string + string" where
  "normalizeKind kind =
     (if kind \<in> set VALID_KINDS then Inr kind else Inl (''invalid cache store kind: '' @ kind))"

definition normalizeKey :: "string \<Rightarrow> string + string" where
  "normalizeKey key = (let t = js_trim key in if t = [] then Inl ''cache store key must not be empty'' else Inr t)"

definition normalizeOptionalPositive :: "js_num option \<Rightarrow> int option" where
  "normalizeOptionalPositive raw =
     (case raw of Some (Fin r) \<Rightarrow> if r \<le> 0 then None else Some (rtrunc r) | _ \<Rightarrow> None)"

definition normalizeCacheStorePolicy :: "js_num option \<Rightarrow> js_num option \<Rightarrow> store_policy" where
  "normalizeCacheStorePolicy ttlSec maxBytes =
     \<lparr>sp_ttlSec = normalizeOptionalPositive ttlSec, sp_maxBytes = normalizeOptionalPositive maxBytes\<rparr>"

definition isExpiredByPolicy :: "store_metadata \<Rightarrow> store_policy \<Rightarrow> int \<Rightarrow> bool" where
  "isExpiredByPolicy metadata policy nowSec =
     (case sp_ttlSec policy of None \<Rightarrow> False | Some ttl \<Rightarrow> nowSec - sm_updatedAt metadata \<ge> ttl)"

definition toStorageKey :: "string \<Rightarrow> string \<Rightarrow> string" where
  "toStorageKey kind key = kind @ ''/'' @ key"

definition fromStorageKey :: "string \<Rightarrow> (string \<times> string) option" where
  "fromStorageKey storageKey =
     (let kind = takeWhile (\<lambda>c. c \<noteq> CHR ''/'') storageKey; rest = dropWhile (\<lambda>c. c \<noteq> CHR ''/'') storageKey; key = tl rest
      in if rest = [] \<or> kind = [] then None
         else if kind \<notin> set VALID_KINDS then None
         else if key = [] then None else Some (kind, key))"

section \<open>Sorting with a comparator\<close>

text \<open>\<open>Array.prototype.sort\<close> with a comparator is stable.\<close>

fun insert_by :: "('a \<Rightarrow> 'a \<Rightarrow> bool) \<Rightarrow> 'a \<Rightarrow> 'a list \<Rightarrow> 'a list" where
  "insert_by le x [] = [x]"
| "insert_by le x (y # ys) = (if le x y then x # y # ys else y # insert_by le x ys)"

definition sort_by :: "('a \<Rightarrow> 'a \<Rightarrow> bool) \<Rightarrow> 'a list \<Rightarrow> 'a list" where
  "sort_by le xs = foldr (insert_by le) xs []"

record eviction_candidate =
  ec_storageKey :: string
  ec_updatedAt :: int
  ec_size :: int

definition sortEvictionCandidates :: "(string \<Rightarrow> string \<Rightarrow> bool) \<Rightarrow> eviction_candidate list \<Rightarrow> eviction_candidate list" where
  "sortEvictionCandidates le =
     sort_by (\<lambda>a b. if ec_updatedAt a = ec_updatedAt b then le (ec_storageKey a) (ec_storageKey b)
                     else ec_updatedAt a < ec_updatedAt b)"

definition metadataMatchesQuery :: "store_metadata \<Rightarrow> list_query \<Rightarrow> bool" where
  "metadataMatchesQuery m q \<longleftrightarrow>
     (case truthy (lq_kind q) of None \<Rightarrow> True | Some k \<Rightarrow> sm_kind m = k) \<and>
     (case truthy (lq_prefix q) of None \<Rightarrow> True | Some p \<Rightarrow> prefix p (sm_key m)) \<and>
     (case truthy (lq_room q) of None \<Rightarrow> True | Some r \<Rightarrow> sm_room m = Some r)"

definition metadata_le :: "(string \<Rightarrow> string \<Rightarrow> bool) \<Rightarrow> store_metadata \<Rightarrow> store_metadata \<Rightarrow> bool" where
  "metadata_le le a b = (if sm_kind a = sm_kind b then le (sm_key a) (sm_key b) else le (sm_kind a) (sm_kind b))"

definition paginateMetadata :: "(string \<Rightarrow> string \<Rightarrow> bool) \<Rightarrow> store_metadata list \<Rightarrow> list_query \<Rightarrow> list_result" where
  "paginateMetadata le entries q =
     (let sorted = sort_by (metadata_le le) entries;
          limit = listLimit (lq_limit q); start = normalizeOffset (lq_cursor q);
          page = take (nat limit) (drop (nat start) sorted);
          next = start + int (length page)
      in \<lparr>lr_entries = page, lr_cursor = (if next < int (length sorted) then Some (int_str next) else None)\<rparr>)"

section \<open>The in-memory store\<close>

type_synonym memory_store = "(string, store_object) omap"

definition pruneExpiredRecords :: "store_policy \<Rightarrow> int \<Rightarrow> memory_store \<Rightarrow> memory_store" where
  "pruneExpiredRecords policy nowSec st = filter (\<lambda>(_, r). \<not> isExpiredByPolicy (so_metadata r) policy nowSec) st"

definition candidate_of :: "string \<times> store_object \<Rightarrow> eviction_candidate" where
  "candidate_of p = \<lparr>ec_storageKey = fst p, ec_updatedAt = sm_updatedAt (so_metadata (snd p)), ec_size = sm_size (so_metadata (snd p))\<rparr>"

definition totalBytes :: "memory_store \<Rightarrow> int" where
  "totalBytes st = sum_list (map (\<lambda>p. sm_size (so_metadata (snd p))) st)"

fun evict :: "int \<Rightarrow> int \<Rightarrow> eviction_candidate list \<Rightarrow> memory_store \<Rightarrow> memory_store" where
  "evict maxBytes bytes [] st = st"
| "evict maxBytes bytes (c # cs) st =
     (if bytes \<le> maxBytes then st
      else if map_of st (ec_storageKey c) = None then evict maxBytes bytes cs st
      else evict maxBytes (bytes - ec_size c) cs (AList.delete (ec_storageKey c) st))"

definition enforceMaxBytesLimit :: "(string \<Rightarrow> string \<Rightarrow> bool) \<Rightarrow> store_policy \<Rightarrow> memory_store \<Rightarrow> memory_store" where
  "enforceMaxBytesLimit le policy st =
     (case sp_maxBytes policy of
        None \<Rightarrow> st
      | Some maxBytes \<Rightarrow>
          if totalBytes st \<le> maxBytes then st
          else evict maxBytes (totalBytes st) (sortEvictionCandidates le (map candidate_of st)) st)"

definition put_time :: "js_num option \<Rightarrow> int \<Rightarrow> int" where
  "put_time raw nowSec = (case Option.bind raw finite_trunc of Some i \<Rightarrow> max 0 i | None \<Rightarrow> nowSec)"

definition put_metadata :: "int \<Rightarrow> put_request \<Rightarrow> string \<Rightarrow> string \<Rightarrow> store_metadata" where
  "put_metadata nowSec rq kind key =
     \<lparr>sm_kind = kind, sm_key = key, sm_size = int (length (pq_body rq)), sm_updatedAt = put_time (pq_updatedAt rq) nowSec,
      sm_room = truthy (pq_room rq), sm_ref = truthy (pq_ref rq), sm_contentHash = truthy (pq_contentHash rq),
      sm_contentType = truthy (pq_contentType rq)\<rparr>"

text \<open>The checks of kind and key every operation begins with.\<close>

definition with_key :: "string \<Rightarrow> string \<Rightarrow> (string \<Rightarrow> string \<Rightarrow> 's \<times> (string + 'a)) \<Rightarrow> 's \<Rightarrow> 's \<times> (string + 'a)" where
  "with_key kind key k st =
     (case normalizeKind kind of
        Inl err \<Rightarrow> (st, Inl err)
      | Inr kd \<Rightarrow> (case normalizeKey key of Inl err \<Rightarrow> (st, Inl err) | Inr ky \<Rightarrow> k kd ky))"

definition memory_put ::
    "(string \<Rightarrow> string \<Rightarrow> bool) \<Rightarrow> store_policy \<Rightarrow> int \<Rightarrow> put_request \<Rightarrow> memory_store \<Rightarrow> memory_store \<times> (string + unit)" where
  "memory_put le policy nowSec rq st =
     with_key (pq_kind rq) (pq_key rq) (\<lambda>kind key.
       (enforceMaxBytesLimit le policy
          (AList.update (toStorageKey kind key) \<lparr>so_body = pq_body rq, so_metadata = put_metadata nowSec rq kind key\<rparr>
             (pruneExpiredRecords policy nowSec st)), Inr ())) st"

definition memory_get ::
    "store_policy \<Rightarrow> int \<Rightarrow> string \<Rightarrow> string \<Rightarrow> memory_store \<Rightarrow> memory_store \<times> (string + store_object option)" where
  "memory_get policy nowSec kind key st =
     with_key kind key (\<lambda>kind key.
       (let storageKey = toStorageKey kind key
        in case map_of st storageKey of
             None \<Rightarrow> (st, Inr None)
           | Some found \<Rightarrow>
               if isExpiredByPolicy (so_metadata found) policy nowSec then (AList.delete storageKey st, Inr None)
               else (st, Inr (Some found)))) st"

definition memory_delete :: "string \<Rightarrow> string \<Rightarrow> memory_store \<Rightarrow> memory_store \<times> (string + bool)" where
  "memory_delete kind key st =
     with_key kind key (\<lambda>kind key.
       (AList.delete (toStorageKey kind key) st, Inr (map_of st (toStorageKey kind key) \<noteq> None))) st"

definition memory_list ::
    "(string \<Rightarrow> string \<Rightarrow> bool) \<Rightarrow> store_policy \<Rightarrow> int \<Rightarrow> list_query \<Rightarrow> memory_store \<Rightarrow> memory_store \<times> (string + list_result)" where
  "memory_list le policy nowSec q st =
     (let kept = pruneExpiredRecords policy nowSec st
      in (kept, Inr (paginateMetadata le
            (filter (\<lambda>m. metadataMatchesQuery m q) (map (\<lambda>p. so_metadata (snd p)) kept)) q)))"

text \<open>The interface \<open>CacheStore\<close>, and the in-memory store as an implementation of it.\<close>

record 's cache_store =
  cs_put :: "int \<Rightarrow> put_request \<Rightarrow> 's \<Rightarrow> 's \<times> (string + unit)"
  cs_get :: "int \<Rightarrow> string \<Rightarrow> string \<Rightarrow> 's \<Rightarrow> 's \<times> (string + store_object option)"
  cs_delete :: "int \<Rightarrow> string \<Rightarrow> string \<Rightarrow> 's \<Rightarrow> 's \<times> (string + bool)"
  cs_list :: "int \<Rightarrow> list_query \<Rightarrow> 's \<Rightarrow> 's \<times> (string + list_result)"

definition createMemoryCacheStore :: "(string \<Rightarrow> string \<Rightarrow> bool) \<Rightarrow> js_num option \<Rightarrow> js_num option \<Rightarrow> memory_store cache_store" where
  "createMemoryCacheStore le ttlSec maxBytes =
     (let policy = normalizeCacheStorePolicy ttlSec maxBytes
      in \<lparr>cs_put = memory_put le policy, cs_get = memory_get policy, cs_delete = (\<lambda>_. memory_delete), cs_list = memory_list le policy\<rparr>)"

section \<open>Sorting and keys\<close>

lemma set_insert_by [simp]: "set (insert_by le x ys) = insert x (set ys)"
  by (induction ys) auto

lemma mset_sort_by [simp]: "mset (sort_by le xs) = mset xs"
proof -
  have "mset (insert_by le x ys) = add_mset x (mset ys)" for x ys
    by (induction ys) auto
  then show ?thesis by (induction xs) (simp_all add: sort_by_def)
qed

lemma set_sort_by [simp]: "set (sort_by le xs) = set xs"
  by (metis mset_sort_by set_mset_mset)

lemma length_sort_by [simp]: "length (sort_by le xs) = length xs"
  by (metis mset_sort_by size_mset)

text \<open>A comparison that is total and transitive, as the specification asks of a collation.\<close>

definition total_order :: "('a \<Rightarrow> 'a \<Rightarrow> bool) \<Rightarrow> bool" where
  "total_order le \<longleftrightarrow> (\<forall>a b. le a b \<or> le b a) \<and> (\<forall>a b c. le a b \<longrightarrow> le b c \<longrightarrow> le a c)"

lemma total_orderD: "total_order le \<Longrightarrow> le a b \<or> le b a" "total_order le \<Longrightarrow> le a b \<Longrightarrow> le b c \<Longrightarrow> le a c"
  unfolding total_order_def by blast+

lemma sorted_insert_by: "total_order le \<Longrightarrow> sorted_wrt le ys \<Longrightarrow> sorted_wrt le (insert_by le x ys)"
proof (induction ys)
  case (Cons y ys)
  show ?case
  proof (cases "le x y")
    case True
    then show ?thesis using Cons.prems total_orderD(2) [OF Cons.prems(1) True] by auto
  next
    case False
    then have "le y x" using total_orderD(1) [OF Cons.prems(1)] by blast
    then show ?thesis using False Cons by auto
  qed
qed simp

lemma sorted_sort_by: "total_order le \<Longrightarrow> sorted_wrt le (sort_by le xs)"
  by (induction xs) (simp_all add: sort_by_def sorted_insert_by)

lemma valid_kind_slash: "kind \<in> set VALID_KINDS \<Longrightarrow> CHR ''/'' \<notin> set kind \<and> kind \<noteq> []"
  by (auto simp: VALID_KINDS_def)

lemma storage_key_split:
  assumes "kind \<in> set VALID_KINDS"
  shows "takeWhile (\<lambda>c. c \<noteq> CHR ''/'') (toStorageKey kind key) = kind"
    "dropWhile (\<lambda>c. c \<noteq> CHR ''/'') (toStorageKey kind key) = CHR ''/'' # key"
proof -
  have "\<forall>c\<in>set kind. c \<noteq> CHR ''/''" using valid_kind_slash [OF assms] by auto
  then show "takeWhile (\<lambda>c. c \<noteq> CHR ''/'') (toStorageKey kind key) = kind"
    "dropWhile (\<lambda>c. c \<noteq> CHR ''/'') (toStorageKey kind key) = CHR ''/'' # key"
    by (simp_all add: toStorageKey_def takeWhile_append2 dropWhile_append2)
qed

lemma from_to_storage_key: "kind \<in> set VALID_KINDS \<Longrightarrow> key \<noteq> [] \<Longrightarrow> fromStorageKey (toStorageKey kind key) = Some (kind, key)"
  by (simp add: fromStorageKey_def storage_key_split valid_kind_slash Let_def)

lemma toStorageKey_inj:
  "kind \<in> set VALID_KINDS \<Longrightarrow> kind' \<in> set VALID_KINDS \<Longrightarrow> toStorageKey kind key = toStorageKey kind' key' \<longleftrightarrow> kind = kind' \<and> key = key'"
  by (metis list.inject storage_key_split)

section \<open>The invariant\<close>

definition object_ok :: "string \<Rightarrow> store_object \<Rightarrow> bool" where
  "object_ok storageKey r \<longleftrightarrow>
     (let m = so_metadata r
      in storageKey = toStorageKey (sm_kind m) (sm_key m) \<and> sm_kind m \<in> set VALID_KINDS \<and> clean (sm_key m) \<and>
         sm_size m = int (length (so_body r)))"

definition memory_ok :: "store_policy \<Rightarrow> memory_store \<Rightarrow> bool" where
  "memory_ok policy st \<longleftrightarrow> okeys st \<and> (\<forall>p\<in>set st. object_ok (fst p) (snd p)) \<and>
     (case sp_maxBytes policy of None \<Rightarrow> True | Some m \<Rightarrow> totalBytes st \<le> m)"

definition policy_ok :: "store_policy \<Rightarrow> bool" where
  "policy_ok policy \<longleftrightarrow> (case sp_maxBytes policy of None \<Rightarrow> True | Some m \<Rightarrow> 0 \<le> m)"

lemma policy_normalized [simp]: "policy_ok (normalizeCacheStorePolicy ttl maxBytes)"
  by (auto simp: policy_ok_def normalizeCacheStorePolicy_def normalizeOptionalPositive_def rtrunc_def
      split: option.split js_num.split)

lemma totalBytes_sub:
  assumes "\<forall>p\<in>set st. 0 \<le> sm_size (so_metadata (snd p))"
  shows "totalBytes (filter P st) \<le> totalBytes st"
  using assms by (induction st) (auto simp: totalBytes_def)

lemma sizes_nonneg: "\<forall>p\<in>set st. object_ok (fst p) (snd p) \<Longrightarrow> \<forall>p\<in>set st. 0 \<le> sm_size (so_metadata (snd p))"
  by (auto simp: object_ok_def Let_def)

lemma totalBytes_delete:
  "okeys st \<Longrightarrow> map_of st k = Some r \<Longrightarrow>
   totalBytes (filter (\<lambda>p. fst p \<noteq> k) st) = totalBytes st - sm_size (so_metadata r)"
proof (induction st)
  case (Cons p st)
  show ?case
  proof (cases "fst p = k")
    case True
    then have "filter (\<lambda>q. fst q \<noteq> k) st = st" using Cons.prems(1) by (intro filter_True ballI) (metis image_eqI okeys_Cons)
    then show ?thesis using True Cons.prems(2) by (simp add: totalBytes_def)
  qed (use Cons in \<open>auto simp: totalBytes_def okeys_Cons\<close>)
qed simp

text \<open>
  The eviction loop over candidates that name every record: it deletes the records of a prefix of
  the candidates, ends within the budget, and stops as soon as it is.
\<close>

definition without :: "eviction_candidate list \<Rightarrow> memory_store \<Rightarrow> memory_store" where
  "without cs st = filter (\<lambda>p. fst p \<notin> ec_storageKey ` set cs) st"

lemma evict_prefix:
  assumes "0 \<le> m" "okeys st" "distinct (map ec_storageKey cs)" "fst ` set st = ec_storageKey ` set cs"
    and "\<forall>c\<in>set cs. \<exists>r. map_of st (ec_storageKey c) = Some r \<and> sm_size (so_metadata r) = ec_size c"
  shows "\<exists>n \<le> length cs. evict m (totalBytes st) cs st = without (take n cs) st \<and>
    totalBytes (without (take n cs) st) \<le> m \<and> (n = 0 \<or> m < totalBytes (without (take (n - 1) cs) st))"
  using assms(2-5)
proof (induction cs arbitrary: st)
  case Nil
  then show ?case using assms(1) by (simp add: without_def totalBytes_def)
next
  case (Cons c cs)
  show ?case
  proof (cases "totalBytes st \<le> m")
    case True
    then show ?thesis by (intro exI [of _ 0]) (simp add: without_def)
  next
    case False
    obtain r where r: "map_of st (ec_storageKey c) = Some r" "sm_size (so_metadata r) = ec_size c"
      using Cons.prems(4) by auto
    let ?st = "filter (\<lambda>p. fst p \<noteq> ec_storageKey c) st"
    have del: "AList.delete (ec_storageKey c) st = ?st" by (auto simp: AList.delete_eq intro!: filter_cong)
    have lookup: "map_of ?st k = (if k = ec_storageKey c then None else map_of st k)" for k
      unfolding del [symmetric] by simp
    have "\<exists>n \<le> length cs. evict m (totalBytes ?st) cs ?st = without (take n cs) ?st \<and>
      totalBytes (without (take n cs) ?st) \<le> m \<and> (n = 0 \<or> m < totalBytes (without (take (n - 1) cs) ?st))"
    proof (rule Cons.IH)
      have "fst ` set ?st = fst ` set st - {ec_storageKey c}" by auto
      then show "fst ` set ?st = ec_storageKey ` set cs" using Cons.prems(2,3) by auto
      show "\<forall>d\<in>set cs. \<exists>r. map_of ?st (ec_storageKey d) = Some r \<and> sm_size (so_metadata r) = ec_size d"
        using Cons.prems(2,4) unfolding lookup by (force simp: image_iff)
    qed (use Cons.prems in auto)
    then obtain n where n: "n \<le> length cs" "evict m (totalBytes ?st) cs ?st = without (take n cs) ?st"
      "totalBytes (without (take n cs) ?st) \<le> m" "n = 0 \<or> m < totalBytes (without (take (n - 1) cs) ?st)"
      by blast
    have step: "without (take k cs) ?st = without (take (Suc k) (c # cs)) st" for k
      by (auto simp: without_def intro: filter_cong)
    have "evict m (totalBytes st) (c # cs) st = evict m (totalBytes ?st) cs ?st"
      using False r totalBytes_delete [OF Cons.prems(1) r(1)] by (simp add: del)
    moreover have "m < totalBytes (without (take n (c # cs)) st)"
      using n(4) False step [of "n - 1"] by (cases n) (auto simp: without_def)
    ultimately show ?thesis
      using n(1-3) unfolding step by (intro exI [of _ "Suc n"]) simp
  qed
qed

lemma sorted_candidates:
  assumes "okeys st"
  shows "distinct (map ec_storageKey (sortEvictionCandidates le (map candidate_of st)))"
    "ec_storageKey ` set (sortEvictionCandidates le (map candidate_of st)) = fst ` set st"
    "\<forall>c\<in>set (sortEvictionCandidates le (map candidate_of st)). \<exists>r. map_of st (ec_storageKey c) = Some r \<and>
       sm_size (so_metadata r) = ec_size c \<and> sm_updatedAt (so_metadata r) = ec_updatedAt c"
proof -
  let ?cs = "sortEvictionCandidates le (map candidate_of st)"
  have set: "set ?cs = candidate_of ` set st" by (simp add: sortEvictionCandidates_def)
  have "mset (map ec_storageKey ?cs) = mset (map ec_storageKey (map candidate_of st))"
    by (simp only: sortEvictionCandidates_def mset_map mset_sort_by)
  then have "mset (map ec_storageKey ?cs) = mset (map fst st)"
    by (simp add: candidate_of_def comp_def del: mset_map)
  then show "distinct (map ec_storageKey ?cs)" using assms mset_eq_imp_distinct_iff unfolding okeys_def by blast
  show "ec_storageKey ` set ?cs = fst ` set st" unfolding set by (simp add: image_image candidate_of_def)
  show "\<forall>c\<in>set ?cs. \<exists>r. map_of st (ec_storageKey c) = Some r \<and>
       sm_size (so_metadata r) = ec_size c \<and> sm_updatedAt (so_metadata r) = ec_updatedAt c"
    unfolding set using assms by (auto simp: candidate_of_def okeys_def)
qed

lemma enforce_prefix:
  assumes "okeys st" "sp_maxBytes policy = Some m" "0 \<le> m"
  shows "\<exists>n \<le> length st. let cs = sortEvictionCandidates le (map candidate_of st) in
    enforceMaxBytesLimit le policy st = without (take n cs) st \<and> totalBytes (without (take n cs) st) \<le> m \<and>
    (n = 0 \<or> m < totalBytes (without (take (n - 1) cs) st))"
proof (cases "totalBytes st \<le> m")
  case True
  then show ?thesis using assms(2) by (intro exI [of _ 0]) (simp add: enforceMaxBytesLimit_def without_def)
next
  case False
  have "length (sortEvictionCandidates le (map candidate_of st)) = length st" by (simp add: sortEvictionCandidates_def)
  with evict_prefix [OF assms(3,1) sorted_candidates(1) [OF assms(1)] sorted_candidates(2) [OF assms(1), symmetric], of le]
    sorted_candidates(3) [OF assms(1), of le] assms(2) False
  show ?thesis by (auto simp: enforceMaxBytesLimit_def Let_def)
qed

section \<open>The operations keep the invariant\<close>

lemma memory_ok_filter:
  assumes "memory_ok policy st"
  shows "memory_ok policy (filter P st)"
proof -
  have "\<forall>p\<in>set st. object_ok (fst p) (snd p)" using assms by (simp add: memory_ok_def)
  from totalBytes_sub [OF sizes_nonneg [OF this], of P] show ?thesis
    using assms by (auto simp: memory_ok_def split: option.splits)
qed

lemma memory_ok_delete: "memory_ok policy st \<Longrightarrow> memory_ok policy (AList.delete k st)"
  by (simp add: AList.delete_eq memory_ok_filter)

lemma enforce_ok:
  assumes "policy_ok policy" "okeys st" "\<forall>p\<in>set st. object_ok (fst p) (snd p)"
  shows "memory_ok policy (enforceMaxBytesLimit le policy st)"
proof (cases "sp_maxBytes policy")
  case None
  then show ?thesis using assms by (simp add: enforceMaxBytesLimit_def memory_ok_def)
next
  case (Some m)
  then have "0 \<le> m" using assms(1) by (simp add: policy_ok_def)
  from enforce_prefix [OF assms(2) Some this, of le] obtain n where
    "enforceMaxBytesLimit le policy st = without (take n (sortEvictionCandidates le (map candidate_of st))) st"
    "totalBytes (enforceMaxBytesLimit le policy st) \<le> m"
    by (auto simp: Let_def)
  then show ?thesis using assms(2,3) Some by (auto simp: memory_ok_def without_def)
qed

lemma with_key_ok:
  assumes "P st" "\<And>kd ky. kd \<in> set VALID_KINDS \<Longrightarrow> clean ky \<Longrightarrow> P (fst (k kd ky))"
  shows "P (fst (with_key kind key k st))"
  using assms clean_js_trim by (auto simp: with_key_def normalizeKind_def normalizeKey_def Let_def)

lemma put_metadata_ok:
  "kind \<in> set VALID_KINDS \<Longrightarrow> clean key \<Longrightarrow>
   object_ok (toStorageKey kind key) \<lparr>so_body = pq_body rq, so_metadata = put_metadata nowSec rq kind key\<rparr>"
  by (simp add: object_ok_def put_metadata_def)

lemma memory_put_ok:
  assumes "policy_ok policy" "memory_ok policy st"
  shows "memory_ok policy (fst (memory_put le policy nowSec rq st))"
  unfolding memory_put_def
proof (rule with_key_ok)
  fix kind key assume "kind \<in> set VALID_KINDS" "clean key"
  then show "memory_ok policy (fst (enforceMaxBytesLimit le policy (AList.update (toStorageKey kind key)
      \<lparr>so_body = pq_body rq, so_metadata = put_metadata nowSec rq kind key\<rparr> (pruneExpiredRecords policy nowSec st)), Inr ()))"
    unfolding fst_conv pruneExpiredRecords_def
    using memory_ok_filter [OF assms(2), of "\<lambda>(_, r). \<not> isExpiredByPolicy (so_metadata r) policy nowSec"]
      put_metadata_ok [of kind key rq nowSec]
    by (intro enforce_ok [OF assms(1)]) (auto simp: memory_ok_def dest!: set_update_cases)
qed (rule assms(2))

lemma memory_get_ok: "memory_ok policy st \<Longrightarrow> memory_ok policy (fst (memory_get policy nowSec kind key st))"
  unfolding memory_get_def by (rule with_key_ok) (auto simp: Let_def memory_ok_delete split: option.split)

lemma memory_delete_ok: "memory_ok policy st \<Longrightarrow> memory_ok policy (fst (memory_delete kind key st))"
  unfolding memory_delete_def by (rule with_key_ok) (auto simp: memory_ok_delete)

lemma memory_list_ok: "memory_ok policy st \<Longrightarrow> memory_ok policy (fst (memory_list le policy nowSec q st))"
  by (simp add: memory_list_def pruneExpiredRecords_def memory_ok_filter Let_def)

datatype store_call =
    PutCall int put_request
  | GetCall int string string
  | DeleteCall int string string
  | ListCall int list_query

definition store_step :: "'s cache_store \<Rightarrow> 's \<Rightarrow> store_call \<Rightarrow> 's" where
  "store_step cs st c =
     (case c of
        PutCall now rq \<Rightarrow> fst (cs_put cs now rq st)
      | GetCall now kind key \<Rightarrow> fst (cs_get cs now kind key st)
      | DeleteCall now kind key \<Rightarrow> fst (cs_delete cs now kind key st)
      | ListCall now q \<Rightarrow> fst (cs_list cs now q st))"

interpretation memory_store: machine "store_step (createMemoryCacheStore le ttl mb)"
    "memory_ok (normalizeCacheStorePolicy ttl mb)" "\<lambda>_. True" for le ttl mb
  by unfold_locales
    (auto simp: store_step_def createMemoryCacheStore_def Let_def memory_put_ok memory_get_ok memory_delete_ok
      memory_list_ok split: store_call.split)

text \<open>
  Claim C17. The in-memory store is sound under every sequence of operations, whatever the policy: its
  keys are distinct, every record is filed under its own kind and trimmed key with its true size,
  and the bodies together never exceed the configured number of bytes.
\<close>

theorem memory_store_stays_in_budget:
  "memory_ok (normalizeCacheStorePolicy ttl mb) (foldl (store_step (createMemoryCacheStore le ttl mb)) [] calls)"
  by (rule memory_store.run_inv)
    (auto simp: memory_ok_def totalBytes_def normalizeCacheStorePolicy_def normalizeOptionalPositive_def rtrunc_def
      split: option.split js_num.split)

section \<open>Eviction\<close>

lemma eviction_order:
  assumes "total_order le"
  shows "total_order (\<lambda>a b. if ec_updatedAt a = ec_updatedAt b then le (ec_storageKey a) (ec_storageKey b)
    else ec_updatedAt a < ec_updatedAt b)"
  unfolding total_order_def using total_orderD [OF assms] by (auto split: if_splits)

text \<open>
  Eviction removes the oldest records and no more than needed: what remains fits the
  budget, no evicted record is newer than a remaining one, and a store within the budget is left
  alone.
\<close>

theorem eviction_removes_oldest:
  assumes "total_order le" "okeys st" "sp_maxBytes policy = Some m" "0 \<le> m"
  shows "let kept = enforceMaxBytesLimit le policy st in
    set kept \<subseteq> set st \<and> totalBytes kept \<le> m \<and> (totalBytes st \<le> m \<longrightarrow> kept = st) \<and>
    (\<forall>p\<in>set st - set kept. \<forall>q\<in>set kept. sm_updatedAt (so_metadata (snd p)) \<le> sm_updatedAt (so_metadata (snd q)))"
proof -
  let ?cs = "sortEvictionCandidates le (map candidate_of st)"
  obtain n where kept: "enforceMaxBytesLimit le policy st = without (take n ?cs) st"
    and fits: "totalBytes (without (take n ?cs) st) \<le> m"
    using enforce_prefix [OF assms(2-4), of le] by (auto simp: Let_def)
  have "sorted_wrt (\<lambda>a b. if ec_updatedAt a = ec_updatedAt b then le (ec_storageKey a) (ec_storageKey b)
      else ec_updatedAt a < ec_updatedAt b) (take n ?cs @ drop n ?cs)"
    unfolding append_take_drop_id sortEvictionCandidates_def by (rule sorted_sort_by [OF eviction_order [OF assms(1)]])
  then have rel: "\<forall>a\<in>set (take n ?cs). \<forall>b\<in>set (drop n ?cs). if ec_updatedAt a = ec_updatedAt b
      then le (ec_storageKey a) (ec_storageKey b) else ec_updatedAt a < ec_updatedAt b"
    unfolding sorted_wrt_append by (elim conjE)
  have older: "ec_updatedAt a \<le> ec_updatedAt b" if "a \<in> set (take n ?cs)" "b \<in> set (drop n ?cs)" for a b
  proof (cases "ec_updatedAt a = ec_updatedAt b")
    case False
    have "if ec_updatedAt a = ec_updatedAt b then le (ec_storageKey a) (ec_storageKey b) else ec_updatedAt a < ec_updatedAt b"
      by (rule bspec [OF bspec [OF rel that(1)] that(2)])
    then show ?thesis using False by simp
  qed simp
  have cand: "candidate_of p \<in> set (take n ?cs) \<longleftrightarrow> fst p \<in> ec_storageKey ` set (take n ?cs)"
    "candidate_of p \<in> set (take n ?cs) \<or> candidate_of p \<in> set (drop n ?cs)" if "p \<in> set st" for p
  proof -
    have mem: "candidate_of p \<in> set ?cs" using that by (simp add: sortEvictionCandidates_def)
    then have "candidate_of p \<in> set (take n ?cs @ drop n ?cs)" unfolding append_take_drop_id .
    then show "candidate_of p \<in> set (take n ?cs) \<or> candidate_of p \<in> set (drop n ?cs)"
      by (simp only: set_append Un_iff)
    have inj: "inj_on ec_storageKey (set ?cs)" using sorted_candidates(1) [OF assms(2), of le] by (simp add: distinct_map)
    have key: "ec_storageKey (candidate_of p) = fst p" by (simp add: candidate_of_def)
    show "candidate_of p \<in> set (take n ?cs) \<longleftrightarrow> fst p \<in> ec_storageKey ` set (take n ?cs)"
    proof
      assume "candidate_of p \<in> set (take n ?cs)"
      then show "fst p \<in> ec_storageKey ` set (take n ?cs)" unfolding key [symmetric] by (rule imageI)
    next
      assume "fst p \<in> ec_storageKey ` set (take n ?cs)"
      then obtain c where c: "fst p = ec_storageKey c" "c \<in> set (take n ?cs)" by (rule imageE)
      then have "candidate_of p = c" using key by (intro inj_onD [OF inj _ mem]) (auto dest: in_set_takeD)
      then show "candidate_of p \<in> set (take n ?cs)" using c(2) by simp
    qed
  qed
  have "sm_updatedAt (so_metadata (snd p)) \<le> sm_updatedAt (so_metadata (snd q))"
    if "p \<in> set st - set (without (take n ?cs) st)" "q \<in> set (without (take n ?cs) st)" for p q
    using that older [of "candidate_of p" "candidate_of q"] cand [of p] cand [of q]
    by (auto simp: without_def candidate_of_def)
  then show ?thesis
    unfolding Let_def kept using fits assms(3) kept by (auto simp: without_def enforceMaxBytesLimit_def)
qed

definition demo_object :: "string \<Rightarrow> int \<Rightarrow> string \<Rightarrow> string \<times> store_object" where
  "demo_object key t body =
     (toStorageKey ''object'' key, \<lparr>so_body = body, so_metadata = \<lparr>sm_kind = ''object'', sm_key = key,
        sm_size = int (length body), sm_updatedAt = t, sm_room = None, sm_ref = None, sm_contentHash = None,
        sm_contentType = None\<rparr>\<rparr>)"

definition string_le :: "string \<Rightarrow> string \<Rightarrow> bool" where
  "string_le a b = (a \<le> b)"

lemma string_le_order: "total_order string_le"
  by (auto simp: total_order_def string_le_def)

theorem eviction_removes_oldest_witness:
  "totalBytes (enforceMaxBytesLimit string_le \<lparr>sp_ttlSec = None, sp_maxBytes = Some 3\<rparr>
     [demo_object ''a'' 7 ''xy'', demo_object ''b'' 5 ''zz'']) \<le> 3"
  using eviction_removes_oldest [OF string_le_order, of "[demo_object ''a'' 7 ''xy'', demo_object ''b'' 5 ''zz'']"
      "\<lparr>sp_ttlSec = None, sp_maxBytes = Some 3\<rparr>" 3]
  by (simp add: Let_def okeys_def demo_object_def toStorageKey_def)

section \<open>Looking up and paging\<close>

text \<open>A store without lifetime or budget is a map.\<close>

definition no_policy :: store_policy where
  "no_policy = \<lparr>sp_ttlSec = None, sp_maxBytes = None\<rparr>"

lemma no_policy_normalized [simp]: "normalizeCacheStorePolicy None None = no_policy"
  by (simp add: normalizeCacheStorePolicy_def normalizeOptionalPositive_def no_policy_def)

lemma no_policy_simps [simp]:
  "pruneExpiredRecords no_policy now st = st" "enforceMaxBytesLimit le no_policy st = st" "isExpiredByPolicy m no_policy now = False"
  by (simp_all add: pruneExpiredRecords_def enforceMaxBytesLimit_def isExpiredByPolicy_def no_policy_def)

lemma js_parse_int_int_str: "0 \<le> i \<Longrightarrow> i < max_double_bound \<Longrightarrow> js_parse_int (int_str i) = of_integer i"
proof -
  assume i: "0 \<le> i" "i < max_double_bound"
  obtain c cs where c: "nat_str (nat i) = c # cs" by (cases "nat_str (nat i)") auto
  have d: "\<And>x. x \<in> set (c # cs) \<Longrightarrow> is_digit x" using nat_str_digits [of _ "nat i"] by (simp add: c)
  have "\<not> is_space c" "c \<noteq> CHR ''-''" "c \<noteq> CHR ''+''" using d [of c] by (auto simp: is_digit_def is_space_def)
  moreover have "takeWhile is_digit (c # cs) = c # cs" using d by (simp add: takeWhile_eq_all_conv)
  moreover have "digits_val (c # cs) = nat i" unfolding c [symmetric] by (rule digits_val_nat_str)
  ultimately show ?thesis
    using i by (simp add: js_parse_int_def int_str_def c num_of_digits_def Let_def)
qed

definition time_ok :: "int \<Rightarrow> bool" where
  "time_ok t \<longleftrightarrow> 0 \<le> t \<and> t < max_double_bound"

lemma normalizeOffset_int_str: "0 \<le> i \<Longrightarrow> i < max_double_bound \<Longrightarrow> normalizeOffset (Some (int_str i)) = i"
  by (simp add: normalizeOffset_def js_parse_int_int_str)

text \<open>Following the cursors of a listing over a store that nothing changes, from an offset.\<close>

fun follow_pages :: "nat \<Rightarrow> (string \<Rightarrow> string \<Rightarrow> bool) \<Rightarrow> store_metadata list \<Rightarrow> list_query \<Rightarrow> store_metadata list option" where
  "follow_pages 0 le entries q = None"
| "follow_pages (Suc fuel) le entries q =
     (let page = paginateMetadata le entries q
      in case lr_cursor page of
           None \<Rightarrow> Some (lr_entries page)
         | Some cursor \<Rightarrow> map_option (append (lr_entries page)) (follow_pages fuel le entries (q\<lparr>lq_cursor := Some cursor\<rparr>)))"

lemma listLimit_pos: "1 \<le> listLimit l"
  by (simp add: listLimit_def split: option.split)

lemma follow_pages_from:
  assumes "int (length entries) < max_double_bound" "normalizeOffset (lq_cursor q) = int k" "length entries - k < fuel"
  shows "follow_pages fuel le entries q = Some (drop k (sort_by (metadata_le le) entries))"
  using assms(2,3)
proof (induction fuel arbitrary: q k)
  case (Suc fuel)
  let ?s = "sort_by (metadata_le le) entries" and ?n = "nat (listLimit (lq_limit q))"
  have n: "0 < ?n" using listLimit_pos [of "lq_limit q"] by simp
  let ?next = "k + length (take ?n (drop k ?s))"
  show ?case
  proof (cases "?next < length ?s")
    case True
    then have next': "?next = k + ?n" by simp
    have "follow_pages fuel le entries (q\<lparr>lq_cursor := Some (int_str (int ?next))\<rparr>) = Some (drop ?next ?s)"
      using True n Suc.prems assms(1) by (intro Suc.IH) (simp_all add: normalizeOffset_int_str)
    then show ?thesis
      using True Suc.prems(1) unfolding next' by (simp add: paginateMetadata_def Let_def append_take_drop_id flip: drop_drop)
        (metis add.commute append_take_drop_id drop_drop)
  next
    case False
    then show ?thesis using Suc.prems(1) n by (auto simp: paginateMetadata_def Let_def)
  qed
qed simp

text \<open>
  Paging through a store that nothing changes is complete and ends: following the cursors
  of a listing from its start, with any limit, gives every matching record exactly once, in the
  order of the listing, in at most one page per record and one more.
\<close>

theorem listing_pages_are_complete:
  assumes "total_order (metadata_le le)" "int (length entries) < max_double_bound" "lq_cursor q = None"
  shows "\<exists>all. follow_pages (Suc (length entries)) le entries q = Some all \<and> mset all = mset entries \<and>
    sorted_wrt (metadata_le le) all"
proof -
  have "js_parse_int ''0'' = of_integer 0" by code_simp
  then have "normalizeOffset (lq_cursor q) = int 0" by (simp add: normalizeOffset_def assms(3))
  from follow_pages_from [OF assms(2) this, of "Suc (length entries)" le] show ?thesis
    using sorted_sort_by [OF assms(1)] by simp
qed

theorem listing_pages_are_complete_witness:
  "follow_pages 3 string_le [so_metadata (snd (demo_object ''b'' 1 [])), so_metadata (snd (demo_object ''a'' 2 []))]
     \<lparr>lq_kind = None, lq_prefix = None, lq_room = None, lq_limit = Some (of_integer 1), lq_cursor = None\<rparr> \<noteq> None"
proof -
  have "total_order (metadata_le string_le)"
    by (auto simp: total_order_def metadata_le_def string_le_def)
  from listing_pages_are_complete [OF this, of "[so_metadata (snd (demo_object ''b'' 1 [])), so_metadata (snd (demo_object ''a'' 2 []))]"
      "\<lparr>lq_kind = None, lq_prefix = None, lq_room = None, lq_limit = Some (of_integer 1), lq_cursor = None\<rparr>"]
  show ?thesis by (auto simp: max_double_bound_def numeral_3_eq_3)
qed

text \<open>Without a policy, \<open>put\<close> and \<open>get\<close> behave like a map from kinds and keys to records.\<close>

lemma with_key_valid: "kind \<in> set VALID_KINDS \<Longrightarrow> clean key \<Longrightarrow> with_key kind key k st = k kind key"
  by (simp add: with_key_def normalizeKind_def normalizeKey_def clean_def Let_def)

lemma get_after_put:
  assumes "kind \<in> set VALID_KINDS" "clean key" "pq_kind rq = kind" "pq_key rq = key"
  shows "memory_get no_policy now' kind key (fst (memory_put le no_policy now rq st)) =
    (fst (memory_put le no_policy now rq st),
     Inr (Some \<lparr>so_body = pq_body rq, so_metadata = put_metadata now rq kind key\<rparr>))"
  using assms by (simp add: memory_get_def memory_put_def with_key_valid)

lemma get_after_other_put:
  assumes "kind \<in> set VALID_KINDS" "clean key" "pq_kind rq \<in> set VALID_KINDS" "clean (pq_key rq)"
    and "pq_kind rq \<noteq> kind \<or> pq_key rq \<noteq> key"
  shows "snd (memory_get no_policy now' kind key (fst (memory_put le no_policy now rq st))) =
    snd (memory_get no_policy now' kind key st)"
  using assms by (auto simp: memory_get_def memory_put_def with_key_valid toStorageKey_inj Let_def split: option.split)

end
