(* ===== verification/Issue_Projection.thy ===== *)
theory Issue_Projection
  imports Rooms Cache_Store
begin

text \<open>
  \<open>src/issue_projection.ts\<close>: how issue messages are filed in the cache. Every issue message becomes
  an event record under a key that carries its cursor, the latest message of an issue becomes its
  snapshot record, and the room's cursor a record of its own. Reading checks every field. The time
  of an ISO date is the parameter \<open>dp\<close> (\<open>Date.parse\<close>).
\<close>

section \<open>Records\<close>

record issue_event =
  ie_room :: string
  ie_cursor :: int
  ie_issue_id :: string
  ie_action :: string
  ie_source_updated_at_ms :: "int option"
  ie_updated_at :: int
  ie_envelope :: envelope

record issue_snapshot =
  iss_room :: string
  iss_issue_id :: string
  iss_last_cursor :: int
  iss_source_updated_at_ms :: "int option"
  iss_updated_at :: int
  iss_envelope :: envelope

record issue_cursor =
  ic_room :: string
  ic_cursor :: int
  ic_updated_at :: int

text \<open>What \<open>syncIssues\<close> answers.\<close>

record issue_sync_result =
  sr_nextCursor :: int
  sr_roomCursor :: int
  sr_events :: "issue_event list"
  sr_snapshots :: "issue_snapshot list"

text \<open>What \<open>persistIssueProjectionToCache\<close> stores.\<close>

definition issue_event_record :: "issue_event \<Rightarrow> json" where
  "issue_event_record e = JObj
     [(''version'', jint 1), (''kind'', JStr ''issue_event''), (''room'', JStr (ie_room e)), (''cursor'', jint (ie_cursor e)),
      (''issue_id'', JStr (ie_issue_id e)), (''action'', JStr (ie_action e)), (''envelope'', envelope_json (ie_envelope e)),
      (''source_updated_at_ms'', jint_opt (ie_source_updated_at_ms e)), (''updated_at'', jint (ie_updated_at e))]"

definition issue_snapshot_record :: "issue_snapshot \<Rightarrow> json" where
  "issue_snapshot_record s = JObj
     [(''version'', jint 1), (''kind'', JStr ''issue_snapshot''), (''room'', JStr (iss_room s)),
      (''issue_id'', JStr (iss_issue_id s)), (''last_cursor'', jint (iss_last_cursor s)),
      (''envelope'', envelope_json (iss_envelope s)),
      (''source_updated_at_ms'', jint_opt (iss_source_updated_at_ms s)), (''updated_at'', jint (iss_updated_at s))]"

definition issue_cursor_record :: "issue_cursor \<Rightarrow> json" where
  "issue_cursor_record c = JObj
     [(''version'', jint 1), (''kind'', JStr ''issue_cursor''), (''room'', JStr (ic_room c)),
      (''cursor'', jint (ic_cursor c)), (''updated_at'', jint (ic_updated_at c))]"

section \<open>Keys\<close>

definition isIssueTopic :: "string \<Rightarrow> bool" where
  "isIssueTopic topic \<longleftrightarrow> topic = ''issue'' \<or> prefix ''issue.'' topic"

text \<open>\<open>String(n).padStart(12, '0')\<close>.\<close>

definition pad12 :: "int \<Rightarrow> string" where
  "pad12 n = replicate (12 - length (int_str n)) CHR ''0'' @ int_str n"

definition issueEventStorageKey :: "string \<Rightarrow> int \<Rightarrow> string \<Rightarrow> string" where
  "issueEventStorageKey room cursor envelopeId = ''issue/events/'' @ room @ ''/'' @ pad12 (max 0 cursor) @ ''-'' @ envelopeId"

definition issueSnapshotStorageKey :: "string \<Rightarrow> string \<Rightarrow> string" where
  "issueSnapshotStorageKey room issueId = ''issue/snapshots/'' @ room @ ''/'' @ issueId"

definition issueCursorStorageKey :: "string \<Rightarrow> string" where
  "issueCursorStorageKey room = ''issue/cursors/'' @ room"

definition parseIssueEventCursorFromKey :: "string \<Rightarrow> string \<Rightarrow> int option" where
  "parseIssueEventCursorFromKey room key =
     (let p = ''issue/events/'' @ room @ ''/''
      in if \<not> prefix p key then None
         else let suffix = drop (length p) key;
                  digits = takeWhile (\<lambda>c. c \<noteq> CHR ''-'') suffix
           in if dropWhile (\<lambda>c. c \<noteq> CHR ''-'') suffix = [] \<or> digits = [] then None
              else case finite_trunc (js_parse_int digits) of
                  None \<Rightarrow> None
                | Some cursor \<Rightarrow> if cursor > 0 then Some cursor else None)"

section \<open>What an issue message says\<close>

definition parseIssuePayloadIssueId :: "json \<Rightarrow> string option" where
  "parseIssuePayloadIssueId payload =
     (if \<not> is_record payload then None
      else let direct = js_trim (str_or_empty (jprop payload ''issue_id''));
               camel = js_trim (str_or_empty (jprop payload ''issueId''));
               nested = (case jprop payload ''issue'' of Some issue \<Rightarrow>
                           if is_record issue then js_trim (str_or_empty (jprop issue ''id'')) else [] | None \<Rightarrow> []);
               fallback = js_trim (str_or_empty (jprop payload ''id''))
        in if direct \<noteq> [] then Some direct else if camel \<noteq> [] then Some camel
           else if nested \<noteq> [] then Some nested else if fallback \<noteq> [] then Some fallback else None)"

definition extractIssueIdFromEnvelope :: "envelope \<Rightarrow> string" where
  "extractIssueIdFromEnvelope e =
     (case parseIssuePayloadIssueId (env_payload e) of Some i \<Rightarrow> i | None \<Rightarrow> env_id e)"

definition deriveIssueAction :: "envelope \<Rightarrow> string" where
  "deriveIssueAction e =
     (if prefix ''issue.'' (env_topic e) then
        (let action = js_trim (drop 6 (env_topic e)) in if action \<noteq> [] then action else ''upsert'')
      else case str_opt (jprop (env_payload e) ''kind'') of
          None \<Rightarrow> ''upsert''
        | Some k \<Rightarrow>
            let kind = js_trim k
            in if prefix ''issue.'' kind then
                 (let action = js_trim (drop 6 kind) in if action \<noteq> [] then action else ''upsert'')
               else if kind \<noteq> [] then kind else ''upsert'')"

definition nonneg :: "int option \<Rightarrow> int option" where
  "nonneg v = (case v of Some ms \<Rightarrow> if ms \<ge> 0 then Some ms else None | None \<Rightarrow> None)"

definition parseIssueSourceUpdatedAtMs :: "(string \<Rightarrow> js_num) \<Rightarrow> json \<Rightarrow> int option" where
  "parseIssueSourceUpdatedAtMs dp payload =
     (if \<not> is_record payload then None
      else case nonneg (finite_int_opt (jprop payload ''source_updated_at_ms'')) of
          Some ms \<Rightarrow> Some ms
        | None \<Rightarrow>
            (case obj_opt (jprop payload ''issue'') of
               None \<Rightarrow> None
             | Some issue \<Rightarrow>
                 (case str_opt (jprop issue ''updated_at'') of
                    None \<Rightarrow> None
                  | Some s \<Rightarrow> let raw = js_trim s in if raw = [] then None else nonneg (finite_trunc (dp raw)))))"

section \<open>Reading the records back\<close>

definition parseEnvelopeRecord :: "json option \<Rightarrow> envelope option" where
  "parseEnvelopeRecord v =
     (case obj_opt v of
        None \<Rightarrow> None
      | Some p \<Rightarrow>
          let room = str_or_empty (jprop p ''room''); eid = str_or_empty (jprop p ''id'');
              sender = str_or_empty (jprop p ''sender''); topic = str_or_empty (jprop p ''topic'')
          in case jprop p ''payload'' of
               None \<Rightarrow> None
             | Some payload \<Rightarrow>
                 if \<not> isValidRoomName room \<or> \<not> isValidTopic topic \<or> js_trim eid = [] \<or> js_trim sender = [] then None
                 else Some \<lparr>env_room = room, env_id = eid, env_sender = sender, env_topic = topic,
                            env_payload = payload, env_signature = str_opt (jprop p ''signature'')\<rparr>)"

definition parseCachedIssueEnvelope :: "store_object \<Rightarrow> envelope option" where
  "parseCachedIssueEnvelope v = Option.bind (parse_bytes (so_body v)) (\<lambda>parsed. parseEnvelopeRecord (Some parsed))"

text \<open>
  \<open>source_updated_at_ms\<close>: \<open>null\<close> or absent is no time, a non-negative number is one, anything else
  spoils the record (the outer \<open>None\<close>).
\<close>

definition source_time :: "json option \<Rightarrow> int option option" where
  "source_time v =
     (case v of
        None \<Rightarrow> Some None
      | Some JNull \<Rightarrow> Some None
      | _ \<Rightarrow> map_option Some (nonneg (finite_int_opt v)))"

text \<open>The opening of the three record parsers: an object of the given kind and version 1.\<close>

definition cached_record :: "string \<Rightarrow> store_object \<Rightarrow> json option" where
  "cached_record kind v =
     Option.bind (parse_bytes (so_body v)) (\<lambda>p.
       if is_record p \<and> jprop p ''kind'' = Some (JStr kind) \<and> jprop p ''version'' = Some (jint 1) then Some p else None)"

definition parseIssueCacheEventRecord :: "store_object \<Rightarrow> issue_event option" where
  "parseIssueCacheEventRecord v =
     Option.bind (cached_record ''issue_event'' v) (\<lambda>p.
       let room = str_or_empty (jprop p ''room''); issueId = js_trim (str_or_empty (jprop p ''issue_id''));
           action = js_trim (str_or_empty (jprop p ''action''))
       in case (parseEnvelopeRecord (jprop p ''envelope''), finite_int_opt (jprop p ''cursor''),
                source_time (jprop p ''source_updated_at_ms''), nonneg (finite_int_opt (jprop p ''updated_at''))) of
            (Some e, Some cursor, Some source, Some updatedAt) \<Rightarrow>
              if \<not> isValidRoomName room \<or> issueId = [] \<or> action = [] \<or> env_room e \<noteq> room \<or> cursor \<le> 0 then None
              else Some \<lparr>ie_room = room, ie_cursor = cursor, ie_issue_id = issueId, ie_action = action,
                         ie_source_updated_at_ms = source, ie_updated_at = updatedAt, ie_envelope = e\<rparr>
          | _ \<Rightarrow> None)"

definition parseIssueCacheSnapshotRecord :: "store_object \<Rightarrow> issue_snapshot option" where
  "parseIssueCacheSnapshotRecord v =
     Option.bind (cached_record ''issue_snapshot'' v) (\<lambda>p.
       let room = str_or_empty (jprop p ''room''); issueId = js_trim (str_or_empty (jprop p ''issue_id''))
       in case (parseEnvelopeRecord (jprop p ''envelope''), finite_int_opt (jprop p ''last_cursor''),
                source_time (jprop p ''source_updated_at_ms''), nonneg (finite_int_opt (jprop p ''updated_at''))) of
            (Some e, Some cursor, Some source, Some updatedAt) \<Rightarrow>
              if \<not> isValidRoomName room \<or> issueId = [] \<or> env_room e \<noteq> room \<or> cursor \<le> 0 then None
              else Some \<lparr>iss_room = room, iss_issue_id = issueId, iss_last_cursor = cursor,
                         iss_source_updated_at_ms = source, iss_updated_at = updatedAt, iss_envelope = e\<rparr>
          | _ \<Rightarrow> None)"

definition parseIssueCacheCursorRecord :: "store_object \<Rightarrow> issue_cursor option" where
  "parseIssueCacheCursorRecord v =
     Option.bind (cached_record ''issue_cursor'' v) (\<lambda>p.
       let room = str_or_empty (jprop p ''room'')
       in case (nonneg (finite_int_opt (jprop p ''cursor'')), nonneg (finite_int_opt (jprop p ''updated_at''))) of
            (Some cursor, Some updatedAt) \<Rightarrow>
              if isValidRoomName room then Some \<lparr>ic_room = room, ic_cursor = cursor, ic_updated_at = updatedAt\<rparr> else None
          | _ \<Rightarrow> None)"

section \<open>The records survive the cache\<close>

lemma nonneg_simps [simp]: "nonneg (Some i) = (if 0 \<le> i then Some i else None)" "nonneg None = None"
  by (simp_all add: nonneg_def)

lemma finite_int_opt_jint_opt [simp]: "source_time (Some (jint_opt s)) = (case s of None \<Rightarrow> Some None | Some i \<Rightarrow> if 0 \<le> i then Some (Some i) else None)"
  by (auto simp: source_time_def jint_opt_def jint_def split: option.split) (simp_all flip: jint_def)

text \<open>An envelope the cache keeps as it is.\<close>

definition envelope_plain :: "envelope \<Rightarrow> bool" where
  "envelope_plain e \<longleftrightarrow> plain (env_payload e) \<and> isValidRoomName (env_room e) \<and> isValidTopic (env_topic e) \<and>
     js_trim (env_id e) \<noteq> [] \<and> js_trim (env_sender e) \<noteq> []"

lemma plain_clone: "plain j \<Longrightarrow> json_clone j = j"
proof (induction j rule: json_clone.induct)
  case (4 kvs)
  then have "map (\<lambda>p. (fst p, json_clone (snd p))) kvs = map id kvs" by (intro map_cong) (auto simp: list_all_iff)
  then show ?case by simp
qed (auto simp: list_all_iff map_idI of_integer_def)

lemma parse_envelope_json:
  "envelope_plain e \<Longrightarrow> parseEnvelopeRecord (Some (envelope_json e)) = Some e"
  by (simp add: parseEnvelopeRecord_def envelope_json_def obj_opt_def envelope_plain_def plain_clone Let_def)

lemma plain_jint [simp]: "plain (jint i) \<longleftrightarrow> \<bar>i\<bar> < int_bound"
  by (auto simp: jint_def)

lemma plain_jint_opt [simp]: "plain (jint_opt s) \<longleftrightarrow> (\<forall>i. s = Some i \<longrightarrow> \<bar>i\<bar> < int_bound)"
  by (auto simp: jint_opt_def split: option.split)

lemma plain_jstr_opt [simp]: "plain (jstr_opt s)"
  by (simp add: jstr_opt_def split: option.split)

lemma obj_order_names: "list_all (\<lambda>p. \<not> is_index (fst p)) kvs \<Longrightarrow> obj_order kvs = kvs"
  by (auto simp: obj_order_def list_all_iff filter_empty_conv filter_id_conv)

lemma not_index: "\<not> is_digit c \<Longrightarrow> \<not> is_index (c # cs)"
  by (simp add: is_index_def)

lemma plain_envelope_json: "envelope_plain e \<Longrightarrow> plain (envelope_json e)"
  by (simp add: envelope_json_def okeys_def obj_order_names not_index is_digit_def envelope_plain_def plain_clone)

definition event_plain :: "issue_event \<Rightarrow> bool" where
  "event_plain e \<longleftrightarrow> envelope_plain (ie_envelope e) \<and> env_room (ie_envelope e) = ie_room e \<and> 0 < ie_cursor e \<and>
     ie_cursor e < int_bound \<and> clean (ie_issue_id e) \<and> clean (ie_action e) \<and>
     (\<forall>i. ie_source_updated_at_ms e = Some i \<longrightarrow> 0 \<le> i \<and> i < int_bound) \<and> 0 \<le> ie_updated_at e \<and> ie_updated_at e < int_bound"

definition snapshot_plain :: "issue_snapshot \<Rightarrow> bool" where
  "snapshot_plain s \<longleftrightarrow> envelope_plain (iss_envelope s) \<and> env_room (iss_envelope s) = iss_room s \<and> 0 < iss_last_cursor s \<and>
     iss_last_cursor s < int_bound \<and> clean (iss_issue_id s) \<and>
     (\<forall>i. iss_source_updated_at_ms s = Some i \<longrightarrow> 0 \<le> i \<and> i < int_bound) \<and> 0 \<le> iss_updated_at s \<and> iss_updated_at s < int_bound"

lemma parse_event_record:
  assumes "event_plain e" "int_text ns" "so_body v = json_bytes ns (issue_event_record e)"
  shows "parseIssueCacheEventRecord v = Some e"
proof -
  have "plain (issue_event_record e)"
    using assms(1) plain_envelope_json
    by (auto simp: issue_event_record_def event_plain_def okeys_def obj_order_names not_index is_digit_def int_bound_def)
  from parse_bytes_json [OF this assms(2)] show ?thesis
    using assms(1,3) parse_envelope_json
    by (auto simp: parseIssueCacheEventRecord_def cached_record_def issue_event_record_def event_plain_def clean_def
        envelope_plain_def split: option.splits)
qed

lemma parse_snapshot_record:
  assumes "snapshot_plain s" "int_text ns" "so_body v = json_bytes ns (issue_snapshot_record s)"
  shows "parseIssueCacheSnapshotRecord v = Some s"
proof -
  have "plain (issue_snapshot_record s)"
    using assms(1) plain_envelope_json
    by (auto simp: issue_snapshot_record_def snapshot_plain_def okeys_def obj_order_names not_index is_digit_def int_bound_def)
  from parse_bytes_json [OF this assms(2)] show ?thesis
    using assms(1,3) parse_envelope_json
    by (auto simp: parseIssueCacheSnapshotRecord_def cached_record_def issue_snapshot_record_def snapshot_plain_def clean_def
        envelope_plain_def split: option.splits)
qed

lemma parse_cursor_record:
  assumes "isValidRoomName (ic_room c)" "0 \<le> ic_cursor c" "ic_cursor c < int_bound" "0 \<le> ic_updated_at c" "ic_updated_at c < int_bound"
    and "int_text ns" "so_body v = json_bytes ns (issue_cursor_record c)"
  shows "parseIssueCacheCursorRecord v = Some c"
proof -
  have "plain (issue_cursor_record c)"
    using assms(2-5)
    by (simp add: issue_cursor_record_def okeys_def obj_order_names not_index is_digit_def int_bound_def)
  from parse_bytes_json [OF this assms(6)] show ?thesis
    using assms by (simp add: parseIssueCacheCursorRecord_def cached_record_def issue_cursor_record_def)
qed

end
