(* ===== verification/Relay_Exchange.thy ===== *)
theory Relay_Exchange
  imports Relay_State Issue_Projection
begin

text \<open>
  The peer endpoints of \<open>src/memory_handler.ts\<close>: discovery, pull and push of the cache exchange,
  and the issue endpoints, whose answers come from the cache adapter, a parameter here
  (\<open>src/relay_cache_adapter.ts\<close>; \<open>no_store_adapter\<close> is what it answers without a store).
\<close>

section \<open>Discovery and pull\<close>

definition repository_json :: "repository_metadata \<Rightarrow> json" where
  "repository_json md = JObj
     [(''repo_id'', jstr_opt (md_repoId md)), (''owner'', jstr_opt (md_owner md)), (''name'', jstr_opt (md_name md)),
      (''recent_commits'', JArr (map JStr (md_recentCommits md)))]"

definition handleCacheExchangeDiscovery :: "relay_config \<Rightarrow> request \<Rightarrow> response" where
  "handleCacheExchangeDiscovery cf r =
     (if req_method r \<noteq> ''GET'' then methodNotAllowedResponse
      else case checkPeerAuth cf r of
          Some err \<Rightarrow> err
        | None \<Rightarrow> response_json (JObj
            [(''ok'', JBool True), (''protocol'', JStr ''cache.exchange.v1''), (''node_id'', JStr (cf_nodeId cf)),
             (''peers'', JArr (map JStr (cf_peers cf))), (''max_hops'', jint (cf_maxHops cf)),
             (''repository'', repository_json (cf_repository cf))]) 200)"

definition entry_json :: "exchange_entry \<Rightarrow> json" where
  "entry_json e = JObj
     [(''cursor'', jint (xe_cursor e)), (''room'', JStr (xe_room e)), (''id'', JStr (xe_id e)),
      (''sender'', JStr (xe_sender e)), (''topic'', JStr (xe_topic e)), (''payload'', xe_payload e),
      (''signature'', jstr_opt (xe_signature e)), (''origin'', JStr (xe_origin e)),
      (''hop_count'', jint (xe_hop_count e)), (''max_hops'', jint (xe_max_hops e))]"

definition nonempty :: "string \<Rightarrow> string option" where
  "nonempty s = (if s \<noteq> [] then Some s else None)"

definition handleCacheExchangePull :: "relay_config \<Rightarrow> relay_state \<Rightarrow> request \<Rightarrow> response" where
  "handleCacheExchangePull cf st r =
     (if req_method r \<noteq> ''GET'' then methodNotAllowedResponse
      else case checkPeerAuth cf r of Some err \<Rightarrow> err | None \<Rightarrow>
        (let after = normalizeAfter (query_get r ''after'') 0;
             limit = normalizeLimit (query_get r ''limit'') 100;
             peer = nonempty (query_trim r ''peer'');
             room = nonempty (query_trim r ''room'');
             result = selectCacheExchangeEntries (ex_records (rs_exchange st)) after limit peer room;
             ok = response_json (JObj
               [(''ok'', JBool True), (''protocol'', JStr ''cache.exchange.v1''), (''node_id'', JStr (cf_nodeId cf)),
                (''next_cursor'', jint (snd result)), (''returned_count'', jint (int (length (fst result)))),
                (''entries'', JArr (map entry_json (fst result)))]) 200
         in case room of
              None \<Rightarrow> ok
            | Some rm \<Rightarrow>
                if \<not> isValidRoomName rm then invalidRoomResponse
                else (case checkRoomToken cf r rm of Some err \<Rightarrow> err | None \<Rightarrow> ok)))"

section \<open>Push\<close>

datatype rejection = InvalidRoom | InvalidTopic | LoopOrigin | MaxHopsReached

definition rejection_text :: "rejection \<Rightarrow> string" where
  "rejection_text q = (case q of InvalidRoom \<Rightarrow> ''invalid_room'' | InvalidTopic \<Rightarrow> ''invalid_topic''
     | LoopOrigin \<Rightarrow> ''loop_origin'' | MaxHopsReached \<Rightarrow> ''max_hops_reached'')"

record push_counts =
  pc_accepted :: int
  pc_duplicates :: int
  pc_conflicts :: int
  pc_rejected :: int
  pc_reasons :: "(rejection, int) omap"

definition no_counts :: push_counts where
  "no_counts = \<lparr>pc_accepted = 0, pc_duplicates = 0, pc_conflicts = 0, pc_rejected = 0, pc_reasons = []\<rparr>"

definition push_reject :: "rejection \<Rightarrow> push_counts \<Rightarrow> push_counts" where
  "push_reject q n =
     n\<lparr>pc_rejected := pc_rejected n + 1,
       pc_reasons := AList.update q ((case map_of (pc_reasons n) q of None \<Rightarrow> 0 | Some k \<Rightarrow> k) + 1) (pc_reasons n)\<rparr>"

definition incoming_envelope :: "incoming_entry \<Rightarrow> envelope" where
  "incoming_envelope e =
     \<lparr>env_room = in_room e, env_id = in_id e, env_sender = in_sender e, env_topic = in_topic e,
      env_payload = in_payload e, env_signature = in_signature e\<rparr>"

text \<open>One parsed entry that passed the room token, from the origin check on.\<close>

definition push_entry ::
    "relay_config \<Rightarrow> relay_env \<Rightarrow> relay_state \<Rightarrow> incoming_entry \<Rightarrow> push_counts \<Rightarrow>
     relay_state \<times> effect list \<times> push_counts" where
  "push_entry cf env st e n =
     (if in_origin e = cf_nodeId cf then (st, [], push_reject LoopOrigin n)
      else if in_hopCount e \<ge> in_maxHops e then (st, [], push_reject MaxHopsReached n)
      else
        let st1 = touch_room st (in_room e)
        in case findEnvelopeById (room_of st1 (in_room e)) (in_id e) of
            Some existing \<Rightarrow>
              (case classifyCacheExchangeCollision (num_text env) existing (incoming_envelope e) of
                 Duplicate \<Rightarrow> (st1, [], n\<lparr>pc_duplicates := pc_duplicates n + 1\<rparr>)
               | Conflict \<Rightarrow> (st1, [], n\<lparr>pc_conflicts := pc_conflicts n + 1\<rparr>))
          | None \<Rightarrow>
              let res = publish_and_record cf env st1 (in_room e) (in_sender e) (in_topic e) (in_id e)
                    (or_empty (in_signature e)) (in_payload e) (in_origin e) (in_hopCount e) (in_maxHops e);
                  result = snd (snd res)
              in (fst res, fst (snd res),
                  if pub_committed result \<noteq> None then n\<lparr>pc_accepted := pc_accepted n + 1\<rparr>
                  else if pub_status result = 200 then n\<lparr>pc_duplicates := pc_duplicates n + 1\<rparr>
                  else push_reject InvalidTopic n))"

text \<open>
  The loop. An unparsable entry or a missing room token ends it with an error response, after
  the entries before it have been committed.
\<close>

fun push_loop ::
    "relay_config \<Rightarrow> relay_env \<Rightarrow> request \<Rightarrow> nat \<Rightarrow> json list \<Rightarrow> relay_state \<Rightarrow> push_counts \<Rightarrow>
     relay_state \<times> effect list \<times> (response + push_counts)" where
  "push_loop cf env r i [] st n = (st, [], Inr n)"
| "push_loop cf env r i (v # vs) st n =
     (case parseIncomingCacheExchangeEntry v (cf_maxHops cf) of
        Inl err \<Rightarrow>
          (st, [], Inl (toErrorResponse (''invalid entry at index '' @ int_str (int i) @ '': '' @ err) 400))
      | Inr e \<Rightarrow>
          if \<not> isValidRoomName (in_room e) then push_loop cf env r (Suc i) vs st (push_reject InvalidRoom n)
          else if \<not> isValidTopic (in_topic e) then push_loop cf env r (Suc i) vs st (push_reject InvalidTopic n)
          else case checkRoomToken cf r (in_room e) of
              Some err \<Rightarrow> (st, [], Inl err)
            | None \<Rightarrow>
                let one = push_entry cf env st e n;
                    rest = push_loop cf env r (Suc i) vs (fst one) (snd (snd one))
                in (fst rest, fst (snd one) @ fst (snd rest), snd (snd rest)))"

definition push_response :: "relay_config \<Rightarrow> relay_state \<Rightarrow> push_counts \<Rightarrow> response" where
  "push_response cf st n = response_json (JObj
     [(''ok'', JBool True), (''protocol'', JStr ''cache.exchange.v1''), (''node_id'', JStr (cf_nodeId cf)),
      (''accepted'', jint (pc_accepted n)), (''duplicates'', jint (pc_duplicates n)),
      (''conflicts'', jint (pc_conflicts n)), (''rejected'', jint (pc_rejected n)),
      (''rejection_counts'', JObj (map (\<lambda>(q, k). (rejection_text q, jint k)) (pc_reasons n))),
      (''next_cursor'', jint (ex_cursor (rs_exchange st)))]) 200"

definition handleCacheExchangePush :: "relay_config \<Rightarrow> relay_env \<Rightarrow> relay_state \<Rightarrow> request \<Rightarrow> handled" where
  "handleCacheExchangePush cf env st r =
     (if req_method r \<noteq> ''POST'' then answer st methodNotAllowedResponse
      else guarded st (checkPeerAuth cf r)
        (case parse_object (json_parse env) (req_text r) of
           None \<Rightarrow> answer st (toErrorResponse ''invalid json payload'' 400)
         | Some parsed \<Rightarrow>
             (case jprop parsed ''entries'' of
                Some (JArr entries) \<Rightarrow>
                  let res = push_loop cf env r 0 entries st no_counts
                  in (fst res, fst (snd res),
                      case snd (snd res) of Inl err \<Rightarrow> err | Inr n \<Rightarrow> push_response cf (fst res) n)
              | _ \<Rightarrow> answer st (toErrorResponse ''missing field: entries'' 400))))"

section \<open>Issue endpoints\<close>

record cache_adapter =
  ca_pullIssues :: "string \<Rightarrow> int \<Rightarrow> int \<Rightarrow> int \<times> envelope list"
  ca_syncIssues :: "string \<Rightarrow> int \<Rightarrow> int \<Rightarrow> int \<Rightarrow> issue_sync_result"

definition no_store_adapter :: cache_adapter where
  "no_store_adapter =
     \<lparr>ca_pullIssues = (\<lambda>room after limit. (max 0 after, [])),
      ca_syncIssues = (\<lambda>room after limit snapshotLimit.
        \<lparr>sr_nextCursor = max 0 after, sr_roomCursor = max 0 after, sr_events = [], sr_snapshots = []\<rparr>)\<rparr>"

definition issue_event_json :: "issue_event \<Rightarrow> json" where
  "issue_event_json e = JObj
     [(''cursor'', jint (ie_cursor e)), (''issue_id'', JStr (ie_issue_id e)), (''action'', JStr (ie_action e)),
      (''source_updated_at_ms'', jint_opt (ie_source_updated_at_ms e)), (''updated_at'', jint (ie_updated_at e)),
      (''envelope'', sanitizeEnvelope (ie_envelope e))]"

definition issue_snapshot_json :: "issue_snapshot \<Rightarrow> json" where
  "issue_snapshot_json s = JObj
     [(''issue_id'', JStr (iss_issue_id s)), (''last_cursor'', jint (iss_last_cursor s)),
      (''source_updated_at_ms'', jint_opt (iss_source_updated_at_ms s)), (''updated_at'', jint (iss_updated_at s)),
      (''envelope'', sanitizeEnvelope (iss_envelope s))]"

definition handleCacheIssueSync :: "relay_config \<Rightarrow> cache_adapter \<Rightarrow> relay_state \<Rightarrow> request \<Rightarrow> handled" where
  "handleCacheIssueSync cf ad st r =
     (if req_method r \<noteq> ''GET'' then answer st methodNotAllowedResponse
      else guarded st (checkPeerAuth cf r) (with_room cf st r (\<lambda>room.
        let after = normalizeAfter (query_get r ''after'') 0;
            limit = normalizeLimit (query_get r ''limit'') 100;
            snapshotLimit = normalizeLimit (query_get r ''snapshot_limit'') 100;
            result = ca_syncIssues ad room after limit snapshotLimit
        in answer st (response_json (JObj
             [(''ok'', JBool True), (''room'', JStr room), (''next_cursor'', jint (sr_nextCursor result)),
              (''room_cursor'', jint (sr_roomCursor result)),
              (''events'', JArr (map issue_event_json (sr_events result))),
              (''snapshots'', JArr (map issue_snapshot_json (sr_snapshots result)))]) 200))))"

definition handleCacheIssuePull :: "relay_config \<Rightarrow> cache_adapter \<Rightarrow> relay_state \<Rightarrow> request \<Rightarrow> handled" where
  "handleCacheIssuePull cf ad st r =
     (if req_method r \<noteq> ''GET'' then answer st methodNotAllowedResponse
      else guarded st (checkPeerAuth cf r) (with_room cf st r (\<lambda>room.
        let after = normalizeAfter (query_get r ''after'') 0;
            limit = normalizeLimit (query_get r ''limit'') 100;
            result = ca_pullIssues ad room after limit
        in answer st (response_json (JObj
             [(''ok'', JBool True), (''room'', JStr room), (''next_cursor'', jint (fst result)),
              (''envelopes'', JArr (map sanitizeEnvelope (snd result)))]) 200))))"

section \<open>The invariant\<close>

lemma push_entry_ok [inv_intros]:
  assumes "state_ok cf st" "isValidRoomName (in_room e)" "parseIncomingCacheExchangeEntry v d = Inr e"
  shows "state_ok cf (fst (push_entry cf env st e n))"
proof -
  have t: "state_ok cf (touch_room st (in_room e))" by (rule touch_room_ok) (rule assms)+
  have "in_hopCount e < in_maxHops e \<Longrightarrow> state_ok cf (fst (publish_and_record cf env (touch_room st (in_room e)) (in_room e)
      (in_sender e) (in_topic e) (in_id e) (or_empty (in_signature e)) (in_payload e) (in_origin e)
      (in_hopCount e) (in_maxHops e)))"
    using t assms(2) parseIncoming_fields [OF assms(3)] by (intro publish_and_record_ok)
  then show ?thesis
    using t assms(1) by (auto simp: push_entry_def Let_def split: option.split collision.split)
qed

lemma push_loop_ok [inv_intros]: "state_ok cf st \<Longrightarrow> state_ok cf (fst (push_loop cf env r i vs st n))"
proof (induction vs arbitrary: i st n)
  case (Cons v vs)
  show ?case
  proof (cases "parseIncomingCacheExchangeEntry v (cf_maxHops cf)")
    case (Inr e)
    then have "isValidRoomName (in_room e) \<Longrightarrow> state_ok cf (fst (push_entry cf env st e n))"
      using Cons.prems by (intro push_entry_ok)
    then show ?thesis using Cons Inr by (simp add: Let_def split: option.split)
  qed (simp add: Cons.prems)
qed simp

lemma handleCacheExchangePush_ok [inv_intros]:
  "state_ok cf st \<Longrightarrow> state_ok cf (fst (handleCacheExchangePush cf env st r))"
  by (auto simp: handleCacheExchangePush_def Let_def intro!: guarded_ok push_loop_ok split: option.split json.split)

lemma handleCacheIssue_ok [inv_intros]:
  "state_ok cf st \<Longrightarrow> state_ok cf (fst (handleCacheIssueSync cf ad st r))"
  "state_ok cf st \<Longrightarrow> state_ok cf (fst (handleCacheIssuePull cf ad st r))"
  by (simp_all add: handleCacheIssueSync_def handleCacheIssuePull_def guarded_ok with_room_ok Let_def)

end
