(* ===== verification/Relay_Webhook.thy ===== *)
theory Relay_Webhook
  imports Relay_State
begin

text \<open>
  GitHub in \<open>src/memory_handler.ts\<close>: the signature header and its HMAC, the mapping of a webhook
  delivery to an envelope, \<open>applyGitHubWebhookDelivery\<close> over the issue-sync engine of
  \<open>Issue_Sync\<close>, the webhook endpoint with its dead-letter queue, and the CI trigger endpoints.
\<close>

section \<open>The signature\<close>

definition hmacSha256Hex :: "relay_env \<Rightarrow> string \<Rightarrow> string \<Rightarrow> string" where
  "hmacSha256Hex env secret message = bytes_hex (hmac env (utf8 secret) (utf8 message))"

definition parseGitHubSignatureHeader :: "string \<Rightarrow> string option" where
  "parseGitHubSignatureHeader value =
     (let trimmed = js_trim value
      in if prefix ''sha256='' trimmed \<and> length trimmed = 71 \<and> list_all is_hex (drop 7 trimmed)
         then Some (to_lower (drop 7 trimmed)) else None)"

section \<open>Reading a payload\<close>

definition normalizeGitHubRoomName :: "string option \<Rightarrow> string" where
  "normalizeGitHubRoomName fullName =
     (let normalized = map (\<lambda>c. if c = CHR ''/'' then CHR ''-'' else c) (js_trim (or_empty fullName))
      in if isValidRoomName normalized then normalized else DEFAULT_ROOM)"

definition sub_object :: "json \<Rightarrow> string \<Rightarrow> json option" where
  "sub_object p k = obj_opt (jprop p k)"

definition readGitHubRepositoryFullName :: "json \<Rightarrow> string option" where
  "readGitHubRepositoryFullName p =
     (case sub_object p ''repository'' of
        None \<Rightarrow> None
      | Some repo \<Rightarrow>
          let fullName = js_trim (str_or_empty (jprop repo ''full_name''))
          in if fullName \<noteq> [] then Some fullName else None)"

definition readGitHubIssueNumber :: "json \<Rightarrow> int option" where
  "readGitHubIssueNumber p =
     (case sub_object p ''issue'' of
        None \<Rightarrow> None
      | Some issue \<Rightarrow>
          (case finite_int_opt (jprop issue ''number'') of
             None \<Rightarrow> None
           | Some value \<Rightarrow> if value > 0 then Some value else None))"

definition readGitHubIssueUpdatedAtMs :: "relay_env \<Rightarrow> json \<Rightarrow> int option" where
  "readGitHubIssueUpdatedAtMs env p =
     (case sub_object p ''issue'' of
        None \<Rightarrow> None
      | Some issue \<Rightarrow>
          (case str_opt (jprop issue ''updated_at'') of
             None \<Rightarrow> None
           | Some raw \<Rightarrow>
               let updatedAt = js_trim raw
               in if updatedAt = [] then None
                  else (case finite_trunc (date_parse env updatedAt) of
                          None \<Rightarrow> None
                        | Some ms \<Rightarrow> if ms \<ge> 0 then Some ms else None)))"

definition readGitHubSender :: "json \<Rightarrow> string" where
  "readGitHubSender p =
     (case sub_object p ''sender'' of
        None \<Rightarrow> ''github:webhook''
      | Some sender \<Rightarrow>
          let login = js_trim (str_or_empty (jprop sender ''login''))
          in if login \<noteq> [] then ''github:'' @ login else ''github:webhook'')"

definition topic_suffix :: "string \<Rightarrow> string" where
  "topic_suffix s = map (\<lambda>c. if is_topic_char c then c else CHR ''_'') (to_lower s)"

definition mapGitHubWebhookTopic :: "string \<Rightarrow> string \<Rightarrow> string option" where
  "mapGitHubWebhookTopic event action =
     (if event = ''issues'' then
        if action = ''opened'' then Some ''issue''
        else if action = ''reopened'' then Some ''issue.reopened''
        else if action = ''edited'' then Some ''issue.updated''
        else if action = ''closed'' then Some ''issue.closed''
        else if action = ''labeled'' \<or> action = ''unlabeled'' then Some ''issue.label''
        else if action \<noteq> [] then
          let candidate = ''issue.'' @ topic_suffix action
          in if isValidTopic candidate then Some candidate else None
        else Some ''issue''
      else if event = ''issue_comment'' then
        let candidate = ''issue.comment.'' @ topic_suffix (if action \<noteq> [] then action else ''created'')
        in if isValidTopic candidate then Some candidate else None
      else if event = ''label'' then Some ''issue.label''
      else None)"

text \<open>\<open>`${n}`\<close> on an integer is the engine's number text.\<close>

definition buildGitHubIssueId :: "relay_env \<Rightarrow> string option \<Rightarrow> int option \<Rightarrow> string \<Rightarrow> string" where
  "buildGitHubIssueId env fullName issueNumber deliveryId =
     (case (fullName, issueNumber) of
        (Some f, Some n) \<Rightarrow> f @ ''#'' @ num_text env (of_int n)
      | (None, Some n) \<Rightarrow> ''issue#'' @ num_text env (of_int n)
      | _ \<Rightarrow> ''delivery:'' @ deliveryId)"

definition trunc_or_zero :: "json option \<Rightarrow> json" where
  "trunc_or_zero v = (case num_opt v of Some x \<Rightarrow> JNum (num_trunc x) | None \<Rightarrow> jint 0)"

definition text_or_empty :: "json option \<Rightarrow> json" where
  "text_or_empty v = JStr (str_or_empty v)"

definition buildGitHubIssuePayload ::
    "string \<Rightarrow> string \<Rightarrow> string \<Rightarrow> string \<Rightarrow> string option \<Rightarrow> json \<Rightarrow> (string \<times> json) list" where
  "buildGitHubIssuePayload deliveryId event action issueId fullName parsed =
     [(''source'', JStr ''github''), (''delivery_id'', JStr deliveryId), (''event'', JStr event),
      (''action'', JStr action), (''issue_id'', JStr issueId), (''repository'', JStr (or_empty fullName))] @
     (case sub_object parsed ''issue'' of
        None \<Rightarrow> []
      | Some issue \<Rightarrow> [(''issue'', JObj
          [(''number'', trunc_or_zero (jprop issue ''number'')), (''title'', text_or_empty (jprop issue ''title'')),
           (''state'', text_or_empty (jprop issue ''state'')), (''html_url'', text_or_empty (jprop issue ''html_url'')),
           (''updated_at'', text_or_empty (jprop issue ''updated_at''))])]) @
     (case sub_object parsed ''comment'' of
        None \<Rightarrow> []
      | Some comment \<Rightarrow> [(''comment'', JObj
          [(''id'', trunc_or_zero (jprop comment ''id'')), (''body'', text_or_empty (jprop comment ''body'')),
           (''html_url'', text_or_empty (jprop comment ''html_url''))])]) @
     (case sub_object parsed ''label'' of
        None \<Rightarrow> []
      | Some label \<Rightarrow> [(''label'', JObj
          [(''name'', text_or_empty (jprop label ''name'')), (''color'', text_or_empty (jprop label ''color''))])])"

section \<open>Applying a delivery\<close>

definition map_webhook :: "relay_env \<Rightarrow> string \<Rightarrow> string \<Rightarrow> string \<Rightarrow> json \<Rightarrow> string + mapped_envelope" where
  "map_webhook env event engineEvent deliveryId parsed =
     (let action = to_lower (js_trim (str_or_empty (jprop parsed ''action'')))
      in case mapGitHubWebhookTopic event action of
          None \<Rightarrow> Inl ''unsupported github webhook event/action''
        | Some topic \<Rightarrow>
            if topic = [] \<or> \<not> isValidTopic topic then Inl ''unsupported github webhook event/action''
            else
              let fullName = readGitHubRepositoryFullName parsed;
                  issueId = buildGitHubIssueId env fullName (readGitHubIssueNumber parsed) deliveryId;
                  payload = buildGitHubIssuePayload deliveryId event action issueId fullName parsed
              in Inr \<lparr>mp_room = normalizeGitHubRoomName fullName, mp_sender = readGitHubSender parsed,
                      mp_topic = topic, mp_issueId = issueId, mp_action = action,
                      mp_envelopeId = ''gh-'' @ deliveryId,
                      mp_payload = JObj (payload @ (case readGitHubIssueUpdatedAtMs env parsed of
                        None \<Rightarrow> [] | Some ms \<Rightarrow> [(''source_updated_at_ms'', jint ms)]))\<rparr>)"

text \<open>The engine's outer state is the relay with the effects performed so far.\<close>

definition publish_webhook ::
    "relay_config \<Rightarrow> relay_env \<Rightarrow> relay_state \<times> effect list \<Rightarrow> mapped_envelope \<Rightarrow>
     (relay_state \<times> effect list) \<times> sync_publish" where
  "publish_webhook cf env s m =
     (let res = publish_and_record cf env (touch_room (fst s) (mp_room m)) (mp_room m) (mp_sender m) (mp_topic m)
            (mp_envelopeId m) [] (mp_payload m) (cf_nodeId cf) 0 (cf_maxHops cf);
          result = snd (snd res)
      in ((fst res, snd s @ fst (snd res)),
          \<lparr>sp_status = pub_status result, sp_accepted = pub_accepted result, sp_cursor = pub_cursor result\<rparr>))"

definition applyGitHubWebhookDelivery ::
    "relay_config \<Rightarrow> relay_env \<Rightarrow> relay_state \<Rightarrow> string \<Rightarrow> string \<Rightarrow> string \<Rightarrow>
     relay_state \<times> effect list \<times> apply_result" where
  "applyGitHubWebhookDelivery cf env st rawEvent rawId body =
     (let event = to_lower (js_trim rawEvent); deliveryId = js_trim rawId
      in if event = []
         then (st, [], Inl \<lparr>ae_deliveryId = deliveryId, ae_event = event, ae_error = ''missing github event''\<rparr>)
         else let res = applyDelivery relay_engine_options (nowEpochSec (body_ms env)) (json_parse env)
                    (map_webhook env event) (publish_webhook cf env) (rs_engine st) (st, []) event deliveryId body
           in ((fst (fst (snd res)))\<lparr>rs_engine := fst res\<rparr>, snd (fst (snd res)), snd (snd res)))"

definition enqueue_failed ::
    "relay_env \<Rightarrow> relay_state \<Rightarrow> string \<Rightarrow> string \<Rightarrow> string \<Rightarrow> string \<Rightarrow> bool \<Rightarrow> relay_state \<times> dlq_entry" where
  "enqueue_failed env st deliveryId event body err inc =
     (let q = enqueueDlq relay_engine_options (nowEpochSec (body_ms env)) (rs_engine st) deliveryId event body err inc
      in (st\<lparr>rs_engine := fst q\<rparr>, snd q))"

section \<open>The endpoints\<close>

definition handleGitHubWebhook :: "relay_config \<Rightarrow> relay_env \<Rightarrow> relay_state \<Rightarrow> request \<Rightarrow> handled" where
  "handleGitHubWebhook cf env st r =
     (if req_method r \<noteq> ''POST'' then answer st methodNotAllowedResponse
      else if cf_webhookSecret cf = []
        then answer st (toErrorResponse ''github webhook secret is not configured'' 503)
      else
        let event = to_lower (header_trim r ''x-github-event''); deliveryId = header_trim r ''x-github-delivery''
        in if deliveryId = [] then answer st (toErrorResponse ''missing github delivery id'' 400)
           else case parseGitHubSignatureHeader (or_empty (header_get r ''x-hub-signature-256'')) of
               None \<Rightarrow> answer st (toErrorResponse ''invalid github webhook signature'' 401)
             | Some signatureHex \<Rightarrow>
                 if \<not> timingSafeEqual (hmacSha256Hex env (cf_webhookSecret cf) (req_text r)) signatureHex
                 then answer st (toErrorResponse ''invalid github webhook signature'' 401)
                 else
                   let res = applyGitHubWebhookDelivery cf env st event deliveryId (req_text r)
                   in case snd (snd res) of
                       Inl err \<Rightarrow>
                         let q = enqueue_failed env (fst res) deliveryId event (req_text r) (ae_error err) False
                         in (fst q, fst (snd res), response_json (JObj
                              [(''ok'', JBool False), (''queued'', JBool True), (''delivery_id'', JStr deliveryId),
                               (''event'', JStr event), (''error'', JStr (ae_error err)),
                               (''retry_count'', jint (dl_retry_count (snd q))),
                               (''next_retry_at'', jint (dl_next_retry_at (snd q)))]) 202)
                     | Inr a \<Rightarrow>
                         (fst res, fst (snd res), response_json (JObj
                            [(''ok'', JBool True), (''accepted'', JBool (ap_accepted a)),
                             (''duplicate'', JBool (ap_duplicate a)), (''delivery_id'', JStr (ap_deliveryId a)),
                             (''event'', JStr (ap_event a)), (''action'', JStr (ap_action a)),
                             (''topic'', jstr_opt (ap_topic a)), (''room'', jstr_opt (ap_room a)),
                             (''issue_id'', jstr_opt (ap_issueId a)), (''cursor'', jint_opt (ap_cursor a))]) 200))"

definition dlq_list_json :: "dlq_entry \<Rightarrow> json" where
  "dlq_list_json e = JObj
     [(''delivery_id'', JStr (dl_delivery_id e)), (''event'', JStr (dl_event e)),
      (''retry_count'', jint (dl_retry_count e)), (''created_at'', jint (dl_created_at e)),
      (''updated_at'', jint (dl_updated_at e)), (''next_retry_at'', jint (dl_next_retry_at e)),
      (''last_error'', JStr (dl_last_error e))]"

definition handleGitHubWebhookDlqList :: "relay_state \<Rightarrow> request \<Rightarrow> response" where
  "handleGitHubWebhookDlqList st r =
     (if req_method r \<noteq> ''GET'' then methodNotAllowedResponse
      else let listed = listDlq (rs_engine st) (normalizeAfter (query_get r ''after'') 0)
                 (normalizeLimit (query_get r ''limit'') 100)
        in response_json (JObj [(''ok'', JBool True), (''next_cursor'', jint (snd listed)),
             (''entries'', JArr (map dlq_list_json (fst listed)))]) 200)"

definition handleGitHubWebhookDlqRetry :: "relay_config \<Rightarrow> relay_env \<Rightarrow> relay_state \<Rightarrow> request \<Rightarrow> handled" where
  "handleGitHubWebhookDlqRetry cf env st r =
     (if req_method r \<noteq> ''POST'' then answer st methodNotAllowedResponse
      else let deliveryId = query_trim r ''delivery_id''
        in if deliveryId = [] then answer st (toErrorResponse ''missing query: delivery_id'' 400)
           else case getDlqEntry (rs_engine st) deliveryId of
               None \<Rightarrow> answer st (toErrorResponse ''delivery_id not found in dlq'' 404)
             | Some found \<Rightarrow>
                 let res = applyGitHubWebhookDelivery cf env st (dl_event found) (dl_delivery_id found) (dl_body found)
                 in case snd (snd res) of
                     Inr a \<Rightarrow>
                       ((fst res)\<lparr>rs_engine := removeDlq (rs_engine (fst res)) deliveryId\<rparr>, fst (snd res),
                        response_json (JObj
                          [(''ok'', JBool True), (''queued'', JBool False), (''accepted'', JBool (ap_accepted a)),
                           (''duplicate'', JBool (ap_duplicate a)), (''delivery_id'', JStr (ap_deliveryId a)),
                           (''event'', JStr (ap_event a)), (''topic'', jstr_opt (ap_topic a)),
                           (''room'', jstr_opt (ap_room a)), (''issue_id'', jstr_opt (ap_issueId a)),
                           (''cursor'', jint_opt (ap_cursor a))]) 200)
                   | Inl err \<Rightarrow>
                       let q = enqueue_failed env (fst res) (dl_delivery_id found) (dl_event found) (dl_body found)
                             (ae_error err) True
                       in (fst q, fst (snd res), response_json (JObj
                            [(''ok'', JBool True), (''queued'', JBool True), (''accepted'', JBool False),
                             (''delivery_id'', JStr (dl_delivery_id (snd q))), (''event'', JStr (dl_event (snd q))),
                             (''error'', JStr (dl_last_error (snd q))),
                             (''retry_count'', jint (dl_retry_count (snd q))),
                             (''next_retry_at'', jint (dl_next_retry_at (snd q)))]) 200))"

section \<open>CI triggers\<close>

definition callback_envelope_id :: "relay_env \<Rightarrow> json \<Rightarrow> string" where
  "callback_envelope_id env parsed =
     (let callbackId = body_field parsed ''id''; externalId = js_trim (str_or_empty (jprop parsed ''external_id''))
      in if callbackId \<noteq> [] then callbackId
         else if externalId \<noteq> [] then ''ci-'' @ externalId
         else ''ci-'' @ fresh_uuid env)"

definition trigger_payload :: "relay_env \<Rightarrow> json \<Rightarrow> string \<Rightarrow> string \<Rightarrow> json" where
  "trigger_payload env parsed ref status = JObj
     [(''source'', JStr ''ci''), (''ref'', JStr ref), (''status'', JStr status),
      (''logs_url'', text_or_empty (jprop parsed ''logs_url'')),
      (''artifact_url'', text_or_empty (jprop parsed ''artifact_url'')),
      (''external_id'', text_or_empty (jprop parsed ''external_id'')),
      (''provider'', text_or_empty (jprop parsed ''provider'')),
      (''received_at'', jint (nowEpochSec (body_ms env)))]"

definition handleTriggerCallback :: "relay_config \<Rightarrow> relay_env \<Rightarrow> relay_state \<Rightarrow> request \<Rightarrow> handled" where
  "handleTriggerCallback cf env st r =
     (if req_method r \<noteq> ''POST'' then answer st methodNotAllowedResponse
      else case parse_object (json_parse env) (req_text r) of
          None \<Rightarrow> answer st (toErrorResponse ''invalid json payload'' 400)
        | Some parsed \<Rightarrow>
            let ref = body_field parsed ''ref''; status = to_lower (body_field parsed ''status'')
            in if ref = [] then answer st (toErrorResponse ''missing field: ref'' 400)
               else if status = [] then answer st (toErrorResponse ''missing field: status'' 400)
               else
                 let requestedRoom = body_field parsed ''room'';
                     room = (if requestedRoom \<noteq> [] then requestedRoom else deriveRoomFromIncomingRef ref)
                 in if \<not> isValidRoomName room then answer st invalidRoomResponse
                    else guarded st (checkRoomToken cf r room)
                      (let eid = callback_envelope_id env parsed;
                           res = publish_and_record cf env (touch_room st room) room ''ci:callback'' ''ci.result'' eid []
                                   (trigger_payload env parsed ref status) (cf_nodeId cf) 0 (cf_maxHops cf);
                           result = snd (snd res)
                       in (fst res, fst (snd res), response_json (JObj
                            [(''ok'', JBool (pub_status result = 200)), (''accepted'', JBool (pub_accepted result)),
                             (''room'', JStr room), (''topic'', JStr ''ci.result''), (''id'', JStr eid),
                             (''ref'', JStr ref), (''status'', JStr status),
                             (''cursor'', jint_opt (pub_cursor result))]) (pub_status result))))"

text \<open>The loop over \<open>messages[after..]\<close>: cursors are one past the position.\<close>

fun ci_results :: "int \<Rightarrow> int \<Rightarrow> envelope list \<Rightarrow> (int \<times> envelope) list \<times> int \<Rightarrow> (int \<times> envelope) list \<times> int" where
  "ci_results limit i [] acc = acc"
| "ci_results limit i (e # es) acc =
     (if env_topic e \<noteq> ''ci.result'' then ci_results limit (i + 1) es (fst acc, i + 1)
      else let results = fst acc @ [(i + 1, e)]
        in if int (length results) \<ge> limit then (results, i + 1) else ci_results limit (i + 1) es (results, i + 1))"

definition handleTriggerResults :: "relay_config \<Rightarrow> relay_state \<Rightarrow> request \<Rightarrow> handled" where
  "handleTriggerResults cf st r =
     (if req_method r \<noteq> ''GET'' then answer st methodNotAllowedResponse
      else with_room cf st r (\<lambda>room.
        let after = normalizeAfter (query_get r ''after'') 0;
            limit = normalizeLimit (query_get r ''limit'') 100;
            st1 = touch_room st room;
            res = ci_results limit after (drop (nat after) (rm_messages (room_of st1 room))) ([], after)
        in answer st1 (response_json (JObj
             [(''ok'', JBool True), (''room'', JStr room),
              (''next_cursor'', jint (if fst res \<noteq> [] then snd res else after)),
              (''results'', JArr (map (\<lambda>(c, e). JObj ((''cursor'', jint c) # members (sanitizeEnvelope e))) (fst res)))]) 200)))"

section \<open>The invariant\<close>

lemma normalizeGitHubRoomName_valid: "isValidRoomName (normalizeGitHubRoomName f)"
  by (simp add: normalizeGitHubRoomName_def Let_def default_room_valid)

lemma readGitHubSender_nonempty: "readGitHubSender p \<noteq> []"
  by (simp add: readGitHubSender_def Let_def split: option.split)

lemma map_webhook_room:
  "map_webhook env event ev d parsed = Inr m \<Longrightarrow>
   isValidRoomName (mp_room m) \<and> mp_sender m \<noteq> [] \<and> mp_envelopeId m \<noteq> []"
  by (auto simp: map_webhook_def Let_def normalizeGitHubRoomName_valid readGitHubSender_nonempty
      split: option.splits if_splits)

lemma publish_webhook_ok:
  assumes "config_ok cf" "state_ok cf (fst s)" "isValidRoomName (mp_room m)" "mp_sender m \<noteq> []" "mp_envelopeId m \<noteq> []"
  shows "state_ok cf (fst (fst (publish_webhook cf env s m)))"
proof -
  have "0 < cf_maxHops cf" "js_trim (cf_nodeId cf) = cf_nodeId cf" "cf_nodeId cf \<noteq> []"
    using assms(1) by (simp_all add: config_ok_def)
  then show ?thesis
    using assms by (simp add: publish_webhook_def Let_def publish_and_record_ok touch_room_ok)
qed

lemma applyGitHubWebhookDelivery_ok:
  assumes "config_ok cf" "env_ok env" "state_ok cf st"
  shows "state_ok cf (fst (applyGitHubWebhookDelivery cf env st event d body))"
proof -
  let ?ev = "to_lower (js_trim event)"
  let ?res = "applyDelivery relay_engine_options (nowEpochSec (body_ms env)) (json_parse env)
      (map_webhook env ?ev) (publish_webhook cf env) (rs_engine st) (st, []) ?ev (js_trim d) body"
  have "state_ok cf (fst (fst (snd ?res)))"
    by (rule applyDelivery_outer [where P = "\<lambda>s. state_ok cf (fst s)"])
      (use assms in \<open>auto intro: publish_webhook_ok dest: map_webhook_room\<close>)
  moreover have "engine_ok relay_engine_options (fst ?res)"
    by (rule applyDelivery_ok [OF state_ok_parts(3) [OF assms(3)] relay_engine_options_ok env_ok_now [OF assms(2)]])
  ultimately show ?thesis
    using assms(3) by (simp add: applyGitHubWebhookDelivery_def Let_def state_ok_engine)
qed

lemma enqueue_failed_ok:
  assumes "env_ok env" "state_ok cf st" "js_trim d = d" "d \<noteq> []" "js_trim event = event"
  shows "state_ok cf (fst (enqueue_failed env st d event body err inc))"
  using enqueueDlq_ok [OF state_ok_parts(3) [OF assms(2)] relay_engine_options_ok assms(3,4) env_ok_now [OF assms(1)] assms(5)]
    assms(2) by (simp add: enqueue_failed_def Let_def state_ok_engine)

lemma handleGitHubWebhook_ok [inv_intros]:
  assumes "config_ok cf" "env_ok env" "state_ok cf st"
  shows "state_ok cf (fst (handleGitHubWebhook cf env st r))"
proof -
  have a: "state_ok cf (fst (applyGitHubWebhookDelivery cf env st e d b))" for e d b
    by (rule applyGitHubWebhookDelivery_ok) (rule assms)+
  have "js_trim (to_lower (header_trim r h)) = to_lower (header_trim r h)" for h
    by (simp add: js_trim_to_lower)
  then have "header_trim r ''x-github-delivery'' \<noteq> [] \<Longrightarrow>
      state_ok cf (fst (enqueue_failed env (fst (applyGitHubWebhookDelivery cf env st e d b))
        (header_trim r ''x-github-delivery'') (to_lower (header_trim r ''x-github-event'')) b err inc))" for e d b err inc
    using a assms(2) by (intro enqueue_failed_ok) auto
  then show ?thesis
    using a assms(3) by (simp add: handleGitHubWebhook_def Let_def split: option.split sum.split)
qed

lemma handleGitHubWebhookDlqRetry_ok [inv_intros]:
  assumes "config_ok cf" "env_ok env" "state_ok cf st"
  shows "state_ok cf (fst (handleGitHubWebhookDlqRetry cf env st r))"
proof -
  have a: "state_ok cf (fst (applyGitHubWebhookDelivery cf env st e d b))" for e d b
    by (rule applyGitHubWebhookDelivery_ok) (rule assms)+
  have q: "state_ok cf (fst (enqueue_failed env (fst (applyGitHubWebhookDelivery cf env st (dl_event f) (dl_delivery_id f) (dl_body f)))
      (dl_delivery_id f) (dl_event f) (dl_body f) err True))"
    if "getDlqEntry (rs_engine st) d = Some f" for d f err
  proof -
    have "(d, f) \<in> set (en_dlq (rs_engine st))" using that unfolding getDlqEntry_def by (rule map_of_SomeD)
    then have "js_trim d = d \<and> d \<noteq> [] \<and> entry_ok d f"
      using state_ok_parts(3) [OF assms(3)] by (auto simp: engine_ok_def)
    then show ?thesis using a assms(2) by (intro enqueue_failed_ok) (auto simp: entry_ok_def)
  qed
  have rem: "state_ok cf (s\<lparr>rs_engine := removeDlq (rs_engine s) d\<rparr>)" if "state_ok cf s" for s d
    using that state_ok_parts(3) [OF that] by (intro state_ok_engine removeDlq_ok)
  show ?thesis
    using a q rem assms(3) by (simp add: handleGitHubWebhookDlqRetry_def Let_def split: option.split sum.split)
qed

lemma handleTrigger_ok [inv_intros]:
  assumes "config_ok cf" "env_ok env" "state_ok cf st"
  shows "state_ok cf (fst (handleTriggerCallback cf env st r))" "state_ok cf (fst (handleTriggerResults cf st r))"
proof -
  have node: "0 < cf_maxHops cf" "js_trim (cf_nodeId cf) = cf_nodeId cf" "cf_nodeId cf \<noteq> []"
    using assms(1) by (simp_all add: config_ok_def)
  have eid: "callback_envelope_id env p \<noteq> []" for p
    by (simp add: callback_envelope_id_def Let_def)
  show "state_ok cf (fst (handleTriggerCallback cf env st r))"
    using assms(3) node eid
    by (simp add: handleTriggerCallback_def Let_def guarded_ok publish_and_record_ok touch_room_ok split: option.split)
  show "state_ok cf (fst (handleTriggerResults cf st r))"
    using assms(3) by (simp add: handleTriggerResults_def Let_def with_room_ok touch_room_ok)
qed

end
