(* ===== verification/Relay_Rooms.thy ===== *)
theory Relay_Rooms
  imports Relay_State
begin

text \<open>
  The room endpoints that \<open>fetch\<close> of \<open>src/memory_handler.ts\<close> handles in line: publish with its
  rate limits and signature check, poll, inbox, presence, reviews, and the web-socket upgrade.
  Publish and review are cut where the code awaits: admission, verification, commit.
\<close>

section \<open>Publish\<close>

record publish_args =
  pa_sender :: string
  pa_room :: string
  pa_topic :: string
  pa_id :: string
  pa_sig :: string

text \<open>\<open>(value ?? fallback).trim() || fallback\<close>.\<close>

definition trim_or :: "string option \<Rightarrow> string \<Rightarrow> string" where
  "trim_or v fallback =
     (let t = js_trim (case v of None \<Rightarrow> fallback | Some s \<Rightarrow> s) in if t \<noteq> [] then t else fallback)"

definition publish_args_of :: "relay_env \<Rightarrow> request \<Rightarrow> string \<Rightarrow> string \<Rightarrow> publish_args" where
  "publish_args_of env r sender room =
     \<lparr>pa_sender = sender, pa_room = room, pa_topic = trim_or (query_get r ''topic'') ''notify'',
      pa_id = trim_or (query_get r ''id'') (fresh_uuid env), pa_sig = query_trim r ''sig''\<rparr>"

text \<open>
  The three counters, in the code's order; a refused request has already advanced the counters
  before the one that refused it.
\<close>

definition publish_rates ::
    "relay_config \<Rightarrow> relay_env \<Rightarrow> relay_state \<Rightarrow> request \<Rightarrow> string \<Rightarrow> string \<Rightarrow> relay_state \<times> response option" where
  "publish_rates cf env st r sender room =
     (let now = arrival_ms env;
          ip = extractClientIp r;
          c1 = (if ip \<noteq> [] then rate_check (rs_ipRates st) ip now (cf_ipLimit cf) (cf_windowMs cf)
                else (rs_ipRates st, True));
          st1 = st\<lparr>rs_ipRates := fst c1\<rparr>
      in if \<not> snd c1 then (st1, Some (toErrorResponse ''ip rate limit exceeded'' 429))
         else
           let c2 = rate_check (rs_senderRates st1) sender now (cf_publishLimit cf) (cf_windowMs cf);
               st2 = st1\<lparr>rs_senderRates := fst c2\<rparr>
           in if \<not> snd c2 then (st2, Some (toErrorResponse ''sender rate limit exceeded'' 429))
              else
                let c3 = rate_check (rs_roomRates st2) room now (cf_roomLimit cf) (cf_windowMs cf);
                    st3 = st2\<lparr>rs_roomRates := fst c3\<rparr>
                in if \<not> snd c3 then (st3, Some (toErrorResponse ''room rate limit exceeded'' 429))
                   else (st3, None))"

text \<open>Up to the first \<open>await\<close>.\<close>

definition publish_admit ::
    "relay_config \<Rightarrow> relay_env \<Rightarrow> relay_state \<Rightarrow> request \<Rightarrow> relay_state \<times> (response + publish_args)" where
  "publish_admit cf env st r =
     (if req_method r \<noteq> ''POST'' then (st, Inl methodNotAllowedResponse)
      else let sender = query_trim r ''sender''
        in if sender = [] then (st, Inl (toErrorResponse ''missing query: sender'' 400))
           else let room = normalizeRoom (query_get r ''room'')
             in if \<not> isValidRoomName room then (st, Inl invalidRoomResponse)
                else case checkRoomToken cf r room of
                    Some err \<Rightarrow> (st, Inl err)
                  | None \<Rightarrow>
                      let rates = publish_rates cf env st r sender room
                      in case snd rates of
                          Some err \<Rightarrow> (fst rates, Inl err)
                        | None \<Rightarrow>
                            if finite_above (js_number (or_empty (header_get r ''content-length''))) (cf_payloadMaxBytes cf)
                            then (fst rates, Inl (toErrorResponse ''payload too large'' 413))
                            else (fst rates, Inr (publish_args_of env r sender room)))"

text \<open>The body, once read.\<close>

definition publish_body :: "relay_config \<Rightarrow> relay_env \<Rightarrow> request \<Rightarrow> response + json" where
  "publish_body cf env r =
     (if jsonByteLength (req_text r) > cf_payloadMaxBytes cf then Inl (toErrorResponse ''payload too large'' 413)
      else case json_parse env (req_text r) of
          None \<Rightarrow> Inl (toErrorResponse ''invalid json payload'' 400)
        | Some parsed \<Rightarrow> Inr (normalizePublishPayload parsed))"

definition publish_commit ::
    "relay_config \<Rightarrow> relay_env \<Rightarrow> relay_state \<Rightarrow> publish_args \<Rightarrow> string option \<Rightarrow> json \<Rightarrow> handled" where
  "publish_commit cf env st pa signature payload =
     (let res = publish_and_record cf env (touch_room st (pa_room pa)) (pa_room pa) (pa_sender pa) (pa_topic pa)
            (pa_id pa) (case signature of Some s \<Rightarrow> s | None \<Rightarrow> pa_sig pa) payload (cf_nodeId cf) 0 (cf_maxHops cf)
      in (fst res, fst (snd res), response_json (pub_body (snd (snd res))) (pub_status (snd (snd res)))))"

definition handlePublish :: "relay_config \<Rightarrow> relay_env \<Rightarrow> relay_state \<Rightarrow> request \<Rightarrow> handled" where
  "handlePublish cf env st r =
     (let ad = publish_admit cf env st r
      in case snd ad of
          Inl err \<Rightarrow> answer (fst ad) err
        | Inr pa \<Rightarrow>
            (case publish_body cf env r of
               Inl err \<Rightarrow> answer (fst ad) err
             | Inr payload \<Rightarrow>
                 let ver = handleSignatureVerification cf env (rs_identity (fst ad)) r (pa_sender pa) (pa_room pa)
                       (pa_id pa) (pa_topic pa) payload;
                     st1 = (fst ad)\<lparr>rs_identity := fst ver\<rparr>
                 in case snd ver of
                     Inl err \<Rightarrow> answer st1 err
                   | Inr signature \<Rightarrow> publish_commit cf env st1 pa signature payload))"

section \<open>Poll and inbox\<close>

definition handlePoll :: "relay_config \<Rightarrow> relay_state \<Rightarrow> request \<Rightarrow> handled" where
  "handlePoll cf st r =
     (if req_method r \<noteq> ''GET'' then answer st methodNotAllowedResponse
      else with_room cf st r (\<lambda>room.
        let after = normalizeAfter (query_get r ''after'') 0;
            limit = normalizeLimit (query_get r ''limit'') 100;
            st1 = touch_room st room
        in answer st1 (response_json (pollFromRoom (room_of st1 room) room after limit) 200)))"

definition handleInboxPending :: "relay_config \<Rightarrow> relay_state \<Rightarrow> request \<Rightarrow> handled" where
  "handleInboxPending cf st r =
     (if req_method r \<noteq> ''GET'' then answer st methodNotAllowedResponse
      else with_room cf st r (\<lambda>room.
        let consumer = query_trim r ''consumer''
        in if consumer = [] then answer st (toErrorResponse ''missing query: consumer'' 400)
           else let limit = normalizeLimit (query_get r ''limit'') 100; st1 = touch_room st room
             in answer st1 (response_json (inboxPendingFromRoom (room_of st1 room) room consumer limit) 200)))"

definition handleInboxAck :: "relay_config \<Rightarrow> relay_env \<Rightarrow> relay_state \<Rightarrow> request \<Rightarrow> handled" where
  "handleInboxAck cf env st r =
     (if req_method r \<noteq> ''POST'' then answer st methodNotAllowedResponse
      else with_room cf st r (\<lambda>room.
        let consumer = query_trim r ''consumer''
        in if consumer = [] then answer st (toErrorResponse ''missing query: consumer'' 400)
           else let st1 = touch_room st room;
                    res = ackIntoRoom (json_parse env) (room_of st1 room) room consumer (req_text r)
             in answer (set_room st1 room (fst res)) (response_json (snd (snd res)) (fst (snd res)))))"

section \<open>Presence\<close>

definition contains :: "string \<Rightarrow> string \<Rightarrow> bool" where
  "contains s sub = list_ex (\<lambda>n. prefix sub (drop n s)) [0..<Suc (length s)]"

text \<open>\<open>None\<close> is a body that does not parse.\<close>

definition heartbeat_body :: "relay_env \<Rightarrow> request \<Rightarrow> (string \<times> json) option" where
  "heartbeat_body env r =
     (if contains (to_lower (or_empty (header_get r ''content-type''))) ''application/json'' then
        (case json_parse env (req_text r) of
           None \<Rightarrow> None
         | Some parsed \<Rightarrow>
             if is_record parsed
             then Some (case str_opt (jprop parsed ''status'') of Some s \<Rightarrow> s | None \<Rightarrow> ''online'',
                        case jprop parsed ''metadata'' of Some m \<Rightarrow> m | None \<Rightarrow> JNull)
             else Some (''online'', JNull))
      else Some (''online'', JNull))"

definition handlePresenceHeartbeat :: "relay_config \<Rightarrow> relay_env \<Rightarrow> relay_state \<Rightarrow> request \<Rightarrow> handled" where
  "handlePresenceHeartbeat cf env st r =
     (if req_method r \<noteq> ''POST'' then answer st methodNotAllowedResponse
      else with_room cf st r (\<lambda>room.
        let participant = query_trim r ''participant''
        in if participant = [] then answer st (toErrorResponse ''missing query: participant'' 400)
           else case heartbeat_body env r of
               None \<Rightarrow> answer st (toErrorResponse ''invalid json payload'' 400)
             | Some (status, metadata) \<Rightarrow>
                 let st1 = touch_room st room;
                     rs = room_of st1 room;
                     event = (if map_of (rm_presence rs) participant = None then ''joined'' else ''updated'');
                     rs1 = rs\<lparr>rm_presence := AList.update participant
                       \<lparr>pr_participantId = participant, pr_status = status, pr_metadata = metadata,
                        pr_lastHeartbeat = of_integer (nowEpochSec (body_ms env))\<rparr> (rm_presence rs)\<rparr>;
                     bc = broadcastPresenceChange env rs1 room participant status metadata event
                 in (set_room st1 room (fst bc), snd bc, response_json (JObj
                      [(''ok'', JBool True), (''participant'', JStr participant), (''status'', JStr status),
                       (''event'', JStr event)]) 200)))"

definition handlePresenceList :: "relay_config \<Rightarrow> relay_env \<Rightarrow> relay_state \<Rightarrow> string \<Rightarrow> handled" where
  "handlePresenceList cf env st room =
     (let st1 = touch_room st room;
          rs = prunePresence (room_of st1 room) (nowEpochSec (arrival_ms env)) (cf_presenceTtlSec cf)
      in answer (set_room st1 room rs) (response_json (JObj
           [(''ok'', JBool True), (''room'', JStr room),
            (''participants'', JArr (map (\<lambda>p. presence_json (snd p)) (rm_presence rs)))]) 200))"

definition handlePresenceDelete :: "relay_env \<Rightarrow> relay_state \<Rightarrow> request \<Rightarrow> string \<Rightarrow> handled" where
  "handlePresenceDelete env st r room =
     (let participant = query_trim r ''participant''
      in if participant = [] then answer st (toErrorResponse ''missing query: participant'' 400)
         else let st1 = touch_room st room;
                  rs = room_of st1 room;
                  removed = (map_of (rm_presence rs) participant \<noteq> None);
                  rs1 = rs\<lparr>rm_presence := AList.delete participant (rm_presence rs)\<rparr>;
                  bc = (if removed then broadcastPresenceChange env rs1 room participant ''offline'' JNull ''left''
                        else (rs1, []))
           in (set_room st1 room (fst bc), snd bc, response_json (JObj
                [(''ok'', JBool True), (''participant'', JStr participant), (''removed'', JBool removed)]) 200))"

definition handlePresence :: "relay_config \<Rightarrow> relay_env \<Rightarrow> relay_state \<Rightarrow> request \<Rightarrow> handled" where
  "handlePresence cf env st r =
     with_room cf st r (\<lambda>room.
       if req_method r = ''GET'' then handlePresenceList cf env st room
       else if req_method r = ''DELETE'' then handlePresenceDelete env st r room
       else answer st methodNotAllowedResponse)"

section \<open>Reviews\<close>

definition reviews_of :: "room_state \<Rightarrow> string \<Rightarrow> (string, review_record) omap" where
  "reviews_of rs prId = (case map_of (rm_reviews rs) prId of None \<Rightarrow> [] | Some m \<Rightarrow> m)"

definition handleReviewGet :: "relay_state \<Rightarrow> request \<Rightarrow> string \<Rightarrow> handled" where
  "handleReviewGet st r room =
     (let prId = query_trim r ''pr_id''
      in if prId = [] then answer st (toErrorResponse ''missing query: pr_id'' 400)
         else if \<not> pr_id_pattern prId then answer st (toErrorResponse ''invalid pr_id'' 400)
         else let st1 = touch_room st room;
                  reviewMap = reviews_of (room_of st1 room) prId;
                  status = computeReviewStatus reviewMap
           in answer st1 (response_json (JObj
                [(''ok'', JBool True), (''room'', JStr room), (''pr_id'', JStr prId),
                 (''resolved'', JBool (resolved status)), (''approve_count'', jint (approve_count status)),
                 (''deny_count'', jint (deny_count status)),
                 (''reviews'', JArr (map (\<lambda>p. review_json (snd p)) reviewMap))]) 200))"

text \<open>Storing one vote: a second vote of a sender keeps the time of the first.\<close>

definition record_review :: "room_state \<Rightarrow> string \<Rightarrow> string \<Rightarrow> verdict \<Rightarrow> int \<Rightarrow> room_state \<times> string" where
  "record_review rs prId sender v nowSec =
     (let prReviews = reviews_of rs prId;
          existing = map_of prReviews sender;
          rec = \<lparr>rv_sender = sender, rv_verdict = v,
                 rv_submittedAt = (case existing of Some e \<Rightarrow> rv_submittedAt e | None \<Rightarrow> of_integer nowSec),
                 rv_updatedAt = of_integer nowSec\<rparr>
      in (rs\<lparr>rm_reviews := AList.update prId (AList.update sender rec prReviews) (rm_reviews rs)\<rparr>,
          if existing = None then ''submitted'' else ''updated''))"

definition review_commit ::
    "relay_config \<Rightarrow> relay_env \<Rightarrow> relay_state \<Rightarrow> string \<Rightarrow> string \<Rightarrow> string \<Rightarrow> verdict \<Rightarrow> int \<Rightarrow> handled" where
  "review_commit cf env st room sender prId v nowSec =
     (let st1 = touch_room st room;
          stored = record_review (room_of st1 room) prId sender v nowSec;
          status = computeReviewStatus (reviews_of (fst stored) prId);
          bc = broadcastReviewChange env (fst stored) room prId sender (verdict_text v) (snd stored) (resolved status)
                 (approve_count status) (deny_count status)
      in (set_room st1 room (fst bc), snd bc, response_json (JObj
           [(''ok'', JBool True), (''room'', JStr room), (''pr_id'', JStr prId), (''sender'', JStr sender),
            (''verdict'', JStr (verdict_text v)), (''event'', JStr (snd stored)),
            (''resolved'', JBool (resolved status)), (''approve_count'', jint (approve_count status)),
            (''deny_count'', jint (deny_count status))]) 200))"

text \<open>A review needs no body, so its clock is read on arrival.\<close>

definition handleReviewPost :: "relay_config \<Rightarrow> relay_env \<Rightarrow> relay_state \<Rightarrow> request \<Rightarrow> string \<Rightarrow> handled" where
  "handleReviewPost cf env st r room =
     (let sender = query_trim r ''sender''; prId = query_trim r ''pr_id''; verdict = query_trim r ''verdict''
      in if sender = [] then answer st (toErrorResponse ''missing query: sender'' 400)
         else if prId = [] then answer st (toErrorResponse ''missing query: pr_id'' 400)
         else if \<not> pr_id_pattern prId then answer st (toErrorResponse ''invalid pr_id'' 400)
         else case verdict_of verdict of
             None \<Rightarrow> answer st (toErrorResponse ''invalid verdict'' 400)
           | Some v \<Rightarrow>
               let nowSec = nowEpochSec (arrival_ms env);
                   pre = signature_precheck cf True nowSec (rs_identity st) r sender;
                   st1 = st\<lparr>rs_identity := fst pre\<rparr>
               in case snd pre of
                   Inl err \<Rightarrow> answer st1 err
                 | Inr None \<Rightarrow> answer st1 (toErrorResponse ''missing signature headers'' 401)
                 | Inr (Some auth) \<Rightarrow>
                     if \<not> signature_verified env auth (buildReviewSigningMessage sender room prId verdict
                            (auth_timestampSec auth) (auth_nonce auth))
                     then answer st1 (toErrorResponse ''invalid signature'' 401)
                     else let com = signature_commit cf nowSec (fst pre) sender auth;
                              st2 = st\<lparr>rs_identity := fst com\<rparr>
                       in case snd com of
                           Some err \<Rightarrow> answer st2 err
                         | None \<Rightarrow> review_commit cf env st2 room sender prId v nowSec)"

definition handleReview :: "relay_config \<Rightarrow> relay_env \<Rightarrow> relay_state \<Rightarrow> request \<Rightarrow> handled" where
  "handleReview cf env st r =
     with_room cf st r (\<lambda>room.
       if req_method r = ''GET'' then handleReviewGet st r room
       else if req_method r = ''POST'' then handleReviewPost cf env st r room
       else answer st methodNotAllowedResponse)"

section \<open>Web sockets\<close>

text \<open>The room is created before its token is checked, as in the code.\<close>

definition handleWebSocket :: "relay_config \<Rightarrow> relay_env \<Rightarrow> relay_state \<Rightarrow> request \<Rightarrow> string \<Rightarrow> handled" where
  "handleWebSocket cf env st r room =
     (let st1 = touch_room st room; rs = room_of st1 room
      in guarded st1 (checkRoomToken cf r room)
        (if int (length (rm_sessions rs)) \<ge> cf_maxWsSessions cf
         then answer st1 (toErrorResponse ''too many connections'' 503)
         else if to_lower (or_empty (header_get r ''upgrade'')) \<noteq> ''websocket''
         then answer st1 (text_response ''Expected WebSocket'' 426)
         else case ws_kind env of
             NoWebSocket \<Rightarrow> answer st1 (toErrorResponse ''websocket unsupported in this runtime'' 501)
           | _ \<Rightarrow> let sub = subscribeSocket rs (ws_new env) (arrival_ms env) (cf_wsPingMs cf) (cf_wsIdleMs cf)
               in (set_room st1 room (fst sub), snd sub,
                   \<lparr>resp_status = 101, resp_headers = [], resp_body = NoBody\<rparr>)))"

definition handleWs :: "relay_config \<Rightarrow> relay_env \<Rightarrow> relay_state \<Rightarrow> request \<Rightarrow> handled" where
  "handleWs cf env st r =
     (let room = normalizeRoom (query_get r ''room'')
      in if \<not> isValidRoomName room then answer st invalidRoomResponse
         else handleWebSocket cf env st r room)"

section \<open>The invariant\<close>

lemma publish_rates_ok [inv_intros]: "state_ok cf st \<Longrightarrow> state_ok cf (fst (publish_rates cf env st r sender room))"
  by (auto simp: publish_rates_def Let_def state_ok_def intro: rate_check_ok)

lemma publish_rates_identity [simp]: "rs_identity (fst (publish_rates cf env st r sender room)) = rs_identity st"
  by (simp add: publish_rates_def Let_def)

lemma publish_admit_ok [inv_intros]: "state_ok cf st \<Longrightarrow> state_ok cf (fst (publish_admit cf env st r))"
  by (simp add: publish_admit_def Let_def publish_rates_ok split: option.split)

lemma trim_or_nonempty: "js_trim d \<noteq> [] \<Longrightarrow> trim_or v d \<noteq> []"
  by (auto simp: trim_or_def Let_def)

lemma publish_admit_args:
  assumes "snd (publish_admit cf env st r) = Inr pa"
  shows "isValidRoomName (pa_room pa)" "pa_sender pa \<noteq> []" "js_trim (pa_sender pa) = pa_sender pa"
    "js_trim (fresh_uuid env) \<noteq> [] \<Longrightarrow> pa_id pa \<noteq> []"
  using assms trim_or_nonempty [of "fresh_uuid env" "query_get r ''id''"] by (auto simp: publish_admit_def Let_def publish_args_of_def split: if_splits option.splits)

lemma publish_commit_ok [inv_intros]:
  assumes "config_ok cf" "state_ok cf st" "isValidRoomName (pa_room pa)" "pa_sender pa \<noteq> []" "pa_id pa \<noteq> []"
  shows "state_ok cf (fst (publish_commit cf env st pa signature payload))"
proof -
  have "0 < cf_maxHops cf" "js_trim (cf_nodeId cf) = cf_nodeId cf" "cf_nodeId cf \<noteq> []"
    using assms(1) by (simp_all add: config_ok_def)
  then show ?thesis
    using assms by (simp add: publish_commit_def Let_def publish_and_record_ok touch_room_ok)
qed

lemma handlePublish_ok [inv_intros]:
  assumes "config_ok cf" "env_ok env" "state_ok cf st"
  shows "state_ok cf (fst (handlePublish cf env st r))"
proof -
  have ad: "state_ok cf (fst (publish_admit cf env st r))" by (rule publish_admit_ok) (rule assms(3))
  have ver: "state_ok cf ((fst (publish_admit cf env st r))\<lparr>rs_identity := fst (handleSignatureVerification cf env
      (rs_identity (fst (publish_admit cf env st r))) r (pa_sender pa) (pa_room pa) (pa_id pa) (pa_topic pa) payload)\<rparr>)"
    if "snd (publish_admit cf env st r) = Inr pa" for pa payload
    using ad publish_admit_args [OF that] state_ok_parts(1) [OF ad]
    by (intro state_ok_identity handleSignatureVerification_ok) auto
  have "snd (publish_admit cf env st r) = Inr pa \<Longrightarrow> state_ok cf (fst (publish_commit cf env
      ((fst (publish_admit cf env st r))\<lparr>rs_identity := fst (handleSignatureVerification cf env
        (rs_identity (fst (publish_admit cf env st r))) r (pa_sender pa) (pa_room pa) (pa_id pa) (pa_topic pa) payload)\<rparr>)
      pa sig payload))" for pa payload sig
    using ver publish_admit_args(1,2,4) assms(1,2) by (intro publish_commit_ok) (auto simp: env_ok_def)
  then show ?thesis
    using ad ver by (simp add: handlePublish_def Let_def split: sum.split)
qed

lemma handleInbox_ok [inv_intros]:
  assumes "state_ok cf st"
  shows "state_ok cf (fst (handlePoll cf st r))" "state_ok cf (fst (handleInboxPending cf st r))"
    "state_ok cf (fst (handleInboxAck cf env st r))"
proof -
  show "state_ok cf (fst (handlePoll cf st r))" "state_ok cf (fst (handleInboxPending cf st r))"
    using assms by (simp_all add: handlePoll_def handleInboxPending_def Let_def with_room_ok touch_room_ok)
  have "state_ok cf (set_room (touch_room st room) room (fst (ackIntoRoom parse (room_of (touch_room st room) room) room c t)))"
    if "isValidRoomName room" for room parse c t
    using state_ok_room_of [OF touch_room_ok [OF assms that], of room] that assms
    by (intro set_room_ok touch_room_ok ackIntoRoom_ok) (simp_all add: messages_ok_same [OF ackIntoRoom_messages])
  then show "state_ok cf (fst (handleInboxAck cf env st r))"
    using assms by (simp add: handleInboxAck_def Let_def with_room_ok)
qed

lemma room_ok_presence_update:
  "room_ok cap rs \<Longrightarrow> clean p \<Longrightarrow> whole_num t \<Longrightarrow> room_ok cap (rs\<lparr>rm_presence := AList.update p \<lparr>pr_participantId = p, pr_status = s,
     pr_metadata = m, pr_lastHeartbeat = t\<rparr> (rm_presence rs)\<rparr>)"
  by (auto simp: room_ok_def presence_ok_def dest!: set_update_cases)

lemma room_ok_presence_delete: "room_ok cap rs \<Longrightarrow> room_ok cap (rs\<lparr>rm_presence := AList.delete p (rm_presence rs)\<rparr>)"
  by (auto simp: room_ok_def presence_ok_def AList.delete_eq)

lemma handlePresence_ok [inv_intros]:
  assumes "state_ok cf st"
  shows "state_ok cf (fst (handlePresenceHeartbeat cf env st r))" "state_ok cf (fst (handlePresence cf env st r))"
proof -
  have room: "room_ok (cf_maxMessages cf) (room_of (touch_room st room) room)" "messages_ok (room_of (touch_room st room) room)"
    if "isValidRoomName room" for room
    using state_ok_room_of [OF touch_room_ok [OF assms that], of room] by auto
  have set: "state_ok cf (set_room (touch_room st room) room rs)"
    if "isValidRoomName room" "room_ok (cf_maxMessages cf) rs"
      "rm_messages rs = rm_messages (room_of (touch_room st room) room)" for room rs
    using that assms room(2) [OF that(1)] by (intro set_room_ok touch_room_ok) (auto simp: messages_ok_same [OF that(3)])
  show "state_ok cf (fst (handlePresenceHeartbeat cf env st r))"
    using assms room
    by (auto simp: handlePresenceHeartbeat_def Let_def intro!: with_room_ok set broadcasts_ok room_ok_presence_update query_trim_clean
        split: option.split)
  have "state_ok cf (fst (handlePresenceList cf env st room))" if "isValidRoomName room" for room
    using that room by (auto simp: handlePresenceList_def Let_def intro!: set prunePresence_ok)
  moreover have "state_ok cf (fst (handlePresenceDelete env st r room))" if "isValidRoomName room" for room
    using assms that room
    by (auto simp: handlePresenceDelete_def Let_def intro!: set broadcasts_ok room_ok_presence_delete)
  ultimately show "state_ok cf (fst (handlePresence cf env st r))"
    using assms by (simp add: handlePresence_def with_room_ok)
qed

lemma room_ok_reviews: "room_ok cap rs \<Longrightarrow> p \<in> set (rm_reviews rs) \<Longrightarrow> reviews_ok (snd p)"
  by (simp add: room_ok_def)

lemma reviews_of_ok: "room_ok cap rs \<Longrightarrow> reviews_ok (reviews_of rs prId)"
proof (cases "map_of (rm_reviews rs) prId")
  case (Some m)
  assume "room_ok cap rs"
  from room_ok_reviews [OF this map_of_SomeD [OF Some]] show ?thesis by (simp add: reviews_of_def Some)
qed (simp add: reviews_of_def reviews_ok_def)

lemma reviews_ok_update:
  "reviews_ok m \<Longrightarrow> rv_sender r = s \<Longrightarrow> clean s \<Longrightarrow> whole_num (rv_submittedAt r) \<Longrightarrow> whole_num (rv_updatedAt r) \<Longrightarrow>
   reviews_ok (AList.update s r m)"
  by (auto simp: reviews_ok_def dest!: set_update_cases)

lemma room_ok_set_reviews:
  assumes "room_ok cap rs" "reviews_ok m" "m \<noteq> []" "pr_id_pattern prId"
  shows "room_ok cap (rs\<lparr>rm_reviews := AList.update prId m (rm_reviews rs)\<rparr>)"
proof -
  have "pr_id_pattern (fst p) \<and> snd p \<noteq> [] \<and> reviews_ok (snd p)" if "p \<in> set (AList.update prId m (rm_reviews rs))" for p
    using set_update_cases [OF that] assms by (auto simp: room_ok_def)
  then show ?thesis using assms(1) by (simp add: room_ok_def)
qed

lemma update_not_Nil [simp]: "AList.update k v m \<noteq> []"
  by (cases m) auto

lemma reviews_of_whole:
  "room_ok cap rs \<Longrightarrow> map_of (reviews_of rs prId) sender = Some r \<Longrightarrow> whole_num (rv_submittedAt r)"
  using reviews_of_ok [of cap rs prId] by (fastforce simp: reviews_ok_def dest: map_of_SomeD)

lemma record_review_ok:
  "room_ok cap rs \<Longrightarrow> clean sender \<Longrightarrow> pr_id_pattern prId \<Longrightarrow> room_ok cap (fst (record_review rs prId sender v now))"
  by (auto simp: record_review_def Let_def reviews_of_whole split: option.split
      intro!: room_ok_set_reviews reviews_ok_update reviews_of_ok)

lemma record_review_messages [simp]: "rm_messages (fst (record_review rs prId sender v now)) = rm_messages rs"
  by (simp add: record_review_def Let_def)

lemma review_commit_ok:
  assumes "state_ok cf st" "isValidRoomName room" "clean sender" "pr_id_pattern prId"
  shows "state_ok cf (fst (review_commit cf env st room sender prId v now))"
  using assms state_ok_room_of [OF touch_room_ok [OF assms(1,2)], of room]
  by (auto simp: review_commit_def Let_def messages_ok_def ids_distinct_def
      intro!: set_room_ok touch_room_ok broadcasts_ok record_review_ok)

lemma handleReviewPost_ok:
  assumes "state_ok cf st" "isValidRoomName room"
  shows "state_ok cf (fst (handleReviewPost cf env st r room))"
proof -
  let ?now = "nowEpochSec (arrival_ms env)" and ?s = "query_trim r ''sender''"
  let ?pre = "signature_precheck cf True ?now (rs_identity st) r ?s"
  have pre: "identity_ok (fst ?pre)"
    using state_ok_parts(1) [OF assms(1)] by (rule signature_precheck_ok)
  have com: "identity_ok (fst (signature_commit cf ?now (fst ?pre) ?s a))" if "snd ?pre = Inr (Some a)" "?s \<noteq> []" for a
    using pre that(2) signature_precheck_auth(1) [OF that(1)] by (intro signature_commit_ok) auto
  have "state_ok cf (st\<lparr>rs_identity := fst ?pre\<rparr>)"
    using assms(1) pre by (rule state_ok_identity)
  moreover have "state_ok cf (st\<lparr>rs_identity := fst (signature_commit cf ?now (fst ?pre) ?s a)\<rparr>)"
    if "snd ?pre = Inr (Some a)" "?s \<noteq> []" for a
    using assms(1) com [OF that] by (rule state_ok_identity)
  ultimately show ?thesis
    using assms by (simp add: handleReviewPost_def Let_def review_commit_ok query_trim_clean split: option.split sum.split)
qed

lemma handleReview_ok [inv_intros]: "state_ok cf st \<Longrightarrow> state_ok cf (fst (handleReview cf env st r))"
  by (simp add: handleReview_def handleReviewGet_def Let_def with_room_ok handleReviewPost_ok touch_room_ok)

lemma handleWs_ok [inv_intros]:
  assumes "state_ok cf st"
  shows "state_ok cf (fst (handleWs cf env st r))"
proof -
  have "state_ok cf (set_room (touch_room st room) room (fst (subscribeSocket (room_of (touch_room st room) room) s now p i)))"
    if "isValidRoomName room" for room s now p i
    using state_ok_room_of [OF touch_room_ok [OF assms that], of room] that assms
    by (intro set_room_ok touch_room_ok subscribeSocket_ok) (simp_all add: messages_ok_def ids_distinct_def subscribeSocket_def)
  then show ?thesis
    using assms by (simp add: handleWs_def handleWebSocket_def Let_def guarded_ok touch_room_ok split: ws_runtime.split)
qed

end
