(* ===== verification/Relay_Snapshot.thy ===== *)
theory Relay_Snapshot
  imports Relay_State Identity_Facts
begin

text \<open>
  Persistence of a relay: \<open>snapshot\<close> and \<open>restore\<close> of \<open>src/memory_handler.ts\<close>, with the issue
  cursors of \<open>src/relay_cache_adapter.ts\<close> (\<open>snapshotIssueCursors\<close>, \<open>restoreIssueCursors\<close>). A snapshot is
  a JSON value; restoring reads any JSON value and keeps what it can use. Sessions and rate
  counters are not part of it.
\<close>

section \<open>Taking a snapshot\<close>

definition snapshot_review :: "string \<Rightarrow> review_record \<Rightarrow> json" where
  "snapshot_review prId r = JObj
     [(''sender'', JStr (rv_sender r)), (''verdict'', JStr (verdict_text (rv_verdict r))), (''pr_id'', JStr prId),
      (''submitted_at'', JNum (rv_submittedAt r)), (''updated_at'', JNum (rv_updatedAt r))]"

definition snapshot_reviews :: "(string, (string, review_record) omap) omap \<Rightarrow> json list" where
  "snapshot_reviews m = concat (map (\<lambda>p. map (\<lambda>q. snapshot_review (fst p) (snd q)) (snd p)) m)"

definition snapshot_room :: "room_state \<Rightarrow> json" where
  "snapshot_room rs =
     (let presence = map (\<lambda>p. presence_json (snd p)) (rm_presence rs);
          reviews = snapshot_reviews (rm_reviews rs)
      in JObj ([(''messages'', JArr (map envelope_json (rm_messages rs))),
                (''acks_by_consumer'', JObj (obj_of_map (\<lambda>ids. JArr (map JStr ids)) (rm_acks rs)))] @
               (if presence \<noteq> [] then [(''presence'', JArr presence)] else []) @
               (if reviews \<noteq> [] then [(''reviews'', JArr reviews)] else [])))"

definition record_json :: "exchange_record \<Rightarrow> json" where
  "record_json r = JObj
     [(''cursor'', jint (xr_cursor r)), (''envelope'', envelope_json (xr_envelope r)),
      (''origin'', JStr (xr_origin r)), (''hop_count'', jint (xr_hopCount r)), (''max_hops'', jint (xr_maxHops r))]"

definition exchange_json :: "exchange \<Rightarrow> json" where
  "exchange_json ex =
     JObj [(''cursor'', jint (ex_cursor ex)), (''records'', JArr (map record_json (ex_records ex)))]"

definition snapshotIssueCursors :: "(string, int) omap \<Rightarrow> (string \<times> json) list" where
  "snapshotIssueCursors m = obj_of_map (\<lambda>c. jint (max 0 c)) (filter (\<lambda>p. isValidRoomName (fst p)) m)"

definition snapshot :: "relay_state \<Rightarrow> json" where
  "snapshot st =
     (let ex = rs_exchange st; cursors = snapshotIssueCursors (rs_issueCursors st); en = rs_engine st
      in JObj ([(''rooms'', JObj (obj_of_map snapshot_room (rs_rooms st))),
                (''keys_by_sender'', keys_snapshot (id_keys (rs_identity st))),
                (''nonces_by_sender'', nonces_snapshot (id_nonces (rs_identity st)))] @
               (if ex_records ex \<noteq> [] \<or> ex_cursor ex > 0 then [(''cache_exchange'', exchange_json ex)] else []) @
               (if cursors \<noteq> [] then [(''issue_cursors'', JObj cursors)] else []) @
               (if engine_deliveries en \<noteq> [] \<or> engine_entries en \<noteq> []
                then [(''github_webhook'', engine_snapshot en)] else [])))"

section \<open>Restoring\<close>

definition restored_message :: "string \<Rightarrow> json \<Rightarrow> envelope option" where
  "restored_message room message =
     (if \<not> is_record message then None
      else let e = \<lparr>env_room = (case str_opt (jprop message ''room'') of Some s \<Rightarrow> s | None \<Rightarrow> room),
                    env_id = str_or_empty (jprop message ''id''),
                    env_sender = str_or_empty (jprop message ''sender''),
                    env_topic = str_or_empty (jprop message ''topic''),
                    env_payload = (case jprop message ''payload'' of Some v \<Rightarrow> v | None \<Rightarrow> JNull),
                    env_signature = str_opt (jprop message ''signature'')\<rparr>
        in if env_id e = [] \<or> env_sender e = [] \<or> env_topic e = [] then None else Some e)"

definition restored_acks :: "string \<Rightarrow> json \<Rightarrow> string list option" where
  "restored_acks consumer v = (case v of JArr ids \<Rightarrow> Some (ack_many [] ids) | _ \<Rightarrow> None)"

definition restored_presence :: "relay_config \<Rightarrow> int \<Rightarrow> json \<Rightarrow> presence_record option" where
  "restored_presence cf nowSec p =
     (if \<not> is_record p then None
      else let pid = body_field p ''participant_id''; lastHb = num_or_zero (jprop p ''last_heartbeat'')
        in if pid = [] then None
           else if diff_ge nowSec lastHb (cf_presenceTtlSec cf) then None
           else Some \<lparr>pr_participantId = pid,
                      pr_status = (case str_opt (jprop p ''status'') of Some s \<Rightarrow> s | None \<Rightarrow> ''online''),
                      pr_metadata = (case jprop p ''metadata'' of Some v \<Rightarrow> v | None \<Rightarrow> JNull),
                      pr_lastHeartbeat = lastHb\<rparr>)"

definition restore_presence :: "relay_config \<Rightarrow> int \<Rightarrow> json list \<Rightarrow> (string, presence_record) omap" where
  "restore_presence cf nowSec ps =
     foldl (\<lambda>m p. case restored_presence cf nowSec p of
              None \<Rightarrow> m | Some r \<Rightarrow> AList.update (pr_participantId r) r m) [] ps"

definition restored_review :: "json \<Rightarrow> (string \<times> review_record) option" where
  "restored_review r =
     (if \<not> is_record r then None
      else let rSender = body_field r ''sender''; rPrId = body_field r ''pr_id''
        in if rSender = [] \<or> rPrId = [] then None
           else case verdict_of (str_or_empty (jprop r ''verdict'')) of
               None \<Rightarrow> None
             | Some v \<Rightarrow>
                 if \<not> pr_id_pattern rPrId then None
                 else Some (rPrId, \<lparr>rv_sender = rSender, rv_verdict = v,
                                    rv_submittedAt = num_or_zero (jprop r ''submitted_at''),
                                    rv_updatedAt = num_or_zero (jprop r ''updated_at'')\<rparr>))"

definition add_review ::
    "(string, (string, review_record) omap) omap \<Rightarrow> string \<times> review_record \<Rightarrow> (string, (string, review_record) omap) omap" where
  "add_review m pr =
     AList.update (fst pr) (AList.update (rv_sender (snd pr)) (snd pr)
       (case map_of m (fst pr) of None \<Rightarrow> [] | Some prReviews \<Rightarrow> prReviews)) m"

definition restore_reviews :: "json list \<Rightarrow> (string, (string, review_record) omap) omap" where
  "restore_reviews rs = foldl (\<lambda>m r. case restored_review r of None \<Rightarrow> m | Some pr \<Rightarrow> add_review m pr) [] rs"

definition restored_room :: "relay_config \<Rightarrow> int \<Rightarrow> string \<Rightarrow> json \<Rightarrow> room_state option" where
  "restored_room cf nowSec room v =
     (if \<not> isValidRoomName room \<or> \<not> is_record v then None
      else case (arr_opt (jprop v ''messages''), obj_opt (jprop v ''acks_by_consumer'')) of
          (Some messages, Some acks) \<Rightarrow>
            Some \<lparr>rm_messages = last_n (cf_maxMessages cf) (List.map_filter (restored_message room) messages),
                  rm_acks = map_of_entries restored_acks (members acks),
                  rm_sessions = [],
                  rm_presence = (case arr_opt (jprop v ''presence'') of
                                   Some ps \<Rightarrow> restore_presence cf nowSec ps | None \<Rightarrow> []),
                  rm_reviews = (case arr_opt (jprop v ''reviews'') of
                                  Some rs \<Rightarrow> restore_reviews rs | None \<Rightarrow> [])\<rparr>
        | _ \<Rightarrow> None)"

definition restored_record :: "relay_config \<Rightarrow> json \<Rightarrow> exchange_record option" where
  "restored_record cf value =
     (case (is_record value, obj_opt (jprop value ''envelope'')) of
        (True, Some er) \<Rightarrow>
          let room = str_or_empty (jprop er ''room''); eid = str_or_empty (jprop er ''id'');
              sender = str_or_empty (jprop er ''sender''); topic = str_or_empty (jprop er ''topic'');
              payload = (case jprop er ''payload'' of Some v \<Rightarrow> v | None \<Rightarrow> JNull);
              cursor = (case finite_int_opt (jprop value ''cursor'') of Some c \<Rightarrow> c | None \<Rightarrow> 0);
              origin = js_trim (str_or_empty (jprop value ''origin''));
              hopCount = (case finite_int_opt (jprop value ''hop_count'') of Some h \<Rightarrow> max 0 h | None \<Rightarrow> 0);
              maxHops = (case finite_int_opt (jprop value ''max_hops'') of Some h \<Rightarrow> max 1 h | None \<Rightarrow> cf_maxHops cf)
          in if cursor \<le> 0 \<or> origin = [] \<or> \<not> isValidRoomName room \<or> eid = [] \<or> sender = [] \<or> \<not> isValidTopic topic
             then None
             else Some \<lparr>xr_cursor = cursor,
                        xr_envelope = \<lparr>env_room = room, env_id = eid, env_sender = sender, env_topic = topic,
                                       env_payload = payload, env_signature = str_opt (jprop er ''signature'')\<rparr>,
                        xr_origin = origin, xr_hopCount = hopCount, xr_maxHops = maxHops\<rparr>
      | _ \<Rightarrow> None)"

definition rerecord :: "relay_config \<Rightarrow> rooms_map \<Rightarrow> exchange" where
  "rerecord cf rooms =
     foldl (\<lambda>ex message. recordCacheExchange (cf_maxRecords cf) ex message (cf_nodeId cf) 0 (cf_maxHops cf)) no_exchange
       (concat (map (\<lambda>p. rm_messages (snd p)) rooms))"

text \<open>Without usable exchange records in the snapshot every stored message is recorded anew.\<close>

definition restore_exchange :: "relay_config \<Rightarrow> rooms_map \<Rightarrow> json \<Rightarrow> exchange" where
  "restore_exchange cf rooms data =
     (case obj_opt (jprop data ''cache_exchange'') of
        Some ce \<Rightarrow>
          (case arr_opt (jprop ce ''records'') of
             Some values \<Rightarrow>
               let records = List.map_filter (restored_record cf) values;
                   maxCursor = foldl (\<lambda>m r. if xr_cursor r > m then xr_cursor r else m) 0 records;
                   snapshotCursor = (case finite_int_opt (jprop ce ''cursor'') of Some c \<Rightarrow> max 0 c | None \<Rightarrow> 0)
               in (foldl (appendCacheExchangeRecord (cf_maxRecords cf)) no_exchange records)
                    \<lparr>ex_cursor := max snapshotCursor maxCursor\<rparr>
           | None \<Rightarrow> rerecord cf rooms)
      | None \<Rightarrow> rerecord cf rooms)"

definition restoreIssueCursors :: "json \<Rightarrow> (string, int) omap" where
  "restoreIssueCursors data =
     map_of_entries (\<lambda>room c. if isValidRoomName room then map_option (max 0) (finite_int_opt (Some c)) else None)
       (members data)"

text \<open>Everything restored is cleared first; the rate counters stay.\<close>

definition restore :: "relay_config \<Rightarrow> int \<Rightarrow> relay_state \<Rightarrow> json \<Rightarrow> relay_state" where
  "restore cf nowSec st data =
     (if \<not> is_record data
      then st\<lparr>rs_rooms := [], rs_identity := no_identity, rs_issueCursors := [], rs_engine := no_engine,
              rs_exchange := no_exchange\<rparr>
      else let rooms = (case obj_opt (jprop data ''rooms'') of
                          Some r \<Rightarrow> map_of_entries (restored_room cf nowSec) (members r) | None \<Rightarrow> [])
        in st\<lparr>rs_rooms := rooms,
              rs_identity := \<lparr>id_keys = restore_keys data, id_nonces = restore_nonces cf nowSec data\<rparr>,
              rs_issueCursors := (case obj_opt (jprop data ''issue_cursors'') of
                                    Some c \<Rightarrow> restoreIssueCursors c | None \<Rightarrow> []),
              rs_engine := (case obj_opt (jprop data ''github_webhook'') of
                              Some g \<Rightarrow> engine_restore relay_engine_options nowSec g | None \<Rightarrow> no_engine),
              rs_exchange := restore_exchange cf rooms data\<rparr>)"

section \<open>What a room keeps\<close>

definition stored :: "envelope \<Rightarrow> envelope" where
  "stored e = e\<lparr>env_payload := json_clone (env_payload e)\<rparr>"

lemma stored_fields [simp]:
  "env_id (stored e) = env_id e" "env_room (stored e) = env_room e" "env_sender (stored e) = env_sender e"
  "env_topic (stored e) = env_topic e" "env_signature (stored e) = env_signature e"
  "env_payload (stored e) = json_clone (env_payload e)" "message_ok (stored e) = message_ok e"
  by (simp_all add: stored_def message_ok_def)

lemma isValidTopic_not_Nil: "isValidTopic t \<Longrightarrow> t \<noteq> []"
  by (auto simp: isValidTopic_def)

lemma restored_message_json: "message_ok e \<Longrightarrow> restored_message room (envelope_json e) = Some (stored e)"
  by (auto simp: restored_message_def envelope_json_def Let_def message_ok_def stored_def dest: isValidTopic_not_Nil)

lemma map_filter_map_Some: "\<forall>x\<in>set xs. f (g x) = Some (h x) \<Longrightarrow> List.map_filter f (map g xs) = map h xs"
  by (induction xs) (simp_all add: List.map_filter_def)

lemma restored_acks_json:
  assumes "distinct ids" "\<forall>i\<in>set ids. clean i"
  shows "restored_acks c (JArr (map JStr ids)) = Some ids"
proof -
  have "ack_many acc (map JStr ids) = acc @ ids" if "distinct (acc @ ids)" "\<forall>i\<in>set ids. clean i" for acc
    using that
  proof (induction ids arbitrary: acc)
    case (Cons i ids)
    then have "ack_many (acc @ [i]) (map JStr ids) = (acc @ [i]) @ ids" by (intro Cons.IH) auto
    then show ?case using Cons.prems by (simp add: ack_many_def Let_def clean_def set_add_def)
  qed (simp add: ack_many_def)
  from this [of "[]"] show ?thesis using assms by (simp add: restored_acks_def)
qed

lemma update_new: "k \<notin> fst ` set m \<Longrightarrow> AList.update k v m = m @ [(k, v)]"
  by (induction m) auto

definition alive :: "relay_config \<Rightarrow> int \<Rightarrow> string \<times> presence_record \<Rightarrow> bool" where
  "alive cf nowSec p \<longleftrightarrow> \<not> diff_ge nowSec (pr_lastHeartbeat (snd p)) (cf_presenceTtlSec cf)"

lemma restored_presence_json:
  assumes "pr_participantId r = s" "clean s" "whole_num (pr_lastHeartbeat r)"
  shows "restored_presence cf now (presence_json r) = (if alive cf now (s, r) then Some r else None)"
  using assms
  by (simp add: restored_presence_def presence_json_def body_field_def Let_def clean_def num_or_zero_def whole_num_def
      alive_def)

lemma restore_presence_json:
  assumes "presence_ok m"
  shows "restore_presence cf now (map (\<lambda>p. presence_json (snd p)) m) = filter (alive cf now) m"
proof -
  let ?step = "\<lambda>m p. case restored_presence cf now p of None \<Rightarrow> m | Some r \<Rightarrow> AList.update (pr_participantId r) r m"
  have "foldl ?step acc (map (\<lambda>p. presence_json (snd p)) m) = acc @ filter (alive cf now) m"
    if "presence_ok m" "\<forall>p\<in>set m. fst p \<notin> fst ` set acc" for acc
    using that
  proof (induction m arbitrary: acc)
    case (Cons p m)
    obtain s r where p: "p = (s, r)" by (cases p)
    have r: "pr_participantId r = s" "clean s" "whole_num (pr_lastHeartbeat r)" and m: "presence_ok m"
      using Cons.prems(1) by (auto simp: presence_ok_def p okeys_def)
    have fresh: "s \<notin> fst ` set m"
      using Cons.prems(1) by (auto simp: presence_ok_def p okeys_def)
    have "foldl ?step (if alive cf now (s, r) then acc @ [(s, r)] else acc) (map (\<lambda>p. presence_json (snd p)) m) =
        (if alive cf now (s, r) then acc @ [(s, r)] else acc) @ filter (alive cf now) m"
      by (rule Cons.IH [OF m]) (use Cons.prems(2) fresh p in \<open>auto simp: image_iff\<close>)
    then show ?case
      using Cons.prems(2) by (auto simp: p restored_presence_json [OF r] r(1) update_new)
  qed simp
  from this [of "[]"] show ?thesis using assms by (simp add: restore_presence_def)
qed

lemma restored_review_json:
  assumes "pr_id_pattern prId" "clean (rv_sender r)" "whole_num (rv_submittedAt r)" "whole_num (rv_updatedAt r)"
  shows "restored_review (snapshot_review prId r) = Some (prId, r)"
proof -
  have "clean prId" using assms(1) unfolding pr_id_pattern_def by (rule name_pattern_clean)
  then show ?thesis
    using assms by (simp add: restored_review_def snapshot_review_def body_field_def Let_def clean_def
        num_or_zero_def whole_num_def)
qed

lemma update_last: "k \<notin> fst ` set m \<Longrightarrow> AList.update k v (m @ [(k, w)]) = m @ [(k, v)]"
  by (induction m) auto

lemma map_of_last: "k \<notin> fst ` set m \<Longrightarrow> map_of (m @ [(k, w)]) k = Some w"
  by (induction m) auto

lemma add_reviews_known:
  assumes "prId \<notin> fst ` set acc" "reviews_ok (done @ qs)"
  shows "foldl add_review (acc @ [(prId, done)]) (map (\<lambda>q. (prId, snd q)) qs) = acc @ [(prId, done @ qs)]"
  using assms(2)
proof (induction qs arbitrary: "done")
  case (Cons q qs)
  have q: "rv_sender (snd q) = fst q" "fst q \<notin> fst ` set done"
    using Cons.prems by (auto simp: reviews_ok_def okeys_def)
  have "add_review (acc @ [(prId, done)]) (prId, snd q) = acc @ [(prId, done @ [q])]"
    using assms(1) q by (simp add: add_review_def map_of_last update_last update_new del: map_of_append)
  then show ?case using Cons.IH [of "done @ [q]"] Cons.prems by simp
qed simp

lemma add_reviews_new:
  assumes "prId \<notin> fst ` set acc" "reviews_ok qs" "qs \<noteq> []"
  shows "foldl add_review acc (map (\<lambda>q. (prId, snd q)) qs) = acc @ [(prId, qs)]"
proof -
  obtain q qs' where qs: "qs = q # qs'" using assms(3) by (cases qs) auto
  have "add_review acc (prId, snd q) = acc @ [(prId, [q])]"
    using assms(1,2) by (simp add: add_review_def qs reviews_ok_def update_new map_of_eq_None_iff [THEN iffD2])
  then show ?thesis using add_reviews_known [OF assms(1), of "[q]" qs'] assms(2) by (simp add: qs)
qed

lemma restore_reviews_json:
  assumes "okeys m" "\<forall>p\<in>set m. pr_id_pattern (fst p) \<and> snd p \<noteq> [] \<and> reviews_ok (snd p)"
  shows "restore_reviews (snapshot_reviews m) = m"
proof -
  let ?step = "\<lambda>m r. case restored_review r of None \<Rightarrow> m | Some pr \<Rightarrow> add_review m pr"
  have one: "foldl ?step acc (map (\<lambda>q. snapshot_review prId (snd q)) qs) = foldl add_review acc (map (\<lambda>q. (prId, snd q)) qs)"
    if "pr_id_pattern prId" "reviews_ok qs" for acc prId qs
    using that(2) by (induction qs arbitrary: acc) (simp_all add: restored_review_json [OF that(1)] reviews_ok_def okeys_def)
  have "foldl ?step acc (snapshot_reviews m) = acc @ m"
    if "okeys m" "\<forall>p\<in>set m. pr_id_pattern (fst p) \<and> snd p \<noteq> [] \<and> reviews_ok (snd p)"
      "\<forall>p\<in>set m. fst p \<notin> fst ` set acc" for acc
    using that
  proof (induction m arbitrary: acc)
    case (Cons p m)
    have "foldl ?step acc (map (\<lambda>q. snapshot_review (fst p) (snd q)) (snd p)) = acc @ [p]"
      using Cons.prems by (simp add: one add_reviews_new)
    moreover have "foldl ?step (acc @ [p]) (snapshot_reviews m) = (acc @ [p]) @ m"
      by (rule Cons.IH) (use Cons.prems in \<open>auto simp: okeys_def image_iff\<close>)
    ultimately show ?case by (simp add: snapshot_reviews_def)
  qed (simp add: snapshot_reviews_def)
  from this [of "[]"] show ?thesis using assms by (simp add: restore_reviews_def)
qed

text \<open>What is left of a room after a restart at the given time.\<close>

definition room_kept :: "relay_config \<Rightarrow> int \<Rightarrow> room_state \<Rightarrow> room_state \<Rightarrow> bool" where
  "room_kept cf nowSec rs rs' \<longleftrightarrow>
     rm_messages rs' = map stored (rm_messages rs) \<and>
     (\<forall>c. map_of (rm_acks rs') c = (if c = ''__proto__'' then None else map_of (rm_acks rs) c)) \<and>
     rm_sessions rs' = [] \<and> rm_presence rs' = filter (alive cf nowSec) (rm_presence rs) \<and>
     rm_reviews rs' = rm_reviews rs"

lemma snapshot_room_fields:
  "is_record (snapshot_room rs)"
  "arr_opt (jprop (snapshot_room rs) ''messages'') = Some (map envelope_json (rm_messages rs))"
  "obj_opt (jprop (snapshot_room rs) ''acks_by_consumer'') =
     Some (JObj (obj_of_map (\<lambda>ids. JArr (map JStr ids)) (rm_acks rs)))"
  "arr_opt (jprop (snapshot_room rs) ''presence'') =
     (if rm_presence rs = [] then None else Some (map (\<lambda>p. presence_json (snd p)) (rm_presence rs)))"
  "arr_opt (jprop (snapshot_room rs) ''reviews'') =
     (if snapshot_reviews (rm_reviews rs) = [] then None else Some (snapshot_reviews (rm_reviews rs)))"
  by (simp_all add: snapshot_room_def Let_def arr_opt_def obj_opt_def)

lemma restored_room_json:
  assumes "isValidRoomName room" "room_ok (cf_maxMessages cf) rs" "messages_ok rs"
  obtains rs' where "restored_room cf now room (snapshot_room rs) = Some rs'" "room_kept cf now rs rs'"
    "okeys (rm_acks rs')"
proof -
  have ok: "okeys (rm_acks rs)" and len: "length (rm_messages rs) \<le> cf_maxMessages cf"
    and pres: "presence_ok (rm_presence rs)"
    using assms(2) by (simp_all add: room_ok_def)
  let ?acks = "map_of_entries restored_acks (obj_of_map (\<lambda>ids. JArr (map JStr ids)) (rm_acks rs))"
  have acks: "map_of ?acks c = (if c = ''__proto__'' then None else map_of (rm_acks rs) c)" for c
  proof (cases "map_of (rm_acks rs) c")
    case (Some ids)
    then have "restored_acks c (JArr (map JStr ids)) = Some ids"
      using assms(2) by (intro restored_acks_json) (auto simp: room_ok_def dest!: map_of_SomeD)
    then show ?thesis using Some by (simp add: map_of_map_of_entries okeys_obj_of_map ok map_of_obj_of_map)
  qed (simp add: map_of_map_of_entries okeys_obj_of_map ok map_of_obj_of_map)
  have msgs: "List.map_filter (restored_message room) (map envelope_json (rm_messages rs)) = map stored (rm_messages rs)"
    using assms(3) by (intro map_filter_map_Some) (auto simp: messages_ok_def restored_message_json)
  have revs: "restore_reviews (snapshot_reviews (rm_reviews rs)) = rm_reviews rs"
    using assms(2) by (intro restore_reviews_json) (auto simp: room_ok_def)
  have no_revs: "snapshot_reviews (rm_reviews rs) = [] \<Longrightarrow> rm_reviews rs = []"
    using revs by (simp add: restore_reviews_def)
  have "restored_room cf now room (snapshot_room rs) = Some
      \<lparr>rm_messages = map stored (rm_messages rs), rm_acks = ?acks, rm_sessions = [],
       rm_presence = filter (alive cf now) (rm_presence rs), rm_reviews = rm_reviews rs\<rparr>"
    using assms(1) len revs
    by (simp add: restored_room_def snapshot_room_fields msgs last_n_id restore_presence_json [OF pres])
      (auto dest: no_revs)
  then show thesis
    by (rule that) (simp_all add: room_kept_def acks okeys_map_of_entries_any)
qed

lemma okeys_in_map: "okeys m \<Longrightarrow> p \<in> set m \<Longrightarrow> map_of m (fst p) = Some (snd p)"
  by (simp add: okeys_def map_of_is_SomeI)

lemma room_kept_ok:
  assumes "room_ok cap rs" "messages_ok rs" "room_kept cf now rs rs'" "okeys (rm_acks rs')"
  shows "room_ok cap rs'" "messages_ok rs'"
proof -
  have "p \<in> set (rm_acks rs)" if "p \<in> set (rm_acks rs')" for p
    using okeys_in_map [OF assms(4) that] assms(3) map_of_SomeD [of "rm_acks rs" "fst p" "snd p"]
    by (simp add: room_kept_def split: if_splits)
  then show "room_ok cap rs'"
    using assms(1,3,4) by (auto simp: room_ok_def room_kept_def presence_ok_def)
  show "messages_ok rs'"
    using assms(2,3) by (simp add: messages_ok_def room_kept_def ids_distinct_def comp_def)
qed

section \<open>What the exchange keeps\<close>

definition stored_exchange :: "exchange \<Rightarrow> exchange" where
  "stored_exchange ex =
     ex\<lparr>ex_records := map (\<lambda>r. r\<lparr>xr_envelope := stored (xr_envelope r)\<rparr>) (ex_records ex)\<rparr>"

lemma restored_record_json:
  "record_ok r \<Longrightarrow> restored_record cf (record_json r) = Some (r\<lparr>xr_envelope := stored (xr_envelope r)\<rparr>)"
  by (auto simp: restored_record_def record_json_def envelope_json_def obj_opt_def Let_def record_ok_def message_ok_def
      stored_def)

lemma foldl_max_le:
  fixes c :: "'a \<Rightarrow> int"
  shows "\<forall>x\<in>set xs. c x \<le> b \<Longrightarrow> a \<le> b \<Longrightarrow> foldl (\<lambda>m x. if c x > m then c x else m) a xs \<le> b"
  by (induction xs arbitrary: a) auto

lemma restore_exchange_json:
  assumes "exchange_ok (cf_maxRecords cf) ex" "jprop data ''cache_exchange'' = Some (exchange_json ex)"
  shows "restore_exchange cf rooms data = stored_exchange ex"
proof -
  let ?f = "\<lambda>r. r\<lparr>xr_envelope := stored (xr_envelope r)\<rparr>"
  have recs: "List.map_filter (restored_record cf) (map record_json (ex_records ex)) = map ?f (ex_records ex)"
    using assms(1) by (intro map_filter_map_Some) (auto simp: exchange_ok_def restored_record_json)
  have "ex_records (foldl (appendCacheExchangeRecord (cf_maxRecords cf)) no_exchange (map ?f (ex_records ex))) =
      map ?f (ex_records ex)"
    using assms(1) exchange_log.pushes_entries [of no_exchange "cf_maxRecords cf" "map ?f (ex_records ex)"]
    by (simp add: no_exchange_def exchange_ok_def last_n_id)
  moreover have "foldl (\<lambda>m r. if xr_cursor r > m then xr_cursor r else m) 0 (map ?f (ex_records ex)) \<le> ex_cursor ex"
    using assms(1) by (intro foldl_max_le) (auto simp: exchange_ok_def)
  ultimately show ?thesis
    using assms(1)
    by (simp add: restore_exchange_def assms(2) exchange_json_def obj_opt_def arr_opt_def recs stored_exchange_def
        exchange_ok_def)
qed

lemma stored_exchange_ok: "exchange_ok cap ex \<Longrightarrow> exchange_ok cap (stored_exchange ex)"
  by (simp add: exchange_ok_def stored_exchange_def comp_def record_ok_def)

lemma rerecord_ok:
  assumes "config_ok cf" "\<forall>p\<in>set rooms. messages_ok (snd p)"
  shows "exchange_ok (cf_maxRecords cf) (rerecord cf rooms)"
proof -
  have cf: "0 < cf_maxHops cf" "js_trim (cf_nodeId cf) = cf_nodeId cf" "cf_nodeId cf \<noteq> []"
    using assms(1) by (simp_all add: config_ok_def)
  have "exchange_ok (cf_maxRecords cf) (foldl (\<lambda>ex m. recordCacheExchange (cf_maxRecords cf) ex m (cf_nodeId cf) 0
      (cf_maxHops cf)) ex ms)" if "exchange_ok (cf_maxRecords cf) ex" "\<forall>e\<in>set ms. message_ok e" for ex ms
    using that cf by (induction ms arbitrary: ex) (simp_all add: recordCacheExchange_ok)
  from this [OF no_exchange_ok] show ?thesis using assms(2) by (auto simp: rerecord_def messages_ok_def)
qed

section \<open>What a relay keeps\<close>

lemma snapshot_fields:
  "is_record (snapshot st)"
  "jprop (snapshot st) ''rooms'' = Some (JObj (obj_of_map snapshot_room (rs_rooms st)))"
  "jprop (snapshot st) ''keys_by_sender'' = Some (keys_snapshot (id_keys (rs_identity st)))"
  "jprop (snapshot st) ''nonces_by_sender'' = Some (nonces_snapshot (id_nonces (rs_identity st)))"
  "jprop (snapshot st) ''cache_exchange'' =
     (if ex_records (rs_exchange st) \<noteq> [] \<or> ex_cursor (rs_exchange st) > 0
      then Some (exchange_json (rs_exchange st)) else None)"
  "jprop (snapshot st) ''issue_cursors'' =
     (if snapshotIssueCursors (rs_issueCursors st) = [] then None
      else Some (JObj (snapshotIssueCursors (rs_issueCursors st))))"
  "jprop (snapshot st) ''github_webhook'' =
     (if engine_deliveries (rs_engine st) = [] \<and> engine_entries (rs_engine st) = [] then None
      else Some (engine_snapshot (rs_engine st)))"
  by (simp_all add: snapshot_def Let_def)

lemma restored_identity:
  "rs_identity (restore cf now st0 (snapshot st)) = restoreIdentity cf now (identitySnapshot (rs_identity st))"
  by (simp add: restore_def snapshot_fields Let_def restoreIdentity_def identitySnapshot_def restore_keys_def
      restore_nonces_def)

lemma restored_engine:
  "rs_engine (restore cf now st0 (snapshot st)) = engine_restore relay_engine_options now (engine_snapshot (rs_engine st))"
  by (auto simp: restore_def snapshot_fields Let_def obj_opt_def engine_snapshot_def engine_restore_def no_engine_def
      map_of_entries_def)

lemma restored_rooms:
  fixes now st0
  assumes "state_ok cf st"
  defines "rooms' \<equiv> rs_rooms (restore cf now st0 (snapshot st))"
  shows "case map_of (rs_rooms st) room of
      None \<Rightarrow> map_of rooms' room = None
    | Some rs \<Rightarrow> (\<exists>rs'. map_of rooms' room = Some rs' \<and> room_kept cf now rs rs' \<and> okeys (rm_acks rs'))"
proof -
  have ok: "okeys (rs_rooms st)" using assms(1) by (simp add: state_ok_def)
  have r: "rooms' = map_of_entries (restored_room cf now) (obj_of_map snapshot_room (rs_rooms st))"
    unfolding rooms'_def by (simp add: restore_def snapshot_fields Let_def obj_opt_def)
  show ?thesis
  proof (cases "map_of (rs_rooms st) room")
    case (Some rs)
    then have *: "isValidRoomName room" "room_ok (cf_maxMessages cf) rs" "messages_ok rs"
      using assms(1) map_of_SomeD [OF Some] by (auto simp: state_ok_def)
    have "room \<noteq> ''__proto__''"
      using *(1) by (auto simp: isValidRoomName_def name_pattern_def is_alnum_def is_digit_def is_lower_def is_upper_def)
    moreover obtain rs' where "restored_room cf now room (snapshot_room rs) = Some rs'" "room_kept cf now rs rs'"
      "okeys (rm_acks rs')" by (rule restored_room_json [OF *])
    ultimately show ?thesis
      using Some by (simp add: r map_of_map_of_entries okeys_obj_of_map ok map_of_obj_of_map)
  qed (simp add: r map_of_map_of_entries okeys_obj_of_map ok map_of_obj_of_map)
qed

lemma restored_rooms_ok:
  assumes "state_ok cf st" "p \<in> set (rs_rooms (restore cf now st0 (snapshot st)))"
  shows "isValidRoomName (fst p) \<and> room_ok (cf_maxMessages cf) (snd p) \<and> messages_ok (snd p)"
proof -
  let ?rooms = "rs_rooms (restore cf now st0 (snapshot st))"
  have "okeys ?rooms" by (simp add: restore_def Let_def okeys_map_of_entries_any split: option.split)
  then have p: "map_of ?rooms (fst p) = Some (snd p)" using assms(2) by (rule okeys_in_map)
  then obtain rs where rs: "map_of (rs_rooms st) (fst p) = Some rs" "room_kept cf now rs (snd p)" "okeys (rm_acks (snd p))"
    using restored_rooms [OF assms(1), where room = "fst p" and now = now and ?st0.0 = st0] by (auto split: option.splits)
  then have "isValidRoomName (fst p)" "room_ok (cf_maxMessages cf) rs" "messages_ok rs"
    using assms(1) map_of_SomeD [OF rs(1)] by (auto simp: state_ok_def)
  then show ?thesis using room_kept_ok [OF _ _ rs(2,3)] by blast
qed

lemma restored_exchange:
  assumes "state_ok cf st" "ex_records (rs_exchange st) \<noteq> [] \<or> ex_cursor (rs_exchange st) > 0"
  shows "rs_exchange (restore cf now st0 (snapshot st)) = stored_exchange (rs_exchange st)"
  using assms restore_exchange_json [OF state_ok_parts(2) [OF assms(1)], of "snapshot st"]
  by (simp add: restore_def snapshot_fields Let_def)

lemma restore_state_ok:
  assumes "config_ok cf" "state_ok cf st" "state_ok cf st0"
  shows "state_ok cf (restore cf now st0 (snapshot st))"
proof -
  let ?st = "restore cf now st0 (snapshot st)"
  have "exchange_ok (cf_maxRecords cf) (rs_exchange ?st)"
  proof (cases "ex_records (rs_exchange st) \<noteq> [] \<or> ex_cursor (rs_exchange st) > 0")
    case True
    then show ?thesis
      using restored_exchange [OF assms(2)] stored_exchange_ok state_ok_parts(2) [OF assms(2)] by metis
  next
    case False
    then have "rs_exchange ?st = rerecord cf (rs_rooms ?st)"
      by (simp add: restore_def snapshot_fields Let_def restore_exchange_def obj_opt_def)
    then show ?thesis using rerecord_ok [OF assms(1)] restored_rooms_ok [OF assms(2)] by metis
  qed
  moreover have "identity_ok (rs_identity ?st)"
    unfolding restored_identity by (rule restoreIdentity_ok)
  moreover have "engine_ok relay_engine_options (rs_engine ?st)"
    unfolding restored_engine by (rule engine_restore_ok) (rule state_ok_parts(3) [OF assms(2)])
  moreover have "okeys (rs_rooms ?st)" "rs_senderRates ?st = rs_senderRates st0" "rs_ipRates ?st = rs_ipRates st0"
      "rs_roomRates ?st = rs_roomRates st0"
    by (simp_all add: restore_def Let_def okeys_map_of_entries_any split: option.split)
  ultimately show ?thesis
    using restored_rooms_ok [OF assms(2)] assms(3) by (simp add: state_ok_def)
qed

text \<open>What survives a restart, component by component.\<close>

definition relay_kept :: "relay_config \<Rightarrow> int \<Rightarrow> relay_state \<Rightarrow> relay_state \<Rightarrow> bool" where
  "relay_kept cf nowSec st st' \<longleftrightarrow>
     (\<forall>room. case map_of (rs_rooms st) room of
        None \<Rightarrow> map_of (rs_rooms st') room = None
      | Some rs \<Rightarrow> (\<exists>rs'. map_of (rs_rooms st') room = Some rs' \<and> room_kept cf nowSec rs rs')) \<and>
     (\<forall>s. map_of (id_keys (rs_identity st')) s =
        (if s = ''__proto__'' then None else map_of (id_keys (rs_identity st)) s)) \<and>
     (\<forall>s n. map_of (sender_nonces (rs_identity st') s) n =
        (if s = ''__proto__'' then None else live_nonces cf nowSec (sender_nonces (rs_identity st) s) n)) \<and>
     en_dlqOrder (rs_engine st') = en_dlqOrder (rs_engine st) \<and>
     map_of (en_dlq (rs_engine st')) = map_of (en_dlq (rs_engine st)) \<and>
     (\<forall>d. map_of (en_deliveryIds (rs_engine st')) d =
        (if d = ''__proto__'' then None else map_of (en_deliveryIds (rs_engine st)) d)) \<and>
     (ex_records (rs_exchange st) \<noteq> [] \<or> ex_cursor (rs_exchange st) > 0 \<longrightarrow>
        rs_exchange st' = stored_exchange (rs_exchange st))"


definition demo_state :: relay_state where
  "demo_state = fst (publish_and_record demo_config (demo_env 100 JNull) (initial_state 0) ''main'' ''alice'' ''notify'' ''m1'' []
     (JNum PosInf) (cf_nodeId demo_config) 0 3)"

lemma demo_state_ok: "state_ok demo_config demo_state"
  unfolding demo_state_def
  by (rule publish_and_record_ok [OF initial_state_ok])
    (use demo_config_ok default_room_valid in \<open>auto simp: config_ok_def DEFAULT_ROOM_def\<close>)


end
