(* ===== verification/Relay_Service.thy ===== *)
theory Relay_Service
  imports Relay_Snapshot Relay_Exchange Relay_Webhook Relay_Rooms
begin

text \<open>
  The whole relay: \<open>fetch\<close> of \<open>src/memory_handler.ts\<close> with its reaping, its authorisation gate and
  its routing, the web-socket listeners, the reaping timer and the restart, as a machine over
  events. A request is one event here: its handler runs without another request in between
  (\<open>Interleave\<close> takes the signature check apart at its awaits).
\<close>

section \<open>Routing\<close>

text \<open>The key endpoints work on the identity alone.\<close>

definition on_identity :: "relay_state \<Rightarrow> identity \<times> response \<Rightarrow> handled" where
  "on_identity st res = (st\<lparr>rs_identity := fst res\<rparr>, [], snd res)"

definition authorized :: "relay_config \<Rightarrow> request \<Rightarrow> bool" where
  "authorized cf r \<longleftrightarrow>
     \<not> (cf_authToken cf \<noteq> [] \<and> shouldRequireAuth (req_path r)) \<or>
     (let presented = extractPresentedToken r in presented \<noteq> [] \<and> timingSafeEqual presented (cf_authToken cf))"

definition route :: "relay_config \<Rightarrow> cache_adapter \<Rightarrow> relay_env \<Rightarrow> relay_state \<Rightarrow> request \<Rightarrow> handled" where
  "route cf ad env st r =
     (let pathname = req_path r
      in if pathname = ''/health'' then answer st healthResponse
         else if pathname = ''/'' then answer st (text_response ''bit-relay'' 200)
         else if \<not> authorized cf r then answer st unauthorizedResponse
         else if pathname = ''/api/v1/key/info'' then answer st (handleKeyInfo (rs_identity st) r)
         else if pathname = ''/api/v1/key/rotate'' then on_identity st (handleKeyRotate cf env (rs_identity st) r)
         else if pathname = ''/api/v1/key/verify-github'' then on_identity st (handleKeyVerifyGitHub env (rs_identity st) r)
         else if pathname = ''/api/v1/github/webhook'' then handleGitHubWebhook cf env st r
         else if pathname = ''/api/v1/github/webhook/dlq'' then answer st (handleGitHubWebhookDlqList st r)
         else if pathname = ''/api/v1/github/webhook/dlq/retry'' then handleGitHubWebhookDlqRetry cf env st r
         else if pathname = ''/api/v1/trigger/callback'' then handleTriggerCallback cf env st r
         else if pathname = ''/api/v1/trigger/results'' then handleTriggerResults cf st r
         else if pathname = ''/api/v1/cache/exchange/discovery'' then answer st (handleCacheExchangeDiscovery cf r)
         else if pathname = ''/api/v1/cache/exchange/pull'' then answer st (handleCacheExchangePull cf st r)
         else if pathname = ''/api/v1/cache/exchange/push'' then handleCacheExchangePush cf env st r
         else if pathname = ''/api/v1/cache/issues/pull'' then handleCacheIssuePull cf ad st r
         else if pathname = ''/api/v1/cache/issues/sync'' then handleCacheIssueSync cf ad st r
         else if pathname = ''/ws'' then handleWs cf env st r
         else if pathname = ''/api/v1/publish'' then handlePublish cf env st r
         else if pathname = ''/api/v1/poll'' then handlePoll cf st r
         else if pathname = ''/api/v1/inbox/pending'' then handleInboxPending cf st r
         else if pathname = ''/api/v1/inbox/ack'' then handleInboxAck cf env st r
         else if pathname = ''/api/v1/presence/heartbeat'' then handlePresenceHeartbeat cf env st r
         else if pathname = ''/api/v1/presence'' then handlePresence cf env st r
         else if pathname = ''/api/v1/review'' then handleReview cf env st r
         else answer st notFoundResponse)"

text \<open>Idle sockets are reaped on the way in, once per ping interval.\<close>

definition reap_if_due :: "relay_config \<Rightarrow> relay_env \<Rightarrow> relay_state \<Rightarrow> relay_state \<times> effect list" where
  "reap_if_due cf env st =
     (if arrival_ms env - rs_lastReapAt st \<ge> cf_wsPingMs cf then reapDeadConnections cf env st else (st, []))"

definition fetch :: "relay_config \<Rightarrow> cache_adapter \<Rightarrow> relay_env \<Rightarrow> relay_state \<Rightarrow> request \<Rightarrow> handled" where
  "fetch cf ad env st r =
     (let reaped = reap_if_due cf env st; h = route cf ad env (fst reaped) r
      in (fst h, snd reaped @ fst (snd h), snd (snd h)))"

section \<open>Events\<close>

text \<open>A listener whose room has been replaced by a restore has no session left to touch.\<close>

definition on_room :: "relay_state \<Rightarrow> string \<Rightarrow> (room_state \<Rightarrow> room_state) \<Rightarrow> relay_state" where
  "on_room st room f = (case map_of (rs_rooms st) room of None \<Rightarrow> st | Some rs \<Rightarrow> set_room st room (f rs))"

datatype relay_event =
    Request relay_env request
  | SocketData relay_env string nat string
  | SocketGone string nat
  | ReapTimer relay_env
  | Restart relay_env

definition relay_step :: "relay_config \<Rightarrow> cache_adapter \<Rightarrow> relay_state \<Rightarrow> relay_event \<Rightarrow> relay_state" where
  "relay_step cf ad st e =
     (case e of
        Request env r \<Rightarrow> fst (fetch cf ad env st r)
      | SocketData env room socket data \<Rightarrow> on_room st room (\<lambda>rs. fst (socketMessage env rs socket data))
      | SocketGone room socket \<Rightarrow> on_room st room (\<lambda>rs. socketClosed rs socket)
      | ReapTimer env \<Rightarrow> fst (reapDeadConnections cf env st)
      | Restart env \<Rightarrow> restore cf (nowEpochSec (arrival_ms env)) (initial_state (arrival_ms env)) (snapshot st))"

definition event_ok :: "relay_event \<Rightarrow> bool" where
  "event_ok e = (case e of Request env r \<Rightarrow> env_ok env | _ \<Rightarrow> True)"

section \<open>The invariant\<close>

lemma on_identity_ok: "state_ok cf st \<Longrightarrow> identity_ok (fst res) \<Longrightarrow> state_ok cf (fst (on_identity st res))"
  by (simp add: on_identity_def state_ok_identity)

lemma route_ok:
  assumes "config_ok cf" "env_ok env" "state_ok cf st"
  shows "state_ok cf (fst (route cf ad env st r))"
proof -
  have "identity_ok (rs_identity st)" using assms(3) by (rule state_ok_parts)
  then show ?thesis
    using assms unfolding route_def Let_def
    by (auto simp: on_identity_ok handleKeyRotate_ok handleKeyVerifyGitHub_ok handleGitHubWebhook_ok
        handleGitHubWebhookDlqRetry_ok handleTrigger_ok handleCacheExchangePush_ok handleCacheIssue_ok handleWs_ok
        handlePublish_ok handleInbox_ok handlePresence_ok handleReview_ok)
qed

lemma reap_if_due_ok: "state_ok cf st \<Longrightarrow> state_ok cf (fst (reap_if_due cf env st))"
  by (simp add: reap_if_due_def reapDeadConnections_ok)

lemma fetch_ok:
  assumes "config_ok cf" "env_ok env" "state_ok cf st"
  shows "state_ok cf (fst (fetch cf ad env st r))"
  using route_ok [OF assms(1,2) reap_if_due_ok [OF assms(3)]] by (simp add: fetch_def Let_def)

lemma on_room_ok:
  assumes "state_ok cf st" "\<And>rs. room_ok (cf_maxMessages cf) rs \<Longrightarrow> room_ok (cf_maxMessages cf) (f rs)"
    and "\<And>rs. rm_messages (f rs) = rm_messages rs"
  shows "state_ok cf (on_room st room f)"
proof (cases "map_of (rs_rooms st) room")
  case (Some rs)
  then have "isValidRoomName room" "room_ok (cf_maxMessages cf) rs" "messages_ok rs"
    using assms(1) map_of_SomeD [OF Some] by (auto simp: state_ok_def)
  then show ?thesis
    using assms by (simp add: on_room_def Some set_room_ok messages_ok_same [OF assms(3)])
qed (simp add: on_room_def assms(1))

lemma socket_listeners_messages [simp]:
  "rm_messages (fst (socketMessage env rs s d)) = rm_messages rs" "rm_messages (socketClosed rs s) = rm_messages rs"
  by (simp_all add: socketMessage_def socketClosed_def)

lemma relay_step_ok:
  "config_ok cf \<Longrightarrow> state_ok cf st \<Longrightarrow> event_ok e \<Longrightarrow> state_ok cf (relay_step cf ad st e)"
  by (cases e) (auto simp: relay_step_def event_ok_def fetch_ok reapDeadConnections_ok restore_state_ok initial_state_ok
      intro!: on_room_ok socket_listeners_ok)

interpretation relay: machine "relay_step cf ad" "\<lambda>st. config_ok cf \<and> state_ok cf st" event_ok for cf ad
  by unfold_locales (simp add: relay_step_ok)

text \<open>
  Claim C4. A relay stays in good order under every sequence of requests, socket events, reaping
  and restarts: no room exceeds its cap or holds two messages with one id, every message has a
  valid topic and room, the exchange log is bounded with increasing cursors and only records that
  may still travel, the delivery engine's queue and index agree, and the identity tables are sound.
\<close>

theorem relay_stays_in_order:
  assumes "config_ok cf" "\<forall>e\<in>set es. event_ok e"
  shows "state_ok cf (foldl (relay_step cf ad) (initial_state t) es)"
  using relay.run_inv [of cf "initial_state t" es ad] assms initial_state_ok by blast

definition demo_events :: "relay_event list" where
  "demo_events =
     [Request (demo_env 1000 (JStr ''hi'')) (demo_request ''POST'' ''/api/v1/publish''
        [(''sender'', ''alice''), (''room'', ''main''), (''id'', ''m1'')] (signed_headers ''1'' ''n1'')),
      SocketGone ''main'' 3, ReapTimer (demo_env 2000 JNull), Restart (demo_env 3000 JNull)]"

theorem relay_stays_in_order_witness:
  "state_ok demo_config (foldl (relay_step demo_config no_store_adapter) (initial_state 0) demo_events)"
  by (rule relay_stays_in_order [OF demo_config_ok])
    (simp add: demo_events_def event_ok_def env_ok_def demo_env_def js_trim_def is_space_def)

section \<open>The gates\<close>

lemma reap_tokens: "route cf ad env st r = answer st err \<Longrightarrow> fst (reap_if_due cf env st0) = st \<Longrightarrow>
   fetch cf ad env st0 r = (st, snd (reap_if_due cf env st0), err)"
  by (simp add: fetch_def Let_def answer_def)

text \<open>
  Claim C12. With an access token configured, a request to the API or the web socket that does not
  present exactly that token is answered 401 and changes nothing: the state and the messages sent
  are those of the reaping every request triggers. Only the webhook endpoint, which carries its
  own signature, is exempt.
\<close>

theorem unauthorized_request_changes_nothing:
  assumes "cf_authToken cf \<noteq> []" "req_path r = ''/ws'' \<or> prefix ''/api/v1/'' (req_path r)"
    and "req_path r \<noteq> ''/api/v1/github/webhook''" "extractPresentedToken r \<noteq> cf_authToken cf"
  shows "fetch cf ad env st r =
    (fst (reap_if_due cf env st), snd (reap_if_due cf env st), unauthorizedResponse)"
proof -
  have "req_path r \<noteq> ''/health''" "req_path r \<noteq> ''/''" using assms(2) by auto
  moreover have "\<not> authorized cf r"
    using assms by (auto simp: authorized_def shouldRequireAuth_def timingSafeEqual_iff Let_def)
  ultimately show ?thesis by (intro reap_tokens) (simp_all add: route_def Let_def)
qed

definition token_config :: relay_config where
  "token_config = demo_config\<lparr>cf_authToken := ''secret'', cf_roomTokens := [(''main'', ''room-secret'')],
     cf_webhookSecret := ''hook''\<rparr>"

theorem unauthorized_request_changes_nothing_witness:
  "snd (snd (fetch token_config no_store_adapter (demo_env 5 JNull) (initial_state 0)
     (demo_request ''GET'' ''/api/v1/poll'' [] [(''authorization'', ''Bearer secreT'')]))) = unauthorizedResponse"
proof -
  have "extractPresentedToken (demo_request ''GET'' ''/api/v1/poll'' [] [(''authorization'', ''Bearer secreT'')]) \<noteq> ''secret''"
    by code_simp
  then show ?thesis
    using unauthorized_request_changes_nothing [of token_config
        "demo_request ''GET'' ''/api/v1/poll'' [] [(''authorization'', ''Bearer secreT'')]"]
    by (simp add: token_config_def demo_request_def)
qed

definition room_paths :: "string list" where
  "room_paths = [''/api/v1/publish'', ''/api/v1/poll'', ''/api/v1/inbox/pending'', ''/api/v1/inbox/ack'',
     ''/api/v1/presence/heartbeat'', ''/api/v1/presence'', ''/api/v1/review'', ''/api/v1/trigger/results'']"

lemma with_room_refused:
  "checkRoomToken cf r (normalizeRoom (query_get r ''room'')) = Some err \<Longrightarrow>
   with_room cf st r k = answer st invalidRoomResponse \<or> with_room cf st r k = answer st err"
  by (simp add: with_room_def Let_def guarded_def)

lemma room_handlers_refuse:
  assumes "checkRoomToken cf r (normalizeRoom (query_get r ''room'')) = Some (toErrorResponse ''forbidden'' 403)"
    and "req_path r \<in> set room_paths"
  obtains err where "route cf ad env st r = answer st err" "resp_status err \<in> {400, 401, 403, 405}"
proof -
  note refused = with_room_refused [OF assms(1)]
  have status: "resp_status invalidRoomResponse = 400" "resp_status methodNotAllowedResponse = 405"
    "resp_status unauthorizedResponse = 401" "resp_status (toErrorResponse m s) = s" for m s
    by (simp_all add: invalidRoomResponse_def methodNotAllowedResponse_def unauthorizedResponse_def toErrorResponse_def
        response_json_def)
  let ?no = "\<lambda>h. \<exists>err. h = answer st err \<and> resp_status err \<in> {400, 401, 403, 405}"
  have room: "?no (with_room cf st r k)" for k
    using refused [of st k] status by auto
  have "?no (handlePublish cf env st r)"
    using assms(1) by (auto simp: handlePublish_def publish_admit_def Let_def status)
  moreover have m: "?no (answer st methodNotAllowedResponse)" using status by auto
  have guard: "?no (if c then answer st methodNotAllowedResponse else with_room cf st r k)" for c k
    using m room [of k] by (cases c) simp_all
  have "?no (handlePoll cf st r)" "?no (handleInboxPending cf st r)" "?no (handleInboxAck cf env st r)"
    "?no (handlePresenceHeartbeat cf env st r)" "?no (handleTriggerResults cf st r)"
    unfolding handlePoll_def handleInboxPending_def handleInboxAck_def handlePresenceHeartbeat_def handleTriggerResults_def
    by (rule guard)+
  moreover have "?no (handlePresence cf env st r)" "?no (handleReview cf env st r)"
    unfolding handlePresence_def handleReview_def by (rule room)+
  moreover have "?no (answer st unauthorizedResponse)" using status by auto
  moreover have "route cf ad env st r \<in> {answer st unauthorizedResponse, handlePublish cf env st r, handlePoll cf st r,
      handleInboxPending cf st r, handleInboxAck cf env st r, handlePresenceHeartbeat cf env st r,
      handlePresence cf env st r, handleReview cf env st r, handleTriggerResults cf st r}"
    using assms(2) unfolding room_paths_def list.set by (elim insertE emptyE) (simp_all add: route_def Let_def)
  ultimately have "?no (route cf ad env st r)" by (elim insertE emptyE) (simp_all only:)
  then show thesis using that by blast
qed

text \<open>
  Claim C13. A room with a token is closed to requests that do not present exactly it: publishing,
  polling, the inbox, presence, reviews and CI results are refused with an error status, and no
  room, rate counter or identity changes beyond the reaping every request triggers.
\<close>

theorem room_token_closes_room:
  assumes "map_of (cf_roomTokens cf) (normalizeRoom (query_get r ''room'')) = Some tok" "tok \<noteq> []"
    and "readRoomToken r \<noteq> tok" "req_path r \<in> set room_paths"
  shows "fst (fetch cf ad env st r) = fst (reap_if_due cf env st) \<and>
    fst (snd (fetch cf ad env st r)) = snd (reap_if_due cf env st) \<and>
    resp_status (snd (snd (fetch cf ad env st r))) \<in> {400, 401, 403, 405}"
proof -
  have "checkRoomToken cf r (normalizeRoom (query_get r ''room'')) = Some (toErrorResponse ''forbidden'' 403)"
    using assms(1-3) by (simp add: checkRoomToken_def Let_def timingSafeEqual_iff)
  from this assms(4) obtain err where err: "route cf ad env (fst (reap_if_due cf env st)) r = answer (fst (reap_if_due cf env st)) err"
    "resp_status err \<in> {400, 401, 403, 405}" by (rule room_handlers_refuse)
  from reap_tokens [OF err(1) refl] err(2) show ?thesis by simp
qed

theorem room_token_closes_room_witness:
  "resp_status (snd (snd (fetch token_config no_store_adapter (demo_env 5 JNull) (initial_state 0)
     (demo_request ''GET'' ''/api/v1/poll'' [(''room'', ''main'')] [(''authorization'', ''Bearer secret'')])))) \<in> {400, 401, 403, 405}"
proof -
  let ?r = "demo_request ''GET'' ''/api/v1/poll'' [(''room'', ''main'')] [(''authorization'', ''Bearer secret'')]"
  have "normalizeRoom (query_get ?r ''room'') = ''main''" "readRoomToken ?r \<noteq> ''room-secret''" by code_simp+
  then show ?thesis
    using room_token_closes_room [of token_config ?r "''room-secret''"]
    by (simp add: token_config_def demo_request_def room_paths_def)
qed

text \<open>
  Claim C14. A webhook that is not signed with the shared secret changes nothing: whatever its
  headers and body, the state is left as the reaping leaves it and the answer is an error.
\<close>

theorem forged_webhook_changes_nothing:
  assumes "req_path r = ''/api/v1/github/webhook''"
    and "parseGitHubSignatureHeader (or_empty (header_get r ''x-hub-signature-256'')) \<noteq>
      Some (hmacSha256Hex env (cf_webhookSecret cf) (req_text r))"
  shows "fst (fetch cf ad env st r) = fst (reap_if_due cf env st) \<and>
    resp_status (snd (snd (fetch cf ad env st r))) \<in> {400, 401, 405, 503}"
proof -
  let ?st = "fst (reap_if_due cf env st)"
  have "authorized cf r" using assms(1) by (simp add: authorized_def shouldRequireAuth_def)
  then have "route cf ad env ?st r = handleGitHubWebhook cf env ?st r"
    using assms(1) by (simp add: route_def)
  moreover have "\<exists>err. handleGitHubWebhook cf env ?st r = answer ?st err \<and> resp_status err \<in> {400, 401, 405, 503}"
    using assms(2) by (auto simp: handleGitHubWebhook_def Let_def timingSafeEqual_iff methodNotAllowedResponse_def
        toErrorResponse_def response_json_def split: option.split)
  ultimately obtain err where "route cf ad env ?st r = answer ?st err" "resp_status err \<in> {400, 401, 405, 503}"
    by auto
  from reap_tokens [OF this(1) refl] this(2) show ?thesis by simp
qed

theorem forged_webhook_changes_nothing_witness:
  "fst (fetch token_config no_store_adapter (demo_env 5 JNull) (initial_state 0)
     (demo_request ''POST'' ''/api/v1/github/webhook'' [] [(''x-github-delivery'', ''d1'')])) = initial_state 0"
proof -
  let ?r = "demo_request ''POST'' ''/api/v1/github/webhook'' [] [(''x-github-delivery'', ''d1'')]"
  have "parseGitHubSignatureHeader (or_empty (header_get ?r ''x-hub-signature-256'')) = None" by code_simp
  then show ?thesis
    using forged_webhook_changes_nothing [of ?r "demo_env 5 JNull" token_config no_store_adapter "initial_state 0"]
    by (simp add: demo_request_def reap_if_due_def initial_state_def token_config_def demo_config_def demo_env_def)
qed

end
