(* ===== verification/Relay_Facts.thy ===== *)
theory Relay_Facts
  imports Relay_Service
begin

text \<open>
  What the endpoints promise together: a committed message reaches everyone, a publish needs a
  valid signature, a push accounts for every entry, a review counts every sender once.
\<close>

section \<open>Publishing\<close>

lemma room_of_set_room [simp]: "room_of (set_room st room r) room = r"
  by (simp add: room_of_def set_room_def getOrCreateRoomState_def)

lemma room_of_exchange [simp]: "room_of (st\<lparr>rs_exchange := ex\<rparr>) room = room_of st room"
  by (simp add: room_of_def)

lemma broadcast_sends:
  "map_of (rm_sessions rs) s \<noteq> None \<Longrightarrow> ws_open env s \<Longrightarrow> ws_send_ok env s \<Longrightarrow> WsSend s m \<in> set (snd (broadcast env rs m))"
proof -
  assume "map_of (rm_sessions rs) s \<noteq> None" and ok: "ws_open env s" "ws_send_ok env s"
  then obtain t where "(s, t) \<in> set (rm_sessions rs)" by (auto dest: map_of_SomeD)
  then show ?thesis using ok by (force simp: broadcast_def)
qed

text \<open>
  Claim C9. A committed message reaches everyone at once: it is the newest message of its room, it
  is sent to every open socket of the room that takes it, it is the newest record of the exchange
  with the next cursor and the given origin and hops, and it is handed to the cache.
\<close>

theorem committed_message_reaches_everyone:
  assumes "config_ok cf"
    and "publish_and_record cf env st room sender topic eid sig payload origin hop mx = (st', effects, result)"
    and "pub_committed result = Some (e, c)"
  shows "last (rm_messages (room_of st' room)) = e \<and> env_id e = eid \<and> env_sender e = sender \<and> env_payload e = payload \<and>
    (\<forall>s. map_of (rm_sessions (room_of st room)) s \<noteq> None \<longrightarrow> ws_open env s \<longrightarrow> ws_send_ok env s \<longrightarrow>
       WsSend s (JObj [(''type'', JStr topic), (''room'', JStr room), (''cursor'', jint c),
         (''envelope'', sanitizeEnvelope e)]) \<in> set effects) \<and>
    Persist e c \<in> set effects \<and>
    last (ex_records (rs_exchange st')) =
      \<lparr>xr_cursor = ex_cursor (rs_exchange st) + 1, xr_envelope = e, xr_origin = origin, xr_hopCount = hop, xr_maxHops = mx\<rparr>"
proof -
  let ?rs = "room_of st room"
  let ?pub = "publishIntoRoom ?rs room sender topic eid sig payload (cf_maxMessages cf)"
  have res: "result = snd ?pub"
    using assms(2) by (auto simp: publish_and_record_def Let_def split: option.splits)
  then have new: "isValidTopic topic" "eid \<notin> env_id ` set (rm_messages ?rs)" and e: "e = made_envelope room sender topic eid sig payload"
    using assms(3) by (auto simp: publishIntoRoom_committed split: if_splits)
  have caps: "0 < cf_maxMessages cf" "0 < cf_maxRecords cf" using assms(1) by (simp_all add: config_ok_def)
  have rs: "fst ?pub = append_message (cf_maxMessages cf) ?rs e"
    using new by (simp add: publishIntoRoom_new e)
  have st': "st' = set_room st room (fst (broadcastPublish env (fst ?pub) room e c))
      \<lparr>rs_exchange := recordCacheExchange (cf_maxRecords cf) (rs_exchange st) e origin hop mx\<rparr>"
    and effs: "effects = snd (broadcastPublish env (fst ?pub) room e c) @ [Persist e c]"
    using assms(2,3) unfolding res by (auto simp: publish_and_record_def Let_def)
  have sess: "rm_sessions (fst ?pub) = rm_sessions ?rs" by (simp add: rs)
  have topic: "env_topic e = topic" by (simp add: e made_envelope_def)
  have "last (rm_messages (fst ?pub)) = e"
    unfolding rs using room_log.push_newest [OF caps(1)] by blast
  moreover have "last (ex_records (rs_exchange st')) =
      \<lparr>xr_cursor = ex_cursor (rs_exchange st) + 1, xr_envelope = e, xr_origin = origin, xr_hopCount = hop, xr_maxHops = mx\<rparr>"
    using exchange_log.push_newest [OF caps(2)] by (simp add: st' recordCacheExchange_def Let_def)
  moreover have "env_id e = eid \<and> env_sender e = sender \<and> env_payload e = payload" by (simp add: e made_envelope_def)
  ultimately show ?thesis
    by (auto simp: st' effs broadcastPublish_def topic sess intro!: broadcast_sends)
qed

theorem committed_message_reaches_everyone_witness:
  "last (rm_messages (room_of (fst (publish_and_record demo_config (demo_env 5 JNull) (initial_state 0) ''main'' ''alice''
     ''notify'' ''m1'' [] (JStr ''hi'') ''relay-0000'' 0 3)) ''main'')) = made_envelope ''main'' ''alice'' ''notify'' ''m1'' [] (JStr ''hi'')"
proof -
  let ?res = "publish_and_record demo_config (demo_env 5 JNull) (initial_state 0) ''main'' ''alice''
     ''notify'' ''m1'' [] (JStr ''hi'') ''relay-0000'' 0 3"
  have "pub_committed (snd (snd ?res)) = Some (made_envelope ''main'' ''alice'' ''notify'' ''m1'' [] (JStr ''hi''), 1)"
    by (simp add: publish_and_record_def Let_def publishIntoRoom_committed isValidTopic_def is_lower_def is_topic_char_def
        list_all_iff room_of_def initial_state_def getOrCreateRoomState_def createRoomState_def demo_config_def
        split: option.split)
  then show ?thesis
    using committed_message_reaches_everyone [OF demo_config_ok, of "demo_env 5 JNull" "initial_state 0" "''main''" "''alice''"
        "''notify''" "''m1''" "[]" "JStr ''hi''" "''relay-0000''" 0 3 "fst ?res" "fst (snd ?res)" "snd (snd ?res)"]
    by simp
qed

lemma publish_rates_rooms [simp]: "rs_rooms (fst (publish_rates cf env st r sender room)) = rs_rooms st"
  by (simp add: publish_rates_def Let_def)

lemma publish_admit_state [simp]:
  "rs_rooms (fst (publish_admit cf env st r)) = rs_rooms st" "rs_identity (fst (publish_admit cf env st r)) = rs_identity st"
  by (simp_all add: publish_admit_def Let_def split: option.split)

text \<open>
  Where signatures are required, a publish request changes a room only if it carries a
  key, a nonce and a signature that verifies over its sender, room, id, topic and payload, within
  the allowed clock skew, with a nonce the sender has not used and the key registered for the sender.
\<close>

theorem publish_needs_signature:
  assumes "cf_requireSignatures cf" "rs_rooms (fst (handlePublish cf env st r)) \<noteq> rs_rooms st"
  shows "\<exists>auth pa payload. parsePublishAuthHeaders r = Inr (Some auth) \<and>
    snd (publish_admit cf env st r) = Inr pa \<and> publish_body cf env r = Inr payload \<and>
    signature_verified env auth (publish_message env auth (pa_sender pa) (pa_room pa) (pa_id pa) (pa_topic pa) payload) \<and>
    \<bar>nowEpochSec (body_ms env) - auth_timestampSec auth\<bar> \<le> cf_maxClockSkewSec cf \<and>
    map_of (pruned_nonces cf (sender_nonces (rs_identity st) (pa_sender pa)) (nowEpochSec (body_ms env))) (auth_nonce auth) = None \<and>
    (\<forall>k. map_of (id_keys (rs_identity st)) (pa_sender pa) = Some k \<longrightarrow> kr_publicKey k = auth_publicKey auth \<and> kr_status k = KeyActive)"
proof -
  obtain pa where pa: "snd (publish_admit cf env st r) = Inr pa"
    using assms(2) by (cases "snd (publish_admit cf env st r)") (auto simp: handlePublish_def answer_def)
  obtain payload where payload: "publish_body cf env r = Inr payload"
    using assms(2) pa by (cases "publish_body cf env r") (auto simp: handlePublish_def answer_def)
  let ?ver = "handleSignatureVerification cf env (rs_identity st) r (pa_sender pa) (pa_room pa) (pa_id pa) (pa_topic pa) payload"
  let ?now = "nowEpochSec (body_ms env)"
  obtain sg where "snd ?ver = Inr sg"
    using assms(2) pa payload by (cases "snd ?ver") (auto simp: handlePublish_def Let_def answer_def)
  moreover have "snd ?ver \<noteq> Inr None"
    using assms(1) by (auto simp: handleSignatureVerification_def signature_precheck_def Let_def split: sum.splits option.splits if_splits)
  ultimately obtain sig where "snd ?ver = Inr (Some sig)" by (cases sg) auto
  then obtain a where a: "snd (signature_precheck cf (cf_requireSignatures cf) ?now (rs_identity st) r (pa_sender pa)) = Inr (Some a)"
    "signature_verified env a (publish_message env a (pa_sender pa) (pa_room pa) (pa_id pa) (pa_topic pa) payload)"
    "snd (ensureTofuKey (pruneSenderNonces cf (rs_identity st) (pa_sender pa) ?now) (pa_sender pa) (auth_publicKey a) ?now) = None"
    by (rule verification_accepted)
  show ?thesis
    using pa payload a(2) signature_precheck_auth [OF a(1)] ensureTofuKey_accepts(2) [OF a(3)] by auto
qed

definition demo_signed_publish :: request where
  "demo_signed_publish = demo_request ''POST'' ''/api/v1/publish'' [(''sender'', ''alice''), (''id'', ''m1'')]
     (signed_headers ''1000'' ''n1'')"

lemma demo_signed_publish_commits:
  "rs_rooms (fst (handlePublish demo_config (demo_env 1000000 JNull) (initial_state 0) demo_signed_publish)) \<noteq>
   rs_rooms (initial_state 0)"
  by code_simp

theorem publish_needs_signature_witness:
  "\<exists>auth. parsePublishAuthHeaders demo_signed_publish = Inr (Some auth)"
  using publish_needs_signature [OF _ demo_signed_publish_commits] by (auto simp: demo_config_def)

section \<open>Pushing\<close>

definition handled_count :: "push_counts \<Rightarrow> int" where
  "handled_count n = pc_accepted n + pc_duplicates n + pc_conflicts n + pc_rejected n"

lemma handled_push_reject [simp]: "handled_count (push_reject q n) = handled_count n + 1" "pc_accepted (push_reject q n) = pc_accepted n"
  by (simp_all add: handled_count_def push_reject_def)

lemma publish_and_record_cursor:
  "ex_cursor (rs_exchange (fst (publish_and_record cf env st room sender topic eid sig payload origin hop mx))) =
   ex_cursor (rs_exchange st) +
     (if pub_committed (snd (snd (publish_and_record cf env st room sender topic eid sig payload origin hop mx))) = None then 0 else 1)"
  by (auto simp: publish_and_record_def Let_def recordCacheExchange_def appendCacheExchangeRecord_def split: option.splits)

lemma push_entry_counts:
  "handled_count (snd (snd (push_entry cf env st e n))) = handled_count n + 1"
  "ex_cursor (rs_exchange (fst (push_entry cf env st e n))) - ex_cursor (rs_exchange st) =
     pc_accepted (snd (snd (push_entry cf env st e n))) - pc_accepted n"
proof -
  show "handled_count (snd (snd (push_entry cf env st e n))) = handled_count n + 1"
    by (simp add: push_entry_def Let_def handled_count_def push_reject_def split: option.split collision.split)
  have "rs_exchange (touch_room st room) = rs_exchange st" for room
    by (simp add: touch_room_def)
  then show "ex_cursor (rs_exchange (fst (push_entry cf env st e n))) - ex_cursor (rs_exchange st) =
     pc_accepted (snd (snd (push_entry cf env st e n))) - pc_accepted n"
    by (simp add: push_entry_def Let_def publish_and_record_cursor split: option.split collision.split)
qed

lemma push_loop_counts:
  "snd (snd (push_loop cf env r i vs st n)) = Inr n' \<Longrightarrow>
   handled_count n' = handled_count n + int (length vs) \<and>
   ex_cursor (rs_exchange (fst (push_loop cf env r i vs st n))) - ex_cursor (rs_exchange st) = pc_accepted n' - pc_accepted n"
proof (induction vs arbitrary: i st n)
  case (Cons v vs)
  show ?case
  proof (cases "parseIncomingCacheExchangeEntry v (cf_maxHops cf)")
    case (Inr e)
    have "checkRoomToken cf r (in_room e) = None" if "isValidRoomName (in_room e)" "isValidTopic (in_topic e)"
      using Cons.prems that by (auto simp: Inr split: option.splits)
    then show ?thesis
      using Cons.prems Cons.IH [of "Suc i" st "push_reject InvalidRoom n"] Cons.IH [of "Suc i" st "push_reject InvalidTopic n"]
        Cons.IH [of "Suc i" "fst (push_entry cf env st e n)" "snd (snd (push_entry cf env st e n))"]
        push_entry_counts [of cf env st e n]
      by (auto simp: Inr Let_def split: if_splits)
  qed (use Cons.prems in simp)
qed simp

text \<open>
  A push that is answered accounts for every entry exactly once, as accepted, duplicate,
  conflicting or rejected, and the exchange cursor advances by the number of accepted entries.
\<close>

theorem push_accounts_for_every_entry:
  assumes "push_loop cf env r 0 entries st no_counts = (st', effects, Inr n)"
  shows "pc_accepted n + pc_duplicates n + pc_conflicts n + pc_rejected n = int (length entries) \<and>
    ex_cursor (rs_exchange st') = ex_cursor (rs_exchange st) + pc_accepted n"
  using push_loop_counts [of cf env r 0 entries st no_counts n] assms
  by (simp add: handled_count_def no_counts_def)

definition push_json :: "string \<Rightarrow> int \<Rightarrow> json" where
  "push_json eid hop = JObj
     [(''room'', JStr ''main''), (''id'', JStr eid), (''sender'', JStr ''bob''), (''topic'', JStr ''notify''),
      (''payload'', JNull), (''origin'', JStr ''relay-b''), (''hop_count'', jint hop)]"

theorem push_accounts_for_every_entry_witness:
  "pc_accepted (case snd (snd (push_loop demo_config (demo_env 5 JNull) (demo_request ''POST'' ''/x'' [] []) 0
     [push_json ''m1'' 0, push_json ''m2'' 9] (initial_state 0) no_counts)) of Inr n \<Rightarrow> n) = 1 \<and>
   ex_cursor (rs_exchange (fst (push_loop demo_config (demo_env 5 JNull) (demo_request ''POST'' ''/x'' [] []) 0
     [push_json ''m1'' 0, push_json ''m2'' 9] (initial_state 0) no_counts))) = 1"
proof -
  let ?res = "push_loop demo_config (demo_env 5 JNull) (demo_request ''POST'' ''/x'' [] []) 0
     [push_json ''m1'' 0, push_json ''m2'' 9] (initial_state 0) no_counts"
  have n: "snd (snd ?res) = Inr \<lparr>pc_accepted = 1, pc_duplicates = 0, pc_conflicts = 0, pc_rejected = 1,
      pc_reasons = [(MaxHopsReached, 1)]\<rparr>"
    by code_simp
  then have "?res = (fst ?res, fst (snd ?res), Inr \<lparr>pc_accepted = 1, pc_duplicates = 0, pc_conflicts = 0, pc_rejected = 1,
      pc_reasons = [(MaxHopsReached, 1)]\<rparr>)"
    by (metis prod.collapse)
  from push_accounts_for_every_entry [OF this] show ?thesis
    unfolding n by (simp add: initial_state_def no_exchange_def)
qed

text \<open>
  A malformed entry aborts a push: the entries before it stay committed with all their
  effects, it is answered with an error that names its position, and the entries after it are not
  looked at.
\<close>

theorem push_aborts_at_malformed_entry:
  assumes "push_loop cf env r i good st n = (st', effects, Inr n')"
    and "parseIncomingCacheExchangeEntry v (cf_maxHops cf) = Inl err"
  shows "push_loop cf env r i (good @ v # rest) st n =
    (st', effects, Inl (toErrorResponse (''invalid entry at index '' @ int_str (int (i + length good)) @ '': '' @ err) 400))"
  using assms(1)
proof (induction good arbitrary: i st n st' effects)
  case (Cons g good)
  show ?case
  proof (cases "parseIncomingCacheExchangeEntry g (cf_maxHops cf)")
    case (Inr e)
    let ?one = "push_entry cf env st e n"
    show ?thesis
      using Cons.prems Cons.IH [of "Suc i" st "push_reject InvalidRoom n"] Cons.IH [of "Suc i" st "push_reject InvalidTopic n"]
        Cons.IH [of "Suc i" "fst ?one" "snd (snd ?one)" "fst (push_loop cf env r (Suc i) good (fst ?one) (snd (snd ?one)))"
          "fst (snd (push_loop cf env r (Suc i) good (fst ?one) (snd (snd ?one))))"]
      by (auto simp: Inr Let_def prod_eq_iff split: if_splits option.splits)
  qed (use Cons.prems in simp)
qed (simp add: assms(2))

lemma int_str_zero: "int_str 0 = ''0''"
  by code_simp

theorem push_aborts_at_malformed_entry_witness:
  "snd (snd (push_loop demo_config (demo_env 5 JNull) (demo_request ''POST'' ''/x'' [] []) 0 [JNull, push_json ''m1'' 0]
     (initial_state 0) no_counts)) = Inl (toErrorResponse ''invalid entry at index 0: entry must be object'' 400)"
  using push_aborts_at_malformed_entry [of demo_config "demo_env 5 JNull" "demo_request ''POST'' ''/x'' [] []" 0 "[]"
      "initial_state 0" no_counts "initial_state 0" "[]" no_counts JNull "''entry must be object''" "[push_json ''m1'' 0]"]
  by (simp add: parseIncomingCacheExchangeEntry_def need_def int_str_zero)

section \<open>Reviewing\<close>

lemma review_card:
  assumes "okeys m"
  shows "int (card {s. \<exists>r. map_of m s = Some r \<and> P r}) = int (length (filter (\<lambda>p. P (snd p)) m))"
proof -
  have "{s. \<exists>r. map_of m s = Some r \<and> P r} = fst ` set (filter (\<lambda>p. P (snd p)) m)"
    using assms by (force simp: okeys_def dest: map_of_SomeD intro: map_of_is_SomeI)
  also have "card \<dots> = card (set (filter (\<lambda>p. P (snd p)) m))"
    using assms by (intro card_image) (auto simp: okeys_def distinct_map intro: inj_on_subset)
  also have "\<dots> = length (filter (\<lambda>p. P (snd p)) m)"
    using assms by (intro distinct_card) (auto simp: okeys_def distinct_map)
  finally show ?thesis by simp
qed

text \<open>
  A review counts each sender once, with the verdict the sender gave last: after a review
  is recorded, the reviewer's verdict is the new one, every other verdict of the pull request and all
  other pull requests stay, the two counts are the numbers of senders with each verdict, and the pull
  request is resolved exactly when at least half of its reviewers approve.
\<close>

theorem review_counts_each_sender_once:
  assumes "room_ok cap rs" and "record_review rs prId sender v now = (rs', event)"
  shows "let rv = reviews_of rs' prId; status = computeReviewStatus rv;
             votes = (\<lambda>x. {s. \<exists>r. map_of rv s = Some r \<and> rv_verdict r = x}) in
    sender \<in> votes v \<and>
    (\<forall>s. s \<noteq> sender \<longrightarrow> map_of rv s = map_of (reviews_of rs prId) s) \<and>
    (\<forall>pr. pr \<noteq> prId \<longrightarrow> reviews_of rs' pr = reviews_of rs pr) \<and>
    approve_count status = int (card (votes Approve)) \<and> deny_count status = int (card (votes Deny)) \<and>
    (resolved status \<longleftrightarrow> card (votes Deny) \<le> card (votes Approve))"
proof -
  let ?rv = "reviews_of rs' prId"
  have rs': "reviews_of rs' prId = AList.update sender
      \<lparr>rv_sender = sender, rv_verdict = v,
       rv_submittedAt = (case map_of (reviews_of rs prId) sender of Some e \<Rightarrow> rv_submittedAt e | None \<Rightarrow> of_integer now),
       rv_updatedAt = of_integer now\<rparr> (reviews_of rs prId)"
    and other: "\<And>pr. pr \<noteq> prId \<Longrightarrow> reviews_of rs' pr = reviews_of rs pr"
    using assms(2) by (auto simp: record_review_def Let_def reviews_of_def update_conv')
  have ok: "okeys ?rv" and ne: "?rv \<noteq> []"
    unfolding rs' using reviews_of_ok [OF assms(1)] by (auto simp: reviews_ok_def update_nonempty)
  note card = review_card [OF ok, of "\<lambda>r. rv_verdict r = Approve"] review_card [OF ok, of "\<lambda>r. rv_verdict r = Deny"]
  have total: "approve_count (computeReviewStatus ?rv) + deny_count (computeReviewStatus ?rv) = int (length ?rv)"
    using computeReviewStatus_counts(3) [of ?rv] by (simp add: computeReviewStatus_def Let_def)
  show ?thesis
    unfolding Let_def resolved_iff
    using card total computeReviewStatus_counts [of ?rv] ne other by (auto simp: rs' update_conv')
qed

theorem review_counts_each_sender_once_witness:
  "let first = fst (record_review createRoomState ''7'' ''alice'' Approve 5);
       second = record_review first ''7'' ''alice'' Deny 6; rv = reviews_of (fst second) ''7''
   in snd second = ''updated'' \<and> length rv = 1 \<and>
      deny_count (computeReviewStatus rv) = int (card {s. \<exists>r. map_of rv s = Some r \<and> rv_verdict r = Deny})"
proof -
  let ?first = "fst (record_review createRoomState ''7'' ''alice'' Approve 5)"
  have ok: "room_ok 5 ?first" by (rule record_review_ok) (simp_all, code_simp+)
  show ?thesis
    using review_counts_each_sender_once [OF ok surjective_pairing, of "''7''" "''alice''" Deny 6]
    by (auto simp: Let_def) (simp_all add: record_review_def Let_def reviews_of_def createRoomState_def)
qed

end
