(* ===== verification/Interleave.thy ===== *)
theory Interleave
  imports Relay_Facts
begin

text \<open>
  A publish request is not one step: \<open>fetch\<close> awaits the request body, then the digest and the
  signature check, and other requests run meanwhile. This theory splits \<open>handlePublish\<close> at its
  awaits, runs any number of publishes interleaved with every other event of the relay, and shows
  what survives: the atomic handler is one of the schedules, the invariant holds in every reachable
  configuration, and no schedule lets an unverified message into a room. What does not survive is
  the nonce check, which reads the nonces before the await and writes them after it.
\<close>

section \<open>The segments of a publish\<close>

datatype phase =
    AwaitBody publish_args
  | AwaitVerify publish_args json int publish_auth
  | Verified publish_args json "string option"
  | Answered response

text \<open>Up to \<open>await request.text()\<close>.\<close>

definition start_publish :: "relay_config \<Rightarrow> relay_env \<Rightarrow> relay_state \<Rightarrow> request \<Rightarrow> relay_state \<times> phase" where
  "start_publish cf env st r =
     (let ad = publish_admit cf env st r
      in (fst ad, case snd ad of Inl err \<Rightarrow> Answered err | Inr pa \<Rightarrow> AwaitBody pa))"

text \<open>From the body to the await of the digest and of the signature check.\<close>

definition resume_body ::
    "relay_config \<Rightarrow> relay_env \<Rightarrow> request \<Rightarrow> relay_state \<Rightarrow> publish_args \<Rightarrow> relay_state \<times> phase" where
  "resume_body cf env r st pa =
     (case publish_body cf env r of
        Inl err \<Rightarrow> (st, Answered err)
      | Inr payload \<Rightarrow>
          let nowSec = nowEpochSec (body_ms env);
              pre = signature_precheck cf (cf_requireSignatures cf) nowSec (rs_identity st) r (pa_sender pa)
          in (st\<lparr>rs_identity := fst pre\<rparr>,
              case snd pre of Inl err \<Rightarrow> Answered err | Inr None \<Rightarrow> Verified pa payload None
              | Inr (Some auth) \<Rightarrow> AwaitVerify pa payload nowSec auth))"

text \<open>From the signature check to the return of \<open>handleSignatureVerification\<close>.\<close>

definition resume_verify ::
    "relay_config \<Rightarrow> relay_env \<Rightarrow> relay_state \<Rightarrow> publish_args \<Rightarrow> json \<Rightarrow> int \<Rightarrow> publish_auth \<Rightarrow> relay_state \<times> phase" where
  "resume_verify cf env st pa payload nowSec auth =
     (if \<not> signature_verified env auth
            (publish_message env auth (pa_sender pa) (pa_room pa) (pa_id pa) (pa_topic pa) payload)
      then (st, Answered (toErrorResponse ''invalid signature'' 401))
      else let com = signature_commit cf nowSec (rs_identity st) (pa_sender pa) auth
        in (st\<lparr>rs_identity := fst com\<rparr>,
            case snd com of Some err \<Rightarrow> Answered err | None \<Rightarrow> Verified pa payload (Some (auth_signature auth))))"

definition resume_publish ::
    "relay_config \<Rightarrow> relay_env \<Rightarrow> request \<Rightarrow> relay_state \<Rightarrow> phase \<Rightarrow> relay_state \<times> effect list \<times> phase" where
  "resume_publish cf env r st p =
     (case p of
        AwaitBody pa \<Rightarrow> (let res = resume_body cf env r st pa in (fst res, [], snd res))
      | AwaitVerify pa payload nowSec auth \<Rightarrow>
          (let res = resume_verify cf env st pa payload nowSec auth in (fst res, [], snd res))
      | Verified pa payload sg \<Rightarrow>
          (let res = publish_commit cf env st pa sg payload in (fst res, fst (snd res), Answered (snd (snd res))))
      | Answered resp \<Rightarrow> (st, [], p))"

section \<open>Interleaved runs\<close>

type_synonym task = "relay_env \<times> request \<times> phase"

text \<open>A restart drops the requests in flight with the process, so it is not a step here.\<close>

definition concurrent_event :: "relay_event \<Rightarrow> bool" where
  "concurrent_event e = (case e of Restart env \<Rightarrow> False | _ \<Rightarrow> event_ok e)"

inductive interleaved :: "relay_config \<Rightarrow> cache_adapter \<Rightarrow> relay_state \<times> task list \<Rightarrow> relay_state \<times> task list \<Rightarrow> bool"
  for cf ad where
  arrive: "env_ok env \<Longrightarrow> start_publish cf env st r = (st', p) \<Longrightarrow>
    interleaved cf ad (st, ts) (st', ts @ [(env, r, p)])"
| resume: "i < length ts \<Longrightarrow> ts ! i = (env, r, p) \<Longrightarrow> resume_publish cf env r st p = (st', effects, p') \<Longrightarrow>
    interleaved cf ad (st, ts) (st', ts[i := (env, r, p')])"
| other: "concurrent_event e \<Longrightarrow> interleaved cf ad (st, ts) (relay_step cf ad st e, ts)"

inductive_cases interleavedE: "interleaved cf ad (st, ts) c"

section \<open>The invariant under interleaving\<close>

definition args_ok :: "publish_args \<Rightarrow> bool" where
  "args_ok pa \<longleftrightarrow> isValidRoomName (pa_room pa) \<and> pa_sender pa \<noteq> [] \<and> js_trim (pa_sender pa) = pa_sender pa \<and> pa_id pa \<noteq> []"

definition authentic :: "relay_env \<Rightarrow> request \<Rightarrow> publish_args \<Rightarrow> json \<Rightarrow> string \<Rightarrow> bool" where
  "authentic env r pa payload sg \<longleftrightarrow>
     (case parsePublishAuthHeaders r of
        Inr (Some a) \<Rightarrow> sg = auth_signature a \<and>
          signature_verified env a (publish_message env a (pa_sender pa) (pa_room pa) (pa_id pa) (pa_topic pa) payload)
      | _ \<Rightarrow> False)"

definition phase_ok :: "relay_config \<Rightarrow> relay_env \<Rightarrow> request \<Rightarrow> phase \<Rightarrow> bool" where
  "phase_ok cf env r p =
     (case p of
        AwaitBody pa \<Rightarrow> args_ok pa
      | AwaitVerify pa payload nowSec auth \<Rightarrow> args_ok pa \<and> parsePublishAuthHeaders r = Inr (Some auth)
      | Verified pa payload sg \<Rightarrow> args_ok pa \<and>
          (case sg of None \<Rightarrow> \<not> cf_requireSignatures cf | Some s \<Rightarrow> authentic env r pa payload s)
      | Answered resp \<Rightarrow> True)"

definition task_ok :: "relay_config \<Rightarrow> task \<Rightarrow> bool" where
  "task_ok cf t = (case t of (env, r, p) \<Rightarrow> env_ok env \<and> phase_ok cf env r p)"

definition conf_ok :: "relay_config \<Rightarrow> relay_state \<times> task list \<Rightarrow> bool" where
  "conf_ok cf c \<longleftrightarrow> state_ok cf (fst c) \<and> list_all (task_ok cf) (snd c)"

lemma start_publish_ok:
  assumes "state_ok cf st" "env_ok env" "start_publish cf env st r = (st', p)"
  shows "state_ok cf st' \<and> phase_ok cf env r p"
proof -
  have "state_ok cf (fst (publish_admit cf env st r))" using assms(1) by (rule publish_admit_ok)
  moreover have "args_ok pa" if "snd (publish_admit cf env st r) = Inr pa" for pa
    using publish_admit_args [OF that] assms(2) by (auto simp: args_ok_def env_ok_def)
  ultimately show ?thesis
    using assms(3) by (auto simp: start_publish_def Let_def phase_ok_def split: sum.splits)
qed

lemma precheck_none: "snd (signature_precheck cf req now idn r s) = Inr None \<Longrightarrow> \<not> req"
  by (auto simp: signature_precheck_def Let_def split: sum.splits option.splits if_splits)

lemma resume_publish_ok:
  assumes "config_ok cf" "state_ok cf st" "phase_ok cf env r p" "resume_publish cf env r st p = (st', effects, p')"
  shows "state_ok cf st' \<and> phase_ok cf env r p'"
proof (cases p)
  case (AwaitBody pa)
  let ?pre = "signature_precheck cf (cf_requireSignatures cf) (nowEpochSec (body_ms env)) (rs_identity st) r (pa_sender pa)"
  have "state_ok cf (st\<lparr>rs_identity := fst ?pre\<rparr>)"
    using assms(2) by (intro state_ok_identity signature_precheck_ok state_ok_parts(1))
  moreover have "args_ok pa" using assms(3) by (simp add: AwaitBody phase_ok_def)
  ultimately show ?thesis
    using assms(2,4) signature_precheck_auth(1) [of cf "cf_requireSignatures cf" "nowEpochSec (body_ms env)" "rs_identity st" r "pa_sender pa"]
      precheck_none [of cf "cf_requireSignatures cf" "nowEpochSec (body_ms env)" "rs_identity st" r "pa_sender pa"]
    by (auto simp: AwaitBody resume_publish_def resume_body_def Let_def phase_ok_def split: sum.splits option.splits)
next
  case (AwaitVerify pa payload now a)
  then have pa: "args_ok pa" and a: "parsePublishAuthHeaders r = Inr (Some a)"
    using assms(3) by (simp_all add: phase_ok_def)
  have "js_trim (pa_sender pa) \<noteq> []" using pa by (simp add: args_ok_def)
  then have "state_ok cf (st\<lparr>rs_identity := fst (signature_commit cf now (rs_identity st) (pa_sender pa) a)\<rparr>)"
    using assms(2) a by (intro state_ok_identity signature_commit_ok state_ok_parts(1))
  then show ?thesis
    using assms(2,4) pa a
    by (auto simp: AwaitVerify resume_publish_def resume_verify_def Let_def phase_ok_def authentic_def split: option.splits if_splits)
next
  case (Verified pa payload sg)
  then have "state_ok cf (fst (publish_commit cf env st pa sg payload))"
    using assms(1-3) by (intro publish_commit_ok) (auto simp: phase_ok_def args_ok_def)
  then show ?thesis using assms(4) by (auto simp: Verified resume_publish_def Let_def phase_ok_def)
qed (use assms in \<open>auto simp: resume_publish_def phase_ok_def\<close>)

lemma interleaved_conf_ok:
  assumes "config_ok cf" "interleaved cf ad c c'" "conf_ok cf c"
  shows "conf_ok cf c'"
  using assms(2,3)
proof (cases rule: interleaved.cases)
  case (arrive env st r st' p ts)
  then show ?thesis
    using assms(3) start_publish_ok [of cf st env r st' p] by (auto simp: conf_ok_def task_ok_def)
next
  case (resume i ts env r p st st' effects p')
  then have "task_ok cf (env, r, p)" using assms(3) by (auto simp: conf_ok_def list_all_length)
  then show ?thesis
    using resume assms(1,3) resume_publish_ok [of cf st env r p st' effects p']
    by (auto simp: conf_ok_def task_ok_def list_all_length nth_list_update)
next
  case (other e st ts)
  then have "event_ok e" by (auto simp: concurrent_event_def event_ok_def split: relay_event.splits)
  then show ?thesis
    using other assms(1,3) relay_step_ok by (auto simp: conf_ok_def)
qed

lemma interleaved_run_ok:
  "(interleaved cf ad)\<^sup>*\<^sup>* c c' \<Longrightarrow> config_ok cf \<Longrightarrow> conf_ok cf c \<Longrightarrow> conf_ok cf c'"
  by (induction rule: rtranclp_induct) (auto intro: interleaved_conf_ok)

text \<open>
  The relay stays in good order however publishes interleave: in every configuration
  reachable from a fresh relay by arrivals, resumptions in any order, and every other request,
  socket event and reaping in between, the state satisfies the invariant and every request in
  flight carries checked arguments, and a verified one a signature that verifies.
\<close>

theorem interleaved_relay_stays_in_order:
  assumes "config_ok cf" "(interleaved cf ad)\<^sup>*\<^sup>* (initial_state t, []) (st, ts)"
  shows "state_ok cf st \<and> list_all (task_ok cf) ts"
  using interleaved_run_ok [OF assms(2,1)] by (simp add: conf_ok_def initial_state_ok)

theorem interleaved_relay_stays_in_order_witness:
  "state_ok demo_config (fst (start_publish demo_config (demo_env 5 JNull) (initial_state 0) (demo_request ''POST'' ''/'' [] [])))"
proof -
  let ?s = "start_publish demo_config (demo_env 5 JNull) (initial_state 0) (demo_request ''POST'' ''/'' [] [])"
  have "env_ok (demo_env 5 JNull)" by (simp add: env_ok_def demo_env_def js_trim_def is_space_def)
  from interleaved.arrive [OF this surjective_pairing]
  have "interleaved demo_config no_store_adapter (initial_state 0, [])
      (fst ?s, [] @ [(demo_env 5 JNull, demo_request ''POST'' ''/'' [] [], snd ?s)])" .
  from interleaved_relay_stays_in_order [OF demo_config_ok r_into_rtranclp [of "interleaved demo_config no_store_adapter", OF this]]
  show ?thesis by simp
qed

section \<open>What the segments do\<close>

lemma resume_body_rooms [simp]: "rs_rooms (fst (resume_body cf env r st pa)) = rs_rooms st"
  by (simp add: resume_body_def Let_def split: sum.split)

lemma resume_verify_rooms [simp]: "rs_rooms (fst (resume_verify cf env st pa payload now a)) = rs_rooms st"
  by (simp add: resume_verify_def Let_def)

text \<open>Running the segments one after the other.\<close>

definition run_publish :: "relay_config \<Rightarrow> relay_env \<Rightarrow> request \<Rightarrow> nat \<Rightarrow> relay_state \<times> effect list \<times> phase \<Rightarrow>
    relay_state \<times> effect list \<times> phase" where
  "run_publish cf env r n c =
     ((\<lambda>(st, effects, p). let res = resume_publish cf env r st p
        in (fst res, effects @ fst (snd res), snd (snd res))) ^^ n) c"

lemma run_publish_simps [simp]:
  "run_publish cf env r 0 c = c"
  "run_publish cf env r (Suc n) (st, effects, p) =
     run_publish cf env r n (let res = resume_publish cf env r st p in (fst res, effects @ fst (snd res), snd (snd res)))"
  by (simp_all add: run_publish_def funpow_swap1 Let_def)

lemma run_publish_answered [simp]:
  "run_publish cf env r n (st, effects, Answered resp) = (st, effects, Answered resp)"
  by (induction n) (simp_all add: resume_publish_def Let_def)

lemma run_publish_handler:
  "run_publish cf env r 3 (fst (start_publish cf env st r), [], snd (start_publish cf env st r)) =
     (fst (handlePublish cf env st r), fst (snd (handlePublish cf env st r)), Answered (snd (snd (handlePublish cf env st r))))"
  unfolding start_publish_def handlePublish_def handleSignatureVerification_def numeral_3_eq_3
  by (auto simp: Let_def resume_publish_def resume_body_def resume_verify_def answer_def split: sum.split option.split)


text \<open>The configurations a request passes through when nothing else runs are reachable.\<close>

lemma run_publish_schedule:
  "(interleaved cf ad)\<^sup>*\<^sup>* (st, ts @ [(env, r, p)])
     (fst (run_publish cf env r n (st, effects, p)), ts @ [(env, r, snd (snd (run_publish cf env r n (st, effects, p))))])"
proof (induction n arbitrary: st p effects)
  case (Suc n)
  let ?res = "resume_publish cf env r st p"
  have "interleaved cf ad (st, ts @ [(env, r, p)]) (fst ?res, (ts @ [(env, r, p)])[length ts := (env, r, snd (snd ?res))])"
    by (rule interleaved.resume [of _ _ env r p cf st "fst ?res" "fst (snd ?res)"]) simp_all
  then have "interleaved cf ad (st, ts @ [(env, r, p)]) (fst ?res, ts @ [(env, r, snd (snd ?res))])" by simp
  from converse_rtranclp_into_rtranclp [OF this Suc] show ?case by (simp add: Let_def)
qed simp

lemma arrival_schedule:
  assumes "env_ok env"
  shows "(interleaved cf ad)\<^sup>*\<^sup>* (st, ts) (fst (start_publish cf env st r), ts @ [(env, r, snd (start_publish cf env st r))])"
  by (rule r_into_rtranclp) (rule interleaved.arrive [OF assms surjective_pairing])





section \<open>The nonce race\<close>

text \<open>
  Claim C28. The nonce check does not survive interleaving: once two publishes of one sender, signed
  with one key, have both passed the check, the second is verified after the first has been, even
  when they carry the same nonce, which run one after the other would be refused.
\<close>

theorem same_nonce_publishes_race:
  assumes "resume_publish cf env r st (AwaitVerify pa payload now a) = (st', effects, Verified pa payload (Some sg))"
    and "pa_sender pa2 = pa_sender pa" "auth_publicKey a2 = auth_publicKey a" "auth_nonce a2 = auth_nonce a"
    and "signature_verified env2 a2 (publish_message env2 a2 (pa_sender pa2) (pa_room pa2) (pa_id pa2) (pa_topic pa2) payload2)"
  shows "snd (snd (resume_publish cf env2 r2 st' (AwaitVerify pa2 payload2 now2 a2))) =
    Verified pa2 payload2 (Some (auth_signature a2))"
proof -
  let ?tofu = "ensureTofuKey (rs_identity st) (pa_sender pa) (auth_publicKey a) now"
  have tofu: "snd ?tofu = None" and st': "id_keys (rs_identity st') = id_keys (fst ?tofu)"
    using assms(1) by (auto simp: resume_publish_def resume_verify_def signature_commit_def Let_def split: if_splits option.splits)
  obtain k where "map_of (id_keys (rs_identity st')) (pa_sender pa) = Some k" "kr_status k = KeyActive" "kr_publicKey k = auth_publicKey a"
    using ensureTofuKey_accepts(1) [OF tofu] by (auto simp: st')
  then have "snd (ensureTofuKey (rs_identity st') (pa_sender pa2) (auth_publicKey a2) now2) = None"
    using assms(2,3) by (simp add: ensureTofuKey_def timingSafeEqual_iff)
  then show ?thesis
    using assms(5) by (simp add: resume_publish_def resume_verify_def signature_commit_def Let_def)
qed

definition demo_auth :: publish_auth where
  "demo_auth = \<lparr>auth_publicKey = ''AAAA'', auth_signature = ''AAAA'', auth_timestampSec = 1000, auth_nonce = ''n1''\<rparr>"

definition demo_args :: "string \<Rightarrow> publish_args" where
  "demo_args eid = \<lparr>pa_sender = ''alice'', pa_room = ''main'', pa_topic = ''notify'', pa_id = eid, pa_sig = []\<rparr>"

lemma demo_auth_verified: "signature_verified (demo_env ms JNull) demo_auth m"
proof -
  have "base64UrlDecode ''AAAA'' \<noteq> None" by code_simp
  then show ?thesis
    by (auto simp: signature_verified_def verifyEd25519Signature_def demo_auth_def demo_env_def)
qed

theorem same_nonce_publishes_race_witness:
  "let first = resume_publish demo_config (demo_env 1000000 JNull) demo_signed_publish (initial_state 0)
         (AwaitVerify (demo_args ''m1'') JNull 1000 demo_auth)
   in snd (snd first) = Verified (demo_args ''m1'') JNull (Some ''AAAA'') \<and>
      snd (snd (resume_publish demo_config (demo_env 1000000 JNull) demo_signed_publish (fst first)
         (AwaitVerify (demo_args ''m2'') (JStr ''other'') 1000 demo_auth))) = Verified (demo_args ''m2'') (JStr ''other'') (Some ''AAAA'')"
proof -
  let ?first = "resume_publish demo_config (demo_env 1000000 JNull) demo_signed_publish (initial_state 0)
         (AwaitVerify (demo_args ''m1'') JNull 1000 demo_auth)"
  have first: "snd (snd ?first) = Verified (demo_args ''m1'') JNull (Some ''AAAA'')"
    by (simp add: resume_publish_def resume_verify_def demo_auth_verified signature_commit_def ensureTofuKey_def
        initial_state_def no_identity_def Let_def) (simp add: demo_auth_def)
  then have "?first = (fst ?first, fst (snd ?first), Verified (demo_args ''m1'') JNull (Some ''AAAA''))"
    by (simp add: prod_eq_iff)
  from same_nonce_publishes_race [OF this, of "demo_args ''m2''" demo_auth "demo_env 1000000 JNull" "JStr ''other''" demo_signed_publish 1000]
  show ?thesis using first by (simp add: demo_auth_verified Let_def demo_args_def) (simp add: demo_auth_def)
qed

end
