(* ===== verification/R2_Store.thy ===== *)
theory R2_Store
  imports Cache_Store
begin

text \<open>
  The second store of \<open>src/cache_store.ts\<close>, \<open>createR2CacheStore\<close>: records are objects of a bucket, their
  kind, key, room, reference, hash and time are custom metadata. The bucket (\<open>R2BucketLike\<close>, a Cloudflare
  service) is a parameter: a state and four operations that may throw. A listing of the bucket comes
  in pages, so the loops over pages carry fuel; \<open>None\<close> is a loop that has not ended. \<open>uploaded\<close> is a
  time in milliseconds.
\<close>

section \<open>The bucket\<close>

record r2_object =
  ro_body :: string
  ro_size :: "int option"
  ro_uploaded :: "int option"
  ro_contentType :: "string option"
  ro_customMetadata :: "(string, string) omap option"

record r2_listed =
  rl_key :: string
  rl_size :: int
  rl_uploaded :: "int option"
  rl_contentType :: "string option"
  rl_customMetadata :: "(string, string) omap option"

record r2_page =
  rp_objects :: "r2_listed list"
  rp_truncated :: bool
  rp_cursor :: "string option"

record 'b bucket =
  bk_put :: "string \<Rightarrow> string \<Rightarrow> string option \<Rightarrow> (string, string) omap \<Rightarrow> 'b \<Rightarrow> 'b \<times> (string + unit)"
  bk_get :: "string \<Rightarrow> 'b \<Rightarrow> 'b \<times> (string + r2_object option)"
  bk_delete :: "string \<Rightarrow> 'b \<Rightarrow> 'b \<times> (string + unit)"
  bk_list :: "string \<Rightarrow> int \<Rightarrow> string option \<Rightarrow> 'b \<Rightarrow> 'b \<times> (string + r2_page)"

section \<open>Keys and metadata\<close>

definition normalizeR2Prefix :: "string option \<Rightarrow> string" where
  "normalizeR2Prefix p =
     (let raw = js_trim (case p of None \<Rightarrow> [] | Some s \<Rightarrow> s)
      in if raw = [] then [] else if suffix ''/'' raw then raw else raw @ ''/'')"

definition toR2Key :: "string \<Rightarrow> string \<Rightarrow> string \<Rightarrow> string" where
  "toR2Key p kind key = p @ kind @ ''/'' @ key"

definition parseR2Key :: "string \<Rightarrow> string \<Rightarrow> (string \<times> string) option" where
  "parseR2Key p r2Key = (if \<not> prefix p r2Key then None else fromStorageKey (drop (length p) r2Key))"

definition parseUpdatedAt :: "string option \<Rightarrow> int \<Rightarrow> int" where
  "parseUpdatedAt raw fallback =
     (case finite_trunc (js_parse_int (case raw of None \<Rightarrow> [] | Some s \<Rightarrow> s)) of None \<Rightarrow> fallback | Some i \<Rightarrow> max 0 i)"

definition optional_entry :: "string \<Rightarrow> string option \<Rightarrow> (string, string) omap" where
  "optional_entry name v = (case truthy v of None \<Rightarrow> [] | Some s \<Rightarrow> [(name, s)])"

text \<open>Called with the normalized kind and key (\<open>{ ...request, kind, key }\<close>).\<close>

definition toR2Metadata :: "int \<Rightarrow> put_request \<Rightarrow> string \<Rightarrow> string \<Rightarrow> (string, string) omap" where
  "toR2Metadata nowSec rq kind key =
     [(''kind'', kind), (''key'', key), (''updated_at'', int_str (put_time (pq_updatedAt rq) nowSec))] @
     optional_entry ''room'' (pq_room rq) @ optional_entry ''ref'' (pq_ref rq) @
     optional_entry ''content_hash'' (pq_contentHash rq)"

definition toMetadataFromR2Object ::
    "int \<Rightarrow> string \<Rightarrow> string \<Rightarrow> int \<Rightarrow> int option \<Rightarrow> string option \<Rightarrow> (string, string) omap option \<Rightarrow> store_metadata" where
  "toMetadataFromR2Object nowSec fallbackKind fallbackKey bytes uploadedAt contentType customMetadata =
     (let custom = (\<lambda>name. Option.bind customMetadata (\<lambda>m. map_of m name));
          updatedFallback = (case uploadedAt of None \<Rightarrow> nowSec | Some ms \<Rightarrow> max 0 (ms div 1000))
      in \<lparr>sm_kind = (case custom ''kind'' of None \<Rightarrow> fallbackKind | Some k \<Rightarrow> if k \<in> set VALID_KINDS then k else fallbackKind),
          sm_key = (case truthy (custom ''key'') of None \<Rightarrow> fallbackKey | Some k \<Rightarrow> k),
          sm_size = bytes, sm_updatedAt = parseUpdatedAt (custom ''updated_at'') updatedFallback,
          sm_room = truthy (custom ''room''), sm_ref = truthy (custom ''ref''),
          sm_contentHash = truthy (custom ''content_hash''), sm_contentType = truthy contentType\<rparr>)"

definition listed_metadata :: "int \<Rightarrow> string \<Rightarrow> string \<Rightarrow> r2_listed \<Rightarrow> store_metadata" where
  "listed_metadata nowSec kind key ob =
     toMetadataFromR2Object nowSec kind key (rl_size ob) (rl_uploaded ob) (rl_contentType ob) (rl_customMetadata ob)"

section \<open>The loops over a listing\<close>

fun each_object ::
    "(r2_listed \<Rightarrow> 'a list \<Rightarrow> 'b \<Rightarrow> 'b \<times> (string + 'a list)) \<Rightarrow> r2_listed list \<Rightarrow> 'a list \<Rightarrow> 'b \<Rightarrow> 'b \<times> (string + 'a list)" where
  "each_object step [] acc b = (b, Inr acc)"
| "each_object step (ob # obs) acc b =
     (let res = step ob acc b
      in case snd res of Inl err \<Rightarrow> (fst res, Inl err) | Inr acc' \<Rightarrow> each_object step obs acc' (fst res))"

text \<open>The loop \<open>while (true)\<close> over the pages, for what is done with one object.\<close>

fun bucket_pages ::
    "nat \<Rightarrow> 'b bucket \<Rightarrow> string \<Rightarrow> (r2_listed \<Rightarrow> 'a list \<Rightarrow> 'b \<Rightarrow> 'b \<times> (string + 'a list)) \<Rightarrow> string option \<Rightarrow> 'a list \<Rightarrow> 'b \<Rightarrow>
     ('b \<times> (string + 'a list)) option" where
  "bucket_pages 0 bk p step cursor acc b = None"
| "bucket_pages (Suc fuel) bk p step cursor acc b =
     (let listed = bk_list bk p 1000 cursor b
      in case snd listed of
           Inl err \<Rightarrow> Some (fst listed, Inl err)
         | Inr page \<Rightarrow>
             let res = each_object step (rp_objects page) acc (fst listed)
             in case snd res of
                  Inl err \<Rightarrow> Some (fst res, Inl err)
                | Inr acc' \<Rightarrow>
                    if \<not> rp_truncated page \<or> truthy (rp_cursor page) = None then Some (fst res, Inr acc')
                    else bucket_pages fuel bk p step (rp_cursor page) acc' (fst res))"

record r2_entry =
  re_r2Key :: string
  re_metadata :: store_metadata

definition policy_entry :: "int \<Rightarrow> string \<Rightarrow> r2_listed \<Rightarrow> r2_entry list \<Rightarrow> 'b \<Rightarrow> 'b \<times> (string + r2_entry list)" where
  "policy_entry nowSec p ob entries b =
     (b, Inr (case parseR2Key p (rl_key ob) of
        None \<Rightarrow> entries
      | Some (kind, key) \<Rightarrow> entries @ [\<lparr>re_r2Key = rl_key ob, re_metadata = listed_metadata nowSec kind key ob\<rparr>]))"

definition listPolicyEntries :: "nat \<Rightarrow> 'b bucket \<Rightarrow> string \<Rightarrow> int \<Rightarrow> 'b \<Rightarrow> ('b \<times> (string + r2_entry list)) option" where
  "listPolicyEntries fuel bk p nowSec b = bucket_pages fuel bk p (policy_entry nowSec p) None [] b"

fun prune_entries :: "'b bucket \<Rightarrow> store_policy \<Rightarrow> int \<Rightarrow> r2_entry list \<Rightarrow> r2_entry list \<Rightarrow> 'b \<Rightarrow> 'b \<times> (string + r2_entry list)" where
  "prune_entries bk policy nowSec [] kept b = (b, Inr kept)"
| "prune_entries bk policy nowSec (e # es) kept b =
     (if isExpiredByPolicy (re_metadata e) policy nowSec then
        (let res = bk_delete bk (re_r2Key e) b
         in case snd res of Inl err \<Rightarrow> (fst res, Inl err) | Inr _ \<Rightarrow> prune_entries bk policy nowSec es kept (fst res))
      else prune_entries bk policy nowSec es (kept @ [e]) b)"

definition pruneExpiredPolicyEntries ::
    "'b bucket \<Rightarrow> store_policy \<Rightarrow> int \<Rightarrow> r2_entry list \<Rightarrow> 'b \<Rightarrow> 'b \<times> (string + r2_entry list)" where
  "pruneExpiredPolicyEntries bk policy nowSec entries b =
     (if sp_ttlSec policy = None then (b, Inr entries) else prune_entries bk policy nowSec entries [] b)"

fun r2_evict :: "'b bucket \<Rightarrow> int \<Rightarrow> int \<Rightarrow> eviction_candidate list \<Rightarrow> 'b \<Rightarrow> 'b \<times> (string + unit)" where
  "r2_evict bk maxBytes bytes [] b = (b, Inr ())"
| "r2_evict bk maxBytes bytes (c # cs) b =
     (if bytes \<le> maxBytes then (b, Inr ())
      else let res = bk_delete bk (ec_storageKey c) b
        in case snd res of Inl err \<Rightarrow> (fst res, Inl err) | Inr _ \<Rightarrow> r2_evict bk maxBytes (bytes - ec_size c) cs (fst res))"

definition candidate_of_entry :: "r2_entry \<Rightarrow> eviction_candidate" where
  "candidate_of_entry e =
     \<lparr>ec_storageKey = re_r2Key e, ec_updatedAt = sm_updatedAt (re_metadata e), ec_size = sm_size (re_metadata e)\<rparr>"

definition enforceMaxBytesPolicy ::
    "(string \<Rightarrow> string \<Rightarrow> bool) \<Rightarrow> 'b bucket \<Rightarrow> store_policy \<Rightarrow> r2_entry list \<Rightarrow> 'b \<Rightarrow> 'b \<times> (string + unit)" where
  "enforceMaxBytesPolicy le bk policy entries b =
     (case sp_maxBytes policy of
        None \<Rightarrow> (b, Inr ())
      | Some maxBytes \<Rightarrow>
          let bytes = sum_list (map (\<lambda>e. sm_size (re_metadata e)) entries)
          in if bytes \<le> maxBytes then (b, Inr ())
             else r2_evict bk maxBytes bytes (sortEvictionCandidates le (map candidate_of_entry entries)) b)"

definition applyPolicyAfterWrite ::
    "nat \<Rightarrow> (string \<Rightarrow> string \<Rightarrow> bool) \<Rightarrow> 'b bucket \<Rightarrow> string \<Rightarrow> store_policy \<Rightarrow> int \<Rightarrow> 'b \<Rightarrow> ('b \<times> (string + unit)) option" where
  "applyPolicyAfterWrite fuel le bk p policy nowSec b =
     (if sp_ttlSec policy = None \<and> sp_maxBytes policy = None then Some (b, Inr ())
      else case listPolicyEntries fuel bk p nowSec b of
          None \<Rightarrow> None
        | Some (b1, Inl err) \<Rightarrow> Some (b1, Inl err)
        | Some (b1, Inr entries) \<Rightarrow>
            let pruned = pruneExpiredPolicyEntries bk policy nowSec entries b1
            in case snd pruned of
                 Inl err \<Rightarrow> Some (fst pruned, Inl err)
               | Inr kept \<Rightarrow> Some (enforceMaxBytesPolicy le bk policy kept (fst pruned)))"

section \<open>The operations\<close>

definition r2_put ::
    "nat \<Rightarrow> (string \<Rightarrow> string \<Rightarrow> bool) \<Rightarrow> 'b bucket \<Rightarrow> string \<Rightarrow> store_policy \<Rightarrow> int \<Rightarrow> put_request \<Rightarrow> 'b \<Rightarrow> ('b \<times> (string + unit)) option" where
  "r2_put fuel le bk p policy nowSec rq b =
     (case normalizeKind (pq_kind rq) of
        Inl err \<Rightarrow> Some (b, Inl err)
      | Inr kind \<Rightarrow>
          (case normalizeKey (pq_key rq) of
             Inl err \<Rightarrow> Some (b, Inl err)
           | Inr key \<Rightarrow>
               let res = bk_put bk (toR2Key p kind key) (pq_body rq) (truthy (pq_contentType rq)) (toR2Metadata nowSec rq kind key) b
               in case snd res of
                    Inl err \<Rightarrow> Some (fst res, Inl err)
                  | Inr _ \<Rightarrow> applyPolicyAfterWrite fuel le bk p policy nowSec (fst res)))"

definition r2_get ::
    "'b bucket \<Rightarrow> string \<Rightarrow> store_policy \<Rightarrow> int \<Rightarrow> string \<Rightarrow> string \<Rightarrow> 'b \<Rightarrow> 'b \<times> (string + store_object option)" where
  "r2_get bk p policy nowSec kind key b =
     with_key kind key (\<lambda>kind key.
       (let r2Key = toR2Key p kind key; found = bk_get bk r2Key b
        in case snd found of
             Inl err \<Rightarrow> (fst found, Inl err)
           | Inr None \<Rightarrow> (fst found, Inr None)
           | Inr (Some ob) \<Rightarrow>
               let bytes = (case ro_size ob of Some n \<Rightarrow> n | None \<Rightarrow> int (length (ro_body ob)));
                   metadata = toMetadataFromR2Object nowSec kind key bytes (ro_uploaded ob) (ro_contentType ob)
                     (ro_customMetadata ob)
               in if isExpiredByPolicy metadata policy nowSec then
                    (let gone = bk_delete bk r2Key (fst found)
                     in (fst gone, case snd gone of Inl err \<Rightarrow> Inl err | Inr _ \<Rightarrow> Inr None))
                  else (fst found, Inr (Some \<lparr>so_body = ro_body ob, so_metadata = metadata\<rparr>)))) b"

definition r2_delete ::
    "'b bucket \<Rightarrow> string \<Rightarrow> store_policy \<Rightarrow> int \<Rightarrow> string \<Rightarrow> string \<Rightarrow> 'b \<Rightarrow> 'b \<times> (string + bool)" where
  "r2_delete bk p policy nowSec kind key b =
     (let existing = r2_get bk p policy nowSec kind key b
      in case snd existing of
           Inl err \<Rightarrow> (fst existing, Inl err)
         | Inr None \<Rightarrow> (fst existing, Inr False)
         | Inr (Some _) \<Rightarrow>
             with_key kind key (\<lambda>kind key.
               (let gone = bk_delete bk (toR2Key p kind key) (fst existing)
                in (fst gone, case snd gone of Inl err \<Rightarrow> Inl err | Inr _ \<Rightarrow> Inr True))) (fst existing))"

definition list_entry ::
    "'b bucket \<Rightarrow> string \<Rightarrow> store_policy \<Rightarrow> int \<Rightarrow> list_query \<Rightarrow> r2_listed \<Rightarrow> store_metadata list \<Rightarrow> 'b \<Rightarrow>
     'b \<times> (string + store_metadata list)" where
  "list_entry bk p policy nowSec q ob entries b =
     (case parseR2Key p (rl_key ob) of
        None \<Rightarrow> (b, Inr entries)
      | Some (kind, key) \<Rightarrow>
          let metadata = listed_metadata nowSec kind key ob
          in if isExpiredByPolicy metadata policy nowSec then
               (let gone = bk_delete bk (rl_key ob) b
                in (fst gone, case snd gone of Inl err \<Rightarrow> Inl err | Inr _ \<Rightarrow> Inr entries))
             else (b, Inr (if metadataMatchesQuery metadata q then entries @ [metadata] else entries)))"

definition r2_list ::
    "nat \<Rightarrow> (string \<Rightarrow> string \<Rightarrow> bool) \<Rightarrow> 'b bucket \<Rightarrow> string \<Rightarrow> store_policy \<Rightarrow> int \<Rightarrow> list_query \<Rightarrow> 'b \<Rightarrow>
     ('b \<times> (string + list_result)) option" where
  "r2_list fuel le bk p policy nowSec q b =
     map_option (\<lambda>(b', res). (b', map_sum id (\<lambda>entries. paginateMetadata le entries q) res))
       (bucket_pages fuel bk p (list_entry bk p policy nowSec q) None [] b)"

text \<open>
  As an implementation of the interface, for a bound on the pages of a listing: a listing beyond the
  bound, where the code would still be reading, is reported as an error.
\<close>

definition within_fuel :: "'b \<Rightarrow> ('b \<times> (string + 'a)) option \<Rightarrow> 'b \<times> (string + 'a)" where
  "within_fuel b res = (case res of None \<Rightarrow> (b, Inl ''listing does not end'') | Some r \<Rightarrow> r)"

definition createR2CacheStore ::
    "('b \<Rightarrow> nat) \<Rightarrow> (string \<Rightarrow> string \<Rightarrow> bool) \<Rightarrow> 'b bucket \<Rightarrow> string option \<Rightarrow> js_num option \<Rightarrow> js_num option \<Rightarrow> 'b cache_store" where
  "createR2CacheStore pages le bk pre ttlSec maxBytes =
     (let p = normalizeR2Prefix pre; policy = normalizeCacheStorePolicy ttlSec maxBytes
      in \<lparr>cs_put = (\<lambda>now rq b. within_fuel b (r2_put (pages b) le bk p policy now rq b)),
          cs_get = r2_get bk p policy, cs_delete = r2_delete bk p policy,
          cs_list = (\<lambda>now q b. within_fuel b (r2_list (pages b) le bk p policy now q b))\<rparr>)"

end
