(* ===== verification/Persistence_Queue.thy ===== *)
theory Persistence_Queue
  imports Relay_Prelude
begin

text \<open>
  \<open>src/cache_persistence_queue.ts\<close>: tasks that write to the cache run one at a time, in the order they
  were enqueued, and are retried with a doubling delay. A task maps the state it works on to the
  next state and an error where it throws. Delays and the callbacks \<open>onRetry\<close> and \<open>onSettled\<close> are the
  reported events; the measured duration is not modelled.
\<close>

section \<open>Retrying one task\<close>

record queue_options =
  qo_maxRetries :: int
  qo_retryBaseDelayMs :: int
  qo_retryMaxDelayMs :: int

definition normalizeNonNegativeInt :: "js_num option \<Rightarrow> int \<Rightarrow> int" where
  "normalizeNonNegativeInt raw fallback = (case Option.bind raw finite_trunc of None \<Rightarrow> fallback | Some i \<Rightarrow> max 0 i)"

definition queue_options_of :: "js_num option \<Rightarrow> js_num option \<Rightarrow> js_num option \<Rightarrow> queue_options" where
  "queue_options_of maxRetries retryBaseDelayMs retryMaxDelayMs =
     (let base = normalizeNonNegativeInt retryBaseDelayMs 20
      in \<lparr>qo_maxRetries = normalizeNonNegativeInt maxRetries 2, qo_retryBaseDelayMs = base,
          qo_retryMaxDelayMs = max base (normalizeNonNegativeInt retryMaxDelayMs 500)\<rparr>)"

definition computeRetryDelayMs :: "queue_options \<Rightarrow> int \<Rightarrow> int" where
  "computeRetryDelayMs qo retryIndex =
     min (qo_retryMaxDelayMs qo) (qo_retryBaseDelayMs qo * 2 ^ nat (max 0 retryIndex))"

type_synonym ('s, 'e) task = "'s \<Rightarrow> 's \<times> 'e option"

datatype 'e queue_event =
    Retry (retry_count: int) (delay_ms: int) (retry_error: 'e)
  | Settled (settled_success: bool) (attempts: int) (settled_retries: int) (settled_error: "'e option")

text \<open>\<open>runWithRetry\<close>, from the given attempt on: the state after it, what it reported, its error.\<close>

function run_with_retry ::
    "queue_options \<Rightarrow> ('s, 'e) task \<Rightarrow> int \<Rightarrow> 's \<Rightarrow> 's \<times> 'e queue_event list \<times> 'e option" where
  "run_with_retry qo task attempt s =
     (case task s of
        (s', None) \<Rightarrow> (s', [Settled True (attempt + 1) attempt None], None)
      | (s', Some err) \<Rightarrow>
          if attempt \<ge> qo_maxRetries qo then (s', [Settled False (attempt + 1) attempt (Some err)], Some err)
          else let rest = run_with_retry qo task (attempt + 1) s'
            in (fst rest, Retry (attempt + 1) (computeRetryDelayMs qo attempt) err # fst (snd rest), snd (snd rest)))"
  by pat_completeness auto

termination
  by (relation "measure (\<lambda>(qo, _, attempt, _). nat (qo_maxRetries qo - attempt))") auto

declare run_with_retry.simps [simp del]

section \<open>The queue\<close>

text \<open>
  The chain of promises \<open>tail\<close>: the tasks not yet settled, in order; the head is the one that runs.
  A failed task does not stop the ones behind it (\<open>settled.catch(() => {})\<close>).
\<close>

record ('s, 'e) queue =
  qu_state :: 's
  qu_waiting :: "(nat \<times> ('s, 'e) task) list"
  qu_pending :: int
  qu_settled :: "(nat \<times> 'e option) list"

definition empty_queue :: "'s \<Rightarrow> ('s, 'e) queue" where
  "empty_queue s = \<lparr>qu_state = s, qu_waiting = [], qu_pending = 0, qu_settled = []\<rparr>"

definition enqueue :: "nat \<Rightarrow> ('s, 'e) task \<Rightarrow> ('s, 'e) queue \<Rightarrow> ('s, 'e) queue" where
  "enqueue i task q = q\<lparr>qu_waiting := qu_waiting q @ [(i, task)], qu_pending := qu_pending q + 1\<rparr>"

definition run_head :: "queue_options \<Rightarrow> ('s, 'e) queue \<Rightarrow> ('s, 'e) queue" where
  "run_head qo q =
     (case qu_waiting q of
        [] \<Rightarrow> q
      | (i, task) # rest \<Rightarrow>
          let res = run_with_retry qo task 0 (qu_state q)
          in q\<lparr>qu_state := fst res, qu_waiting := rest, qu_pending := qu_pending q - 1,
               qu_settled := qu_settled q @ [(i, snd (snd res))]\<rparr>)"

datatype ('s, 'e) queue_call = Enqueue nat "('s, 'e) task" | RunHead

definition queue_step :: "queue_options \<Rightarrow> ('s, 'e) queue \<Rightarrow> ('s, 'e) queue_call \<Rightarrow> ('s, 'e) queue" where
  "queue_step qo q c = (case c of Enqueue i task \<Rightarrow> enqueue i task q | RunHead \<Rightarrow> run_head qo q)"

section \<open>What retrying guarantees\<close>

text \<open>The states a task passes through when every attempt fails.\<close>

primrec failing_run :: "('s, 'e) task \<Rightarrow> nat \<Rightarrow> 's \<Rightarrow> 's option" where
  "failing_run task 0 s = Some s"
| "failing_run task (Suc k) s = (case task s of (s', None) \<Rightarrow> None | (s', Some _) \<Rightarrow> failing_run task k s')"

lemma options_nonneg: "0 \<le> qo_maxRetries (queue_options_of a b c)" "0 \<le> qo_retryBaseDelayMs (queue_options_of a b c)"
  by (simp_all add: queue_options_of_def normalizeNonNegativeInt_def Let_def split: option.split)

lemma run_with_retry_success:
  assumes "failing_run task k s = Some s1" "task s1 = (s2, None)" "attempt + int k \<le> qo_maxRetries qo"
  shows "fst (run_with_retry qo task attempt s) = s2 \<and> snd (snd (run_with_retry qo task attempt s)) = None \<and>
    length (fst (snd (run_with_retry qo task attempt s))) = Suc k"
  using assms
proof (induction k arbitrary: attempt s)
  case 0
  then show ?case by (simp add: run_with_retry.simps [of _ _ attempt])
next
  case (Suc k)
  obtain s' err where t: "task s = (s', Some err)"
    using Suc.prems(1) by (cases "task s"; cases "snd (task s)") auto
  then show ?case
    using Suc.prems Suc.IH [of s' "attempt + 1"] by (simp add: run_with_retry.simps [of _ _ attempt] Let_def)
qed

lemma run_with_retry_failure:
  assumes "snd (snd (run_with_retry qo task attempt s)) = Some err" "0 \<le> qo_maxRetries qo" "attempt \<le> qo_maxRetries qo"
  shows "\<exists>s1. failing_run task (Suc (nat (qo_maxRetries qo - attempt))) s = Some s1 \<and>
    s1 = fst (run_with_retry qo task attempt s)"
  using assms
proof (induction qo task attempt s rule: run_with_retry.induct)
  case (1 qo task attempt s)
  obtain s' r where t: "task s = (s', r)" by (cases "task s")
  show ?case
  proof (cases "attempt \<ge> qo_maxRetries qo")
    case True
    then show ?thesis
      using "1.prems" t by (cases r) (auto simp: run_with_retry.simps [of _ _ attempt])
  next
    case False
    then have "nat (qo_maxRetries qo - attempt) = Suc (nat (qo_maxRetries qo - (attempt + 1)))" by simp
    then show ?thesis
      using "1.IH" [OF t [symmetric]] "1.prems" t False
      by (cases r) (auto simp: run_with_retry.simps [of _ _ attempt] Let_def)
  qed
qed


definition flaky :: "nat \<Rightarrow> (nat, string) task" where
  "flaky k n = (Suc n, if n < k then Some ''offline'' else None)"


section \<open>The delays\<close>

lemma delay_bounds:
  assumes "0 \<le> qo_retryBaseDelayMs qo" "qo_retryBaseDelayMs qo \<le> qo_retryMaxDelayMs qo"
  shows "qo_retryBaseDelayMs qo \<le> computeRetryDelayMs qo i" "computeRetryDelayMs qo i \<le> qo_retryMaxDelayMs qo"
    "i \<le> j \<Longrightarrow> computeRetryDelayMs qo i \<le> computeRetryDelayMs qo j"
proof -
  have "qo_retryBaseDelayMs qo * 1 \<le> qo_retryBaseDelayMs qo * 2 ^ nat (max 0 i)"
    using assms(1) by (intro mult_left_mono) simp_all
  then show "qo_retryBaseDelayMs qo \<le> computeRetryDelayMs qo i" using assms(2) by (simp add: computeRetryDelayMs_def)
  show "computeRetryDelayMs qo i \<le> qo_retryMaxDelayMs qo" by (simp add: computeRetryDelayMs_def)
  assume "i \<le> j"
  then have "qo_retryBaseDelayMs qo * 2 ^ nat (max 0 i) \<le> qo_retryBaseDelayMs qo * 2 ^ nat (max 0 j)"
    using assms(1) by (intro mult_left_mono power_increasing nat_mono) simp_all
  then show "computeRetryDelayMs qo i \<le> computeRetryDelayMs qo j" by (simp add: computeRetryDelayMs_def)
qed

section \<open>The queue is first in, first out\<close>

definition queue_ok :: "('s, 'e) queue \<Rightarrow> bool" where
  "queue_ok q \<longleftrightarrow> qu_pending q = int (length (qu_waiting q))"

lemma queue_step_ok: "queue_ok q \<Longrightarrow> queue_ok (queue_step qo q c)"
  by (auto simp: queue_ok_def queue_step_def enqueue_def run_head_def Let_def split: queue_call.split list.split)

interpretation persistence: machine "queue_step qo" queue_ok "\<lambda>_. True" for qo
  by unfold_locales (rule queue_step_ok)

text \<open>The tickets of all tasks a queue has taken, settled and waiting.\<close>

definition tickets :: "('s, 'e) queue \<Rightarrow> nat list" where
  "tickets q = map fst (qu_settled q) @ map fst (qu_waiting q)"

fun enqueued :: "('s, 'e) queue_call list \<Rightarrow> nat list" where
  "enqueued [] = []"
| "enqueued (Enqueue i task # cs) = i # enqueued cs"
| "enqueued (RunHead # cs) = enqueued cs"

lemma tickets_step: "tickets (queue_step qo q c) = tickets q @ enqueued [c]"
  by (cases c) (auto simp: tickets_def queue_step_def enqueue_def run_head_def Let_def split: list.split)

lemma tickets_run: "tickets (foldl (queue_step qo) q cs) = tickets q @ enqueued cs"
proof (induction cs arbitrary: q)
  case (Cons c cs)
  have "enqueued (c # cs) = enqueued [c] @ enqueued cs" by (cases c) simp_all
  then show ?case using Cons by (simp add: tickets_step)
qed simp

text \<open>
  The persistence queue is first in, first out and loses nothing: after any sequence of
  enqueues and completions, the settled tasks followed by the waiting ones are exactly the enqueued
  tasks in their order, whether earlier tasks failed or not, and the pending count is the number of
  waiting tasks.
\<close>

theorem persistence_queue_is_fifo:
  "let q = foldl (queue_step qo) (empty_queue s) cs in
     map fst (qu_settled q) @ map fst (qu_waiting q) = enqueued cs \<and> qu_pending q = int (length (qu_waiting q))"
proof -
  have "queue_ok (foldl (queue_step qo) (empty_queue s) cs)"
    by (rule persistence.run_inv) (simp_all add: queue_ok_def empty_queue_def)
  then show ?thesis
    using tickets_run [of qo "empty_queue s" cs] by (simp add: Let_def tickets_def queue_ok_def empty_queue_def)
qed

end
