(* ===== verification/Cache_Adapter.thy ===== *)
theory Cache_Adapter
  imports Issue_Projection Persistence_Queue Relay_Config
begin

text \<open>
  \<open>src/relay_cache_adapter.ts\<close>: every committed message is written to the cache store, and an issue
  message is projected into an event record, its issue's snapshot and the room's issue cursor; peers
  read the records back with \<open>pullIssues\<close> and \<open>syncIssues\<close>. The adapter's own state is the store's and
  the map \<open>issueCursorByRoom\<close>. The store is any implementation of the interface \<open>cache_store\<close>; an
  operation that throws answers with an error. One reading of the clock serves a whole operation.
  The loops over the pages of a listing carry fuel: a store that never ends its listing would keep
  them running.
\<close>

section \<open>The source policy\<close>

datatype issue_origin = OriginGitHub | OriginBit

definition parseIssueSource :: "json \<Rightarrow> issue_origin option" where
  "parseIssueSource payload =
     (case str_opt (jprop payload ''source'') of
        None \<Rightarrow> None
      | Some s \<Rightarrow>
          let source = to_lower (js_trim s)
          in if source = ''github'' then Some OriginGitHub else if source = ''bit'' then Some OriginBit else None)"

definition isOlderByTimestamp :: "int option \<Rightarrow> int option \<Rightarrow> bool" where
  "isOlderByTimestamp incoming existing =
     (case (incoming, existing) of (Some a, Some b) \<Rightarrow> a < b | _ \<Rightarrow> False)"

definition preferred_origin :: "issue_source \<Rightarrow> issue_origin option" where
  "preferred_origin policy = (case policy of LastWrite \<Rightarrow> None | FromGithub \<Rightarrow> Some OriginGitHub | FromBit \<Rightarrow> Some OriginBit)"

definition shouldUpdateSnapshotBySourcePolicy ::
    "issue_source \<Rightarrow> issue_origin option \<Rightarrow> issue_origin option \<Rightarrow> int option \<Rightarrow> int option \<Rightarrow> bool" where
  "shouldUpdateSnapshotBySourcePolicy policy incomingSource existingSource incomingMs existingMs =
     (if isOlderByTimestamp incomingMs existingMs then False
      else case preferred_origin policy of
          None \<Rightarrow> True
        | Some preferred \<Rightarrow>
            if existingSource = Some preferred \<and> incomingSource \<noteq> Some preferred then False else True)"

section \<open>Writing\<close>

type_synonym 's ad_state = "'s \<times> (string, int) omap"

definition put_json ::
    "'s cache_store \<Rightarrow> relay_env \<Rightarrow> int \<Rightarrow> string \<Rightarrow> string \<Rightarrow> string \<Rightarrow> string \<Rightarrow> json \<Rightarrow> 's \<Rightarrow> 's \<times> (string + unit)" where
  "put_json cs env now kind key room ref value =
     cs_put cs now \<lparr>pq_kind = kind, pq_key = key, pq_body = json_bytes (num_text env) value, pq_room = Some room,
       pq_ref = Some ref, pq_contentHash = Some (sha256Hex (digest env) (canonicalizeJson (num_text env) value)),
       pq_contentType = Some ''application/json'', pq_updatedAt = Some (of_integer now)\<rparr>"

definition readIssueCursorFromCache :: "'s cache_store \<Rightarrow> int \<Rightarrow> string \<Rightarrow> 's \<Rightarrow> 's \<times> (string + int)" where
  "readIssueCursorFromCache cs now room st =
     (let res = cs_get cs now ''object'' (issueCursorStorageKey room) st
      in (fst res,
          case snd res of
            Inl err \<Rightarrow> Inl err
          | Inr None \<Rightarrow> Inr 0
          | Inr (Some cached) \<Rightarrow>
              (case parseIssueCacheCursorRecord cached of
                 None \<Rightarrow> Inr 0
               | Some parsed \<Rightarrow> Inr (if ic_room parsed \<noteq> room then 0 else ic_cursor parsed))))"

definition cursor_of :: "(string, int) omap \<Rightarrow> string \<Rightarrow> int" where
  "cursor_of m room = (case map_of m room of None \<Rightarrow> 0 | Some c \<Rightarrow> c)"

definition currentIssueCursor :: "'s cache_store \<Rightarrow> int \<Rightarrow> string \<Rightarrow> 's ad_state \<Rightarrow> 's ad_state \<times> int" where
  "currentIssueCursor cs now room s =
     (let res = readIssueCursorFromCache cs now room (fst s);
          persisted = (case snd res of Inl _ \<Rightarrow> 0 | Inr c \<Rightarrow> c);
          current = max (cursor_of (snd s) room) persisted
      in ((fst res, AList.update room current (snd s)), current))"

definition nextIssueCursor :: "'s cache_store \<Rightarrow> int \<Rightarrow> string \<Rightarrow> int \<Rightarrow> 's ad_state \<Rightarrow> 's ad_state \<times> int" where
  "nextIssueCursor cs now room hint s =
     (let res = currentIssueCursor cs now room s; next = max (snd res) (max 0 (hint - 1)) + 1
      in ((fst (fst res), AList.update room next (snd (fst res))), next))"

definition keeps_snapshot :: "issue_source \<Rightarrow> relay_env \<Rightarrow> envelope \<Rightarrow> string + store_object option \<Rightarrow> bool" where
  "keeps_snapshot policy env e existing =
     (case existing of
        Inr (Some cached) \<Rightarrow>
          (case parseIssueCacheSnapshotRecord cached of
             Some parsed \<Rightarrow>
               \<not> shouldUpdateSnapshotBySourcePolicy policy (parseIssueSource (env_payload e))
                   (parseIssueSource (env_payload (iss_envelope parsed)))
                   (parseIssueSourceUpdatedAtMs (date_parse env) (env_payload e)) (iss_source_updated_at_ms parsed)
           | None \<Rightarrow> False)
      | _ \<Rightarrow> False)"

definition event_of :: "relay_env \<Rightarrow> int \<Rightarrow> envelope \<Rightarrow> int \<Rightarrow> issue_event" where
  "event_of env now e cursor =
     \<lparr>ie_room = env_room e, ie_cursor = cursor, ie_issue_id = extractIssueIdFromEnvelope e, ie_action = deriveIssueAction e,
      ie_source_updated_at_ms = parseIssueSourceUpdatedAtMs (date_parse env) (env_payload e), ie_updated_at = now, ie_envelope = e\<rparr>"

definition snapshot_of :: "relay_env \<Rightarrow> int \<Rightarrow> envelope \<Rightarrow> int \<Rightarrow> issue_snapshot" where
  "snapshot_of env now e cursor =
     \<lparr>iss_room = env_room e, iss_issue_id = extractIssueIdFromEnvelope e, iss_last_cursor = cursor,
      iss_source_updated_at_ms = parseIssueSourceUpdatedAtMs (date_parse env) (env_payload e), iss_updated_at = now,
      iss_envelope = e\<rparr>"

text \<open>The event, the snapshot unless the policy keeps the stored one, and the cursor, in this order.\<close>

definition persistIssueProjectionToCache ::
    "'s cache_store \<Rightarrow> relay_env \<Rightarrow> issue_source \<Rightarrow> int \<Rightarrow> envelope \<Rightarrow> int \<Rightarrow> 's ad_state \<Rightarrow> 's ad_state \<times> (string + unit)" where
  "persistIssueProjectionToCache cs env policy now e hint s =
     (let room = env_room e; issueId = extractIssueIdFromEnvelope e;
          nx = nextIssueCursor cs now room hint s; cursor = snd nx; m = snd (fst nx);
          put_event = put_json cs env now ''object'' (issueEventStorageKey room cursor (env_id e)) room
            (''issue_event:'' @ issueId) (issue_event_record (event_of env now e cursor)) (fst (fst nx))
      in case snd put_event of
          Inl err \<Rightarrow> ((fst put_event, m), Inl err)
        | Inr _ \<Rightarrow>
            let existing = cs_get cs now ''object'' (issueSnapshotStorageKey room issueId) (fst put_event);
                put_snapshot = (if keeps_snapshot policy env e (snd existing) then (fst existing, Inr ())
                  else put_json cs env now ''object'' (issueSnapshotStorageKey room issueId) room ''issue_snapshot''
                         (issue_snapshot_record (snapshot_of env now e cursor)) (fst existing))
            in case snd put_snapshot of
                Inl err \<Rightarrow> ((fst put_snapshot, m), Inl err)
              | Inr _ \<Rightarrow>
                  let put_cursor = put_json cs env now ''object'' (issueCursorStorageKey room) room ''issue_cursor''
                        (issue_cursor_record \<lparr>ic_room = room, ic_cursor = cursor, ic_updated_at = now\<rparr>) (fst put_snapshot)
                  in ((fst put_cursor, m), snd put_cursor))"

definition message_key :: "envelope \<Rightarrow> string" where
  "message_key e = env_room e @ ''/'' @ env_id e"

text \<open>The task \<open>persistEnvelope\<close> hands to the queue.\<close>

definition persist_task ::
    "'s cache_store \<Rightarrow> relay_env \<Rightarrow> issue_source \<Rightarrow> int \<Rightarrow> envelope \<Rightarrow> int \<Rightarrow> ('s ad_state, string) task" where
  "persist_task cs env policy now e hint s =
     (let kind = (if isIssueTopic (env_topic e) then ''issue'' else ''object'');
          put = put_json cs env now kind (message_key e) (env_room e) (env_topic e) (envelope_json e) (fst s)
      in case snd put of
          Inl err \<Rightarrow> ((fst put, snd s), Some err)
        | Inr _ \<Rightarrow>
            if kind = ''issue'' then
              (let res = persistIssueProjectionToCache cs env policy now e hint (fst put, snd s)
               in (fst res, case snd res of Inl err \<Rightarrow> Some err | Inr _ \<Rightarrow> None))
            else ((fst put, snd s), None))"

definition persistEnvelope ::
    "'s cache_store option \<Rightarrow> relay_env \<Rightarrow> issue_source \<Rightarrow> queue_options \<Rightarrow> int \<Rightarrow> envelope \<Rightarrow> int \<Rightarrow> 's ad_state \<Rightarrow> 's ad_state" where
  "persistEnvelope store env policy qo now e hint s =
     (case store of None \<Rightarrow> s | Some cs \<Rightarrow> fst (run_with_retry qo (persist_task cs env policy now e hint) 0 s))"

section \<open>Reading\<close>

text \<open>The entries of one page, read until the limit is reached; an entry that cannot be read is skipped.\<close>

fun read_events ::
    "'s cache_store \<Rightarrow> int \<Rightarrow> string \<Rightarrow> int \<Rightarrow> int \<Rightarrow> store_metadata list \<Rightarrow> issue_event list \<Rightarrow> 's \<Rightarrow> 's \<times> issue_event list" where
  "read_events cs now room after limit [] events st = (st, events)"
| "read_events cs now room after limit (entry # rest) events st =
     (case parseIssueEventCursorFromKey room (sm_key entry) of
        None \<Rightarrow> read_events cs now room after limit rest events st
      | Some keyCursor \<Rightarrow>
          if keyCursor \<le> after then read_events cs now room after limit rest events st
          else let res = cs_get cs now ''object'' (sm_key entry) st
            in case snd res of
                Inr (Some cached) \<Rightarrow>
                  (case parseIssueCacheEventRecord cached of
                     None \<Rightarrow> read_events cs now room after limit rest events (fst res)
                   | Some r \<Rightarrow>
                       if ie_room r \<noteq> room \<or> ie_cursor r \<le> after
                       then read_events cs now room after limit rest events (fst res)
                       else if int (length (events @ [r])) \<ge> limit then (fst res, events @ [r])
                       else read_events cs now room after limit rest (events @ [r]) (fst res))
              | _ \<Rightarrow> read_events cs now room after limit rest events (fst res))"

definition page_query :: "string \<Rightarrow> string \<Rightarrow> int \<Rightarrow> string option \<Rightarrow> list_query" where
  "page_query room p pageSize cursor =
     \<lparr>lq_kind = Some ''object'', lq_prefix = Some p, lq_room = Some room, lq_limit = Some (of_integer pageSize),
      lq_cursor = truthy cursor\<rparr>"

text \<open>
  The loop over the pages of a listing, for any way of reading a page into the list of results:
  \<open>None\<close> when the fuel runs out.
\<close>

fun load_pages ::
    "nat \<Rightarrow> 's cache_store \<Rightarrow> int \<Rightarrow> (string option \<Rightarrow> list_query) \<Rightarrow> (store_metadata list \<Rightarrow> 'r list \<Rightarrow> 's \<Rightarrow> 's \<times> 'r list) \<Rightarrow>
     int \<Rightarrow> string option \<Rightarrow> 'r list \<Rightarrow> 's \<Rightarrow> ('s \<times> (string + 'r list)) option" where
  "load_pages 0 cs now query read limit cursor results st = None"
| "load_pages (Suc fuel) cs now query read limit cursor results st =
     (if int (length results) \<ge> limit then Some (st, Inr results)
      else let listed = cs_list cs now (query cursor) st
        in case snd listed of
            Inl err \<Rightarrow> Some (fst listed, Inl err)
          | Inr page \<Rightarrow>
              let res = read (lr_entries page) results (fst listed)
              in if int (length (snd res)) \<ge> limit \<or> lr_cursor page = None then Some (fst res, Inr (snd res))
                 else load_pages fuel cs now query read limit (lr_cursor page) (snd res) (fst res))"

definition loadIssueEventsFromCache ::
    "nat \<Rightarrow> 's cache_store \<Rightarrow> int \<Rightarrow> string \<Rightarrow> int \<Rightarrow> int \<Rightarrow> 's \<Rightarrow> ('s \<times> (string + issue_event list \<times> int)) option" where
  "loadIssueEventsFromCache fuel cs now room after limit st =
     map_option (\<lambda>(st', res). (st',
       case res of
         Inl err \<Rightarrow> Inl err
       | Inr events \<Rightarrow>
           let sorted = sort_key ie_cursor events
           in Inr (sorted, if sorted = [] then after else ie_cursor (last sorted))))
       (load_pages fuel cs now (page_query room (''issue/events/'' @ room @ ''/'') (max 100 (limit * 2)))
          (read_events cs now room after limit) limit None [] st)"

fun read_snapshots ::
    "'s cache_store \<Rightarrow> int \<Rightarrow> string \<Rightarrow> int \<Rightarrow> store_metadata list \<Rightarrow> issue_snapshot list \<Rightarrow> 's \<Rightarrow> 's \<times> issue_snapshot list" where
  "read_snapshots cs now room limit [] snapshots st = (st, snapshots)"
| "read_snapshots cs now room limit (entry # rest) snapshots st =
     (let res = cs_get cs now ''object'' (sm_key entry) st
      in case snd res of
          Inr (Some cached) \<Rightarrow>
            (case parseIssueCacheSnapshotRecord cached of
               None \<Rightarrow> read_snapshots cs now room limit rest snapshots (fst res)
             | Some r \<Rightarrow>
                 if iss_room r \<noteq> room then read_snapshots cs now room limit rest snapshots (fst res)
                 else if int (length (snapshots @ [r])) \<ge> limit then (fst res, snapshots @ [r])
                 else read_snapshots cs now room limit rest (snapshots @ [r]) (fst res))
        | _ \<Rightarrow> read_snapshots cs now room limit rest snapshots (fst res))"

definition loadIssueSnapshotsFromCache ::
    "(string \<Rightarrow> string \<Rightarrow> bool) \<Rightarrow> nat \<Rightarrow> 's cache_store \<Rightarrow> int \<Rightarrow> string \<Rightarrow> int \<Rightarrow> 's \<Rightarrow> ('s \<times> (string + issue_snapshot list)) option" where
  "loadIssueSnapshotsFromCache le fuel cs now room limit st =
     map_option (\<lambda>(st', res). (st', map_sum id (sort_by (\<lambda>a b. le (iss_issue_id a) (iss_issue_id b))) res))
       (load_pages fuel cs now (page_query room (''issue/snapshots/'' @ room @ ''/'') (max 100 limit))
          (read_snapshots cs now room limit) limit None [] st)"

definition nothing_new :: "int \<Rightarrow> issue_sync_result" where
  "nothing_new after = \<lparr>sr_nextCursor = after, sr_roomCursor = after, sr_events = [], sr_snapshots = []\<rparr>"

definition syncIssues ::
    "(string \<Rightarrow> string \<Rightarrow> bool) \<Rightarrow> nat \<Rightarrow> 's cache_store option \<Rightarrow> int \<Rightarrow> string \<Rightarrow> int \<Rightarrow> int \<Rightarrow> int \<Rightarrow> 's ad_state \<Rightarrow>
     ('s ad_state \<times> issue_sync_result) option" where
  "syncIssues le fuel store now room after limit snapshotLimit s =
     (let a = max 0 after; l = max 1 limit; sl = max 1 snapshotLimit
      in case store of
          None \<Rightarrow> Some (s, nothing_new a)
        | Some cs \<Rightarrow>
            (case loadIssueEventsFromCache fuel cs now room a l (fst s) of
               None \<Rightarrow> None
             | Some (st1, Inl _) \<Rightarrow> Some ((st1, snd s), nothing_new a)
             | Some (st1, Inr (events, next)) \<Rightarrow>
                 (case loadIssueSnapshotsFromCache le fuel cs now room sl st1 of
                    None \<Rightarrow> None
                  | Some (st2, Inl _) \<Rightarrow> Some ((st2, snd s), nothing_new a)
                  | Some (st2, Inr snapshots) \<Rightarrow>
                      let cur = currentIssueCursor cs now room (st2, snd s)
                      in Some (fst cur, \<lparr>sr_nextCursor = next, sr_roomCursor = snd cur, sr_events = events,
                                         sr_snapshots = snapshots\<rparr>))))"

fun read_issues :: "'s cache_store \<Rightarrow> int \<Rightarrow> string \<Rightarrow> store_metadata list \<Rightarrow> 's \<Rightarrow> 's \<times> envelope list" where
  "read_issues cs now room [] st = (st, [])"
| "read_issues cs now room (entry # rest) st =
     (let res = cs_get cs now ''issue'' (sm_key entry) st;
          more = read_issues cs now room rest (fst res);
          found = (case snd res of
             Inr (Some cached) \<Rightarrow>
               (case parseCachedIssueEnvelope cached of
                  Some e \<Rightarrow> if env_room e = room \<and> isIssueTopic (env_topic e) then [e] else []
                | None \<Rightarrow> [])
           | _ \<Rightarrow> [])
      in (fst more, found @ snd more))"

definition pullIssues ::
    "'s cache_store option \<Rightarrow> int \<Rightarrow> string \<Rightarrow> int \<Rightarrow> int \<Rightarrow> 's \<Rightarrow> 's \<times> int \<times> envelope list" where
  "pullIssues store now room after limit st =
     (let a = max 0 after
      in case store of
          None \<Rightarrow> (st, a, [])
        | Some cs \<Rightarrow>
            let listed = cs_list cs now \<lparr>lq_kind = Some ''issue'', lq_prefix = None, lq_room = Some room,
                  lq_limit = Some (of_integer (max 1 limit)), lq_cursor = Some (int_str a)\<rparr> st
            in case snd listed of
                Inl _ \<Rightarrow> (fst listed, a, [])
              | Inr page \<Rightarrow>
                  let read = read_issues cs now room (lr_entries page) (fst listed);
                      past = a + int (length (lr_entries page))
                  in (fst read,
                      case lr_cursor page of
                        None \<Rightarrow> past
                      | Some c \<Rightarrow> (case finite_trunc (js_parse_int c) of None \<Rightarrow> past | Some n \<Rightarrow> n),
                      snd read))"

end
