(* ===== verification/R2_Facts.thy ===== *)
theory R2_Facts
  imports R2_Store Cache_Facts
begin

text \<open>
  What the bucket store promises over a bucket that does what R2 documents, the contract \<open>r2_bucket\<close>: a
  put object reads back as it was put, listings are in the order of the keys, page by page, and a
  page's cursor stands behind its last key. Without a policy the bucket store then answers every
  sequence of calls as the in-memory store does, and it serves the cache adapter. The
  listings of the contract carry the custom metadata; R2 leaves it out unless asked, and then a
  listing by room finds nothing.
\<close>

section \<open>The contract of the bucket\<close>

definition listed_of :: "bool \<Rightarrow> string \<Rightarrow> r2_object \<Rightarrow> r2_listed" where
  "listed_of inc key ob =
     \<lparr>rl_key = key, rl_size = (case ro_size ob of Some n \<Rightarrow> n | None \<Rightarrow> int (length (ro_body ob))),
      rl_uploaded = ro_uploaded ob, rl_contentType = (if inc then ro_contentType ob else None),
      rl_customMetadata = (if inc then ro_customMetadata ob else None)\<rparr>"

text \<open>The keys of a listing from a cursor on.\<close>

definition keys_from :: "(string \<Rightarrow> string) \<Rightarrow> string list \<Rightarrow> string \<Rightarrow> string option \<Rightarrow> string list" where
  "keys_from after ks p c =
     filter (\<lambda>k. prefix p k \<and> (case truthy c of None \<Rightarrow> True | Some c \<Rightarrow> after c < k)) (sort ks)"

lemma above_last_taken:
  fixes xs :: "'a::linorder list"
  assumes "sorted_wrt (<) xs" "take n xs \<noteq> []"
  shows "filter (\<lambda>k. last (take n xs) < k) xs = drop n xs"
proof -
  let ?l = "last (take n xs)"
  have ap: "sorted_wrt (<) (take n xs @ drop n xs)" using assms(1) by simp
  have t: "sorted_wrt (<) (butlast (take n xs) @ [?l])" using ap assms(2) by (simp add: sorted_wrt_append)
  have "x \<le> ?l" if "x \<in> set (take n xs)" for x
  proof -
    from that have "x \<in> set (butlast (take n xs) @ [?l])" using assms(2) by simp
    then show ?thesis using t by (auto simp: sorted_wrt_append)
  qed
  then have "filter (\<lambda>k. ?l < k) (take n xs) = []" by (auto simp: filter_empty_conv not_less)
  moreover have "filter (\<lambda>k. ?l < k) (drop n xs) = drop n xs"
    using ap [unfolded sorted_wrt_append] last_in_set [OF assms(2)] by (auto simp: filter_id_conv)
  ultimately show ?thesis by (metis append_Nil append_take_drop_id filter_append)
qed

lemma keys_from_next:
  assumes "distinct ks" "n < length (keys_from after ks p c)" "0 < n" "c' \<noteq> []" "after c' = last (take n (keys_from after ks p c))"
  shows "keys_from after ks p (Some c') = drop n (keys_from after ks p c)"
proof -
  let ?all = "keys_from after ks p c" and ?l = "last (take n (keys_from after ks p c))"
  have strict: "sorted_wrt (<) ?all"
    unfolding keys_from_def using assms(1) by (intro sorted_wrt_filter) (simp add: strict_sorted_iff)
  have take: "take n ?all \<noteq> []" using assms(2,3) by (cases ?all) auto
  have mem: "k \<in> set ?all \<Longrightarrow> prefix p k \<and> (case truthy c of None \<Rightarrow> True | Some c \<Rightarrow> after c < k)" for k
    by (simp add: keys_from_def)
  have "?l \<in> set ?all" using last_in_set [OF take] set_take_subset by fastforce
  then have l: "case truthy c of None \<Rightarrow> True | Some c \<Rightarrow> after c < ?l" using mem by blast
  have "keys_from after ks p (Some c') = filter (\<lambda>k. ?l < k) ?all"
    unfolding keys_from_def [of after ks p c] keys_from_def [of after ks p "Some c'"] filter_filter
  proof (rule filter_cong [OF refl])
    fix k
    have "truthy (Some c') = Some c'" using assms(4) by (simp add: truthy_def)
    then show "(prefix p k \<and> (case truthy (Some c') of None \<Rightarrow> True | Some c \<Rightarrow> after c < k)) \<longleftrightarrow>
      (prefix p k \<and> (case truthy c of None \<Rightarrow> True | Some c \<Rightarrow> after c < k)) \<and>
      last (take n (filter (\<lambda>k. prefix p k \<and> (case truthy c of None \<Rightarrow> True | Some c \<Rightarrow> after c < k)) (sort ks))) < k"
      using l assms(5) by (auto simp flip: keys_from_def split: option.splits)
  qed
  then show ?thesis using above_last_taken [OF strict take] by simp
qed

section \<open>An object and its metadata\<close>

definition object_metadata :: "int \<Rightarrow> string \<Rightarrow> string \<Rightarrow> r2_object \<Rightarrow> store_metadata" where
  "object_metadata nowSec kind key ob =
     toMetadataFromR2Object nowSec kind key (case ro_size ob of Some n \<Rightarrow> n | None \<Rightarrow> int (length (ro_body ob)))
       (ro_uploaded ob) (ro_contentType ob) (ro_customMetadata ob)"

lemma listed_metadata_object: "listed_metadata nowSec kind key (listed_of True k ob) = object_metadata nowSec kind key ob"
  by (simp add: listed_metadata_def listed_of_def object_metadata_def)

text \<open>Filed under its own kind and key, and with a time of its own, so that it reads the same whenever it is read.\<close>

definition object_filed :: "string \<Rightarrow> string \<Rightarrow> r2_object \<Rightarrow> bool" where
  "object_filed kind key ob \<longleftrightarrow>
     (let m = object_metadata 0 kind key ob in (\<forall>now. object_metadata now kind key ob = m) \<and> sm_kind m = kind \<and> sm_key m = key)"

lemma truthy_truthy [simp]: "truthy (truthy v) = truthy v"
  by (simp add: truthy_def split: option.split)

lemma truthy_None [simp]: "truthy None = None"
  by (simp add: truthy_def)

lemma truthy_Some: "truthy v = Some x \<Longrightarrow> truthy (Some x) = Some x"
  by (auto simp: truthy_def split: option.splits if_splits)

lemma optional_entry_lookup: "map_of (optional_entry n v) k = (if k = n then truthy v else None)"
  by (auto simp: optional_entry_def split: option.split)

lemma put_object_metadata:
  assumes "kind \<in> set VALID_KINDS" "key \<noteq> []" "time_ok (put_time (pq_updatedAt rq) now)"
  shows "object_metadata now' kind key \<lparr>ro_body = pq_body rq, ro_size = Some (int (length (pq_body rq))), ro_uploaded = up,
      ro_contentType = truthy (pq_contentType rq), ro_customMetadata = Some (toR2Metadata now rq kind key)\<rparr> = put_metadata now rq kind key"
proof -
  have "truthy (Some key) = Some key" using assms(2) by (simp add: truthy_def)
  then show ?thesis
    using assms(1,3) by (simp add: object_metadata_def toMetadataFromR2Object_def toR2Metadata_def Let_def map_of_append
        map_add_def optional_entry_lookup parseUpdatedAt_def time_ok_def js_parse_int_int_str put_metadata_def truthy_Some split: option.split)
qed

lemma put_object_filed:
  assumes "kind \<in> set VALID_KINDS" "key \<noteq> []" "time_ok (put_time (pq_updatedAt rq) now)"
  shows "object_filed kind key \<lparr>ro_body = pq_body rq, ro_size = Some (int (length (pq_body rq))), ro_uploaded = up,
      ro_contentType = truthy (pq_contentType rq), ro_customMetadata = Some (toR2Metadata now rq kind key)\<rparr>"
  by (simp add: object_filed_def Let_def put_object_metadata [OF assms]) (simp add: put_metadata_def)

lemma parse_to_r2_key: "kind \<in> set VALID_KINDS \<Longrightarrow> key \<noteq> [] \<Longrightarrow> parseR2Key p (toR2Key p kind key) = Some (kind, key)"
  using from_to_storage_key [of kind key] by (simp add: parseR2Key_def toR2Key_def toStorageKey_def)

lemma toR2Key_inj:
  "kind \<in> set VALID_KINDS \<Longrightarrow> kind' \<in> set VALID_KINDS \<Longrightarrow> toR2Key p kind key = toR2Key p kind' key' \<longleftrightarrow> kind = kind' \<and> key = key'"
  using toStorageKey_inj [of kind kind' key key'] by (simp add: toR2Key_def toStorageKey_def)

lemma other_key:
  "kind \<in> set VALID_KINDS \<Longrightarrow> k \<noteq> (kind, key) \<Longrightarrow> fst k \<in> set VALID_KINDS \<Longrightarrow> toR2Key p (fst k) (snd k) \<noteq> toR2Key p kind key"
  by (cases k) (simp add: toR2Key_inj)

lemma no_policy_fields [simp]: "sp_ttlSec no_policy = None" "sp_maxBytes no_policy = None"
  by (simp_all add: no_policy_def)

section \<open>Operations over a bucket that keeps the contract\<close>

text \<open>
  A bucket whose operations do not fail. The state abstracts to the map \<open>content\<close>, with the keys in
  use listed by \<open>keys\<close>; \<open>after c\<close> is the key the cursor \<open>c\<close> stands behind.
\<close>

locale r2_bucket =
  fixes bk :: "'b bucket" and content :: "'b \<Rightarrow> string \<Rightarrow> r2_object option" and keys :: "'b \<Rightarrow> string list"
    and after :: "string \<Rightarrow> string" and inc :: bool
  assumes put_stores: "\<exists>b' up. bk_put bk key body ct custom b = (b', Inr ()) \<and> content b' = (content b)(key \<mapsto>
      \<lparr>ro_body = body, ro_size = Some (int (length body)), ro_uploaded = up, ro_contentType = ct, ro_customMetadata = Some custom\<rparr>)"
    and get_finds: "bk_get bk key b = (b, Inr (content b key))"
    and delete_removes: "\<exists>b'. bk_delete bk key b = (b', Inr ()) \<and> content b' = (content b)(key := None)"
    and keys_content: "distinct (keys b)" "set (keys b) = dom (content b)"
    and list_pages: "0 < limit \<Longrightarrow> \<exists>n>0. \<exists>pg. bk_list bk p limit c b = (b, Inr pg) \<and>
      (let ks = keys_from after (keys b) p c
       in rp_objects pg = map (\<lambda>k. listed_of inc k (the (content b k))) (take n ks) \<and> rp_truncated pg = (n < length ks) \<and>
          (n < length ks \<longrightarrow> (\<exists>c'. rp_cursor pg = Some c' \<and> c' \<noteq> [] \<and> after c' = last (take n ks))))"
begin

lemma each_object_pure:
  assumes "\<And>ob acc. step ob acc b = (b, Inr (acc @ f ob))"
  shows "each_object step obs acc b = (b, Inr (acc @ concat (map f obs)))"
  by (induction obs arbitrary: acc) (simp_all add: assms)

text \<open>The loop over the pages ends, and sees every object under the prefix once, in the order of the keys.\<close>

lemma bucket_pages_all:
  assumes "\<And>ob acc. step ob acc b = (b, Inr (acc @ f ob))" "length (keys_from after (keys b) p c) < fuel"
  shows "bucket_pages fuel bk p step c acc b =
    Some (b, Inr (acc @ concat (map (\<lambda>k. f (listed_of inc k (the (content b k)))) (keys_from after (keys b) p c))))"
  using assms(2)
proof (induction fuel arbitrary: c acc)
  case (Suc fuel)
  let ?ks = "keys_from after (keys b) p c" and ?g = "\<lambda>k. f (listed_of inc k (the (content b k)))"
  obtain n pg where n: "0 < n" "bk_list bk p 1000 c b = (b, Inr pg)"
    "rp_objects pg = map (\<lambda>k. listed_of inc k (the (content b k))) (take n ?ks)" "rp_truncated pg = (n < length ?ks)"
    "n < length ?ks \<longrightarrow> (\<exists>c'. rp_cursor pg = Some c' \<and> c' \<noteq> [] \<and> after c' = last (take n ?ks))"
    using list_pages [of 1000 p c b] by (auto simp: Let_def)
  have objs: "each_object step (rp_objects pg) acc b = (b, Inr (acc @ concat (map ?g (take n ?ks))))"
    using each_object_pure [of step b f] assms(1) by (simp add: n(3) comp_def)
  show ?case
  proof (cases "n < length ?ks")
    case True
    then obtain c' where c': "rp_cursor pg = Some c'" "c' \<noteq> []" "after c' = last (take n ?ks)" using n(5) by blast
    note next' = keys_from_next [OF keys_content(1) True n(1) c'(2,3)]
    have "bucket_pages fuel bk p step (Some c') (acc @ concat (map ?g (take n ?ks))) b =
        Some (b, Inr ((acc @ concat (map ?g (take n ?ks))) @ concat (map ?g (drop n ?ks))))"
      unfolding next' [symmetric] using Suc.prems n(1) True by (intro Suc.IH) (simp add: next')
    then show ?thesis
      using True n(2,4) c'(1,2) objs by (simp add: truthy_def) (metis append_take_drop_id concat_append map_append)
  next
    case False
    then show ?thesis using n(2,4) objs by simp
  qed
qed simp

text \<open>What a store with the prefix \<open>p\<close> has filed.\<close>

definition bucket_ok :: "string \<Rightarrow> 'b \<Rightarrow> bool" where
  "bucket_ok p b \<longleftrightarrow> (\<forall>k ob. content b k = Some ob \<longrightarrow> prefix p k \<longrightarrow>
     (\<exists>kind key. kind \<in> set VALID_KINDS \<and> clean key \<and> k = toR2Key p kind key \<and> object_filed kind key ob))"

definition r2_lookup :: "string \<Rightarrow> 'b \<Rightarrow> string \<times> string \<Rightarrow> store_object option" where
  "r2_lookup p b k =
     (if fst k \<in> set VALID_KINDS then
        map_option (\<lambda>ob. \<lparr>so_body = ro_body ob, so_metadata = object_metadata 0 (fst k) (snd k) ob\<rparr>) (content b (toR2Key p (fst k) (snd k)))
      else None)"

lemma bucket_okD:
  assumes "bucket_ok p b" "content b (toR2Key p kind key) = Some ob" "kind \<in> set VALID_KINDS"
  shows "clean key" "object_filed kind key ob"
proof -
  have "prefix p (toR2Key p kind key)" by (simp add: toR2Key_def)
  then obtain kind' key' where k: "kind' \<in> set VALID_KINDS" "clean key'" "toR2Key p kind key = toR2Key p kind' key'" "object_filed kind' key' ob"
    using assms(1,2) unfolding bucket_ok_def by blast
  then have "kind = kind'" "key = key'" using toR2Key_inj [OF assms(3) k(1)] by simp_all
  then show "clean key" "object_filed kind key ob" using k by simp_all
qed

lemma put_stores_record:
  assumes "bucket_ok p b" "pq_kind rq \<in> set VALID_KINDS" "clean (pq_key rq)" "time_ok (put_time (pq_updatedAt rq) now)"
  shows "\<exists>b'. r2_put fuel le bk p no_policy now rq b = Some (b', Inr ()) \<and> bucket_ok p b' \<and>
    r2_lookup p b' = (r2_lookup p b)((pq_kind rq, pq_key rq) \<mapsto>
      \<lparr>so_body = pq_body rq, so_metadata = put_metadata now rq (pq_kind rq) (pq_key rq)\<rparr>)"
proof -
  let ?k = "pq_kind rq" and ?key = "pq_key rq"
  have key: "js_trim ?key = ?key" "?key \<noteq> []" using assms(3) by (simp_all add: clean_def)
  obtain b' up where b': "bk_put bk (toR2Key p ?k ?key) (pq_body rq) (truthy (pq_contentType rq)) (toR2Metadata now rq ?k ?key) b = (b', Inr ())"
    "content b' = (content b)(toR2Key p ?k ?key \<mapsto> \<lparr>ro_body = pq_body rq, ro_size = Some (int (length (pq_body rq))),
       ro_uploaded = up, ro_contentType = truthy (pq_contentType rq), ro_customMetadata = Some (toR2Metadata now rq ?k ?key)\<rparr>)"
    using put_stores by blast
  have "r2_put fuel le bk p no_policy now rq b = Some (b', Inr ())"
    using b'(1) assms(2) key by (simp add: r2_put_def normalizeKind_def normalizeKey_def applyPolicyAfterWrite_def Let_def)
  moreover have "bucket_ok p b'"
    unfolding bucket_ok_def
  proof (intro allI impI)
    fix k ob assume k: "content b' k = Some ob" "prefix p k"
    show "\<exists>kind key. kind \<in> set VALID_KINDS \<and> clean key \<and> k = toR2Key p kind key \<and> object_filed kind key ob"
    proof (cases "k = toR2Key p ?k ?key")
      case True
      then have "object_filed ?k ?key ob" using k(1) put_object_filed [OF assms(2) key(2) assms(4)] unfolding b'(2) by auto
      then show ?thesis using True assms(2,3) by blast
    next
      case False
      then show ?thesis using k assms(1) unfolding b'(2) bucket_ok_def by simp
    qed
  qed
  moreover have "r2_lookup p b' = (r2_lookup p b)((?k, ?key) \<mapsto> \<lparr>so_body = pq_body rq, so_metadata = put_metadata now rq ?k ?key\<rparr>)"
  proof
    fix k :: "string \<times> string"
    show "r2_lookup p b' k = ((r2_lookup p b)((?k, ?key) \<mapsto> \<lparr>so_body = pq_body rq, so_metadata = put_metadata now rq ?k ?key\<rparr>)) k"
      using other_key [OF assms(2), of k ?key p] put_object_metadata [OF assms(2) key(2) assms(4)] assms(2)
      by (cases "k = (?k, ?key)") (simp_all add: r2_lookup_def b'(2))
  qed
  ultimately show ?thesis by blast
qed

lemma get_looks_up_record:
  assumes "bucket_ok p b" "kind \<in> set VALID_KINDS" "clean key"
  shows "r2_get bk p no_policy now kind key b = (b, Inr (r2_lookup p b (kind, key)))"
proof (cases "content b (toR2Key p kind key)")
  case None
  then show ?thesis using assms(2,3) by (simp add: r2_get_def with_key_valid get_finds r2_lookup_def)
next
  case (Some ob)
  have "object_metadata now kind key ob = object_metadata 0 kind key ob"
    using bucket_okD(2) [OF assms(1) Some assms(2)] by (simp add: object_filed_def Let_def)
  then show ?thesis
    using assms(2,3) Some by (simp add: r2_get_def with_key_valid get_finds r2_lookup_def Let_def flip: object_metadata_def)
qed

lemma delete_removes_record:
  assumes "bucket_ok p b" "kind \<in> set VALID_KINDS" "clean key"
  shows "\<exists>b'. r2_delete bk p no_policy now kind key b = (b', Inr (r2_lookup p b (kind, key) \<noteq> None)) \<and> bucket_ok p b' \<and>
    r2_lookup p b' = (r2_lookup p b)((kind, key) := None)"
proof (cases "r2_lookup p b (kind, key)")
  case None
  then show ?thesis using get_looks_up_record [OF assms] assms(1) by (auto simp: r2_delete_def Let_def fun_eq_iff)
next
  case (Some r)
  obtain b' where b': "bk_delete bk (toR2Key p kind key) b = (b', Inr ())" "content b' = (content b)(toR2Key p kind key := None)"
    using delete_removes by blast
  have "r2_delete bk p no_policy now kind key b = (b', Inr True)"
    using get_looks_up_record [OF assms] assms(2,3) b'(1) Some by (simp add: r2_delete_def with_key_valid Let_def)
  moreover have "bucket_ok p b'" using assms(1) unfolding bucket_ok_def b'(2) by auto
  moreover have "r2_lookup p b' = (r2_lookup p b)((kind, key) := None)"
  proof
    fix k :: "string \<times> string"
    show "r2_lookup p b' k = ((r2_lookup p b)((kind, key) := None)) k"
      using other_key [OF assms(2), of k key p] assms(2) by (cases "k = (kind, key)") (simp_all add: r2_lookup_def b'(2))
  qed
  ultimately show ?thesis using Some by auto
qed

definition query_entry :: "string \<Rightarrow> int \<Rightarrow> list_query \<Rightarrow> r2_listed \<Rightarrow> store_metadata list" where
  "query_entry p now q ob =
     (case parseR2Key p (rl_key ob) of
        None \<Rightarrow> []
      | Some (kind, key) \<Rightarrow> filter (\<lambda>m. metadataMatchesQuery m q) [listed_metadata now kind key ob])"

lemma list_entry_pure: "list_entry bk p no_policy now q ob acc b = (b, Inr (acc @ query_entry p now q ob))"
  by (simp add: list_entry_def query_entry_def Let_def split: option.split)

lemma query_entry_filed:
  assumes "inc" "bucket_ok p b" "prefix p k" "content b k = Some ob"
  obtains kind key where "kind \<in> set VALID_KINDS" "k = toR2Key p kind key"
    "r2_lookup p b (kind, key) = Some \<lparr>so_body = ro_body ob, so_metadata = object_metadata 0 kind key ob\<rparr>"
    "sm_kind (object_metadata 0 kind key ob) = kind" "sm_key (object_metadata 0 kind key ob) = key"
    "query_entry p now q (listed_of inc k ob) = filter (\<lambda>m. metadataMatchesQuery m q) [object_metadata 0 kind key ob]"
proof -
  obtain kind key where k: "kind \<in> set VALID_KINDS" "clean key" "k = toR2Key p kind key" "object_filed kind key ob"
    using assms(2-4) unfolding bucket_ok_def by blast
  have "rl_key (listed_of inc k ob) = k" by (simp add: listed_of_def)
  then have "query_entry p now q (listed_of inc k ob) = filter (\<lambda>m. metadataMatchesQuery m q) [object_metadata now kind key ob]"
    using k(1,2) listed_metadata_object [of now kind key k ob] assms(1)
    by (simp add: query_entry_def k(3) parse_to_r2_key clean_def)
  moreover have "object_metadata now kind key ob = object_metadata 0 kind key ob"
    using k(4) unfolding object_filed_def Let_def by blast
  ultimately have "query_entry p now q (listed_of inc k ob) = filter (\<lambda>m. metadataMatchesQuery m q) [object_metadata 0 kind key ob]"
    by simp
  then show thesis
    using that [OF k(1,3)] k(1,4) assms(4) by (simp add: r2_lookup_def k(3) object_filed_def Let_def)
qed

text \<open>Listing gives the page of the matching records' metadata, which do not depend on the time.\<close>

definition bucket_entries :: "string \<Rightarrow> 'b \<Rightarrow> list_query \<Rightarrow> store_metadata list" where
  "bucket_entries p b q =
     concat (map (\<lambda>k. query_entry p 0 q (listed_of inc k (the (content b k)))) (keys_from after (keys b) p None))"

lemma list_finds:
  assumes "inc" "bucket_ok p b"
  shows "length (keys b) < fuel \<Longrightarrow> r2_list fuel le bk p no_policy now q b = Some (b, Inr (paginateMetadata le (bucket_entries p b q) q))"
    "distinct (bucket_entries p b q)"
    "set (bucket_entries p b q) = {m. \<exists>k r. r2_lookup p b k = Some r \<and> m = so_metadata r \<and> metadataMatchesQuery m q}"
proof -
  let ?ks = "keys_from after (keys b) p None" and ?g = "\<lambda>k. query_entry p 0 q (listed_of inc k (the (content b k)))"
  let ?entries = "concat (map ?g ?ks)"
  have now: "query_entry p now q (listed_of inc k (the (content b k))) = ?g k" if k: "k \<in> set ?ks" for k
  proof -
    obtain ob where ob: "content b k = Some ob" "prefix p k" using k keys_content(2) [of b] by (auto simp: keys_from_def)
    obtain kind key where k1: "kind \<in> set VALID_KINDS" "k = toR2Key p kind key"
      "query_entry p now q (listed_of inc k ob) = filter (\<lambda>m. metadataMatchesQuery m q) [object_metadata 0 kind key ob]"
      by (rule query_entry_filed [OF assms ob(2,1), of now q]) (rule that; assumption)
    obtain kind' key' where k2: "kind' \<in> set VALID_KINDS" "k = toR2Key p kind' key'"
      "query_entry p 0 q (listed_of inc k ob) = filter (\<lambda>m. metadataMatchesQuery m q) [object_metadata 0 kind' key' ob]"
      by (rule query_entry_filed [OF assms ob(2,1), of 0 q]) (rule that; assumption)
    have "kind = kind' \<and> key = key'" using toR2Key_inj [OF k1(1) k2(1), of p key key'] k1(2) k2(2) by simp
    then show ?thesis using k1(3) k2(3) ob(1) by (simp del: filter.simps)
  qed
  show "r2_list fuel le bk p no_policy now q b = Some (b, Inr (paginateMetadata le (bucket_entries p b q) q))"
    if "length (keys b) < fuel"
  proof -
    have "length ?ks \<le> length (keys b)" unfolding keys_from_def using length_filter_le [of _ "sort (keys b)"] by simp
    then have len: "length ?ks < fuel" using that by simp
    have same: "map (\<lambda>k. query_entry p now q (listed_of inc k (the (content b k)))) ?ks = map ?g ?ks" using now by (intro map_cong) simp_all
    show ?thesis
      unfolding r2_list_def bucket_entries_def
        bucket_pages_all [of "list_entry bk p no_policy now q" b "query_entry p now q" p None fuel "[]", OF list_entry_pure len] same
      by simp
  qed
  have ks: "k \<in> set ?ks \<longleftrightarrow> prefix p k \<and> content b k \<noteq> None" for k
    using keys_content(2) [of b] by (auto simp: keys_from_def)
  have own: "k = toR2Key p (sm_kind m) (sm_key m) \<and> ?g k = [m]" if k: "k \<in> set ?ks" and m: "m \<in> set (?g k)" for k m
  proof -
    obtain ob where ob: "content b k = Some ob" "prefix p k" using k ks by blast
    show ?thesis by (rule query_entry_filed [OF assms(1,2) ob(2,1), of 0 q]) (use m ob in \<open>auto split: if_splits\<close>)
  qed
  show "distinct (bucket_entries p b q)"
  proof -
    have len: "length (?g k) \<le> 1" if "k \<in> set ?ks" for k
    proof (cases "?g k")
      case (Cons m ms)
      then have "m \<in> set (?g k)" by (simp only: list.set_intros)
      then have "?g k = [m]" using own [OF that] by blast
      then show ?thesis by simp
    qed simp
    have "distinct (concat (map ?g ks))" if "distinct ks" "set ks \<subseteq> set ?ks" for ks
      using that
    proof (induction ks)
      case (Cons k ks)
      have ks': "k \<in> set ?ks" "set ks \<subseteq> set ?ks" using Cons.prems(2) by simp_all
      have disj: "set (?g k) \<inter> set (concat (map ?g ks)) = {}"
      proof (rule ccontr)
        assume "set (?g k) \<inter> set (concat (map ?g ks)) \<noteq> {}"
        then obtain m k' where m: "m \<in> set (?g k)" "k' \<in> set ks" "m \<in> set (?g k')" by (auto simp del: filter.simps)
        then have "k = k'" using own [OF ks'(1) m(1)] own [of k' m] ks'(2) by (metis subsetD)
        then show False using m(2) Cons.prems(1) by simp
      qed
      have "length xs \<le> 1 \<Longrightarrow> distinct xs" for xs :: "store_metadata list" by (cases xs) auto
      then have "distinct (?g k)" using len [OF ks'(1)] by blast
      moreover have "distinct (concat (map ?g ks))" using Cons.IH Cons.prems(1) ks'(2) by simp
      ultimately show ?case using disj by (simp only: list.map concat.simps distinct_append)
    qed simp
    then show ?thesis using keys_content(1) [of b] by (simp add: keys_from_def bucket_entries_def)
  qed
  show "set (bucket_entries p b q) = {m. \<exists>k r. r2_lookup p b k = Some r \<and> m = so_metadata r \<and> metadataMatchesQuery m q}"
    unfolding bucket_entries_def
  proof (intro set_eqI iffI)
    fix m assume "m \<in> set ?entries"
    then obtain k where k: "k \<in> set ?ks" "m \<in> set (?g k)" by auto
    obtain ob where ob: "content b k = Some ob" "prefix p k" using k ks by blast
    show "m \<in> {m. \<exists>k r. r2_lookup p b k = Some r \<and> m = so_metadata r \<and> metadataMatchesQuery m q}"
    proof (rule query_entry_filed [OF assms(1,2) ob(2,1), of 0 q])
      fix kind key
      assume r: "r2_lookup p b (kind, key) = Some \<lparr>so_body = ro_body ob, so_metadata = object_metadata 0 kind key ob\<rparr>"
        and g: "query_entry p 0 q (listed_of inc k ob) = filter (\<lambda>m. metadataMatchesQuery m q) [object_metadata 0 kind key ob]"
      have "m = so_metadata \<lparr>so_body = ro_body ob, so_metadata = object_metadata 0 kind key ob\<rparr>" "metadataMatchesQuery m q"
        using k(2) ob(1) g by (auto split: if_splits)
      then show ?thesis using r by blast
    qed
  next
    fix m assume "m \<in> {m. \<exists>k r. r2_lookup p b k = Some r \<and> m = so_metadata r \<and> metadataMatchesQuery m q}"
    then obtain kk r where r: "r2_lookup p b kk = Some r" "m = so_metadata r" "metadataMatchesQuery m q" by blast
    obtain ob where ob: "content b (toR2Key p (fst kk) (snd kk)) = Some ob" "fst kk \<in> set VALID_KINDS"
      "r = \<lparr>so_body = ro_body ob, so_metadata = object_metadata 0 (fst kk) (snd kk) ob\<rparr>"
      using r(1) by (auto simp: r2_lookup_def split: if_splits)
    let ?k = "toR2Key p (fst kk) (snd kk)"
    have pre: "prefix p ?k" by (simp add: toR2Key_def)
    have "m \<in> set (?g ?k)"
    proof (rule query_entry_filed [OF assms(1,2) pre ob(1), of 0 q])
      fix kind key
      assume "kind \<in> set VALID_KINDS" "?k = toR2Key p kind key"
        "query_entry p 0 q (listed_of inc ?k ob) = filter (\<lambda>m. metadataMatchesQuery m q) [object_metadata 0 kind key ob]"
      then show ?thesis using r(2,3) ob toR2Key_inj [OF ob(2)] by simp
    qed
    moreover have "?k \<in> set ?ks" using ks pre ob(1) by blast
    ultimately show "m \<in> set ?entries" unfolding set_concat set_map by blast
  qed
qed

end

section \<open>A bucket that keeps the contract\<close>

text \<open>
  Objects by key, the time of an upload given by \<open>up\<close>, pages of at most a thousand keys with the last
  key of a page as its cursor; \<open>inc\<close> says whether listings carry the metadata.
\<close>

type_synonym simple_bucket = "(string, r2_object) omap"

definition simple_list :: "bool \<Rightarrow> string \<Rightarrow> int \<Rightarrow> string option \<Rightarrow> simple_bucket \<Rightarrow> r2_page" where
  "simple_list inc p limit c b =
     (let ks = keys_from tl (remdups (map fst b)) p c; page = take (nat limit) ks
      in \<lparr>rp_objects = map (\<lambda>k. listed_of inc k (the (map_of b k))) page, rp_truncated = nat limit < length ks,
          rp_cursor = (if nat limit < length ks then Some (CHR ''c'' # last page) else None)\<rparr>)"

definition simple_bucket :: "bool \<Rightarrow> int option \<Rightarrow> simple_bucket bucket" where
  "simple_bucket inc up =
     \<lparr>bk_put = (\<lambda>key body ct custom b. (AList.update key \<lparr>ro_body = body, ro_size = Some (int (length body)), ro_uploaded = up,
        ro_contentType = ct, ro_customMetadata = Some custom\<rparr> b, Inr ())),
      bk_get = (\<lambda>key b. (b, Inr (map_of b key))),
      bk_delete = (\<lambda>key b. (AList.delete key b, Inr ())),
      bk_list = (\<lambda>p limit c b. (b, Inr (simple_list inc p limit c b)))\<rparr>"

interpretation simple: r2_bucket "simple_bucket inc up" map_of "\<lambda>b. remdups (map fst b)" tl inc for inc up
proof unfold_locales
  fix key body ct custom and b :: simple_bucket
  show "\<exists>b' up'. bk_put (simple_bucket inc up) key body ct custom b = (b', Inr ()) \<and> map_of b' = (map_of b)(key \<mapsto>
      \<lparr>ro_body = body, ro_size = Some (int (length body)), ro_uploaded = up', ro_contentType = ct, ro_customMetadata = Some custom\<rparr>)"
    by (intro exI [of _ "fst (bk_put (simple_bucket inc up) key body ct custom b)"] exI [of _ up]) (simp add: simple_bucket_def update_conv')
next
  fix key and b :: simple_bucket
  show "bk_get (simple_bucket inc up) key b = (b, Inr (map_of b key))" by (simp add: simple_bucket_def)
next
  fix key and b :: simple_bucket
  show "\<exists>b'. bk_delete (simple_bucket inc up) key b = (b', Inr ()) \<and> map_of b' = (map_of b)(key := None)"
    by (simp add: simple_bucket_def delete_conv')
next
  fix b :: simple_bucket
  show "distinct (remdups (map fst b))" by simp
  show "set (remdups (map fst b)) = dom (map_of b)" by (simp add: dom_map_of_conv_image_fst)
next
  fix limit :: int and p c and b :: simple_bucket assume "0 < limit"
  then show "\<exists>n>0. \<exists>pg. bk_list (simple_bucket inc up) p limit c b = (b, Inr pg) \<and>
      (let ks = keys_from tl (remdups (map fst b)) p c
       in rp_objects pg = map (\<lambda>k. listed_of inc k (the (map_of b k))) (take n ks) \<and> rp_truncated pg = (n < length ks) \<and>
          (n < length ks \<longrightarrow> (\<exists>c'. rp_cursor pg = Some c' \<and> c' \<noteq> [] \<and> tl c' = last (take n ks))))"
    by (intro exI [of _ "nat limit"]) (simp add: simple_bucket_def simple_list_def Let_def)
qed

section \<open>The bucket store answers as the in-memory store does\<close>

datatype store_answer =
    PutAnswer "string + unit"
  | GetAnswer "string + store_object option"
  | DeleteAnswer "string + bool"
  | ListAnswer "string + list_result"

definition answer_of :: "'s cache_store \<Rightarrow> 's \<Rightarrow> store_call \<Rightarrow> store_answer" where
  "answer_of cs st c =
     (case c of
        PutCall now rq \<Rightarrow> PutAnswer (snd (cs_put cs now rq st))
      | GetCall now kind key \<Rightarrow> GetAnswer (snd (cs_get cs now kind key st))
      | DeleteCall now kind key \<Rightarrow> DeleteAnswer (snd (cs_delete cs now kind key st))
      | ListCall now q \<Rightarrow> ListAnswer (snd (cs_list cs now q st)))"

fun run_answers :: "'s cache_store \<Rightarrow> 's \<Rightarrow> store_call list \<Rightarrow> store_answer list" where
  "run_answers cs st [] = []"
| "run_answers cs st (c # calls) = answer_of cs st c # run_answers cs (store_step cs st c) calls"

definition call_ok :: "store_call \<Rightarrow> bool" where
  "call_ok c = (case c of PutCall now rq \<Rightarrow> time_ok (put_time (pq_updatedAt rq) now) | _ \<Rightarrow> True)"

text \<open>The check of kind and key, for any operation.\<close>

definition key_valid :: "string \<Rightarrow> string \<Rightarrow> bool" where
  "key_valid kind key \<longleftrightarrow> kind \<in> set VALID_KINDS \<and> js_trim key \<noteq> []"

definition key_error :: "string \<Rightarrow> string" where
  "key_error kind =
     (if kind \<in> set VALID_KINDS then ''cache store key must not be empty'' else ''invalid cache store kind: '' @ kind)"

lemma with_key_invalid: "\<not> key_valid kind key \<Longrightarrow> with_key kind key k st = (st, Inl (key_error kind))"
  by (auto simp: key_valid_def key_error_def with_key_def normalizeKind_def normalizeKey_def Let_def)

lemma r2_put_invalid:
  "\<not> key_valid (pq_kind rq) (pq_key rq) \<Longrightarrow> r2_put fuel le bk p policy now rq b = Some (b, Inl (key_error (pq_kind rq)))"
  by (auto simp: r2_put_def key_valid_def key_error_def normalizeKind_def normalizeKey_def Let_def)

lemma sorted_unique:
  assumes "sorted_wrt R xs" "sorted_wrt R ys" "mset xs = mset ys" "\<And>a b. a \<in> set xs \<Longrightarrow> b \<in> set xs \<Longrightarrow> R a b \<Longrightarrow> R b a \<Longrightarrow> a = b"
  shows "xs = ys"
  using assms
proof (induction xs arbitrary: ys)
  case (Cons x xs)
  obtain y zs where y: "ys = y # zs" using Cons.prems(3) by (cases ys) auto
  have "x = y"
  proof (rule ccontr)
    assume "x \<noteq> y"
    then have "x \<in> set zs" "y \<in> set xs" using Cons.prems(3) by (metis list.set_intros(1) mset_eq_setD set_ConsD y)+
    then show False using \<open>x \<noteq> y\<close> Cons.prems(1,2) Cons.prems(4) [of x y] unfolding y by simp
  qed
  then show ?case using Cons unfolding y by simp
qed simp

lemma paginate_unique:
  assumes "total_order le" "\<And>a b. le a b \<Longrightarrow> le b a \<Longrightarrow> a = b" "distinct xs" "distinct ys" "set xs = set ys"
    and "\<And>a b. a \<in> set xs \<Longrightarrow> b \<in> set xs \<Longrightarrow> sm_kind a = sm_kind b \<Longrightarrow> sm_key a = sm_key b \<Longrightarrow> a = b"
  shows "paginateMetadata le xs q = paginateMetadata le ys q"
proof -
  note tot = total_orderD [OF assms(1)]
  have le: "total_order (metadata_le le)"
    unfolding total_order_def
  proof (intro conjI allI impI)
    show "metadata_le le a b \<or> metadata_le le b a" for a b using tot(1) by (auto simp: metadata_le_def)
    fix a b c assume ab: "metadata_le le a b" and bc: "metadata_le le b c"
    show "metadata_le le a c"
    proof (cases "sm_kind a = sm_kind c")
      case True
      then have "sm_kind a = sm_kind b" using ab bc assms(2) by (auto simp: metadata_le_def split: if_splits)
      then show ?thesis using True ab bc tot(2) by (auto simp: metadata_le_def)
    next
      case False
      then show ?thesis using ab bc tot(2) by (auto simp: metadata_le_def split: if_splits)
    qed
  qed
  have "mset xs = mset ys" using assms(3-5) by (simp add: set_eq_iff_mset_eq_distinct)
  moreover have "a = b" if ab: "a \<in> set xs" "b \<in> set xs" "metadata_le le a b" "metadata_le le b a" for a b
  proof -
    have "sm_kind a = sm_kind b" using ab(3,4) assms(2) by (auto simp: metadata_le_def split: if_splits)
    then show ?thesis using ab(3,4) assms(2) assms(6) [OF ab(1,2)] by (simp add: metadata_le_def)
  qed
  ultimately have "sort_by (metadata_le le) xs = sort_by (metadata_le le) ys"
    by (intro sorted_unique [OF sorted_sort_by [OF le] sorted_sort_by [OF le]]) simp_all
  then show ?thesis by (simp add: paginateMetadata_def)
qed

lemma memory_entries_set:
  assumes "memory_ok no_policy st"
  shows "set (filter (\<lambda>m. metadataMatchesQuery m q) (map (\<lambda>x. so_metadata (snd x)) st)) =
      {m. \<exists>k r. memory_lookup st k = Some r \<and> m = so_metadata r \<and> metadataMatchesQuery m q}"
proof (intro set_eqI iffI)
  let ?ms = "map (\<lambda>x. so_metadata (snd x)) st"
  have keys: "okeys st" and ob: "\<And>x. x \<in> set st \<Longrightarrow> object_ok (fst x) (snd x)" using assms by (auto simp: memory_ok_def)
  have own: "x \<in> set st \<Longrightarrow> fst x = toStorageKey (sm_kind (so_metadata (snd x))) (sm_key (so_metadata (snd x))) \<and>
      sm_kind (so_metadata (snd x)) \<in> set VALID_KINDS" for x
    using ob by (auto simp: object_ok_def Let_def)
  {
    fix m assume "m \<in> set (filter (\<lambda>m. metadataMatchesQuery m q) ?ms)"
    then obtain x where x: "x \<in> set st" "m = so_metadata (snd x)" "metadataMatchesQuery m q" by auto
    have "map_of st (fst x) = Some (snd x)" using x(1) keys by (simp add: okeys_def)
    then have "memory_lookup st (sm_kind m, sm_key m) = Some (snd x)" using own [OF x(1)] x(2) by (simp add: memory_lookup_def)
    then show "m \<in> {m. \<exists>k r. memory_lookup st k = Some r \<and> m = so_metadata r \<and> metadataMatchesQuery m q}" using x(2,3) by blast
  }
  {
    fix m assume "m \<in> {m. \<exists>k r. memory_lookup st k = Some r \<and> m = so_metadata r \<and> metadataMatchesQuery m q}"
    then obtain k r where r: "memory_lookup st k = Some r" "m = so_metadata r" "metadataMatchesQuery m q" by blast
    then have "(toStorageKey (fst k) (snd k), r) \<in> set st" by (auto simp: memory_lookup_def dest: map_of_SomeD split: if_splits)
    then show "m \<in> set (filter (\<lambda>m. metadataMatchesQuery m q) ?ms)" using r(2,3) by force
  }
qed

lemma memory_entries_distinct:
  assumes "memory_ok no_policy st"
  shows "distinct (map (\<lambda>x. so_metadata (snd x)) st)"
proof -
  have keys: "okeys st" and ob: "\<And>x. x \<in> set st \<Longrightarrow> object_ok (fst x) (snd x)" using assms by (auto simp: memory_ok_def)
  have own: "x \<in> set st \<Longrightarrow> fst x = toStorageKey (sm_kind (so_metadata (snd x))) (sm_key (so_metadata (snd x))) \<and>
      sm_kind (so_metadata (snd x)) \<in> set VALID_KINDS" for x
    using ob by (auto simp: object_ok_def Let_def)
  have inj: "inj_on (\<lambda>x. so_metadata (snd x)) (set st)"
  proof (rule inj_onI)
    fix x y assume xy: "x \<in> set st" "y \<in> set st" "so_metadata (snd x) = so_metadata (snd y)"
    then have "fst x = fst y" using own by metis
    then show "x = y" using xy(1,2) keys by (metis eq_key_imp_eq_value okeys_def prod.collapse)
  qed
  show ?thesis using inj keys by (simp add: distinct_map okeys_def)
qed

lemma memory_list_finds:
  assumes "memory_ok no_policy st"
  shows "\<exists>entries. memory_list le no_policy now q st = (st, Inr (paginateMetadata le entries q)) \<and> distinct entries \<and>
    set entries = {m. \<exists>k r. memory_lookup st k = Some r \<and> m = so_metadata r \<and> metadataMatchesQuery m q}"
  using memory_entries_set [OF assms, of q] memory_entries_distinct [OF assms]
  by (intro exI [of _ "filter (\<lambda>m. metadataMatchesQuery m q) (map (\<lambda>x. so_metadata (snd x)) st)"])
    (simp add: memory_list_def del: set_filter)

lemma memory_delete_removes:
  assumes "memory_ok no_policy st" "kind \<in> set VALID_KINDS" "clean key"
  shows "\<exists>st'. memory_delete kind key st = (st', Inr (memory_lookup st (kind, key) \<noteq> None)) \<and> memory_ok no_policy st' \<and>
    memory_lookup st' = (memory_lookup st)((kind, key) := None)"
proof -
  let ?st = "AList.delete (toStorageKey kind key) st"
  have "memory_delete kind key st = (?st, Inr (memory_lookup st (kind, key) \<noteq> None))"
    using assms(2,3) by (simp add: memory_delete_def with_key_valid memory_lookup_def)
  moreover have "memory_lookup ?st = (memory_lookup st)((kind, key) := None)"
  proof
    fix k :: "string \<times> string"
    show "memory_lookup ?st k = ((memory_lookup st)((kind, key) := None)) k"
      using toStorageKey_inj [OF _ assms(2), of "fst k" "snd k" key] assms(2)
      by (cases k) (auto simp: memory_lookup_def delete_conv')
  qed
  ultimately show ?thesis using memory_ok_delete [OF assms(1)] by blast
qed

lemma normalizeKey_trim [simp]: "normalizeKey (js_trim key) = normalizeKey key"
  by (simp add: normalizeKey_def)

lemma with_key_trim: "with_key kind key k st = with_key kind (js_trim key) k st"
  unfolding with_key_def normalizeKey_trim ..

lemma r2_put_trim:
  "r2_put fuel le bk p policy now rq b = r2_put fuel le bk p policy now (rq\<lparr>pq_key := js_trim (pq_key rq)\<rparr>) b"
  by (cases "normalizeKind (pq_kind rq)"; cases "normalizeKey (pq_key rq)") (simp_all add: r2_put_def toR2Metadata_def)

lemma memory_put_trim:
  "memory_put le policy now rq st = memory_put le policy now (rq\<lparr>pq_key := js_trim (pq_key rq)\<rparr>) st"
  by (simp add: memory_put_def with_key_trim [of _ "pq_key rq"] put_metadata_def)

lemma r2_get_trim: "r2_get bk p policy now kind key b = r2_get bk p policy now kind (js_trim key) b"
  unfolding r2_get_def by (rule with_key_trim)

lemma r2_delete_trim: "r2_delete bk p policy now kind key b = r2_delete bk p policy now kind (js_trim key) b"
  unfolding r2_delete_def r2_get_trim [of _ _ _ _ _ key] with_key_trim [of _ key] by simp

lemma memory_get_trim: "memory_get policy now kind key st = memory_get policy now kind (js_trim key) st"
  unfolding memory_get_def by (rule with_key_trim)

lemma memory_delete_trim: "memory_delete kind key st = memory_delete kind (js_trim key) st"
  unfolding memory_delete_def by (rule with_key_trim)

context r2_bucket
begin

lemma put_simulates:
  assumes "memory_ok no_policy st" "bucket_ok p b" "r2_lookup p b = memory_lookup st" "time_ok (put_time (pq_updatedAt rq) now)"
  shows "\<exists>b' st' res. r2_put fuel le bk p no_policy now rq b = Some (b', res) \<and> memory_put le no_policy now rq st = (st', res) \<and>
    bucket_ok p b' \<and> memory_ok no_policy st' \<and> r2_lookup p b' = memory_lookup st'"
proof (cases "key_valid (pq_kind rq) (pq_key rq)")
  case False
  then show ?thesis using assms(1-3) by (simp add: memory_put_def with_key_invalid r2_put_invalid)
next
  case True
  then have good: "pq_kind rq \<in> set VALID_KINDS" "clean (js_trim (pq_key rq))" using clean_js_trim by (simp_all add: key_valid_def)
  let ?rq = "rq\<lparr>pq_key := js_trim (pq_key rq)\<rparr>"
  obtain b' where b': "r2_put fuel le bk p no_policy now rq b = Some (b', Inr ())" "bucket_ok p b'"
    "r2_lookup p b' = (r2_lookup p b)((pq_kind ?rq, pq_key ?rq) \<mapsto>
       \<lparr>so_body = pq_body ?rq, so_metadata = put_metadata now ?rq (pq_kind ?rq) (pq_key ?rq)\<rparr>)"
    using put_stores_record [OF assms(2), of ?rq now fuel le] good assms(4) r2_put_trim [of fuel le bk p no_policy now rq b] by auto
  obtain st' where st': "memory_put le no_policy now rq st = (st', Inr ())" "memory_ok no_policy st'"
    "memory_lookup st' = (memory_lookup st)((pq_kind ?rq, pq_key ?rq) \<mapsto>
       \<lparr>so_body = pq_body ?rq, so_metadata = put_metadata now ?rq (pq_kind ?rq) (pq_key ?rq)\<rparr>)"
    using plain.put_stores [OF assms(1), of ?rq le now] good memory_put_trim [of le no_policy now rq st]
    by (auto simp: plain_store_def createMemoryCacheStore_def)
  show ?thesis using b' st' assms(3) by simp
qed

lemma get_simulates:
  assumes "memory_ok no_policy st" "bucket_ok p b" "r2_lookup p b = memory_lookup st"
  shows "\<exists>res. r2_get bk p no_policy now kind key b = (b, res) \<and> memory_get no_policy now kind key st = (st, res)"
proof (cases "key_valid kind key")
  case False
  then show ?thesis by (simp add: r2_get_def memory_get_def with_key_invalid)
next
  case True
  then have good: "kind \<in> set VALID_KINDS" "clean (js_trim key)" using clean_js_trim by (simp_all add: key_valid_def)
  show ?thesis
    using get_looks_up_record [OF assms(2) good, of now] plain.get_looks_up [OF assms(1) good, of le now] assms(3)
    by (simp add: r2_get_trim [of _ _ _ _ _ key] memory_get_trim [of _ _ _ key] plain_store_def createMemoryCacheStore_def)
qed

lemma delete_simulates:
  assumes "memory_ok no_policy st" "bucket_ok p b" "r2_lookup p b = memory_lookup st"
  shows "\<exists>b' st' res. r2_delete bk p no_policy now kind key b = (b', res) \<and> memory_delete kind key st = (st', res) \<and>
    bucket_ok p b' \<and> memory_ok no_policy st' \<and> r2_lookup p b' = memory_lookup st'"
proof (cases "key_valid kind key")
  case False
  then show ?thesis using assms by (simp add: r2_delete_def r2_get_def memory_delete_def with_key_invalid)
next
  case True
  then have good: "kind \<in> set VALID_KINDS" "clean (js_trim key)" using clean_js_trim by (simp_all add: key_valid_def)
  show ?thesis
    using delete_removes_record [OF assms(2) good, of now] memory_delete_removes [OF assms(1) good] assms(3)
    by (auto simp: r2_delete_trim [of _ _ _ _ _ key] memory_delete_trim [of _ key])
qed

lemma list_simulates:
  assumes "inc" "total_order le" "\<And>a b. le a b \<Longrightarrow> le b a \<Longrightarrow> a = b" "length (keys b) < fuel"
    and "memory_ok no_policy st" "bucket_ok p b" "r2_lookup p b = memory_lookup st"
  shows "\<exists>res. r2_list fuel le bk p no_policy now q b = Some (b, res) \<and> memory_list le no_policy now q st = (st, res)"
proof -
  obtain xs where xs: "r2_list fuel le bk p no_policy now q b = Some (b, Inr (paginateMetadata le xs q))" "distinct xs"
    "set xs = {m. \<exists>k r. r2_lookup p b k = Some r \<and> m = so_metadata r \<and> metadataMatchesQuery m q}"
    using list_finds [OF assms(1,6)] assms(4) by blast
  obtain ys where ys: "memory_list le no_policy now q st = (st, Inr (paginateMetadata le ys q))" "distinct ys"
    "set ys = {m. \<exists>k r. memory_lookup st k = Some r \<and> m = so_metadata r \<and> metadataMatchesQuery m q}"
    using memory_list_finds [OF assms(5)] by blast
  have own: "sm_kind (so_metadata r) = fst k \<and> sm_key (so_metadata r) = snd k" if "r2_lookup p b k = Some r" for k r
    using that bucket_okD(2) [OF assms(6), of "fst k" "snd k"] by (auto simp: r2_lookup_def object_filed_def Let_def split: if_splits)
  have "m = m'" if m: "m \<in> set xs" "m' \<in> set xs" "sm_kind m = sm_kind m'" "sm_key m = sm_key m'" for m m'
  proof -
    obtain k r k' r' where r: "r2_lookup p b k = Some r" "m = so_metadata r" "r2_lookup p b k' = Some r'" "m' = so_metadata r'"
      using m(1,2) unfolding xs(3) by blast
    then have "k = k'" using own [OF r(1)] own [OF r(3)] m(3,4) by (simp add: prod_eq_iff)
    then show ?thesis using r by simp
  qed
  then have "paginateMetadata le xs q = paginateMetadata le ys q"
    using xs(2,3) ys(2,3) assms(7) by (intro paginate_unique [OF assms(2,3)]) simp_all
  then show ?thesis using xs(1) ys(1) by simp
qed

lemma run_simulates:
  assumes "inc" "total_order le" "\<And>a b. le a b \<Longrightarrow> le b a \<Longrightarrow> a = b" "\<And>b. length (keys b) < pages b" "\<forall>c\<in>set calls. call_ok c"
    and "memory_ok no_policy st" "bucket_ok (normalizeR2Prefix pre) b" "r2_lookup (normalizeR2Prefix pre) b = memory_lookup st"
  shows "run_answers (createR2CacheStore pages le bk pre None None) b calls = run_answers (createMemoryCacheStore le None None) st calls"
  using assms(5-8)
proof (induction calls arbitrary: b st)
  case (Cons c calls)
  let ?p = "normalizeR2Prefix pre" and ?R = "createR2CacheStore pages le bk pre None None" and ?M = "createMemoryCacheStore le None None"
  have "answer_of ?R b c = answer_of ?M st c \<and> memory_ok no_policy (store_step ?M st c) \<and> bucket_ok ?p (store_step ?R b c) \<and>
    r2_lookup ?p (store_step ?R b c) = memory_lookup (store_step ?M st c)"
  proof (cases c)
    case (PutCall now rq)
    then have "time_ok (put_time (pq_updatedAt rq) now)" using Cons.prems(1) by (simp add: call_ok_def)
    then show ?thesis
      using put_simulates [OF Cons.prems(2-4), of rq now "pages b" le] PutCall
      by (auto simp: answer_of_def store_step_def createR2CacheStore_def createMemoryCacheStore_def Let_def within_fuel_def)
  next
    case (GetCall now kind key)
    then show ?thesis
      using get_simulates [OF Cons.prems(2-4), of now kind key] Cons.prems
      by (auto simp: answer_of_def store_step_def createR2CacheStore_def createMemoryCacheStore_def Let_def)
  next
    case (DeleteCall now kind key)
    then show ?thesis
      using delete_simulates [OF Cons.prems(2-4), of now kind key]
      by (auto simp: answer_of_def store_step_def createR2CacheStore_def createMemoryCacheStore_def Let_def)
  next
    case (ListCall now q)
    then show ?thesis
      using list_simulates [OF assms(1-4) Cons.prems(2-4), of now q] Cons.prems
      by (auto simp: answer_of_def store_step_def createR2CacheStore_def createMemoryCacheStore_def Let_def within_fuel_def)
  qed
  then show ?case using Cons.IH Cons.prems(1) by simp
qed simp

end

text \<open>So the bucket store keeps the contract the cache adapter relies on.\<close>

sublocale r2_bucket < stored: map_store "createR2CacheStore pages le bk pre None None" "bucket_ok (normalizeR2Prefix pre)"
    "r2_lookup (normalizeR2Prefix pre)" time_ok for pages le pre
proof unfold_locales
  fix st :: 'b and rq :: put_request and now
  assume a: "bucket_ok (normalizeR2Prefix pre) st" "pq_kind rq \<in> set VALID_KINDS" "clean (pq_key rq)"
    "time_ok (put_time (pq_updatedAt rq) now)"
  show "\<exists>st'. cs_put (createR2CacheStore pages le bk pre None None) now rq st = (st', Inr ()) \<and>
      bucket_ok (normalizeR2Prefix pre) st' \<and> r2_lookup (normalizeR2Prefix pre) st' = (r2_lookup (normalizeR2Prefix pre) st)
        ((pq_kind rq, pq_key rq) \<mapsto> \<lparr>so_body = pq_body rq, so_metadata = put_metadata now rq (pq_kind rq) (pq_key rq)\<rparr>)"
    using put_stores_record [OF a, of "pages st" le] by (auto simp: createR2CacheStore_def Let_def within_fuel_def)
next
  fix st :: 'b and kind key now
  assume a: "bucket_ok (normalizeR2Prefix pre) st" "kind \<in> set VALID_KINDS" "clean key"
  show "cs_get (createR2CacheStore pages le bk pre None None) now kind key st =
      (st, Inr (r2_lookup (normalizeR2Prefix pre) st (kind, key)))"
    using get_looks_up_record [OF a, of now] by (simp add: createR2CacheStore_def Let_def)
qed

context r2_bucket
begin

lemma empty_bucket_ok: "(\<And>k. content b k = None) \<Longrightarrow> bucket_ok p b \<and> r2_lookup p b = memory_lookup []"
  by (auto simp: bucket_ok_def r2_lookup_def memory_lookup_def fun_eq_iff)

lemma persisted_issue:
  assumes "\<And>k. content b k = None" "plain_issue env now e" "cs = createR2CacheStore pages le bk pre None None"
    and "c = snd (nextIssueCursor cs now (env_room e) hint (b, m))" "c < int_bound"
    and "s' = persistEnvelope (Some cs) env policy qo now e hint (b, m)"
  shows "cursor_of m (env_room e) < c \<and> readIssueCursorFromCache cs later (env_room e) (fst s') = (fst s', Inr c) \<and>
    (\<exists>found. cs_get cs later ''object'' (issueEventStorageKey (env_room e) c (env_id e)) (fst s') =
       (fst s', Inr (Some found)) \<and> parseIssueCacheEventRecord found = Some (event_of env now e c))"
proof -
  have "int_bound < max_double_bound" by (simp add: int_bound_def max_double_bound_def)
  then have t: "time_ok (max 0 now)" using assms(2) by (simp add: plain_issue_def time_ok_def)
  have "bucket_ok (normalizeR2Prefix pre) b" using empty_bucket_ok [OF assms(1)] by blast
  from stored.issue_reads_back [OF this assms(2) t assms(4) [unfolded assms(3)] assms(5) assms(6) [unfolded assms(3)], of later]
  show ?thesis unfolding assms(3) by blast
qed

lemma first_issue_cursor:
  assumes "\<And>k. content b k = None"
  shows "snd (nextIssueCursor (createR2CacheStore pages le bk pre None None) now ''main'' 1 (b, [])) = 1"
proof -
  have "bucket_ok (normalizeR2Prefix pre) b" using empty_bucket_ok [OF assms] by blast
  moreover have "isValidRoomName ''main''" by code_simp
  ultimately show ?thesis
    using stored.nextIssueCursor_eq(1) [where s = "(b, [])" and pre = pre and room = "''main''"]
    by (simp add: stored.next_cursor_def stored.stored_cursor_def r2_lookup_def cursor_of_def assms)
qed

text \<open>Without metadata in the listings, nothing belongs to a room.\<close>

lemma listing_by_room_empty:
  assumes "\<not> inc" "truthy (lq_room q) = Some room" "length (keys b) < fuel"
  shows "r2_list fuel le bk p no_policy now q b = Some (b, Inr \<lparr>lr_entries = [], lr_cursor = None\<rparr>)"
proof -
  let ?ks = "keys_from after (keys b) p None"
  have "length ?ks \<le> length (keys b)" unfolding keys_from_def using length_filter_le [of _ "sort (keys b)"] by simp
  then have len: "length ?ks < fuel" using assms(3) by simp
  have none: "query_entry p now q (listed_of inc k ob) = []" for k ob
    using assms(1,2) by (auto simp: query_entry_def listed_of_def listed_metadata_def toMetadataFromR2Object_def
        metadataMatchesQuery_def Let_def split: option.split)
  have "0 \<le> normalizeOffset c" for c by (simp add: normalizeOffset_def split: option.split)
  then have page: "paginateMetadata le [] q = \<lparr>lr_entries = [], lr_cursor = None\<rparr>"
    by (simp add: paginateMetadata_def sort_by_def Let_def not_less)
  have "concat (map (\<lambda>k. query_entry p now q (listed_of inc k (the (content b k)))) ?ks) = []" by (simp add: none)
  then show ?thesis
    unfolding r2_list_def bucket_pages_all [of "list_entry bk p no_policy now q" b "query_entry p now q" p None fuel "[]", OF list_entry_pure len]
    by (simp only: append_Nil option.map prod.case map_sum.simps page)
qed

lemma sync_finds_nothing:
  assumes "\<not> inc" "room \<noteq> []" "\<And>b. length (keys b) < pages b" "0 < fuel"
  shows "\<exists>s' r. syncIssues le' fuel (Some (createR2CacheStore pages le bk pre None None)) now room since limit snapshotLimit s = Some (s', r) \<and>
    sr_events r = [] \<and> sr_snapshots r = [] \<and> sr_nextCursor r = max 0 since"
proof -
  let ?cs = "createR2CacheStore pages le bk pre None None"
  have empty: "cs_list ?cs now q b = (b, Inr \<lparr>lr_entries = [], lr_cursor = None\<rparr>)" if "lq_room q = Some room" for q b
    using listing_by_room_empty [OF assms(1) _ assms(3), where q = q and room = room and b = b] that assms(2)
    by (simp add: createR2CacheStore_def Let_def within_fuel_def truthy_def)
  obtain n where n: "fuel = Suc n" using assms(4) by (cases fuel) auto
  have ev: "loadIssueEventsFromCache fuel ?cs now room a l b = Some (b, Inr ([], a))" if "1 \<le> l" for a l b
    using that by (simp add: loadIssueEventsFromCache_def n empty page_query_def Let_def)
  have sn: "loadIssueSnapshotsFromCache le' fuel ?cs now room l b = Some (b, Inr [])" if "1 \<le> l" for l b
    using that by (simp add: loadIssueSnapshotsFromCache_def n empty page_query_def Let_def sort_by_def)
  show ?thesis by (simp add: syncIssues_def ev sn Let_def)
qed

end

section \<open>The claims\<close>


definition demo_request :: "string \<Rightarrow> put_request" where
  "demo_request key = \<lparr>pq_kind = ''object'', pq_key = key, pq_body = ''body'', pq_room = Some ''main'', pq_ref = None, pq_contentHash = None,
     pq_contentType = None, pq_updatedAt = None\<rparr>"


text \<open>
  Claim C26. Issue synchronisation finds nothing in R2 when listings carry no metadata, as R2 documents
  for a listing that does not ask for it with \<open>include\<close>, which \<open>list\<close> does not: whatever the bucket holds, a
  sync answers without events and snapshots, because a listed record's room is only known from its
  metadata.
\<close>

theorem r2_sync_finds_nothing:
  assumes "r2_bucket bk content keys after False" "\<And>b. length (keys b) < pages b" "room \<noteq> []" "0 < fuel"
  shows "\<exists>s' r. syncIssues le' fuel (Some (createR2CacheStore pages le bk pre None None)) now room since limit snapshotLimit s = Some (s', r) \<and>
    sr_events r = [] \<and> sr_snapshots r = [] \<and> sr_nextCursor r = max 0 since"
  by (rule r2_bucket.sync_finds_nothing [OF assms(1) _ assms(3,2,4)]) simp

theorem r2_sync_finds_nothing_witness:
  "let cs = createR2CacheStore (\<lambda>b. Suc (length b)) string_le (simple_bucket False None) None None None;
       s = persistEnvelope (Some cs) (demo_env 5 JNull) LastWrite (queue_options_of None None None) 5 (demo_issue ''m1'' ''issue'') 1 ([], [])
   in \<exists>s' r. syncIssues string_le 3 (Some cs) 9 ''main'' 0 10 10 s = Some (s', r) \<and> sr_events r = []"
proof -
  let ?s = "persistEnvelope (Some (createR2CacheStore (\<lambda>b. Suc (length b)) string_le (simple_bucket False None) None None None))
    (demo_env 5 JNull) LastWrite (queue_options_of None None None) 5 (demo_issue ''m1'' ''issue'') 1 ([], [])"
  have "length (remdups (map fst b)) < Suc (length b)" for b :: simple_bucket
    using length_remdups_leq [of "map fst b"] by simp
  then show ?thesis
    using r2_sync_finds_nothing [OF simple.r2_bucket_axioms, where pages = "\<lambda>b. Suc (length b)" and room = "''main''" and fuel = 3 and s = ?s]
    unfolding Let_def by fastforce
qed

text \<open>
  An issue persisted to R2 reads back: over any bucket that does what R2 documents, the event
  is filed under a new cursor, parses back to the message, and the room's cursor in memory and in
  the bucket is the new one; reading by key does not need the listings.
\<close>

theorem r2_persisted_issue_reads_back:
  assumes "r2_bucket bk content keys after inc" "\<And>k. content b k = None" "plain_issue env now e"
    and "cs = createR2CacheStore pages le bk pre None None"
    and "c = snd (nextIssueCursor cs now (env_room e) hint (b, m))" "c < int_bound"
    and "s' = persistEnvelope (Some cs) env policy qo now e hint (b, m)"
  shows "cursor_of m (env_room e) < c \<and> readIssueCursorFromCache cs later (env_room e) (fst s') = (fst s', Inr c) \<and>
    (\<exists>found. cs_get cs later ''object'' (issueEventStorageKey (env_room e) c (env_id e)) (fst s') =
       (fst s', Inr (Some found)) \<and> parseIssueCacheEventRecord found = Some (event_of env now e c))"
  by (rule r2_bucket.persisted_issue [OF assms(1-7)])

theorem r2_persisted_issue_reads_back_witness:
  "let cs = createR2CacheStore (\<lambda>b. Suc (length b)) string_le (simple_bucket True None) None None None;
       s' = persistEnvelope (Some cs) (demo_env 5 JNull) LastWrite (queue_options_of None None None) 5 (demo_issue ''m1'' ''issue'') 1 ([], [])
   in \<exists>found. cs_get cs 9 ''object'' (issueEventStorageKey ''main'' 1 ''m1'') (fst s') = (fst s', Inr (Some found))"
proof -
  let ?cs = "createR2CacheStore (\<lambda>b. Suc (length b)) string_le (simple_bucket True None) None None None"
  have "clean ''m1''" by code_simp
  then have pl: "plain_issue (demo_env 5 JNull) 5 (demo_issue ''m1'' ''issue'')" by (intro demo_issue_plain) (simp_all add: int_bound_def)
  have none: "map_of [] k = None" for k :: string by simp
  let ?e = "demo_issue ''m1'' ''issue''"
  have "env_room ?e = ''main''" by (simp add: demo_issue_def)
  then have c: "1 = snd (nextIssueCursor ?cs 5 (env_room ?e) 1 ([], []))" using simple.first_issue_cursor [OF none] by simp
  show ?thesis
    using r2_persisted_issue_reads_back [OF simple.r2_bucket_axioms none pl refl c _ refl, where policy = LastWrite and qo = "queue_options_of None None None" and later = 9]
    unfolding Let_def by (auto simp: demo_issue_def int_bound_def simp del: One_nat_def)
qed

end
