(* ===== verification/Cache_Reads.thy ===== *)
theory Cache_Reads
  imports R2_Facts
begin

text \<open>
  Reading issues back by listing: \<open>syncIssues\<close> pages through the event and snapshot records of a room. The
  contract \<open>listed_store\<close> adds listing to \<open>map_store\<close>; the in-memory store keeps it, and so does the
  bucket store over a bucket that lists metadata. The loops end, and a persisted issue is among the
  events of the next sync.
\<close>

section \<open>Cursors in keys\<close>

lemma digits_val_zeros: "digits_val (replicate n CHR ''0'' @ ds) = digits_val ds"
  by (induction n) (simp_all add: digits_val_def)

lemma pad12_digits: "0 \<le> c \<Longrightarrow> x \<in> set (pad12 c) \<Longrightarrow> is_digit x"
  using nat_str_digits [of x "nat c"] by (auto simp: pad12_def int_str_def is_digit_def split: if_splits)

lemma pad12_nonempty: "pad12 c \<noteq> []"
  by (simp add: pad12_def int_str_def)

lemma parse_pad12:
  assumes "0 \<le> c" "c < max_double_bound"
  shows "js_parse_int (pad12 c) = of_integer c"
proof -
  obtain x xs where x: "pad12 c = x # xs" using pad12_nonempty [of c] by (cases "pad12 c") auto
  have d: "\<And>y. y \<in> set (x # xs) \<Longrightarrow> is_digit y" using pad12_digits [OF assms(1)] by (simp add: x)
  have "\<not> is_space x" "x \<noteq> CHR ''-''" "x \<noteq> CHR ''+''" using d [of x] by (auto simp: is_digit_def is_space_def)
  moreover have "takeWhile is_digit (x # xs) = x # xs" using d by (simp add: takeWhile_eq_all_conv)
  moreover have "digits_val (x # xs) = nat c"
    using assms(1) by (simp add: digits_val_zeros int_str_def digits_val_nat_str pad12_def flip: x)
  ultimately show ?thesis using assms by (simp add: js_parse_int_def x num_of_digits_def Let_def)
qed

lemma parse_event_key:
  assumes "0 < c" "c < max_double_bound"
  shows "parseIssueEventCursorFromKey room (issueEventStorageKey room c eid) = Some c"
proof -
  have nodash: "\<forall>x\<in>set (pad12 c). x \<noteq> CHR ''-''" using pad12_digits [of c "CHR ''-''"] assms(1) by (auto simp: is_digit_def)
  let ?suffix = "pad12 c @ CHR ''-'' # eid"
  have tw: "takeWhile (\<lambda>x. x \<noteq> CHR ''-'') ?suffix = pad12 c" "dropWhile (\<lambda>x. x \<noteq> CHR ''-'') ?suffix = CHR ''-'' # eid"
    using nodash by (simp_all add: takeWhile_append2 dropWhile_append2)
  have key: "issueEventStorageKey room c eid = (''issue/events/'' @ room @ ''/'') @ ?suffix"
    using assms(1) by (simp add: issueEventStorageKey_def)
  show ?thesis
    unfolding parseIssueEventCursorFromKey_def key Let_def
    using tw parse_pad12 [of c] pad12_nonempty [of c] assms by simp
qed

section \<open>Reading the entries of a page\<close>

lemma map_filter_append: "List.map_filter f (xs @ ys) = List.map_filter f xs @ List.map_filter f ys"
  by (simp add: map_filter_def)

fun take_new :: "int \<Rightarrow> ('e \<Rightarrow> 'r option) \<Rightarrow> 'e list \<Rightarrow> 'r list \<Rightarrow> 'r list" where
  "take_new limit pick [] rs = rs"
| "take_new limit pick (e # es) rs =
     (case pick e of
        None \<Rightarrow> take_new limit pick es rs
      | Some r \<Rightarrow> if int (length (rs @ [r])) \<ge> limit then rs @ [r] else take_new limit pick es (rs @ [r]))"

lemma take_new_eq: "int (length rs) < limit \<Longrightarrow> take_new limit pick es rs = take (nat limit) (rs @ List.map_filter pick es)"
proof (induction es arbitrary: rs)
  case (Cons e es)
  show ?case
  proof (cases "pick e")
    case (Some r)
    show ?thesis
    proof (cases "int (length (rs @ [r])) \<ge> limit")
      case True
      then have "nat limit = Suc (length rs)" using Cons.prems by simp
      then show ?thesis using True Some by (simp add: map_filter_simps)
    next
      case False
      then show ?thesis using Cons.IH [of "rs @ [r]"] Some by (simp add: map_filter_simps)
    qed
  qed (use Cons in \<open>simp add: map_filter_simps\<close>)
qed (simp add: map_filter_simps)

lemma paginate_at:
  assumes "normalizeOffset c = int k"
  shows "paginateMetadata le es (q\<lparr>lq_cursor := c\<rparr>) =
    (let s = sort_by (metadata_le le) es; page = take (nat (listLimit (lq_limit q))) (drop k s); next = k + length page
     in \<lparr>lr_entries = page, lr_cursor = (if next < length s then Some (int_str (int next)) else None)\<rparr>)"
  by (simp add: paginateMetadata_def Let_def assms del: length_take length_drop length_sort_by flip: of_nat_add)

locale listed_store = map_store cs inv lookup times
  for cs :: "'s cache_store" and inv :: "'s \<Rightarrow> bool" and lookup :: "'s \<Rightarrow> string \<times> string \<Rightarrow> store_object option"
    and times :: "int \<Rightarrow> bool" +
  fixes le :: "string \<Rightarrow> string \<Rightarrow> bool" and entries :: "'s \<Rightarrow> list_query \<Rightarrow> store_metadata list"
  assumes list_pages: "inv st \<Longrightarrow> cs_list cs now q st = (st, Inr (paginateMetadata le (entries st q) q))"
    and entries_set: "inv st \<Longrightarrow> set (entries st q) = {m. \<exists>k r. lookup st k = Some r \<and> m = so_metadata r \<and> metadataMatchesQuery m q}"
    and entries_cursor: "entries st (q\<lparr>lq_cursor := c\<rparr>) = entries st q"
    and lookup_filed: "inv st \<Longrightarrow> lookup st k = Some r \<Longrightarrow>
      fst k \<in> set VALID_KINDS \<and> clean (snd k) \<and> sm_kind (so_metadata r) = fst k \<and> sm_key (so_metadata r) = snd k"
begin

text \<open>The loop over the pages, for a reader of entries that leaves the store as it is.\<close>

lemma load_pages_eq:
  assumes "inv st" "0 < limit" "\<And>c. query c = q\<lparr>lq_cursor := truthy c\<rparr>"
    and "\<And>es rs. set es \<subseteq> set (entries st q) \<Longrightarrow> read es rs st = (st, take_new limit pick es rs)"
    and "int (length (entries st q)) < max_double_bound"
    and "normalizeOffset (truthy cursor) = int k" "length (entries st q) - k < fuel" "int (length rs) < limit"
  shows "load_pages fuel cs now query read limit cursor rs st =
    Some (st, Inr (take (nat limit) (rs @ List.map_filter pick (drop k (sort_by (metadata_le le) (entries st q))))))"
  using assms(6-8)
proof (induction fuel arbitrary: cursor k rs)
  case (Suc fuel)
  let ?s = "sort_by (metadata_le le) (entries st q)" and ?n = "nat (listLimit (lq_limit q))"
  define page where "page = take ?n (drop k ?s)"
  define nx where "nx = k + length page"
  have n: "0 < ?n" using listLimit_pos [of "lq_limit q"] by simp
  have parts: "drop k ?s = page @ drop nx ?s"
  proof -
    have "take m xs @ drop (length (take m xs)) xs = xs" for m and xs :: "store_metadata list" by (simp add: min_def)
    from this [of ?n "drop k ?s"] show ?thesis unfolding page_def nx_def by (simp only: drop_drop add.commute)
  qed
  have more: "0 < length page" if "nx < length ?s" using that n by (simp add: page_def nx_def)
  have "set page \<subseteq> set (entries st q)" unfolding page_def using set_take_subset set_drop_subset by fastforce
  then have rd: "read page rs st = (st, take (nat limit) (rs @ List.map_filter pick page))"
    using assms(4) take_new_eq [OF Suc.prems(3)] by simp
  have listed: "cs_list cs now (query cursor) st =
      (st, Inr \<lparr>lr_entries = page, lr_cursor = (if nx < length ?s then Some (int_str (int nx)) else None)\<rparr>)"
    unfolding assms(3) list_pages [OF assms(1)] entries_cursor paginate_at [OF Suc.prems(1)] Let_def page_def nx_def ..
  have all: "List.map_filter pick (drop k ?s) = List.map_filter pick page @ List.map_filter pick (drop nx ?s)"
    unfolding parts map_filter_append ..
  show ?case
  proof (cases "nx < length ?s \<and> length (rs @ List.map_filter pick page) < nat limit")
    case True
    have few: "int (length (rs @ List.map_filter pick page)) < limit"
      using conjunct2 [OF True] by (simp only: zless_nat_eq_int_zless)
    have full: "take (nat limit) (rs @ List.map_filter pick page) = rs @ List.map_filter pick page"
      using conjunct2 [OF True] by (intro take_all) simp
    have "int (length ?s) < max_double_bound" using assms(5) by simp
    then have "normalizeOffset (truthy (Some (int_str (int nx)))) = int nx"
      using True normalizeOffset_int_str [of "int nx"] by (simp add: truthy_def int_str_def)
    moreover have "length (entries st q) - nx < fuel" using more [OF conjunct1 [OF True]] conjunct1 [OF True] Suc.prems(2) unfolding nx_def length_sort_by by linarith
    ultimately have "load_pages fuel cs now query read limit (Some (int_str (int nx))) (rs @ List.map_filter pick page) st =
        Some (st, Inr (take (nat limit) ((rs @ List.map_filter pick page) @ List.map_filter pick (drop nx ?s))))"
      by (rule Suc.IH) (rule few)
    then show ?thesis using True Suc.prems(3) few listed rd unfolding full all by (simp add: Let_def)
  next
    case False
    have "take (nat limit) (rs @ List.map_filter pick (drop k ?s)) = take (nat limit) (rs @ List.map_filter pick page)"
    proof (cases "nx < length ?s")
      case True
      then have "nat limit \<le> length (rs @ List.map_filter pick page)" using False by simp
      then show ?thesis unfolding all by simp
    qed (simp add: all map_filter_simps)
    moreover have "int (length (take (nat limit) (rs @ List.map_filter pick page))) \<ge> limit \<or> \<not> nx < length ?s"
      using False by auto
    ultimately show ?thesis using listed rd Suc.prems(3) by (auto simp: Let_def)
  qed
qed simp

text \<open>The event and the snapshot a listed entry stands for.\<close>

definition event_at :: "string \<Rightarrow> int \<Rightarrow> 's \<Rightarrow> store_metadata \<Rightarrow> issue_event option" where
  "event_at room since st entry =
     (case parseIssueEventCursorFromKey room (sm_key entry) of
        None \<Rightarrow> None
      | Some keyCursor \<Rightarrow>
          if keyCursor \<le> since then None
          else Option.bind (Option.bind (lookup st (''object'', sm_key entry)) parseIssueCacheEventRecord) (\<lambda>r.
            if ie_room r \<noteq> room \<or> ie_cursor r \<le> since then None else Some r))"

definition snapshot_at :: "string \<Rightarrow> 's \<Rightarrow> store_metadata \<Rightarrow> issue_snapshot option" where
  "snapshot_at room st entry =
     Option.bind (Option.bind (lookup st (''object'', sm_key entry)) parseIssueCacheSnapshotRecord) (\<lambda>r.
       if iss_room r \<noteq> room then None else Some r)"

lemma entry_looks_up:
  assumes "inv st" "entry \<in> set (entries st q)"
  shows "cs_get cs now ''object'' (sm_key entry) st = (st, Inr (lookup st (''object'', sm_key entry)))"
proof -
  obtain k r where "lookup st k = Some r" "entry = so_metadata r" using entries_set [OF assms(1)] assms(2) by auto
  then have "clean (sm_key entry)" using lookup_filed [OF assms(1)] by metis
  then show ?thesis by (intro get_looks_up assms(1)) (simp_all add: VALID_KINDS_def)
qed

lemma read_events_eq:
  assumes "inv st" "set es \<subseteq> set (entries st q)"
  shows "read_events cs now room since limit es rs st = (st, take_new limit (event_at room since st) es rs)"
  using assms(2)
proof (induction es arbitrary: rs)
  case (Cons e es)
  have get: "cs_get cs now ''object'' (sm_key e) st = (st, Inr (lookup st (''object'', sm_key e)))"
    by (rule entry_looks_up [OF assms(1), of e q]) (use Cons.prems in simp)
  show ?case
    using Cons.IH Cons.prems by (simp add: get event_at_def Let_def split: option.split)
qed simp

lemma read_snapshots_eq:
  assumes "inv st" "set es \<subseteq> set (entries st q)"
  shows "read_snapshots cs now room limit es rs st = (st, take_new limit (snapshot_at room st) es rs)"
  using assms(2)
proof (induction es arbitrary: rs)
  case (Cons e es)
  have get: "cs_get cs now ''object'' (sm_key e) st = (st, Inr (lookup st (''object'', sm_key e)))"
    by (rule entry_looks_up [OF assms(1), of e q]) (use Cons.prems in simp)
  show ?case
    using Cons.IH Cons.prems by (simp add: get snapshot_at_def Let_def split: option.split)
qed simp

definition event_query :: "string \<Rightarrow> int \<Rightarrow> list_query" where
  "event_query room limit = page_query room (''issue/events/'' @ room @ ''/'') (max 100 (limit * 2)) None"

definition snapshot_query :: "string \<Rightarrow> int \<Rightarrow> list_query" where
  "snapshot_query room limit = page_query room (''issue/snapshots/'' @ room @ ''/'') (max 100 limit) None"

lemma page_query_cursor: "page_query room p n c = (page_query room p n None)\<lparr>lq_cursor := truthy c\<rparr>"
  by (simp add: page_query_def)

lemma zero_offset: "normalizeOffset (truthy None) = int 0"
proof -
  have "js_parse_int ''0'' = of_integer 0" by code_simp
  then show ?thesis by (simp add: normalizeOffset_def)
qed

definition room_events :: "'s \<Rightarrow> string \<Rightarrow> int \<Rightarrow> int \<Rightarrow> issue_event list" where
  "room_events st room since limit =
     take (nat limit) (List.map_filter (event_at room since st) (sort_by (metadata_le le) (entries st (event_query room limit))))"

definition room_snapshots :: "'s \<Rightarrow> string \<Rightarrow> int \<Rightarrow> issue_snapshot list" where
  "room_snapshots st room limit =
     take (nat limit) (List.map_filter (snapshot_at room st) (sort_by (metadata_le le) (entries st (snapshot_query room limit))))"

lemma load_events:
  assumes "inv st" "0 < limit" "length (entries st (event_query room limit)) < fuel" "int fuel \<le> max_double_bound"
  shows "loadIssueEventsFromCache fuel cs now room since limit st =
    Some (st, Inr (let evs = sort_key ie_cursor (room_events st room since limit)
      in (evs, if evs = [] then since else ie_cursor (last evs))))"
proof -
  have "load_pages fuel cs now (page_query room (''issue/events/'' @ room @ ''/'') (max 100 (limit * 2)))
      (read_events cs now room since limit) limit None [] st = Some (st, Inr (take (nat limit) ([] @
        List.map_filter (event_at room since st) (drop 0 (sort_by (metadata_le le) (entries st (event_query room limit)))))))"
  proof (rule load_pages_eq [OF assms(1,2) _ _ _ zero_offset])
    show "read_events cs now room since limit es rs st = (st, take_new limit (event_at room since st) es rs)" if "set es \<subseteq> set (entries st (event_query room limit))" for es rs
      by (rule read_events_eq [OF assms(1) that])
  qed (use assms(2-4) in \<open>auto simp: event_query_def intro: page_query_cursor\<close>)
  then have "load_pages fuel cs now (page_query room (''issue/events/'' @ room @ ''/'') (max 100 (limit * 2)))
      (read_events cs now room since limit) limit None [] st = Some (st, Inr (room_events st room since limit))"
    by (simp add: room_events_def)
  then show ?thesis by (simp add: loadIssueEventsFromCache_def Let_def)
qed

lemma load_snapshots:
  assumes "inv st" "0 < limit" "length (entries st (snapshot_query room limit)) < fuel" "int fuel \<le> max_double_bound"
  shows "loadIssueSnapshotsFromCache le' fuel cs now room limit st =
    Some (st, Inr (sort_by (\<lambda>a b. le' (iss_issue_id a) (iss_issue_id b)) (room_snapshots st room limit)))"
proof -
  have "load_pages fuel cs now (page_query room (''issue/snapshots/'' @ room @ ''/'') (max 100 limit))
      (read_snapshots cs now room limit) limit None [] st = Some (st, Inr (take (nat limit) ([] @
        List.map_filter (snapshot_at room st) (drop 0 (sort_by (metadata_le le) (entries st (snapshot_query room limit)))))))"
  proof (rule load_pages_eq [OF assms(1,2) _ _ _ zero_offset])
    show "read_snapshots cs now room limit es rs st = (st, take_new limit (snapshot_at room st) es rs)" if "set es \<subseteq> set (entries st (snapshot_query room limit))" for es rs
      by (rule read_snapshots_eq [OF assms(1) that])
  qed (use assms(2-4) in \<open>auto simp: snapshot_query_def intro: page_query_cursor\<close>)
  then have "load_pages fuel cs now (page_query room (''issue/snapshots/'' @ room @ ''/'') (max 100 limit))
      (read_snapshots cs now room limit) limit None [] st = Some (st, Inr (room_snapshots st room limit))"
    by (simp add: room_snapshots_def)
  then show ?thesis by (simp add: loadIssueSnapshotsFromCache_def)
qed

text \<open>A sync over a listed store returns.\<close>

lemma sync_returns:
  assumes "inv st" "isValidRoomName room" "\<And>q. length (entries st q) < fuel" "int fuel \<le> max_double_bound"
  shows "\<exists>m' r. syncIssues le' fuel (Some cs) now room since limit snapshotLimit (st, m) = Some ((st, m'), r) \<and>
    sr_events r = sort_key ie_cursor (room_events st room (max 0 since) (max 1 limit)) \<and>
    sr_nextCursor r = (if sr_events r = [] then max 0 since else ie_cursor (last (sr_events r))) \<and>
    mset (sr_snapshots r) = mset (room_snapshots st room (max 1 snapshotLimit)) \<and>
    sr_roomCursor r = max (cursor_of m room) (stored_cursor st room)"
proof -
  have l: "0 < max 1 limit" "0 < max 1 snapshotLimit" by simp_all
  show ?thesis
    using load_events [OF assms(1) l(1) assms(3,4), of now room "max 0 since"] load_snapshots [OF assms(1) l(2) assms(3,4), of le' now room]
      read_cursor [OF assms(1,2), of now]
    by (simp add: syncIssues_def currentIssueCursor_def Let_def)
qed

text \<open>An issue that is filed is among the events a sync collects, unless the limit cut it off.\<close>

lemma filed_event_collected:
  assumes "inv (fst s)" "issue_filed env now e c s" "plain_issue env now e" "0 < c" "c < int_bound" "since < c"
    and "int (length (room_events (fst s) (env_room e) since limit)) < limit"
  shows "event_of env now e c \<in> set (room_events (fst s) (env_room e) since limit)"
proof -
  let ?key = "issueEventStorageKey (env_room e) c (env_id e)" and ?q = "event_query (env_room e) limit"
  obtain ob where ob: "lookup (fst s) (''object'', ?key) = Some ob" "so_body ob = json_bytes (num_text env) (issue_event_record (event_of env now e c))"
    "sm_room (so_metadata ob) = truthy (Some (env_room e))"
    using assms(2) by (auto simp: issue_filed_def)
  have room: "env_room e \<noteq> []" using assms(3) room_name_hd by (auto simp: plain_issue_def envelope_plain_def)
  have ns: "int_text (num_text env)" using assms(3) by (simp add: plain_issue_def)
  have filed: "sm_kind (so_metadata ob) = ''object''" "sm_key (so_metadata ob) = ?key" using lookup_filed [OF assms(1) ob(1)] by simp_all
  have "metadataMatchesQuery (so_metadata ob) ?q"
    using room ob(3) assms(4) by (simp add: metadataMatchesQuery_def event_query_def page_query_def truthy_def filed issueEventStorageKey_def)
  then have mem: "so_metadata ob \<in> set (sort_by (metadata_le le) (entries (fst s) ?q))"
    using entries_set [OF assms(1), of ?q] ob(1) by auto
  have "int_bound < max_double_bound" by (simp add: int_bound_def max_double_bound_def)
  then have "parseIssueEventCursorFromKey (env_room e) ?key = Some c" using assms(4,5) by (intro parse_event_key) simp_all
  moreover have "parseIssueCacheEventRecord ob = Some (event_of env now e c)"
    by (rule parse_event_record [OF event_of_plain [OF assms(3-5)] ns ob(2)])
  ultimately have "event_at (env_room e) since (fst s) (so_metadata ob) = Some (event_of env now e c)"
    using assms(6) ob(1) by (simp add: event_at_def filed) (simp add: event_of_def)
  then have "event_of env now e c \<in> set (List.map_filter (event_at (env_room e) since (fst s)) (sort_by (metadata_le le) (entries (fst s) ?q)))"
    using mem by (auto simp: map_filter_def intro!: rev_image_eqI)
  then show ?thesis using assms(7) by (simp add: room_events_def min_def split: if_splits)
qed

end

context map_store
begin

lemma persisted_filed:
  assumes "inv (fst s)" "plain_issue env now e" "times (max 0 now)"
    and "c = snd (nextIssueCursor cs now (env_room e) hint s)" "c < int_bound"
    and "s' = persistEnvelope (Some cs) env policy qo now e hint s"
  shows "inv (fst s') \<and> issue_filed env now e c s' \<and> 0 < c \<and> stored_cursor (fst s') (env_room e) = c \<and>
    cursor_of (snd s') (env_room e) = c"
proof -
  note im = plain_issue_message [OF assms(2,3)]
  have room: "isValidRoomName (env_room e)" using assms(2) by (simp add: plain_issue_def envelope_plain_def)
  have c: "c = next_cursor s (env_room e) hint" unfolding assms(4) by (rule nextIssueCursor_eq(1) [OF assms(1) room])
  obtain t where t: "persist_task cs env policy now e hint s = (t, None)" "inv (fst t)" "issue_filed env now e c t"
    "map_of (snd t) = (map_of (snd s))(env_room e \<mapsto> c)"
    using persist_task_files [OF assms(1) im, of env policy hint, folded c] by (elim exE conjE) (rule that)
  have "s' = t" unfolding assms(6) persistEnvelope_files [OF assms(1) im] t(1) by simp
  moreover have pos: "0 < c" unfolding c by (rule next_cursor_fresh)
  ultimately show ?thesis using t stored_cursor_filed [OF assms(2) t(3) pos assms(5)] by (simp add: cursor_of_def)
qed

end

context listed_store
begin

lemma persisted_is_synced:
  assumes "inv (fst s)" "plain_issue env now e" "times (max 0 now)"
    and "c = snd (nextIssueCursor cs now (env_room e) hint s)" "c < int_bound"
    and "s' = persistEnvelope (Some cs) env policy qo now e hint s" "max 0 since < c"
    and "\<And>q. length (entries (fst s') q) < fuel" "int fuel \<le> max_double_bound"
  shows "\<exists>s'' r. syncIssues le' fuel (Some cs) later (env_room e) since limit snapshotLimit s' = Some (s'', r) \<and>
    sorted (map ie_cursor (sr_events r)) \<and> int (length (sr_events r)) \<le> max 1 limit \<and> sr_roomCursor r = c \<and>
    (int (length (sr_events r)) < max 1 limit \<longrightarrow> event_of env now e c \<in> set (sr_events r) \<and> c \<le> sr_nextCursor r)"
proof -
  have f: "inv (fst s')" "issue_filed env now e c s'" "0 < c" "stored_cursor (fst s') (env_room e) = c" "cursor_of (snd s') (env_room e) = c"
    using persisted_filed [OF assms(1-6)] by simp_all
  have room: "isValidRoomName (env_room e)" using assms(2) by (simp add: plain_issue_def envelope_plain_def)
  let ?evs = "room_events (fst s') (env_room e) (max 0 since) (max 1 limit)"
  obtain m' r where r: "syncIssues le' fuel (Some cs) later (env_room e) since limit snapshotLimit s' = Some ((fst s', m'), r)"
    "sr_events r = sort_key ie_cursor ?evs"
    "sr_nextCursor r = (if sr_events r = [] then max 0 since else ie_cursor (last (sr_events r)))"
    "sr_roomCursor r = c"
    using sync_returns [OF f(1) room assms(8,9), of le' later since limit snapshotLimit "snd s'"] f(4,5) by auto
  have "length (sr_events r) \<le> nat (max 1 limit)" by (simp add: r(2) room_events_def)
  then have short: "int (length (sr_events r)) \<le> max 1 limit" by linarith
  have sorted: "sorted (map ie_cursor (sr_events r))" by (simp add: r(2))
  have "event_of env now e c \<in> set (sr_events r) \<and> c \<le> sr_nextCursor r" if few: "int (length (sr_events r)) < max 1 limit"
  proof -
    have ev: "event_of env now e c \<in> set (sr_events r)"
      using filed_event_collected [OF f(1,2) assms(2) f(3) assms(5,7), of "max 1 limit"] few by (simp add: r(2))
    then obtain xs y where y: "sr_events r = xs @ [y]" by (cases "sr_events r" rule: rev_cases) auto
    have "ie_cursor (event_of env now e c) \<le> ie_cursor y" using ev sorted unfolding y by (auto simp: sorted_append)
    then show ?thesis using ev by (simp add: r(3) y event_of_def)
  qed
  then show ?thesis using r(1,4) short sorted by blast
qed

end

section \<open>The two stores list\<close>

lemma matches_cursor: "metadataMatchesQuery m (q\<lparr>lq_cursor := c\<rparr>) = metadataMatchesQuery m q"
  by (simp add: metadataMatchesQuery_def)

definition memory_entries :: "memory_store \<Rightarrow> list_query \<Rightarrow> store_metadata list" where
  "memory_entries st q = filter (\<lambda>m. metadataMatchesQuery m q) (map (\<lambda>x. so_metadata (snd x)) st)"

interpretation plain: listed_store "plain_store le" "memory_ok no_policy" memory_lookup "\<lambda>_. True" le memory_entries for le
proof unfold_locales
  fix st :: memory_store and now q assume st: "memory_ok no_policy st"
  show "cs_list (plain_store le) now q st = (st, Inr (paginateMetadata le (memory_entries st q) q))"
    by (simp add: plain_store_def createMemoryCacheStore_def memory_list_def memory_entries_def)
  show "set (memory_entries st q) = {m. \<exists>k r. memory_lookup st k = Some r \<and> m = so_metadata r \<and> metadataMatchesQuery m q}"
    unfolding memory_entries_def by (rule memory_entries_set [OF st])
next
  fix st :: memory_store and q c
  show "memory_entries st (q\<lparr>lq_cursor := c\<rparr>) = memory_entries st q" by (simp add: memory_entries_def metadataMatchesQuery_def)
next
  fix st :: memory_store and k r assume st: "memory_ok no_policy st" "memory_lookup st k = Some r"
  then have k: "fst k \<in> set VALID_KINDS" "(toStorageKey (fst k) (snd k), r) \<in> set st"
    by (auto simp: memory_lookup_def dest: map_of_SomeD split: if_splits)
  then have "object_ok (toStorageKey (fst k) (snd k)) r" using st(1) unfolding memory_ok_def by force
  then show "fst k \<in> set VALID_KINDS \<and> clean (snd k) \<and> sm_kind (so_metadata r) = fst k \<and> sm_key (so_metadata r) = snd k"
    using k(1) toStorageKey_inj [OF k(1)] by (auto simp: object_ok_def Let_def)
qed

locale full_bucket = r2_bucket bk content keys after True
  for bk :: "'b bucket" and content :: "'b \<Rightarrow> string \<Rightarrow> r2_object option" and keys :: "'b \<Rightarrow> string list" and after :: "string \<Rightarrow> string"

sublocale full_bucket < listed: listed_store "createR2CacheStore (\<lambda>b. Suc (length (keys b))) le bk pre None None"
    "bucket_ok (normalizeR2Prefix pre)" "r2_lookup (normalizeR2Prefix pre)" time_ok le "bucket_entries (normalizeR2Prefix pre)" for le pre
proof unfold_locales
  fix st :: 'b and now q assume st: "bucket_ok (normalizeR2Prefix pre) st"
  show "cs_list (createR2CacheStore (\<lambda>b. Suc (length (keys b))) le bk pre None None) now q st =
      (st, Inr (paginateMetadata le (bucket_entries (normalizeR2Prefix pre) st q) q))"
    using list_finds(1) [OF TrueI st, of "Suc (length (keys st))" le now q] by (simp add: createR2CacheStore_def Let_def within_fuel_def)
  show "set (bucket_entries (normalizeR2Prefix pre) st q) =
      {m. \<exists>k r. r2_lookup (normalizeR2Prefix pre) st k = Some r \<and> m = so_metadata r \<and> metadataMatchesQuery m q}"
    by (rule list_finds(3) [OF TrueI st])
next
  fix st :: 'b and q c
  show "bucket_entries (normalizeR2Prefix pre) st (q\<lparr>lq_cursor := c\<rparr>) = bucket_entries (normalizeR2Prefix pre) st q"
    unfolding bucket_entries_def query_entry_def matches_cursor ..
next
  fix st :: 'b and k r assume st: "bucket_ok (normalizeR2Prefix pre) st" "r2_lookup (normalizeR2Prefix pre) st k = Some r"
  then show "fst k \<in> set VALID_KINDS \<and> clean (snd k) \<and> sm_kind (so_metadata r) = fst k \<and> sm_key (so_metadata r) = snd k"
    using bucket_okD [OF st(1), of "fst k" "snd k"] by (auto simp: r2_lookup_def object_filed_def Let_def split: if_splits)
qed

interpretation simple_full: full_bucket "simple_bucket True up" map_of "\<lambda>b. remdups (map fst b)" tl for up
  by (simp add: full_bucket_def simple.r2_bucket_axioms)

section \<open>Synchronisation\<close>


lemma put_grows: "length (fst (put_json (plain_store le) env now kind key room ref v st)) \<le> Suc (length st)"
proof -
  have "length (AList.update k x st) \<le> Suc (length st)" for k and x :: store_object
    by (induction st) auto
  then show ?thesis
    by (simp add: put_json_def plain_store_def createMemoryCacheStore_def memory_put_def with_key_def split: sum.split)
qed

lemma get_keeps [simp]: "fst (cs_get (plain_store le) now kind key st) = st"
  by (auto simp: plain_store_def createMemoryCacheStore_def memory_get_def with_key_def Let_def split: sum.split option.split)

lemma cursor_keeps [simp]: "fst (fst (nextIssueCursor (plain_store le) now room hint s)) = fst s"
  by (simp add: nextIssueCursor_def currentIssueCursor_def readIssueCursorFromCache_def Let_def)

lemma projection_steps:
  assumes "nx = nextIssueCursor cs now (env_room e) hint s"
    and "pe = put_json cs env now ''object'' (issueEventStorageKey (env_room e) (snd nx) (env_id e)) (env_room e)
      (''issue_event:'' @ extractIssueIdFromEnvelope e) (issue_event_record (event_of env now e (snd nx))) (fst (fst nx))"
    and "ex = cs_get cs now ''object'' (issueSnapshotStorageKey (env_room e) (extractIssueIdFromEnvelope e)) (fst pe)"
    and "ps = (if keeps_snapshot policy env e (snd ex) then (fst ex, Inr ())
      else put_json cs env now ''object'' (issueSnapshotStorageKey (env_room e) (extractIssueIdFromEnvelope e)) (env_room e)
        ''issue_snapshot'' (issue_snapshot_record (snapshot_of env now e (snd nx))) (fst ex))"
    and "pc = put_json cs env now ''object'' (issueCursorStorageKey (env_room e)) (env_room e) ''issue_cursor''
      (issue_cursor_record \<lparr>ic_room = env_room e, ic_cursor = snd nx, ic_updated_at = now\<rparr>) (fst ps)"
  shows "persistIssueProjectionToCache cs env policy now e hint s =
      (case snd pe of Inl err \<Rightarrow> ((fst pe, snd (fst nx)), Inl err)
       | Inr _ \<Rightarrow> (case snd ps of Inl err \<Rightarrow> ((fst ps, snd (fst nx)), Inl err) | Inr _ \<Rightarrow> ((fst pc, snd (fst nx)), snd pc)))"
  unfolding persistIssueProjectionToCache_def Let_def assms by (rule refl)

lemma projection_grows:
  "length (fst (fst (persistIssueProjectionToCache (plain_store le) env policy now e hint s))) \<le> length (fst s) + 3"
proof -
  have step: "length (fst (put_json (plain_store le) env now kind key room ref v st)) \<le> n + 1" if "length st \<le> n" for n kind key room ref v st
    using put_grows [of le env now kind key room ref v st] that by linarith
  define nx where "nx = nextIssueCursor (plain_store le) now (env_room e) hint s"
  define pe where "pe = put_json (plain_store le) env now ''object'' (issueEventStorageKey (env_room e) (snd nx) (env_id e)) (env_room e)
    (''issue_event:'' @ extractIssueIdFromEnvelope e) (issue_event_record (event_of env now e (snd nx))) (fst (fst nx))"
  define ex where "ex = cs_get (plain_store le) now ''object'' (issueSnapshotStorageKey (env_room e) (extractIssueIdFromEnvelope e)) (fst pe)"
  define ps where "ps = (if keeps_snapshot policy env e (snd ex) then (fst ex, Inr ())
    else put_json (plain_store le) env now ''object'' (issueSnapshotStorageKey (env_room e) (extractIssueIdFromEnvelope e)) (env_room e)
      ''issue_snapshot'' (issue_snapshot_record (snapshot_of env now e (snd nx))) (fst ex))"
  define pc where "pc = put_json (plain_store le) env now ''object'' (issueCursorStorageKey (env_room e)) (env_room e) ''issue_cursor''
    (issue_cursor_record \<lparr>ic_room = env_room e, ic_cursor = snd nx, ic_updated_at = now\<rparr>) (fst ps)"
  note eq = projection_steps [OF nx_def pe_def ex_def ps_def pc_def]
  have pe: "length (fst pe) \<le> length (fst s) + 1" unfolding pe_def nx_def by (rule step) simp
  then have "length (fst ex) \<le> length (fst s) + 1" by (simp add: ex_def)
  then have ps: "length (fst ps) \<le> length (fst s) + 2" using step [of "fst ex" "length (fst s) + 1"] by (auto simp: ps_def)
  have pc: "length (fst pc) \<le> length (fst s) + 3" unfolding pc_def by (rule order_trans [OF step [OF ps]]) simp
  show ?thesis unfolding eq using pe ps pc by (auto split: sum.split)
qed

lemma persist_grows:
  assumes "memory_ok no_policy (fst s)" "plain_issue env now e"
  shows "length (fst (persistEnvelope (Some (plain_store le)) env policy qo now e hint s)) \<le> length (fst s) + 4"
proof -
  let ?p = "put_json (plain_store le) env now ''issue'' (message_key e) (env_room e) (env_topic e) (envelope_json e) (fst s)"
  have "length (fst ?p) \<le> length (fst s) + 1" using put_grows [of le env now "''issue''"] by simp
  moreover have "length (fst (fst (persistIssueProjectionToCache (plain_store le) env policy now e hint (fst ?p, snd s)))) \<le> length (fst ?p) + 3"
    using projection_grows [of le env policy now e hint "(fst ?p, snd s)"] by simp
  moreover have "isIssueTopic (env_topic e)" using assms(2) by (simp add: plain_issue_def)
  ultimately have "length (fst (fst (persist_task (plain_store le) env policy now e hint s))) \<le> length (fst s) + 4"
    by (auto simp: persist_task_def Let_def split: sum.split)
  then show ?thesis using plain.persistEnvelope_files [OF assms(1) plain_issue_stored [OF assms(2)], of le env policy qo hint] by simp
qed


end
