(* ===== verification/Cache_Failures.thy ===== *)
theory Cache_Failures
  imports Cache_Reads
begin

text \<open>
  Where the cache adapter falls short of its purpose, over a store that itself works as it should: a
  retried task files its issue a second time, because the first attempt's cursor is spent; and a pull
  counts positions in a listing sorted by key, so an issue whose key sorts before what was already
  pulled is never delivered.
\<close>

section \<open>A failed attempt\<close>

text \<open>The store while writes of a room's cursor record fail.\<close>

definition cursor_down :: "'s cache_store \<Rightarrow> string \<Rightarrow> 's cache_store" where
  "cursor_down cs room =
     cs\<lparr>cs_put := \<lambda>now rq st. if pq_kind rq = ''object'' \<and> pq_key rq = issueCursorStorageKey room then (st, Inl ''down'')
        else cs_put cs now rq st\<rparr>"

lemma cursor_down_get [simp]: "cs_get (cursor_down cs room) = cs_get cs"
  by (simp add: cursor_down_def)

lemma cursor_down_next [simp]: "nextIssueCursor (cursor_down cs room) = nextIssueCursor cs"
  by (simp add: fun_eq_iff nextIssueCursor_def currentIssueCursor_def readIssueCursorFromCache_def)

lemma cursor_down_put:
  "put_json (cursor_down cs room) env now kind key room' ref v st =
     (if kind = ''object'' \<and> key = issueCursorStorageKey room then (st, Inl ''down'') else put_json cs env now kind key room' ref v st)"
  by (simp add: put_json_def cursor_down_def)

lemma cursor_down_put_other:
  "key \<noteq> issueCursorStorageKey room \<Longrightarrow>
   put_json (cursor_down cs room) env now kind key room' ref v st = put_json cs env now kind key room' ref v st"
  by (simp add: cursor_down_put)

lemma pad12_inj:
  assumes "0 \<le> a" "0 \<le> b" "pad12 a = pad12 b"
  shows "a = b"
proof -
  have "digits_val (pad12 x) = nat x" if "0 \<le> x" for x
    using that by (simp add: pad12_def digits_val_zeros int_str_def)
  from this [OF assms(1)] this [OF assms(2)] show ?thesis using assms by simp
qed

lemma event_key_inj:
  assumes "0 < a" "0 < b" "issueEventStorageKey room a eid = issueEventStorageKey room b eid"
  shows "a = b"
  using assms pad12_inj [of a b] by (simp add: issueEventStorageKey_def)

context map_store
begin

lemma failed_attempt:
  assumes "inv (fst s)" "issue_message now e" "c = next_cursor s (env_room e) hint"
  shows "\<exists>s1. persist_task (cursor_down cs (env_room e)) env policy now e hint s = (s1, Some ''down'') \<and> inv (fst s1) \<and>
    (\<exists>ob. lookup (fst s1) (''object'', issueEventStorageKey (env_room e) c (env_id e)) = Some ob \<and>
       so_body ob = json_bytes (num_text env) (issue_event_record (event_of env now e c))) \<and>
    cursor_of (snd s1) (env_room e) = c \<and> stored_cursor (fst s1) (env_room e) = stored_cursor (fst s) (env_room e)"
proof -
  let ?r = "env_room e" and ?i = "extractIssueIdFromEnvelope e" and ?d = "cursor_down cs (env_room e)"
  have topic: "isIssueTopic (env_topic e)" and room: "isValidRoomName ?r" and eid: "clean (env_id e)" and iid: "clean ?i"
    and tm: "times (max 0 now)"
    using assms(2) by (simp_all add: issue_message_def)
  have kinds: "''object'' \<in> set VALID_KINDS" "''issue'' \<in> set VALID_KINDS" by (simp_all add: VALID_KINDS_def)
  have ck: "clean (message_key e)" using record_keys_clean(4) [OF room eid] by (simp add: message_key_def)
  obtain st0 o0 where p0: "put_json cs env now ''issue'' (message_key e) ?r (env_topic e) (envelope_json e) (fst s) = (st0, Inr ())"
    "inv st0" "lookup st0 = (lookup (fst s))((''issue'', message_key e) \<mapsto> o0)"
    using put_json_stores [OF assms(1) kinds(2) ck tm] by blast
  define nx where "nx = nextIssueCursor cs now ?r hint (st0, snd s)"
  have nx: "snd nx = c" "fst (fst nx) = st0" "map_of (snd (fst nx)) = (map_of (snd s))(?r \<mapsto> c)"
    using nextIssueCursor_eq [of "(st0, snd s)" ?r now hint] p0(2) room unfolding nx_def assms(3)
    by (simp_all add: next_cursor_def stored_cursor_def p0(3))
  obtain st1 o1 where p1: "put_json cs env now ''object'' (issueEventStorageKey ?r c (env_id e)) ?r (''issue_event:'' @ ?i)
      (issue_event_record (event_of env now e c)) st0 = (st1, Inr ())" "inv st1"
    "lookup st1 = (lookup st0)((''object'', issueEventStorageKey ?r c (env_id e)) \<mapsto> o1)"
    "so_body o1 = json_bytes (num_text env) (issue_event_record (event_of env now e c))"
    using put_json_stores [OF p0(2) kinds(1) record_keys_clean(1) [OF room eid] tm] by blast
  let ?sk = "(''object'', issueSnapshotStorageKey ?r ?i)"
  have g: "cs_get cs now ''object'' (issueSnapshotStorageKey ?r ?i) st1 = (st1, Inr (lookup st1 ?sk))"
    by (rule get_looks_up [OF p1(2) kinds(1) record_keys_clean(2) [OF room iid]])
  define ps where "ps = (if keeps_snapshot policy env e (Inr (lookup st1 ?sk)) then (st1, Inr ())
    else put_json cs env now ''object'' (issueSnapshotStorageKey ?r ?i) ?r ''issue_snapshot'' (issue_snapshot_record (snapshot_of env now e c)) st1)"
  obtain st2 where p2: "ps = (st2, Inr ())" "inv st2" "\<And>k. k \<noteq> ?sk \<Longrightarrow> lookup st2 k = lookup st1 k"
  proof (cases "keeps_snapshot policy env e (Inr (lookup st1 ?sk))")
    case False
    obtain st' o' where st': "put_json cs env now ''object'' (issueSnapshotStorageKey ?r ?i) ?r ''issue_snapshot''
        (issue_snapshot_record (snapshot_of env now e c)) st1 = (st', Inr ())" "inv st'" "lookup st' = (lookup st1)(?sk \<mapsto> o')"
      using put_json_stores [OF p1(2) kinds(1) record_keys_clean(2) [OF room iid] tm] by blast
    show thesis by (rule that [of st']) (use False st' in \<open>simp_all add: ps_def\<close>)
  qed (use that p1(2) in \<open>simp add: ps_def\<close>)
  have n: "nx = nextIssueCursor ?d now ?r hint (st0, snd s)" by (simp add: nx_def)
  have pe: "(st1, Inr ()) = put_json ?d env now ''object'' (issueEventStorageKey ?r (snd nx) (env_id e)) ?r (''issue_event:'' @ ?i)
       (issue_event_record (event_of env now e (snd nx))) (fst (fst nx))"
    unfolding cursor_down_put_other [OF record_keys_distinct(2)] nx p1(1) ..
  have ex: "(st1, Inr (lookup st1 ?sk)) = cs_get ?d now ''object'' (issueSnapshotStorageKey ?r ?i) (fst (st1, Inr ()))"
    unfolding cursor_down_get fst_conv g ..
  have pt: "ps = (if keeps_snapshot policy env e (snd (st1, Inr (lookup st1 ?sk))) then (fst (st1, Inr (lookup st1 ?sk)), Inr ())
       else put_json ?d env now ''object'' (issueSnapshotStorageKey ?r ?i) ?r ''issue_snapshot''
         (issue_snapshot_record (snapshot_of env now e (snd nx))) (fst (st1, Inr (lookup st1 ?sk))))"
    unfolding cursor_down_put_other [OF record_keys_distinct(3)] ps_def nx fst_conv snd_conv ..
  have pc: "(st2, Inl ''down'') = put_json ?d env now ''object'' (issueCursorStorageKey ?r) ?r ''issue_cursor''
       (issue_cursor_record \<lparr>ic_room = ?r, ic_cursor = snd nx, ic_updated_at = now\<rparr>) (fst ps)"
    by (simp add: cursor_down_put p2(1))
  have proj: "persistIssueProjectionToCache ?d env policy now e hint (st0, snd s) = ((st2, snd (fst nx)), Inl ''down'')"
    unfolding projection_steps [OF n pe ex pt pc] by (simp add: p2(1))
  have "persist_task ?d env policy now e hint s = ((st2, snd (fst nx)), Some ''down'')"
    using proj p0(1) topic by (simp add: persist_task_def cursor_down_put Let_def)
  moreover have "lookup st2 (''object'', issueEventStorageKey ?r c (env_id e)) = Some o1"
    by (simp add: p2(3) p1(3) record_keys_distinct)
  moreover have "stored_cursor st2 ?r = stored_cursor (fst s) ?r"
    by (simp add: stored_cursor_def p2(3) p1(3) p0(3) record_keys_distinct)
  ultimately show ?thesis using p1(4) p2(2) nx(3) by (simp add: cursor_of_def)
qed

lemma retry_files_again:
  assumes "inv (fst s)" "issue_message now e" "issue_message later e" "c1 = next_cursor s (env_room e) hint"
    and "s1 = fst (persist_task (cursor_down cs (env_room e)) env policy now e hint s)" "c2 = next_cursor s1 (env_room e) hint"
    and "s2 = fst (persist_task cs env policy later e hint s1)"
  shows "c1 < c2 \<and> inv (fst s2) \<and>
    (\<exists>ob. lookup (fst s2) (''object'', issueEventStorageKey (env_room e) c1 (env_id e)) = Some ob \<and>
       so_body ob = json_bytes (num_text env) (issue_event_record (event_of env now e c1))) \<and>
    (\<exists>ob. lookup (fst s2) (''object'', issueEventStorageKey (env_room e) c2 (env_id e)) = Some ob \<and>
       so_body ob = json_bytes (num_text env) (issue_event_record (event_of env later e c2)))"
proof -
  have s1: "inv (fst s1)" "cursor_of (snd s1) (env_room e) = c1"
    and f1: "\<exists>ob. lookup (fst s1) (''object'', issueEventStorageKey (env_room e) c1 (env_id e)) = Some ob \<and>
       so_body ob = json_bytes (num_text env) (issue_event_record (event_of env now e c1))"
    using failed_attempt [OF assms(1,2,4), of env policy] by (auto simp: assms(5))
  have lt: "c1 < c2" "0 < c1" "0 < c2" using s1(2) next_cursor_fresh(1) [of s1 "env_room e" hint] next_cursor_fresh(3) by (simp_all add: assms(4,6))
  obtain t where t: "persist_task cs env policy later e hint s1 = (t, None)" "inv (fst t)" "issue_filed env later e c2 t"
    "\<forall>k. k \<noteq> (''issue'', message_key e) \<longrightarrow> k \<notin> Pair ''object'' ` {issueEventStorageKey (env_room e) c2 (env_id e),
       issueSnapshotStorageKey (env_room e) (extractIssueIdFromEnvelope e), issueCursorStorageKey (env_room e)} \<longrightarrow>
       lookup (fst t) k = lookup (fst s1) k"
    using persist_task_files [OF s1(1) assms(3), of env policy hint, folded assms(6)] by (elim exE conjE) (rule that)
  have ne: "issueEventStorageKey (env_room e) c1 (env_id e) \<noteq> issueEventStorageKey (env_room e) c2 (env_id e)"
    using event_key_inj [OF lt(2,3)] lt(1) by auto
  have "lookup (fst t) (''object'', issueEventStorageKey (env_room e) c1 (env_id e)) =
      lookup (fst s1) (''object'', issueEventStorageKey (env_room e) c1 (env_id e))"
    by (rule t(4) [rule_format]) (simp_all add: ne record_keys_distinct)
  moreover have "\<exists>ob. lookup (fst t) (''object'', issueEventStorageKey (env_room e) c2 (env_id e)) = Some ob \<and>
      so_body ob = json_bytes (num_text env) (issue_event_record (event_of env later e c2))"
    using t(3) unfolding issue_filed_def by blast
  ultimately show ?thesis using f1 t(1,2) lt(1) by (simp add: assms(7))
qed

end

text \<open>
  Claim C27. A retry files its issue twice: when the write of the cursor record fails in one attempt and
  the store works again in the next, the same message is left in the store as two events, under two
  different cursors, although it was published once. The first attempt keeps the cursor it took.
\<close>

theorem retried_issue_is_filed_twice:
  assumes "memory_ok no_policy st" "plain_issue env now e" "plain_issue env later e"
    and "s1 = fst (persist_task (cursor_down (plain_store le) (env_room e)) env policy now e hint (st, m))"
    and "s2 = fst (persist_task (plain_store le) env policy later e hint s1)"
    and "snd (nextIssueCursor (plain_store le) later (env_room e) hint s1) < int_bound"
  shows "\<exists>c1 c2 ob1 ob2. c1 < c2 \<and>
    memory_get no_policy asked ''object'' (issueEventStorageKey (env_room e) c1 (env_id e)) (fst s2) = (fst s2, Inr (Some ob1)) \<and>
    parseIssueCacheEventRecord ob1 = Some (event_of env now e c1) \<and>
    memory_get no_policy asked ''object'' (issueEventStorageKey (env_room e) c2 (env_id e)) (fst s2) = (fst s2, Inr (Some ob2)) \<and>
    parseIssueCacheEventRecord ob2 = Some (event_of env later e c2)"
proof -
  let ?r = "env_room e"
  have room: "isValidRoomName ?r" and eid: "clean (env_id e)" and ns: "int_text (num_text env)"
    using assms(2) by (simp_all add: plain_issue_def envelope_plain_def)
  have im: "plain.issue_message now e" "plain.issue_message later e" using plain_issue_stored assms(2,3) by blast+
  define c1 where "c1 = plain.next_cursor (st, m) ?r hint"
  define c2 where "c2 = plain.next_cursor s1 ?r hint"
  have ok: "memory_ok no_policy (fst (st, m))" using assms(1) by simp
  have s1: "memory_ok no_policy (fst s1)"
    using plain.failed_attempt [OF ok im(1) refl, of le env policy hint] by (auto simp: assms(4))
  have c2: "c2 < int_bound"
    using assms(6) unfolding c2_def plain.nextIssueCursor_eq(1) [OF s1 room] .
  obtain ob1 ob2 where ob: "c1 < c2" "memory_ok no_policy (fst s2)"
    "memory_lookup (fst s2) (''object'', issueEventStorageKey ?r c1 (env_id e)) = Some ob1"
    "so_body ob1 = json_bytes (num_text env) (issue_event_record (event_of env now e c1))"
    "memory_lookup (fst s2) (''object'', issueEventStorageKey ?r c2 (env_id e)) = Some ob2"
    "so_body ob2 = json_bytes (num_text env) (issue_event_record (event_of env later e c2))"
    using plain.retry_files_again [OF ok im c1_def assms(4) c2_def assms(5)] by blast
  have pos: "0 < c1" "0 < c2" unfolding c1_def c2_def by (rule plain.next_cursor_fresh)+
  have kinds: "''object'' \<in> set VALID_KINDS" by (simp add: VALID_KINDS_def)
  have get: "memory_get no_policy asked ''object'' (issueEventStorageKey ?r c (env_id e)) (fst s2) =
      (fst s2, Inr (memory_lookup (fst s2) (''object'', issueEventStorageKey ?r c (env_id e))))" for c
    using plain.get_looks_up [OF ob(2) kinds record_keys_clean(1) [OF room eid], of le asked c]
    by (simp add: plain_store_def createMemoryCacheStore_def)
  have "parseIssueCacheEventRecord ob1 = Some (event_of env now e c1)"
    using parse_event_record [OF event_of_plain [OF assms(2) pos(1)] ns ob(4)] ob(1) c2 by simp
  moreover have "parseIssueCacheEventRecord ob2 = Some (event_of env later e c2)"
    by (rule parse_event_record [OF event_of_plain [OF assms(3) pos(2) c2] ns ob(6)])
  ultimately show ?thesis using ob(1,3,5) get by (intro exI conjI) auto
qed

theorem retried_issue_is_filed_twice_witness:
  "let e = demo_issue ''m1'' ''issue'';
       s1 = fst (persist_task (cursor_down (plain_store string_le) (env_room e)) (demo_env 5 JNull) LastWrite 5 e 1 ([], []));
       s2 = fst (persist_task (plain_store string_le) (demo_env 5 JNull) LastWrite 6 e 1 s1)
   in \<exists>c1 c2 ob1 ob2. c1 < c2 \<and>
        memory_get no_policy 9 ''object'' (issueEventStorageKey ''main'' c1 ''m1'') (fst s2) = (fst s2, Inr (Some ob1)) \<and>
        memory_get no_policy 9 ''object'' (issueEventStorageKey ''main'' c2 ''m1'') (fst s2) = (fst s2, Inr (Some ob2))"
proof -
  let ?e = "demo_issue ''m1'' ''issue''"
  let ?s1 = "fst (persist_task (cursor_down (plain_store string_le) (env_room ?e)) (demo_env 5 JNull) LastWrite 5 ?e 1 ([], []))"
  have "clean ''m1''" by code_simp
  then have pl: "plain_issue (demo_env 5 JNull) 5 ?e" "plain_issue (demo_env 5 JNull) 6 ?e"
    by (intro demo_issue_plain; simp add: int_bound_def)+
  have env: "env_room ?e = ''main''" "env_id ?e = ''m1''" by (simp_all add: demo_issue_def)
  have room: "isValidRoomName ''main''" by code_simp
  have ok: "memory_ok no_policy (fst ([], []))" by simp
  have c1: "plain.next_cursor ([], []) ''main'' 1 = 1"
    by (simp add: plain.next_cursor_def plain.stored_cursor_def memory_lookup_def cursor_of_def)
  have s1: "memory_ok no_policy (fst ?s1)" "cursor_of (snd ?s1) ''main'' = 1" "plain.stored_cursor (fst ?s1) ''main'' = 0"
    using plain.failed_attempt [OF ok plain_issue_stored [OF pl(1)] refl, of string_le "demo_env 5 JNull" LastWrite 1] c1
    by (auto simp: env plain.stored_cursor_def memory_lookup_def)
  have "snd (nextIssueCursor (plain_store string_le) 6 (env_room ?e) 1 ?s1) < int_bound"
    using plain.nextIssueCursor_eq(1) [OF s1(1) room, of string_le 6 1] s1(2,3) by (simp add: env plain.next_cursor_def int_bound_def)
  from retried_issue_is_filed_twice [OF memory_ok_Nil pl refl refl this, of 9] show ?thesis unfolding Let_def env by blast
qed

section \<open>Pulling by position\<close>

definition pull_query :: "string \<Rightarrow> int \<Rightarrow> list_query" where
  "pull_query room limit =
     \<lparr>lq_kind = Some ''issue'', lq_prefix = None, lq_room = Some room, lq_limit = Some (of_integer (max 1 limit)), lq_cursor = None\<rparr>"

context listed_store
begin

definition issue_at :: "string \<Rightarrow> 's \<Rightarrow> store_metadata \<Rightarrow> envelope option" where
  "issue_at room st entry =
     Option.bind (Option.bind (lookup st (''issue'', sm_key entry)) parseCachedIssueEnvelope) (\<lambda>e.
       if env_room e = room \<and> isIssueTopic (env_topic e) then Some e else None)"

lemma read_issues_eq:
  assumes "inv st" "set es \<subseteq> set (entries st q)"
  shows "read_issues cs now room es st = (st, List.map_filter (issue_at room st) es)"
  using assms(2)
proof (induction es)
  case (Cons e es)
  obtain k r where "lookup st k = Some r" "e = so_metadata r" using entries_set [OF assms(1), of q] Cons.prems by auto
  then have "clean (sm_key e)" using lookup_filed [OF assms(1)] by metis
  then have get: "cs_get cs now ''issue'' (sm_key e) st = (st, Inr (lookup st (''issue'', sm_key e)))"
    by (intro get_looks_up assms(1)) (simp_all add: VALID_KINDS_def)
  show ?case
    using Cons.IH Cons.prems by (simp add: get issue_at_def map_filter_simps Let_def split: option.split)
qed (simp add: map_filter_simps)

text \<open>A pull reads a slice of the listing, and answers with the position behind it.\<close>

lemma pull_slice:
  assumes "inv st" "0 \<le> a" "a < max_double_bound" "int (length (entries st (pull_query room limit))) < max_double_bound"
    and "page = take (nat (max 1 limit)) (drop (nat a) (sort_by (metadata_le le) (entries st (pull_query room limit))))"
  shows "pullIssues (Some cs) now room a limit st = (st, a + int (length page), List.map_filter (issue_at room st) page)"
proof -
  let ?q = "pull_query room limit" and ?s = "sort_by (metadata_le le) (entries st (pull_query room limit))"
  let ?next = "nat a + length page"
  have off: "normalizeOffset (Some (int_str a)) = int (nat a)" using normalizeOffset_int_str [OF assms(2,3)] assms(2) by simp
  have lim: "nat (listLimit (lq_limit ?q)) = nat (max 1 limit)" by (simp add: pull_query_def listLimit_def)
  have listed: "cs_list cs now (?q\<lparr>lq_cursor := Some (int_str a)\<rparr>) st =
      (st, Inr \<lparr>lr_entries = page, lr_cursor = (if ?next < length ?s then Some (int_str (int ?next)) else None)\<rparr>)"
    unfolding list_pages [OF assms(1)] entries_cursor paginate_at [OF off] Let_def lim assms(5) ..
  have "set page \<subseteq> set (entries st ?q)" unfolding assms(5) using set_take_subset set_drop_subset by fastforce
  note rd = read_issues_eq [OF assms(1) this, of now room]
  have q: "\<lparr>lq_kind = Some ''issue'', lq_prefix = None, lq_room = Some room, lq_limit = Some (of_integer (max 1 limit)),
      lq_cursor = Some (int_str a)\<rparr> = ?q\<lparr>lq_cursor := Some (int_str a)\<rparr>"
    by (simp add: pull_query_def)
  have a: "max 0 a = a" using assms(2) by simp
  have "int ?next < max_double_bound" if "?next < length ?s"
    using that assms(4) unfolding length_sort_by by linarith
  then have "?next < length ?s \<Longrightarrow> finite_trunc (js_parse_int (int_str (int ?next))) = Some (int ?next)"
    using js_parse_int_int_str [of "int ?next"] by simp
  then show ?thesis
    unfolding pullIssues_def Let_def option.case a q listed by (simp add: rd assms(2))
qed

end

text \<open>The records of kind \<open>issue\<close> after a message has been persisted.\<close>

lemma issue_entries_after:
  assumes "memory_ok no_policy (fst s)" "plain_issue env now e" "room = env_room e"
    and "s' = persistEnvelope (Some (plain_store le)) env policy qo now e hint s"
  obtains ob where "memory_ok no_policy (fst s')" "so_body ob = json_bytes (num_text env) (envelope_json e)"
    "sm_kind (so_metadata ob) = ''issue''" "sm_key (so_metadata ob) = message_key e" "sm_room (so_metadata ob) = Some room"
    "\<And>key. memory_lookup (fst s') (''issue'', key) =
      (if key = message_key e then Some ob else memory_lookup (fst s) (''issue'', key))"
proof -
  note im = plain_issue_stored [OF assms(2)]
  obtain t where t: "persist_task (plain_store le) env policy now e hint s = (t, None)" "memory_ok no_policy (fst t)"
    "plain.issue_filed env now e (plain.next_cursor s (env_room e) hint) t"
    "\<forall>k. k \<noteq> (''issue'', message_key e) \<longrightarrow> k \<notin> Pair ''object'' ` {issueEventStorageKey (env_room e) (plain.next_cursor s (env_room e) hint) (env_id e),
       issueSnapshotStorageKey (env_room e) (extractIssueIdFromEnvelope e), issueCursorStorageKey (env_room e)} \<longrightarrow>
       memory_lookup (fst t) k = memory_lookup (fst s) k"
    using plain.persist_task_files [OF assms(1) im, of le env policy hint] by (elim exE conjE) (rule that)
  have s': "s' = t" using plain.persistEnvelope_files [OF assms(1) im, of le env policy qo hint] t(1) assms(4) by simp
  obtain ob where ob: "memory_lookup (fst t) (''issue'', message_key e) = Some ob" "so_body ob = json_bytes (num_text env) (envelope_json e)"
    "sm_room (so_metadata ob) = truthy (Some (env_room e))"
    using t(3) unfolding plain.issue_filed_def by blast
  have "env_room e \<noteq> []" using assms(2) room_name_hd by (auto simp: plain_issue_def envelope_plain_def)
  then have "sm_room (so_metadata ob) = Some room" using ob(3) by (simp add: truthy_def assms(3))
  moreover have "memory_lookup (fst s') (''issue'', key) = (if key = message_key e then Some ob else memory_lookup (fst s) (''issue'', key))" for key
    using t(4) [rule_format, of "(''issue'', key)"] ob(1) by (auto simp: s')
  moreover have "sm_kind (so_metadata ob) = ''issue'' \<and> sm_key (so_metadata ob) = message_key e"
    using plain.lookup_filed [OF t(2) ob(1)] by simp
  ultimately show thesis using that [of ob] t(2) ob(2) by (simp add: s')
qed

lemma cached_issue_parses:
  assumes "plain_issue env now e" "so_body ob = json_bytes (num_text env) (envelope_json e)"
  shows "parseCachedIssueEnvelope ob = Some e"
  using assms parse_bytes_json [OF plain_envelope_json, of e "num_text env"]
  by (simp add: parseCachedIssueEnvelope_def plain_issue_def parse_envelope_json)

lemma issue_entries_set:
  assumes "memory_ok no_policy st" "room \<noteq> []"
  shows "set (memory_entries st (pull_query room limit)) =
    {m. \<exists>key r. memory_lookup st (''issue'', key) = Some r \<and> m = so_metadata r \<and> sm_room m = Some room}"
proof -
  have match: "metadataMatchesQuery m (pull_query room limit) \<longleftrightarrow> sm_kind m = ''issue'' \<and> sm_room m = Some room" for m
    using assms(2) by (simp add: metadataMatchesQuery_def pull_query_def truthy_def)
  show ?thesis
  proof (intro set_eqI iffI)
    fix m assume "m \<in> set (memory_entries st (pull_query room limit))"
    then obtain k r where r: "memory_lookup st k = Some r" "m = so_metadata r" "sm_kind m = ''issue''" "sm_room m = Some room"
      unfolding plain.entries_set [OF assms(1)] by (auto simp: match)
    then have "k = (''issue'', snd k)" using plain.lookup_filed [OF assms(1) r(1)] by (simp add: prod_eq_iff)
    then have "memory_lookup st (''issue'', snd k) = Some r" using r(1) by simp
    then show "m \<in> {m. \<exists>key r. memory_lookup st (''issue'', key) = Some r \<and> m = so_metadata r \<and> sm_room m = Some room}"
      using r(2,4) by blast
  next
    fix m assume "m \<in> {m. \<exists>key r. memory_lookup st (''issue'', key) = Some r \<and> m = so_metadata r \<and> sm_room m = Some room}"
    then obtain key r where r: "memory_lookup st (''issue'', key) = Some r" "m = so_metadata r" "sm_room m = Some room" by blast
    moreover have "sm_kind m = ''issue''" using plain.lookup_filed [OF assms(1) r(1)] r(2) by simp
    ultimately show "m \<in> set (memory_entries st (pull_query room limit))"
      unfolding plain.entries_set [OF assms(1)] match by blast
  qed
qed

lemma one_entry: "distinct xs \<Longrightarrow> set xs = {a} \<Longrightarrow> xs = [a]"
  by (cases xs; cases "tl xs") auto

lemma two_entries_sorted:
  assumes "distinct xs" "set xs = {a, b}" "a \<noteq> b" "R a b" "\<not> R b a"
  shows "sort_by R xs = [a, b]"
proof -
  have "length xs = 2" using assms(1-3) distinct_card [of xs] by simp
  then obtain x y where "xs = [x, y]" by (auto simp: length_Suc_conv numeral_2_eq_2)
  then show ?thesis using assms(2-5) by (auto simp: sort_by_def doubleton_eq_iff)
qed

text \<open>
  A pull that has caught up misses issues: two issue messages of a room are persisted one after
  the other, and the key of the second sorts before that of the first. A pull after the first gives
  it and the cursor 1; the pull from that cursor after the second gives the first message again and
  the cursor 2. The second message is never delivered.
\<close>

theorem pull_misses_earlier_key:
  assumes "plain_issue env now e1" "plain_issue env later e2" "env_room e1 = room" "env_room e2 = room"
    and "le (message_key e2) (message_key e1)" "\<not> le (message_key e1) (message_key e2)" "1 \<le> limit"
    and "s1 = persistEnvelope (Some (plain_store le)) env policy qo now e1 hint1 ([], m)"
    and "s2 = persistEnvelope (Some (plain_store le)) env policy qo later e2 hint2 s1"
  shows "pullIssues (Some (plain_store le)) asked room 0 limit (fst s1) = (fst s1, 1, [e1]) \<and>
    pullIssues (Some (plain_store le)) asked room 1 limit (fst s2) = (fst s2, 2, [e1])"
proof -
  have ok: "memory_ok no_policy (fst ([], m))" by simp
  obtain ob1 where ob1: "memory_ok no_policy (fst s1)" "so_body ob1 = json_bytes (num_text env) (envelope_json e1)"
    "sm_kind (so_metadata ob1) = ''issue''" "sm_key (so_metadata ob1) = message_key e1" "sm_room (so_metadata ob1) = Some room"
    "\<And>key. memory_lookup (fst s1) (''issue'', key) = (if key = message_key e1 then Some ob1 else memory_lookup (fst ([], m)) (''issue'', key))"
    by (rule issue_entries_after [OF ok assms(1) assms(3) [symmetric] assms(8)]) (rule that; assumption)
  obtain ob2 where ob2: "memory_ok no_policy (fst s2)" "so_body ob2 = json_bytes (num_text env) (envelope_json e2)"
    "sm_kind (so_metadata ob2) = ''issue''" "sm_key (so_metadata ob2) = message_key e2" "sm_room (so_metadata ob2) = Some room"
    "\<And>key. memory_lookup (fst s2) (''issue'', key) = (if key = message_key e2 then Some ob2 else memory_lookup (fst s1) (''issue'', key))"
    by (rule issue_entries_after [OF ob1(1) assms(2) assms(4) [symmetric] assms(9)]) (rule that; assumption)
  have room: "room \<noteq> []" using assms(1,3) room_name_hd by (auto simp: plain_issue_def envelope_plain_def)
  have empty: "memory_lookup [] k = None" for k by (simp add: memory_lookup_def)
  have key: "message_key e1 \<noteq> message_key e2" using assms(5,6) by auto
  let ?m1 = "so_metadata ob1" and ?m2 = "so_metadata ob2"
  have dist: "distinct (memory_entries st q)" if "memory_ok no_policy st" for st q
    using memory_entries_distinct [OF that] by (simp add: memory_entries_def)
  have "set (memory_entries (fst s1) (pull_query room limit)) = {?m1}"
    unfolding issue_entries_set [OF ob1(1) room] using ob1(5) by (auto simp: ob1(6) empty split: if_splits)
  then have es1: "memory_entries (fst s1) (pull_query room limit) = [?m1]"
    by (rule one_entry [OF dist [OF ob1(1)]])
  have set2: "set (memory_entries (fst s2) (pull_query room limit)) = {?m2, ?m1}"
    unfolding issue_entries_set [OF ob2(1) room] using ob1(5) ob2(5) key
    by (auto simp: ob2(6) ob1(6) empty split: if_splits) (metis key)
  have "metadata_le le ?m2 ?m1" "\<not> metadata_le le ?m1 ?m2" using assms(5,6) ob1(3,4) ob2(3,4) by (simp_all add: metadata_le_def)
  moreover have "?m2 \<noteq> ?m1" using ob1(4) ob2(4) key by auto
  ultimately have es2: "sort_by (metadata_le le) (memory_entries (fst s2) (pull_query room limit)) = [?m2, ?m1]"
    by (intro two_entries_sorted dist [OF ob2(1)] set2)
  have len: "length (memory_entries (fst s2) (pull_query room limit)) = 2" using arg_cong [OF es2, of length] by simp
  have at: "plain.issue_at room (fst s1) ?m1 = Some e1" "plain.issue_at room (fst s2) ?m1 = Some e1"
    using cached_issue_parses [OF assms(1) ob1(2)] assms(1,3) key
    by (simp_all add: plain.issue_at_def ob1(4,6) ob2(6) plain_issue_def)
  obtain n where n: "nat (max 1 limit) = Suc n" using assms(7) by (cases "nat (max 1 limit)") simp_all
  have b: "(0::int) < max_double_bound" "(1::int) < max_double_bound" "int (length [?m1]) < max_double_bound" "(2::int) < max_double_bound"
    by (simp_all add: max_double_bound_def)
  have p1: "[?m1] = take (nat (max 1 limit)) (drop (nat 0) (sort_by (metadata_le le) (memory_entries (fst s1) (pull_query room limit))))"
    by (simp add: es1 sort_by_def n)
  have p2: "[?m1] = take (nat (max 1 limit)) (drop (nat 1) (sort_by (metadata_le le) (memory_entries (fst s2) (pull_query room limit))))"
    by (simp add: es2 n)
  have "pullIssues (Some (plain_store le)) asked room 0 limit (fst s1) = (fst s1, 1, [e1])"
    using plain.pull_slice [OF ob1(1) _ b(1) _ p1, of asked] b(3) at(1) by (simp add: es1 map_filter_simps)
  moreover have "pullIssues (Some (plain_store le)) asked room 1 limit (fst s2) = (fst s2, 2, [e1])"
    using plain.pull_slice [OF ob2(1) _ b(2) _ p2, of asked] b(4) at(2) by (simp add: len map_filter_simps)
  ultimately show ?thesis by blast
qed

theorem pull_misses_earlier_key_witness:
  "let s1 = persistEnvelope (Some (plain_store string_le)) (demo_env 5 JNull) LastWrite (queue_options_of None None None) 5
         (demo_issue ''m2'' ''issue'') 1 ([], []);
       s2 = persistEnvelope (Some (plain_store string_le)) (demo_env 5 JNull) LastWrite (queue_options_of None None None) 6
         (demo_issue ''m1'' ''issue'') 2 s1
   in snd (pullIssues (Some (plain_store string_le)) 9 ''main'' 0 10 (fst s1)) = (1, [demo_issue ''m2'' ''issue'']) \<and>
      snd (pullIssues (Some (plain_store string_le)) 9 ''main'' 1 10 (fst s2)) = (2, [demo_issue ''m2'' ''issue''])"
proof -
  have "clean ''m2''" "clean ''m1''" by code_simp+
  then have pl: "plain_issue (demo_env 5 JNull) 5 (demo_issue ''m2'' ''issue'')" "plain_issue (demo_env 5 JNull) 6 (demo_issue ''m1'' ''issue'')"
    by (intro demo_issue_plain; simp add: int_bound_def)+
  have room: "env_room (demo_issue ''m2'' ''issue'') = ''main''" "env_room (demo_issue ''m1'' ''issue'') = ''main''" by (simp_all add: demo_issue_def)
  have keys: "string_le (message_key (demo_issue ''m1'' ''issue'')) (message_key (demo_issue ''m2'' ''issue''))"
    "\<not> string_le (message_key (demo_issue ''m2'' ''issue'')) (message_key (demo_issue ''m1'' ''issue''))"
    by code_simp+
  have lim: "(1::int) \<le> 10" by simp
  from pull_misses_earlier_key [OF pl room keys lim refl refl, where policy = LastWrite and m = "[]" and asked = 9
      and qo = "queue_options_of None None None" and ?hint1.0 = 1 and ?hint2.0 = 2]
  show ?thesis unfolding Let_def by simp
qed

end
