(* ===== verification/Url_Text.thy ===== *)
theory Url_Text
  imports Json_Text
begin

text \<open>
  The text functions of the web platform that the git endpoints use: \<open>TextDecoder\<close>, whose result is a
  list of code points, and the query strings of \<open>URLSearchParams\<close>, written and read back.
\<close>

section \<open>UTF-8 into code points\<close>

text \<open>
  The decoder of the Encoding Standard: a byte that cannot continue a sequence ends it with U+FFFD and
  is read again.
\<close>

definition continues :: "nat \<Rightarrow> bool" where
  "continues b \<longleftrightarrow> 128 \<le> b \<and> b < 192"

definition second_ok :: "nat \<Rightarrow> nat \<Rightarrow> bool" where
  "second_ok a b \<longleftrightarrow>
     continues b \<and> (a = 224 \<longrightarrow> 160 \<le> b) \<and> (a = 237 \<longrightarrow> b < 160) \<and> (a = 240 \<longrightarrow> 144 \<le> b) \<and> (a = 244 \<longrightarrow> b < 144)"

definition sequence_length :: "nat \<Rightarrow> nat" where
  "sequence_length a =
     (if a < 128 then 1 else if 194 \<le> a \<and> a < 224 then 2 else if 224 \<le> a \<and> a < 240 then 3
      else if 240 \<le> a \<and> a < 245 then 4 else 0)"

definition replacement :: nat where
  "replacement = 65533"

fun utf8_points :: "nat list \<Rightarrow> nat list" where
  "utf8_points [] = []"
| "utf8_points (a # bs) =
     (if sequence_length a = 1 then a # utf8_points bs
      else if sequence_length a = 0 then replacement # utf8_points bs
      else case bs of
        [] \<Rightarrow> [replacement]
      | b # cs \<Rightarrow>
          if \<not> second_ok a b then replacement # utf8_points bs
          else if sequence_length a = 2 then (64 * (a - 192) + (b - 128)) # utf8_points cs
          else case cs of
            [] \<Rightarrow> [replacement]
          | c # ds \<Rightarrow>
              if \<not> continues c then replacement # utf8_points cs
              else if sequence_length a = 3
              then (4096 * (a - 224) + 64 * (b - 128) + (c - 128)) # utf8_points ds
              else case ds of
                [] \<Rightarrow> [replacement]
              | d # es \<Rightarrow>
                  if \<not> continues d then replacement # utf8_points ds
                  else (262144 * (a - 240) + 4096 * (b - 128) + 64 * (c - 128) + (d - 128)) # utf8_points es)"

abbreviation points :: "string \<Rightarrow> nat list" where
  "points \<equiv> map of_char"

text \<open>\<open>new TextDecoder().decode(bytes)\<close>, which drops a byte order mark.\<close>

definition text_decode :: "string \<Rightarrow> nat list" where
  "text_decode bs =
     (let b = points bs in utf8_points (if take 3 b = [239, 187, 191] then drop 3 b else b))"

lemma utf8_points_ascii: "list_all (\<lambda>b. b < 128) bs \<Longrightarrow> utf8_points bs = bs"
  by (induction bs) (simp_all add: sequence_length_def)

lemma utf8_points_utf8 [simp]: "utf8_points (points (utf8 s)) = points s"
proof (induction s)
  case (Cons c s)
  have eq: "utf8 (c # s) = (let n = (of_char c :: nat) in if n < 128 then [c] else [char_of (192 + n div 64), char_of (128 + n mod 64)]) @ utf8 s"
    by (simp add: utf8_def)
  show ?case
  proof (cases "(of_char c :: nat) < 128")
    case True
    then show ?thesis unfolding eq using Cons by (simp add: Let_def sequence_length_def)
  next
    case False
    define n where "n = (of_char c :: nat)"
    have n: "128 \<le> n" "n < 256" using False by (simp_all add: n_def)
    define q r where "q = n div 64" and "r = n mod 64"
    have "2 * 64 \<le> n" "n < 4 * 64" using n by simp_all
    then have q: "2 \<le> q" "q < 4"
      unfolding q_def by (simp_all add: less_eq_div_iff_mult_less_eq less_mult_imp_div_less)
    have r: "r < 64" by (simp add: r_def)
    have split: "64 * q + r = n" by (simp add: q_def r_def)
    have "points (utf8 (c # s)) = (192 + q) # (128 + r) # points (utf8 s)"
      unfolding eq using False q r by (simp add: Let_def flip: n_def q_def r_def)
    moreover have "sequence_length (192 + q) = 2" "second_ok (192 + q) (128 + r)"
      using q r by (simp_all add: sequence_length_def second_ok_def continues_def)
    ultimately show ?thesis using Cons split by (simp flip: n_def)
  qed
qed (simp add: utf8_def)

section \<open>Query strings\<close>

text \<open>The \<open>application/x-www-form-urlencoded\<close> serialiser and parser.\<close>

definition upper_hex :: "nat \<Rightarrow> char" where
  "upper_hex d = (if d < 10 then char_of (48 + d) else char_of (55 + d))"

definition form_safe :: "char \<Rightarrow> bool" where
  "form_safe c \<longleftrightarrow> is_alnum c \<or> c \<in> {CHR ''*'', CHR ''-'', CHR ''.'', CHR ''_''}"

definition form_byte :: "char \<Rightarrow> string" where
  "form_byte c =
     (if form_safe c then [c] else if c = CHR '' '' then ''+''
      else [CHR ''%'', upper_hex (of_char c div 16), upper_hex (of_char c mod 16)])"

definition form_text :: "string \<Rightarrow> string" where
  "form_text s = concat (map form_byte (utf8 s))"

definition form_serialize :: "(string \<times> string) list \<Rightarrow> string" where
  "form_serialize q = join ''&'' (map (\<lambda>(k, v). form_text k @ ''='' @ form_text v) q)"

text \<open>\<open>url.search\<close> after the query was changed through \<open>searchParams\<close>.\<close>

definition search_string :: "(string \<times> string) list \<Rightarrow> string" where
  "search_string q = (if form_serialize q = [] then [] else ''?'' @ form_serialize q)"

fun percent_decode :: "string \<Rightarrow> string" where
  "percent_decode [] = []"
| "percent_decode (c # r) =
     (case r of
        a # b # rest \<Rightarrow>
          (case (c = CHR ''%'', hex_of a, hex_of b) of
             (True, Some x, Some y) \<Rightarrow> char_of (16 * x + y) # percent_decode rest
           | _ \<Rightarrow> c # percent_decode r)
      | _ \<Rightarrow> c # percent_decode r)"

definition form_read :: "string \<Rightarrow> nat list" where
  "form_read s = utf8_points (points (percent_decode (map (\<lambda>c. if c = CHR ''+'' then CHR '' '' else c) s)))"

definition form_pair :: "string \<Rightarrow> nat list \<times> nat list" where
  "form_pair s = (form_read (takeWhile (\<lambda>c. c \<noteq> CHR ''='') s), form_read (drop 1 (dropWhile (\<lambda>c. c \<noteq> CHR ''='') s)))"

definition form_parse :: "string \<Rightarrow> (nat list \<times> nat list) list" where
  "form_parse s = map form_pair (filter (\<lambda>part. part \<noteq> []) (split_on (CHR ''&'') s))"

definition form_get :: "string \<Rightarrow> string \<Rightarrow> nat list option" where
  "form_get s k = map_of (form_parse s) (points k)"

section \<open>Reading back what was written\<close>

lemma hex_of_upper: "d < 16 \<Longrightarrow> hex_of (upper_hex d) = Some d"
  by (auto simp: hex_of_def upper_hex_def is_digit_def Let_def)

lemma percent_decode_other: "c \<noteq> CHR ''%'' \<Longrightarrow> percent_decode (c # r) = c # percent_decode r"
  by (cases r; cases "tl r") simp_all

lemma percent_decode_escape:
  "x < 16 \<Longrightarrow> y < 16 \<Longrightarrow>
     percent_decode (CHR ''%'' # upper_hex x # upper_hex y # r) = char_of (16 * x + y) # percent_decode r"
  by (simp add: hex_of_upper)

abbreviation unplus :: "string \<Rightarrow> string" where
  "unplus \<equiv> map (\<lambda>c. if c = CHR ''+'' then CHR '' '' else c)"

lemma upper_hex_plain: "d < 16 \<Longrightarrow> is_digit (upper_hex d) \<or> is_upper (upper_hex d)"
  by (auto simp: upper_hex_def is_digit_def is_upper_def)

lemma alnum_not_special:
  "is_digit c \<or> is_upper c \<or> is_lower c \<Longrightarrow> c \<notin> {CHR ''%'', CHR ''+'', CHR ''&'', CHR ''='', CHR ''?'', CHR ''/''}"
  by (auto simp: is_digit_def is_upper_def is_lower_def)

lemma percent_decode_byte: "percent_decode (unplus (form_byte c) @ r) = c # percent_decode r"
proof -
  have h: "(of_char c :: nat) div 16 < 16" "(of_char c :: nat) mod 16 < 16"
    by (simp_all add: less_mult_imp_div_less)
  have p: "upper_hex d \<noteq> CHR ''+''" if "d < 16" for d
    using alnum_not_special [of "upper_hex d"] upper_hex_plain [OF that] by auto
  have safe: "c \<noteq> CHR ''%'' \<and> c \<noteq> CHR ''+''" if "form_safe c"
    using that alnum_not_special [of c] by (auto simp: form_safe_def is_alnum_def)
  consider "form_safe c" | "\<not> form_safe c" "c = CHR '' ''" | "\<not> form_safe c" "c \<noteq> CHR '' ''" by blast
  then show ?thesis
  proof cases
    case 3
    then have "unplus (form_byte c) @ r = CHR ''%'' # upper_hex (of_char c div 16) # upper_hex (of_char c mod 16) # r"
      by (simp add: form_byte_def p [OF h(1)] p [OF h(2)])
    then show ?thesis by (simp only: percent_decode_escape [OF h]) simp
  qed (use safe in \<open>simp_all add: form_byte_def percent_decode_other del: percent_decode.simps\<close>)
qed

lemma percent_decode_form: "percent_decode (unplus (concat (map form_byte bs))) = bs"
proof (induction bs)
  case (Cons c bs)
  have "unplus (concat (map form_byte (c # bs))) = unplus (form_byte c) @ unplus (concat (map form_byte bs))"
    by simp
  then show ?case by (simp only: percent_decode_byte Cons)
qed simp

lemma form_read_text [simp]: "form_read (form_text s) = points s"
  by (simp add: form_read_def form_text_def percent_decode_form del: map_map)

lemma form_text_chars: "c \<in> set (form_text s) \<Longrightarrow> form_safe c \<or> c = CHR ''+'' \<or> c = CHR ''%''"
proof -
  assume "c \<in> set (form_text s)"
  then obtain b where b: "c \<in> set (form_byte b)" by (auto simp: form_text_def)
  have h: "(of_char b :: nat) div 16 < 16" "(of_char b :: nat) mod 16 < 16"
    by (simp_all add: less_mult_imp_div_less)
  show ?thesis
    using b upper_hex_plain [OF h(1)] upper_hex_plain [OF h(2)]
    by (auto simp: form_byte_def form_safe_def is_alnum_def split: if_splits)
qed

lemma form_text_not_special: "c \<in> {CHR ''&'', CHR ''='', CHR ''?''} \<Longrightarrow> c \<notin> set (form_text s)"
  using form_text_chars [of c s] alnum_not_special [of c] by (auto simp: form_safe_def is_alnum_def)

lemma form_pair_written [simp]: "form_pair (form_text k @ ''='' @ form_text v) = (points k, points v)"
proof -
  have "\<forall>c\<in>set (form_text k). c \<noteq> CHR ''=''" using form_text_not_special [of "CHR ''=''" k] by auto
  then have "takeWhile (\<lambda>c. c \<noteq> CHR ''='') (form_text k @ ''='' @ form_text v) = form_text k"
    "dropWhile (\<lambda>c. c \<noteq> CHR ''='') (form_text k @ ''='' @ form_text v) = ''='' @ form_text v"
    by (simp_all add: takeWhile_append2 dropWhile_append2)
  then show ?thesis by (simp add: form_pair_def)
qed

lemma split_on_joined: "xs \<noteq> [] \<Longrightarrow> (\<And>x. x \<in> set xs \<Longrightarrow> c \<notin> set x) \<Longrightarrow> split_on c (join [c] xs) = xs"
proof (induction "[c]" xs rule: join.induct)
  case (3 x y ys)
  then show ?case by (simp add: split_on_notin)
qed (simp_all add: split_on_notin_all)

theorem form_parse_serialize: "form_parse (form_serialize q) = map (\<lambda>(k, v). (points k, points v)) q"
proof (cases "q = []")
  case False
  let ?f = "\<lambda>(k, v). form_text k @ ''='' @ form_text v"
  have "CHR ''&'' \<notin> set part" if "part \<in> set (map ?f q)" for part
    using that form_text_not_special [of "CHR ''&''"] by auto
  then have "split_on (CHR ''&'') (form_serialize q) = map ?f q"
    unfolding form_serialize_def using False by (intro split_on_joined) auto
  moreover have "filter (\<lambda>part. part \<noteq> []) (map ?f q) = map ?f q"
    by (auto simp: filter_id_conv)
  ultimately show ?thesis
    unfolding form_parse_def by (simp only: map_map) (auto simp: case_prod_beta simp del: append_Cons)
qed (simp add: form_parse_def form_serialize_def)

lemma form_get_serialize: "form_get (form_serialize q) k = map_option points (map_of q k)"
proof -
  have "map_of (map (\<lambda>(k, v). (points k, points v)) q) (points k) = map_option points (map_of q k)"
    by (induction q) (auto simp: inj_map_eq_map [OF inj_of_char])
  then show ?thesis by (simp add: form_get_def form_parse_serialize)
qed

end
