(* ===== verification/Contracts.thy ===== *)
theory Contracts
  imports Relay_Prelude
begin

text \<open>
  The shared contracts of \<open>src/contracts.ts\<close>: authentication contexts, relay events and their parsers.
  A parser answers \<open>Inl\<close> with its error message or \<open>Inr\<close> with the value. \<open>isRelayTarget\<close> asks whether a
  value carries a function, which a JSON value never does, and has no counterpart here.
\<close>

section \<open>Authentication contexts\<close>

datatype auth_role = Anonymous | Relay_admin | Github_app

text \<open>\<open>githubInstallationId\<close> is \<open>None\<close> for \<open>undefined\<close> and \<open>Some None\<close> for \<open>null\<close>.\<close>

record auth_context =
  ac_role :: auth_role
  ac_principalId :: "string option"
  ac_scopes :: "string list"
  ac_githubInstallationId :: "rat option option"

definition asString :: "json option \<Rightarrow> string option" where
  "asString v = (case v of Some (JStr s) \<Rightarrow> if s \<noteq> [] then Some s else None | _ \<Rightarrow> None)"

definition asNullableString :: "json option \<Rightarrow> string option option" where
  "asNullableString v = (case v of None \<Rightarrow> None | Some JNull \<Rightarrow> Some None | Some j \<Rightarrow> Some (asString (Some j)))"

definition asFiniteNumber :: "json option \<Rightarrow> rat option" where
  "asFiniteNumber v = (case v of Some (JNum (Fin r)) \<Rightarrow> Some r | _ \<Rightarrow> None)"

definition readField :: "json \<Rightarrow> string \<Rightarrow> string \<Rightarrow> json option" where
  "readField rec snake camel = (case jprop rec snake of Some v \<Rightarrow> Some v | None \<Rightarrow> jprop rec camel)"

definition AUTH_ROLES :: "(string \<times> auth_role) list" where
  "AUTH_ROLES = [(''anonymous'', Anonymous), (''relay_admin'', Relay_admin), (''github_app'', Github_app)]"

definition parse_scopes :: "json option \<Rightarrow> string list option" where
  "parse_scopes v =
     (case arr_opt v of
        Some scopes \<Rightarrow>
          (if list_all (\<lambda>scope. str_opt (Some scope) \<noteq> None) scopes
           then Some (List.map_filter (\<lambda>scope. str_opt (Some scope)) scopes) else None)
      | None \<Rightarrow> None)"

definition parseAuthContext :: "json \<Rightarrow> string + auth_context" where
  "parseAuthContext input =
     (if \<not> is_record input then Inl ''auth context must be object''
      else need ''invalid role'' (Option.bind (asString (jprop input ''role'')) (map_of AUTH_ROLES)) (\<lambda>role.
      need ''missing principal_id'' (asNullableString (readField input ''principal_id'' ''principalId'')) (\<lambda>principal.
      if principal = Some [] then Inl ''invalid principal_id''
      else need ''invalid scopes'' (parse_scopes (jprop input ''scopes'')) (\<lambda>scopes.
        (let raw = readField input ''github_installation_id'' ''githubInstallationId'';
             gid = (case raw of None \<Rightarrow> None | Some JNull \<Rightarrow> Some None | Some j \<Rightarrow> Some (asFiniteNumber (Some j)))
         in if raw \<noteq> None \<and> raw \<noteq> Some JNull \<and> gid = Some None then Inl ''invalid github_installation_id''
            else Inr \<lparr>ac_role = role, ac_principalId = principal, ac_scopes = scopes,
                      ac_githubInstallationId = gid\<rparr>)))))"

section \<open>Relay events\<close>

record event_base =
  eb_eventId :: string
  eb_occurredAt :: rat
  eb_room :: string
  eb_source :: string

datatype issue_provider = Bit_provider | Github_provider

datatype issue_sync_action = Upsert_action | Close_action

datatype contract_event =
    IncomingRef event_base (ev_ref: string) (ev_target: string)
  | IssueSynced event_base issue_provider issue_sync_action string
  | CacheReplicated event_base string string string rat

definition ISSUE_PROVIDERS :: "(string \<times> issue_provider) list" where
  "ISSUE_PROVIDERS = [(''bit'', Bit_provider), (''github'', Github_provider)]"

definition ISSUE_SYNC_ACTIONS :: "(string \<times> issue_sync_action) list" where
  "ISSUE_SYNC_ACTIONS = [(''upsert'', Upsert_action), (''close'', Close_action)]"

definition EVENT_TYPES :: "string list" where
  "EVENT_TYPES = [''incoming_ref'', ''issue_synced'', ''cache_replicated'']"

definition parseBaseEvent :: "json \<Rightarrow> string + event_base" where
  "parseBaseEvent rec =
     need ''invalid event_id'' (asString (jprop rec ''event_id'')) (\<lambda>eventId.
     need ''invalid occurred_at'' (asFiniteNumber (jprop rec ''occurred_at'')) (\<lambda>occurredAt.
     need ''invalid room'' (asString (jprop rec ''room'')) (\<lambda>room.
     need ''invalid source'' (asString (jprop rec ''source'')) (\<lambda>source.
       Inr \<lparr>eb_eventId = eventId, eb_occurredAt = occurredAt, eb_room = room, eb_source = source\<rparr>))))"

definition parse_event_fields :: "json \<Rightarrow> string \<Rightarrow> event_base \<Rightarrow> string + contract_event" where
  "parse_event_fields rec type base =
     (if type = ''incoming_ref'' then
        need ''invalid ref'' (asString (jprop rec ''ref'')) (\<lambda>ref.
        need ''invalid target'' (asString (jprop rec ''target'')) (\<lambda>target.
          Inr (IncomingRef base ref target)))
      else if type = ''issue_synced'' then
        need ''invalid provider'' (Option.bind (asString (jprop rec ''provider'')) (map_of ISSUE_PROVIDERS)) (\<lambda>provider.
        need ''invalid action'' (Option.bind (asString (jprop rec ''action'')) (map_of ISSUE_SYNC_ACTIONS)) (\<lambda>action.
        need ''invalid issue_id'' (asString (jprop rec ''issue_id'')) (\<lambda>issueId.
          Inr (IssueSynced base provider action issueId))))
      else
        need ''invalid cache_key'' (asString (jprop rec ''cache_key'')) (\<lambda>cacheKey.
        need ''invalid from_node'' (asString (jprop rec ''from_node'')) (\<lambda>fromNode.
        need ''invalid to_node'' (asString (jprop rec ''to_node'')) (\<lambda>toNode.
        need ''invalid bytes'' (asFiniteNumber (jprop rec ''bytes'')) (\<lambda>bytes.
          Inr (CacheReplicated base cacheKey fromNode toNode bytes))))))"

definition parseRelayEvent :: "json \<Rightarrow> string + contract_event" where
  "parseRelayEvent input =
     (if \<not> is_record input then Inl ''event must be object''
      else need ''invalid type'' (Option.bind (asString (jprop input ''type''))
          (\<lambda>t. if t \<in> set EVENT_TYPES then Some t else None)) (\<lambda>type.
        case parseBaseEvent input of
          Inl err \<Rightarrow> Inl err
        | Inr base \<Rightarrow> parse_event_fields input type base))"

section \<open>What the parsers accept\<close>

text \<open>
  The check for an empty \<open>principal_id\<close> is never reached: \<open>asString\<close> has already turned an empty string,
  or any value that is no string, into \<open>null\<close>.
\<close>

lemma asNullableString_not_empty: "asNullableString v \<noteq> Some (Some [])"
  by (cases v) (auto simp: asNullableString_def asString_def split: json.splits)

lemma principal_never_refused: "parseAuthContext input \<noteq> Inl ''invalid principal_id''"
proof -
  have "asNullableString (readField input ''principal_id'' ''principalId'') \<noteq> Some (Some [])"
    by (rule asNullableString_not_empty)
  then show ?thesis
    by (auto simp: parseAuthContext_def need_def Let_def split: option.splits)
qed

end
