(* ===== verification/Observability.thy ===== *)
theory Observability
  imports Contracts
begin

text \<open>
  The structured logs of \<open>src/relay_observability.ts\<close>: event, audit and metric records, and the recorder
  of request metrics. A sink is the list of records written to it, as the JSON values that
  \<open>JSON.stringify\<close> receives.
\<close>

section \<open>Log records\<close>

definition event_base_fields :: "string \<Rightarrow> event_base \<Rightarrow> (string \<times> json) list" where
  "event_base_fields type b =
     [(''kind'', JStr ''relay_event''), (''type'', JStr type), (''event_id'', JStr (eb_eventId b)),
      (''occurred_at'', JNum (Fin (eb_occurredAt b))), (''room'', JStr (eb_room b)), (''source'', JStr (eb_source b))]"

definition provider_text :: "issue_provider \<Rightarrow> string" where
  "provider_text p = (case p of Bit_provider \<Rightarrow> ''bit'' | Github_provider \<Rightarrow> ''github'')"

definition action_text :: "issue_sync_action \<Rightarrow> string" where
  "action_text a = (case a of Upsert_action \<Rightarrow> ''upsert'' | Close_action \<Rightarrow> ''close'')"

definition toEventLogRecord :: "contract_event \<Rightarrow> json" where
  "toEventLogRecord e =
     (case e of
        IncomingRef b ref target \<Rightarrow>
          JObj (event_base_fields ''incoming_ref'' b @ [(''ref'', JStr ref), (''target'', JStr target)])
      | IssueSynced b provider action issueId \<Rightarrow>
          JObj (event_base_fields ''issue_synced'' b @
            [(''provider'', JStr (provider_text provider)), (''action'', JStr (action_text action)),
             (''issue_id'', JStr issueId)])
      | CacheReplicated b cacheKey fromNode toNode bytes \<Rightarrow>
          JObj (event_base_fields ''cache_replicated'' b @
            [(''cache_key'', JStr cacheKey), (''from_node'', JStr fromNode), (''to_node'', JStr toNode),
             (''bytes'', JNum (Fin bytes))]))"

text \<open>\<open>logRelayEvent\<close>: the record is one more line of the sink.\<close>

definition logRelayEvent :: "contract_event \<Rightarrow> json list \<Rightarrow> json list" where
  "logRelayEvent e sink = sink @ [toEventLogRecord e]"

record audit_log =
  au_action :: string
  au_occurredAt :: js_num
  au_status :: js_num
  au_room :: "string option"
  au_sender :: "string option"
  au_target :: "string option"
  au_id :: "string option"
  au_detail :: "(string \<times> json) list"

text \<open>A missing \<open>detail\<close> is the empty object: both are left out of the record.\<close>

definition detail_field :: "(string \<times> json) list \<Rightarrow> (string \<times> json) list" where
  "detail_field detail = (if detail \<noteq> [] then [(''detail'', JObj detail)] else [])"

definition audit_record :: "audit_log \<Rightarrow> json" where
  "audit_record a =
     JObj ([(''kind'', JStr ''relay_audit''), (''action'', JStr (au_action a)), (''occurred_at'', JNum (au_occurredAt a)),
       (''status'', JNum (au_status a)), (''room'', jstr_opt (au_room a)), (''sender'', jstr_opt (au_sender a)),
       (''target'', jstr_opt (au_target a)), (''id'', jstr_opt (au_id a))] @ detail_field (au_detail a))"

definition logRelayAudit :: "audit_log \<Rightarrow> json list \<Rightarrow> json list" where
  "logRelayAudit a sink = sink @ [audit_record a]"

section \<open>Numbers\<close>

definition normalizeFiniteNumber :: "js_num \<Rightarrow> rat \<Rightarrow> rat" where
  "normalizeFiniteNumber raw fallback = (case raw of Fin r \<Rightarrow> r | _ \<Rightarrow> fallback)"

definition normalizeNonNegativeNumber :: "js_num \<Rightarrow> rat" where
  "normalizeNonNegativeNumber raw = max 0 (normalizeFiniteNumber raw 0)"

definition normalizeInteger :: "js_num \<Rightarrow> int \<Rightarrow> int" where
  "normalizeInteger raw fallback = rtrunc (normalizeFiniteNumber raw (of_int fallback))"

definition normalizeOperation :: "string \<Rightarrow> string" where
  "normalizeOperation operation = (let trimmed = js_trim operation in if trimmed \<noteq> [] then trimmed else ''unknown'')"

definition isSuccessfulStatus :: "int \<Rightarrow> bool" where
  "isSuccessfulStatus status \<longleftrightarrow> 200 \<le> status \<and> status < 400"

record metric_log =
  me_metric :: string
  me_occurredAt :: js_num
  me_value :: js_num
  me_unit :: "string option"
  me_target :: "string option"
  me_detail :: "(string \<times> json) list"

definition metric_record :: "metric_log \<Rightarrow> json" where
  "metric_record m =
     JObj ([(''kind'', JStr ''relay_metric''), (''metric'', JStr (me_metric m)),
       (''occurred_at'', jint (normalizeInteger (me_occurredAt m) 0)),
       (''value'', JNum (Fin (normalizeFiniteNumber (me_value m) 0))), (''unit'', jstr_opt (me_unit m)),
       (''target'', jstr_opt (me_target m))] @ detail_field (me_detail m))"

definition logRelayMetric :: "metric_log \<Rightarrow> json list \<Rightarrow> json list" where
  "logRelayMetric m sink = sink @ [metric_record m]"

section \<open>Request metrics\<close>

record metric_state =
  ms_totalCount :: int
  ms_successCount :: int
  ms_failureCount :: int
  ms_latencyTotalMs :: rat
  ms_retryCountTotal :: int

record metric_input =
  mi_operation :: string
  mi_occurredAt :: js_num
  mi_status :: js_num
  mi_latencyMs :: js_num
  mi_retryCount :: "js_num option"

record metric_snapshot =
  sn_operation :: string
  sn_totalCount :: int
  sn_successCount :: int
  sn_failureCount :: int
  sn_successRate :: rat
  sn_avgLatencyMs :: rat
  sn_retryCountTotal :: int

definition empty_metric_state :: metric_state where
  "empty_metric_state =
     \<lparr>ms_totalCount = 0, ms_successCount = 0, ms_failureCount = 0, ms_latencyTotalMs = 0, ms_retryCountTotal = 0\<rparr>"

definition buildRequestMetricSnapshot :: "string \<Rightarrow> metric_state \<Rightarrow> metric_snapshot" where
  "buildRequestMetricSnapshot operation st =
     (let n = ms_totalCount st
      in \<lparr>sn_operation = operation, sn_totalCount = n, sn_successCount = ms_successCount st,
          sn_failureCount = ms_failureCount st,
          sn_successRate = (if n > 0 then of_int (ms_successCount st) / of_int n else 0),
          sn_avgLatencyMs = (if n > 0 then ms_latencyTotalMs st / of_int n else 0),
          sn_retryCountTotal = ms_retryCountTotal st\<rparr>)"

definition emptyRequestMetricSnapshot :: "string \<Rightarrow> metric_snapshot" where
  "emptyRequestMetricSnapshot operation =
     \<lparr>sn_operation = operation, sn_totalCount = 0, sn_successCount = 0, sn_failureCount = 0, sn_successRate = 0,
      sn_avgLatencyMs = 0, sn_retryCountTotal = 0\<rparr>"

type_synonym recorder = "(string, metric_state) omap"

definition getOrCreateState :: "recorder \<Rightarrow> string \<Rightarrow> metric_state" where
  "getOrCreateState states operation = (case map_of states operation of Some st \<Rightarrow> st | None \<Rightarrow> empty_metric_state)"

definition input_status :: "metric_input \<Rightarrow> int" where
  "input_status i = normalizeInteger (mi_status i) 500"

definition input_latency :: "metric_input \<Rightarrow> rat" where
  "input_latency i = normalizeNonNegativeNumber (mi_latencyMs i)"

definition input_retries :: "metric_input \<Rightarrow> int" where
  "input_retries i =
     max 0 (normalizeInteger (case mi_retryCount i of None \<Rightarrow> of_integer 0 | Some n \<Rightarrow> n) 0)"

definition count_input :: "metric_input \<Rightarrow> metric_state \<Rightarrow> metric_state" where
  "count_input i st =
     (let ok = isSuccessfulStatus (input_status i)
      in \<lparr>ms_totalCount = ms_totalCount st + 1, ms_successCount = ms_successCount st + (if ok then 1 else 0),
          ms_failureCount = ms_failureCount st + (if ok then 0 else 1),
          ms_latencyTotalMs = ms_latencyTotalMs st + input_latency i,
          ms_retryCountTotal = ms_retryCountTotal st + input_retries i\<rparr>)"

definition success_rate_metric :: "metric_input \<Rightarrow> metric_snapshot \<Rightarrow> metric_log" where
  "success_rate_metric i m =
     \<lparr>me_metric = ''relay.request.success_rate'', me_occurredAt = of_integer (normalizeInteger (mi_occurredAt i) 0),
      me_value = Fin (sn_successRate m), me_unit = Some ''ratio'', me_target = Some (sn_operation m),
      me_detail = [(''status'', jint (input_status i)), (''latency_ms'', JNum (Fin (input_latency i))),
        (''retry_count'', jint (input_retries i)), (''total_count'', jint (sn_totalCount m)),
        (''success_count'', jint (sn_successCount m)), (''failure_count'', jint (sn_failureCount m)),
        (''average_latency_ms'', JNum (Fin (sn_avgLatencyMs m))), (''retry_count_total'', jint (sn_retryCountTotal m))]\<rparr>"

definition record_metric :: "metric_input \<Rightarrow> recorder \<times> json list \<Rightarrow> (recorder \<times> json list) \<times> metric_snapshot" where
  "record_metric i rs =
     (let operation = normalizeOperation (mi_operation i);
          st = count_input i (getOrCreateState (fst rs) operation);
          m = buildRequestMetricSnapshot operation st
      in ((AList.update operation st (fst rs), logRelayMetric (success_rate_metric i m) (snd rs)), m))"

definition metric_snapshot_of :: "recorder \<Rightarrow> string \<Rightarrow> metric_snapshot" where
  "metric_snapshot_of states operation =
     (let op = normalizeOperation operation
      in case map_of states op of
           Some st \<Rightarrow> buildRequestMetricSnapshot op st
         | None \<Rightarrow> emptyRequestMetricSnapshot op)"

section \<open>Events read back\<close>

text \<open>The events the relay emits name everything they mention.\<close>

definition base_named :: "event_base \<Rightarrow> bool" where
  "base_named b \<longleftrightarrow> eb_eventId b \<noteq> [] \<and> eb_room b \<noteq> [] \<and> eb_source b \<noteq> []"

definition event_named :: "contract_event \<Rightarrow> bool" where
  "event_named e =
     (case e of
        IncomingRef b ref target \<Rightarrow> base_named b \<and> ref \<noteq> [] \<and> target \<noteq> []
      | IssueSynced b _ _ issueId \<Rightarrow> base_named b \<and> issueId \<noteq> []
      | CacheReplicated b cacheKey fromNode toNode _ \<Rightarrow>
          base_named b \<and> cacheKey \<noteq> [] \<and> fromNode \<noteq> [] \<and> toNode \<noteq> [])"

lemma asString_JStr [simp]: "asString (Some (JStr s)) = (if s \<noteq> [] then Some s else None)"
  by (simp add: asString_def)

lemma asFiniteNumber_Fin [simp]: "asFiniteNumber (Some (JNum (Fin r))) = Some r"
  by (simp add: asFiniteNumber_def)

lemma parseBaseEvent_fields:
  "base_named b \<Longrightarrow> parseBaseEvent (JObj (event_base_fields type b @ rest)) = Inr b"
  by (simp add: parseBaseEvent_def event_base_fields_def base_named_def need_def)

lemma provider_text_parse [simp]: "map_of ISSUE_PROVIDERS (provider_text p) = Some p" "provider_text p \<noteq> []"
  by (cases p; simp add: ISSUE_PROVIDERS_def provider_text_def)+

lemma action_text_parse [simp]: "map_of ISSUE_SYNC_ACTIONS (action_text a) = Some a" "action_text a \<noteq> []"
  by (cases a; simp add: ISSUE_SYNC_ACTIONS_def action_text_def)+

lemma jprop_event_fields:
  "k \<notin> {''kind'', ''type'', ''event_id'', ''occurred_at'', ''room'', ''source''} \<Longrightarrow>
     jprop (JObj (event_base_fields type b @ rest)) k = map_of rest k"
  by (simp add: event_base_fields_def)

lemma parseRelayEvent_fields:
  assumes "base_named b" "type \<in> set EVENT_TYPES"
  shows "parseRelayEvent (JObj (event_base_fields type b @ rest)) =
    parse_event_fields (JObj (event_base_fields type b @ rest)) type b"
proof -
  have "jprop (JObj (event_base_fields type b @ rest)) ''type'' = Some (JStr type)"
    by (simp add: event_base_fields_def)
  moreover have "type \<noteq> []" using assms(2) by (auto simp: EVENT_TYPES_def)
  ultimately show ?thesis
    using assms by (simp add: parseRelayEvent_def parseBaseEvent_fields need_def del: jprop_JObj)
qed

theorem event_log_roundtrip:
  assumes "event_named e"
  shows "parseRelayEvent (toEventLogRecord e) = Inr e"
  using assms
  by (cases e)
    (simp_all add: event_named_def toEventLogRecord_def parseRelayEvent_fields EVENT_TYPES_def parse_event_fields_def
      need_def jprop_event_fields del: jprop_JObj)

section \<open>The recorder against its history\<close>

lemma metric_snapshot_of_eq: "metric_snapshot_of states operation =
    buildRequestMetricSnapshot (normalizeOperation operation) (getOrCreateState states (normalizeOperation operation))"
  by (simp add: metric_snapshot_of_def Let_def getOrCreateState_def buildRequestMetricSnapshot_def
      emptyRequestMetricSnapshot_def empty_metric_state_def split: option.split)

definition record_all :: "metric_input list \<Rightarrow> recorder \<times> json list \<Rightarrow> recorder \<times> json list" where
  "record_all inputs rs = foldl (\<lambda>rs i. fst (record_metric i rs)) rs inputs"

abbreviation inputs_of :: "string \<Rightarrow> metric_input list \<Rightarrow> metric_input list" where
  "inputs_of operation \<equiv> filter (\<lambda>i. normalizeOperation (mi_operation i) = operation)"

lemma getOrCreateState_record_all:
  "getOrCreateState (fst (record_all inputs rs)) operation =
     fold count_input (inputs_of operation inputs) (getOrCreateState (fst rs) operation)"
proof (induction inputs arbitrary: rs)
  case (Cons i inputs)
  have "record_all (i # inputs) rs = record_all inputs (fst (record_metric i rs))"
    by (simp add: record_all_def)
  moreover have "getOrCreateState (fst (fst (record_metric i rs))) operation =
      (if normalizeOperation (mi_operation i) = operation then count_input i (getOrCreateState (fst rs) operation)
       else getOrCreateState (fst rs) operation)"
    by (simp add: record_metric_def Let_def getOrCreateState_def update_conv')
  ultimately show ?case by (simp add: Cons)
qed (simp add: record_all_def)

lemma fold_count_input:
  "fold count_input is st =
     \<lparr>ms_totalCount = ms_totalCount st + int (length is),
      ms_successCount = ms_successCount st + int (length (filter (isSuccessfulStatus \<circ> input_status) is)),
      ms_failureCount = ms_failureCount st + int (length (filter (\<lambda>i. \<not> isSuccessfulStatus (input_status i)) is)),
      ms_latencyTotalMs = ms_latencyTotalMs st + sum_list (map input_latency is),
      ms_retryCountTotal = ms_retryCountTotal st + sum_list (map input_retries is)\<rparr>"
  by (induction "is" arbitrary: st) (simp_all add: count_input_def Let_def)

lemma snapshot_of_history:
  fixes inputs operation
  defines "mine \<equiv> inputs_of (normalizeOperation operation) inputs"
  shows "metric_snapshot_of (fst (record_all inputs ([], []))) operation =
    \<lparr>sn_operation = normalizeOperation operation, sn_totalCount = int (length mine),
     sn_successCount = int (length (filter (isSuccessfulStatus \<circ> input_status) mine)),
     sn_failureCount = int (length (filter (\<lambda>i. \<not> isSuccessfulStatus (input_status i)) mine)),
     sn_successRate = of_nat (length (filter (isSuccessfulStatus \<circ> input_status) mine)) / of_nat (length mine),
     sn_avgLatencyMs = sum_list (map input_latency mine) / of_nat (length mine),
     sn_retryCountTotal = sum_list (map input_retries mine)\<rparr>"
  by (simp add: metric_snapshot_of_eq getOrCreateState_record_all fold_count_input buildRequestMetricSnapshot_def Let_def
      flip: mine_def) (simp add: getOrCreateState_def empty_metric_state_def)

theorem metrics_match_history:
  "let mine = inputs_of (normalizeOperation operation) inputs;
       snap = metric_snapshot_of (fst (record_all inputs ([], []))) operation
   in sn_totalCount snap = int (length mine) \<and>
      sn_successCount snap = int (length (filter (isSuccessfulStatus \<circ> input_status) mine)) \<and>
      sn_successCount snap + sn_failureCount snap = sn_totalCount snap \<and>
      sn_successRate snap * of_int (sn_totalCount snap) = of_int (sn_successCount snap) \<and>
      sn_avgLatencyMs snap * of_int (sn_totalCount snap) = sum_list (map input_latency mine) \<and>
      0 \<le> sn_successRate snap \<and> sn_successRate snap \<le> 1"
proof -
  let ?mine = "inputs_of (normalizeOperation operation) inputs"
  let ?ok = "filter (isSuccessfulStatus \<circ> input_status) ?mine"
  have le: "length ?ok \<le> length ?mine" by (rule length_filter_le)
  have compl: "length ?ok + length (filter (\<lambda>i. \<not> isSuccessfulStatus (input_status i)) ?mine) = length ?mine"
    using sum_length_filter_compl [of "isSuccessfulStatus \<circ> input_status" ?mine] by simp
  have rate: "(of_nat (length ?ok) :: rat) / of_nat (length ?mine) \<le> 1"
    using le by (simp add: divide_le_eq_1)
  show ?thesis
    using compl rate by (simp add: Let_def snapshot_of_history del: filter_filter)
qed

end
