(* ===== verification/Trigger_Dispatch.thy ===== *)
theory Trigger_Dispatch
  imports Contracts
begin

text \<open>
  The webhook dispatcher of \<open>src/trigger_dispatcher.ts\<close>. The HTTP client is a parameter: it maps the
  request it is given to a status or \<open>None\<close> when it throws.
\<close>

record dispatch_result =
  dr_ok :: bool
  dr_dispatched :: bool
  dr_status :: int
  dr_error :: "string option"

record dispatcher_options =
  do_webhookUrl :: "string option"
  do_webhookToken :: "string option"
  do_eventType :: "string option"
  do_refPrefixes :: "string list option"

record webhook_post =
  wp_url :: string
  wp_headers :: "(string \<times> string) list"
  wp_body :: json

definition DEFAULT_REF_PREFIXES :: "string list" where
  "DEFAULT_REF_PREFIXES = [''refs/relay/incoming/'']"

definition normalizeRefPrefixes :: "string list option \<Rightarrow> string list" where
  "normalizeRefPrefixes raw =
     (let entries = dedupe (filter (\<lambda>s. s \<noteq> []) (map js_trim (case raw of Some xs \<Rightarrow> xs | None \<Rightarrow> [])))
      in if entries = [] then DEFAULT_REF_PREFIXES else entries)"

definition isIncomingRelayRef :: "string \<Rightarrow> string list option \<Rightarrow> bool" where
  "isIncomingRelayRef ref refPrefixes = list_ex (\<lambda>p. prefix p ref) (normalizeRefPrefixes refPrefixes)"

definition dispatch_event_type :: "dispatcher_options \<Rightarrow> string" where
  "dispatch_event_type op =
     (let t = js_trim (case do_eventType op of Some t \<Rightarrow> t | None \<Rightarrow> ''relay.incoming_ref'')
      in if t = [] then ''relay.incoming_ref'' else t)"

definition dispatch_post :: "dispatcher_options \<Rightarrow> event_base \<Rightarrow> string \<Rightarrow> string \<Rightarrow> webhook_post" where
  "dispatch_post op b ref target =
     (let token = js_trim (or_empty (do_webhookToken op))
      in \<lparr>wp_url = js_trim (or_empty (do_webhookUrl op)),
          wp_headers = (''content-type'', ''application/json'') #
            (if token \<noteq> [] then [(''authorization'', ''Bearer '' @ token)] else []),
          wp_body = JObj [(''event_type'', JStr (dispatch_event_type op)), (''event_id'', JStr (eb_eventId b)),
            (''occurred_at'', JNum (Fin (eb_occurredAt b))), (''room'', JStr (eb_room b)), (''source'', JStr (eb_source b)),
            (''target'', JStr target), (''ref'', JStr ref)]\<rparr>)"

text \<open>\<open>response.ok\<close> is a status from 200 to 299. The first result is what was sent.\<close>

definition dispatchIncomingRef ::
    "dispatcher_options \<Rightarrow> (webhook_post \<Rightarrow> int option) \<Rightarrow> event_base \<Rightarrow> string \<Rightarrow> string \<Rightarrow> webhook_post option \<times> dispatch_result" where
  "dispatchIncomingRef op fetch b ref target =
     (if \<not> isIncomingRelayRef ref (Some (normalizeRefPrefixes (do_refPrefixes op))) \<or> js_trim (or_empty (do_webhookUrl op)) = []
      then (None, \<lparr>dr_ok = True, dr_dispatched = False, dr_status = 0, dr_error = None\<rparr>)
      else let post = dispatch_post op b ref target
        in (Some post,
            case fetch post of
              None \<Rightarrow> \<lparr>dr_ok = False, dr_dispatched = True, dr_status = 0,
                        dr_error = Some ''trigger dispatch failed: network error''\<rparr>
            | Some status \<Rightarrow>
                if 200 \<le> status \<and> status < 300
                then \<lparr>dr_ok = True, dr_dispatched = True, dr_status = status, dr_error = None\<rparr>
                else \<lparr>dr_ok = False, dr_dispatched = True, dr_status = status,
                       dr_error = Some (''trigger dispatch failed: status='' @ int_str status)\<rparr>))"

end
