(* ===== verification/Git_Session.thy ===== *)
theory Git_Session
  imports Http Url_Text Contracts
begin

text \<open>
  Git serve sessions, \<open>createGitServeSession\<close> of \<open>src/git_serve_session.ts\<close>. A host registers a session
  and polls it for the git requests that clients send to it; a client's request stays pending until
  the host responds, a timer fires or the session closes.

  A promise that the code holds is a ticket: every call of \<open>fetch\<close> brings a new one, and settling it is
  an effect. The timers that are armed are part of the state, with the time each is due. A call that
  awaits its body is an \<open>awaiting\<close> value, resumed by a step of its own. Bytes and texts are strings;
  headers of a request come under their lower-case names.
\<close>

section \<open>Text helpers\<close>

definition REQUEST_TIMEOUT_MS :: int where
  "REQUEST_TIMEOUT_MS = 60000"

definition POLL_TIMEOUT_MS :: int where
  "POLL_TIMEOUT_MS = 30000"

definition DEFAULT_SESSION_TTL_MS :: int where
  "DEFAULT_SESSION_TTL_MS = 24 * 60 * 60 * 1000"

definition RECEIVE_PACK_DISABLED_MESSAGE :: string where
  "RECEIVE_PACK_DISABLED_MESSAGE = ''receive-pack not enabled''"

definition ZERO_OID :: string where
  "ZERO_OID = replicate 40 (CHR ''0'')"

definition is_ref_point :: "nat \<Rightarrow> bool" where
  "is_ref_point n \<longleftrightarrow> n < 128 \<and> (is_alnum (char_of n) \<or> char_of n \<in> {CHR ''.'', CHR ''_'', CHR ''/'', CHR ''-''})"

text \<open>
  \<open>text.match(/<start>[A-Za-z0-9._/-]{1,255}/g)\<close>: from left to right, each match as long as it can be.
\<close>

function scan_refs :: "nat list \<Rightarrow> nat list \<Rightarrow> nat list list" where
  "scan_refs start text =
     (case text of
        [] \<Rightarrow> []
      | _ # rest \<Rightarrow>
          let body = takeWhile is_ref_point (take 255 (drop (length start) text))
          in if prefix start text \<and> body \<noteq> []
             then (start @ body) # scan_refs start (drop (length start + length body) text)
             else scan_refs start rest)"
  by pat_completeness auto
termination
  by (relation "measure (length \<circ> snd)") (auto simp: Let_def)

declare scan_refs.simps [simp del]

definition extract_refs :: "string \<Rightarrow> string \<Rightarrow> string list" where
  "extract_refs start bodyBytes = dedupe (map (map char_of) (scan_refs (points start) (text_decode bodyBytes)))"

definition extractIncomingRefs :: "string \<Rightarrow> string list" where
  "extractIncomingRefs bodyBytes = extract_refs incoming_prefix bodyBytes"

definition extractAllRelayRefs :: "string \<Rightarrow> string list" where
  "extractAllRelayRefs bodyBytes = extract_refs ''refs/'' bodyBytes"

definition isSuccessfulHttpStatus :: "js_num \<Rightarrow> bool" where
  "isSuccessfulHttpStatus status = (case status of Fin r \<Rightarrow> 200 \<le> r \<and> r < 300 | _ \<Rightarrow> False)"

text \<open>\<open>length.toString(16).padStart(4, '0') + payload\<close>.\<close>

fun hex_str :: "nat \<Rightarrow> string" where
  "hex_str n = (if n < 16 then [hex_digit n] else hex_str (n div 16) @ [hex_digit (n mod 16)])"

declare hex_str.simps [simp del]

definition pad_start :: "nat \<Rightarrow> char \<Rightarrow> string \<Rightarrow> string" where
  "pad_start n c s = replicate (n - length s) c @ s"

definition toPktLine :: "string \<Rightarrow> string" where
  "toPktLine payload = pad_start 4 (CHR ''0'') (hex_str (length (utf8 payload) + 4)) @ payload"

definition advertised_capabilities :: "string list" where
  "advertised_capabilities =
     [''report-status'', ''report-status-v2'', ''delete-refs'', ''ofs-delta'', ''atomic'', ''quiet'']"

definition buildReceivePackAdvertisementBody :: string where
  "buildReceivePackAdvertisementBody =
     (let firstRef = ZERO_OID @ '' capabilities^{}'' @ [CHR 0x00] @ join '' '' advertised_capabilities @ newline
      in utf8 (toPktLine (''# service=git-receive-pack'' @ newline) @ ''0000'' @ toPktLine firstRef @ ''0000''))"

definition buildReceivePackResultBody :: "string list \<Rightarrow> string" where
  "buildReceivePackResultBody incomingRefs =
     utf8 (toPktLine (''unpack ok'' @ newline) @
       concat (map (\<lambda>ref. toPktLine (''ok '' @ ref @ newline)) incomingRefs) @ ''0000'')"

text \<open>\<open>pathWithQuery.split('?', 2)\<close>: what follows a second question mark is dropped.\<close>

definition splitPath :: "string \<Rightarrow> string \<times> string" where
  "splitPath pathWithQuery =
     (case split_on (CHR ''?'') pathWithQuery of
        pathname # search # _ \<Rightarrow> (pathname, search)
      | pathname # [] \<Rightarrow> (pathname, [])
      | [] \<Rightarrow> ([], []))"

definition isReceivePackInfoRefsPath :: "string \<Rightarrow> bool" where
  "isReceivePackInfoRefsPath pathWithQuery =
     (let p = splitPath pathWithQuery
      in fst p = ''/info/refs'' \<and> form_get (snd p) ''service'' = Some (points ''git-receive-pack''))"

definition isReceivePackRpcPath :: "string \<Rightarrow> bool" where
  "isReceivePackRpcPath pathWithQuery = (fst (splitPath pathWithQuery) = ''/git-receive-pack'')"

text \<open>
  \<open>trim().toLowerCase()\<close> on code points, as far as a comparison with a text of ASCII letters can see:
  the white space and line ends of the language, the capital letters, and the Kelvin sign, whose
  lower case is the letter k.
\<close>

definition is_space_point :: "nat \<Rightarrow> bool" where
  "is_space_point n \<longleftrightarrow>
     n \<in> {9, 10, 11, 12, 13, 32, 160, 5760, 8232, 8233, 8239, 8287, 12288, 65279} \<or> 8192 \<le> n \<and> n \<le> 8202"

definition lower_point :: "nat \<Rightarrow> nat" where
  "lower_point n = (if 65 \<le> n \<and> n \<le> 90 then n + 32 else if n = 8490 then 107 else n)"

definition trim_points :: "nat list \<Rightarrow> nat list" where
  "trim_points ns = rev (dropWhile is_space_point (rev (dropWhile is_space_point ns)))"

definition isReceivePackDisabledBody :: "string option \<Rightarrow> bool" where
  "isReceivePackDisabledBody responseBody =
     (case responseBody of
        None \<Rightarrow> False
      | Some body \<Rightarrow> map lower_point (trim_points (text_decode body)) = points RECEIVE_PACK_DISABLED_MESSAGE)"

section \<open>State\<close>

record git_pending =
  gp_requestId :: string
  gp_method :: string
  gp_path :: string
  gp_headers :: "(string \<times> string) list"
  gp_bodyBase64 :: "string option"
  gp_incomingRefs :: "string list"
  gp_allRelayRefs :: "string list"
  gp_ticket :: nat
  gp_createdAt :: int

datatype git_timer = RequestTimer string nat | WaiterTimer nat | SessionTimer

record git_session =
  gs_active :: bool
  gs_sessionToken :: string
  gs_pending :: "(string, git_pending) omap"
  gs_pollWaiters :: "nat list"
  gs_registeredAt :: "int option"
  gs_timers :: "(git_timer \<times> int) list"

record git_options =
  go_sessionTtlMs :: "int option"
  go_onIncomingRef :: bool
  go_eventSource :: "string option"
  go_eventTarget :: "string option"
  go_eventRoom :: "string option"

text \<open>What a call takes from its surroundings: the clock, the random bytes, fresh UUIDs and the JSON parser.\<close>

record git_env =
  ge_now :: int
  ge_uuid :: string
  ge_event_uuid :: "nat \<Rightarrow> string"
  ge_random :: string
  ge_parse :: "string \<Rightarrow> json option"

datatype git_effect = Settle nat response | Reject nat | Emit contract_event

definition new_session :: git_session where
  "new_session =
     \<lparr>gs_active = False, gs_sessionToken = [], gs_pending = [], gs_pollWaiters = [], gs_registeredAt = None, gs_timers = []\<rparr>"

text \<open>\<open>setTimeout\<close> and \<open>clearTimeout\<close>.\<close>

definition arm :: "git_timer \<Rightarrow> int \<Rightarrow> git_session \<Rightarrow> git_session" where
  "arm t due s = s\<lparr>gs_timers := gs_timers s @ [(t, due)]\<rparr>"

definition disarm :: "git_timer \<Rightarrow> git_session \<Rightarrow> git_session" where
  "disarm t s = s\<lparr>gs_timers := filter (\<lambda>p. fst p \<noteq> t) (gs_timers s)\<rparr>"

abbreviation request_timer :: "git_pending \<Rightarrow> git_timer" where
  "request_timer p \<equiv> RequestTimer (gp_requestId p) (gp_ticket p)"

abbreviation pending_list :: "git_session \<Rightarrow> git_pending list" where
  "pending_list s \<equiv> map snd (gs_pending s)"

section \<open>Answers\<close>

definition git_error :: "string \<Rightarrow> int \<Rightarrow> response" where
  "git_error msg status = response_json (JObj [(''ok'', JBool False), (''error'', JStr msg)]) status"

definition pending_json :: "git_pending \<Rightarrow> json" where
  "pending_json p =
     JObj [(''request_id'', JStr (gp_requestId p)), (''method'', JStr (gp_method p)), (''path'', JStr (gp_path p)),
       (''headers'', JObj (map (\<lambda>(k, v). (k, JStr v)) (gp_headers p))), (''body_base64'', jstr_opt (gp_bodyBase64 p)),
       (''incoming_refs'', JArr (map JStr (gp_incomingRefs p)))]"

definition formatPollResponse :: "git_pending list \<Rightarrow> response" where
  "formatPollResponse requests =
     response_json (JObj [(''ok'', JBool True), (''requests'', JArr (map pending_json requests))]) 200"

section \<open>Operations\<close>

definition emitIncomingRefEvents :: "git_options \<Rightarrow> git_env \<Rightarrow> string list \<Rightarrow> git_effect list" where
  "emitIncomingRefEvents go ge incomingRefs =
     (if \<not> go_onIncomingRef go then []
      else map (\<lambda>(i, ref). Emit (IncomingRef
          \<lparr>eb_eventId = ge_event_uuid ge i, eb_occurredAt = of_int (ge_now ge div 1000),
           eb_room = (case go_eventRoom go of Some r \<Rightarrow> r | None \<Rightarrow> ''main''),
           eb_source = (case go_eventSource go of Some x \<Rightarrow> x | None \<Rightarrow> ''git_serve_session'')\<rparr>
          ref (case go_eventTarget go of Some t \<Rightarrow> t | None \<Rightarrow> ''git-receive-pack'')))
        (enumerate 0 incomingRefs))"

definition cleanup :: "git_session \<Rightarrow> git_session \<times> git_effect list" where
  "cleanup s =
     (let s1 = foldl (\<lambda>s p. disarm (request_timer p) s) (disarm SessionTimer s) (pending_list s);
          s2 = foldl (\<lambda>s w. disarm (WaiterTimer w) s) (s1\<lparr>gs_pending := []\<rparr>) (gs_pollWaiters s)
      in (s2\<lparr>gs_pollWaiters := [], gs_active := False\<rparr>,
          map (\<lambda>p. Settle (gp_ticket p) (git_error ''session closed'' 410)) (pending_list s) @
          map (\<lambda>w. Settle w (formatPollResponse [])) (gs_pollWaiters s)))"

definition session_ttl :: "git_options \<Rightarrow> int" where
  "session_ttl go = (case go_sessionTtlMs go of Some ttl \<Rightarrow> ttl | None \<Rightarrow> DEFAULT_SESSION_TTL_MS)"

definition resetSessionTimer :: "git_options \<Rightarrow> int \<Rightarrow> git_session \<Rightarrow> git_session" where
  "resetSessionTimer go now s = arm SessionTimer (now + session_ttl go) (disarm SessionTimer s)"

definition generateSessionToken :: "git_env \<Rightarrow> string" where
  "generateSessionToken ge = filter (\<lambda>c. c \<noteq> CHR ''='') (map to_url_char (btoa (ge_random ge)))"

definition handleRegister :: "git_options \<Rightarrow> git_env \<Rightarrow> git_session \<Rightarrow> git_session \<times> response" where
  "handleRegister go ge s =
     (let token = generateSessionToken ge
      in (resetSessionTimer go (ge_now ge) (s\<lparr>gs_sessionToken := token, gs_active := True, gs_registeredAt := Some (ge_now ge)\<rparr>),
          response_json (JObj [(''ok'', JBool True), (''session_token'', JStr token)]) 200))"

definition presented_session_token :: "request \<Rightarrow> string" where
  "presented_session_token r =
     (case query_get r ''session_token'' of Some t \<Rightarrow> t | None \<Rightarrow> or_empty (header_get r ''x-session-token''))"

definition validateToken :: "git_session \<Rightarrow> request \<Rightarrow> response option" where
  "validateToken s r =
     (if \<not> gs_active s then Some (git_error ''session not active'' 404)
      else if presented_session_token r \<noteq> gs_sessionToken s then Some (git_error ''invalid session token'' 403)
      else None)"

definition handleInfo :: "git_session \<Rightarrow> request \<Rightarrow> response" where
  "handleInfo s r =
     (case validateToken s r of
        Some denied \<Rightarrow> denied
      | None \<Rightarrow> response_json (JObj [(''ok'', JBool True), (''active'', JBool (gs_active s)),
          (''pending_requests'', jint (int (length (gs_pending s)))),
          (''poll_waiters'', jint (int (length (gs_pollWaiters s)))), (''registered_at'', jint_opt (gs_registeredAt s))]) 200)"

definition drainPendingToPollWaiters :: "git_session \<Rightarrow> git_session \<times> git_effect list" where
  "drainPendingToPollWaiters s =
     (case gs_pollWaiters s of
        [] \<Rightarrow> (s, [])
      | waiter # rest \<Rightarrow>
          if gs_pending s = [] then (s, [])
          else (disarm (WaiterTimer waiter) (s\<lparr>gs_pollWaiters := rest\<rparr>),
                [Settle waiter (formatPollResponse (pending_list s))]))"

text \<open>The headers of a request that the host is shown.\<close>

definition git_headers :: "request \<Rightarrow> (string \<times> string) list" where
  "git_headers r =
     filter (\<lambda>(k, _). to_lower k \<in> {''content-type'', ''content-encoding'', ''git-protocol'', ''accept''}) (req_headers r)"

text \<open>\<open>url.searchParams.delete('session_token')\<close> and the query as it is written afterwards.\<close>

definition forwarded_path :: "request \<Rightarrow> string \<Rightarrow> string" where
  "forwarded_path r gitPath = gitPath @ search_string (filter (\<lambda>(k, _). k \<noteq> ''session_token'') (req_query r))"

definition git_pending_of :: "git_env \<Rightarrow> nat \<Rightarrow> request \<Rightarrow> string \<Rightarrow> string \<Rightarrow> git_pending" where
  "git_pending_of ge ticket r gitPath requestId =
     (let post = (req_method r = ''POST''); receive = post \<and> suffix ''/git-receive-pack'' gitPath
      in \<lparr>gp_requestId = requestId, gp_method = req_method r, gp_path = forwarded_path r gitPath,
          gp_headers = git_headers r, gp_bodyBase64 = (if post then Some (btoa (req_text r)) else None),
          gp_incomingRefs = (if receive then extractIncomingRefs (req_text r) else []),
          gp_allRelayRefs = (if receive then extractAllRelayRefs (req_text r) else []),
          gp_ticket = ticket, gp_createdAt = ge_now ge\<rparr>)"

definition git_enqueue ::
    "git_env \<Rightarrow> nat \<Rightarrow> request \<Rightarrow> string \<Rightarrow> string \<Rightarrow> git_session \<Rightarrow> git_session \<times> git_effect list" where
  "git_enqueue ge ticket r gitPath requestId s =
     (let p = git_pending_of ge ticket r gitPath requestId;
          s1 = arm (request_timer p) (ge_now ge + REQUEST_TIMEOUT_MS) s
      in drainPendingToPollWaiters (s1\<lparr>gs_pending := AList.update requestId p (gs_pending s1)\<rparr>))"

datatype awaiting = AwaitGit (aw_ticket: nat) request string string | AwaitRespond (aw_ticket: nat) request

definition handleGitRequest ::
    "git_env \<Rightarrow> nat \<Rightarrow> request \<Rightarrow> string \<Rightarrow> git_session \<Rightarrow> git_session \<times> git_effect list \<times> awaiting list" where
  "handleGitRequest ge ticket r gitPath s =
     (if \<not> gs_active s then (s, [Settle ticket (git_error ''session not active'' 404)], [])
      else if req_method r = ''POST'' then (s, [], [AwaitGit ticket r gitPath (ge_uuid ge)])
      else let res = git_enqueue ge ticket r gitPath (ge_uuid ge) s in (fst res, snd res, []))"

text \<open>\<open>setTimeout\<close> takes a delay that is not a number for zero.\<close>

definition poll_timeout :: "request \<Rightarrow> int" where
  "poll_timeout r =
     (case js_parse_int (case query_get r ''timeout'' of Some t \<Rightarrow> t | None \<Rightarrow> ''30'') of
        NaN \<Rightarrow> 0
      | PosInf \<Rightarrow> POLL_TIMEOUT_MS
      | NegInf \<Rightarrow> 1000
      | Fin x \<Rightarrow> min (max (rtrunc x) 1 * 1000) POLL_TIMEOUT_MS)"

definition handlePoll :: "git_env \<Rightarrow> nat \<Rightarrow> request \<Rightarrow> git_session \<Rightarrow> git_session \<times> git_effect list" where
  "handlePoll ge ticket r s =
     (case validateToken s r of
        Some denied \<Rightarrow> (s, [Settle ticket denied])
      | None \<Rightarrow>
          if gs_pending s \<noteq> [] then (s, [Settle ticket (formatPollResponse (pending_list s))])
          else (arm (WaiterTimer ticket) (ge_now ge + poll_timeout r) (s\<lparr>gs_pollWaiters := gs_pollWaiters s @ [ticket]\<rparr>), []))"

text \<open>
  The answer for the client. Where the runtime throws, the result is \<open>None\<close>: \<open>atob\<close> on a malformed text,
  \<open>Headers.set\<close> on a malformed name or value, the \<open>Response\<close> constructor on a status outside 200 to 599,
  or on a body where the status forbids one. A status is converted to 16 bits first.
\<close>

definition is_header_char :: "char \<Rightarrow> bool" where
  "is_header_char c \<longleftrightarrow> is_alnum c \<or> c \<in> set (CHR 0x27 # CHR 0x60 # ''!#$%&*+-.^_|~'')"

definition header_value :: "string \<Rightarrow> string" where
  "header_value v =
     (let blank = (\<lambda>c. (of_char c :: nat) \<in> {9, 10, 13, 32}) in rev (dropWhile blank (rev (dropWhile blank v))))"

definition set_header :: "string \<Rightarrow> string \<Rightarrow> (string, string) omap \<Rightarrow> (string, string) omap option" where
  "set_header k v h =
     (if k = [] \<or> \<not> list_all is_header_char k \<or> list_ex (\<lambda>c. (of_char c :: nat) \<in> {0, 10, 13}) (header_value v)
      then None else Some (AList.update (to_lower k) (header_value v) h))"

fun set_headers :: "(string \<times> json) list \<Rightarrow> (string, string) omap \<Rightarrow> (string, string) omap option" where
  "set_headers [] h = Some h"
| "set_headers ((k, JStr v) # rest) h = Option.bind (set_header k v h) (set_headers rest)"
| "set_headers (_ # rest) h = set_headers rest h"

definition to_uint16 :: "js_num \<Rightarrow> int" where
  "to_uint16 x = (case x of Fin r \<Rightarrow> rtrunc r mod 65536 | _ \<Rightarrow> 0)"

definition make_response :: "string option \<Rightarrow> js_num \<Rightarrow> (string, string) omap \<Rightarrow> response option" where
  "make_response body status headers =
     (let st = to_uint16 status
      in if st < 200 \<or> st > 599 \<or> (body \<noteq> None \<and> st \<in> {204, 205, 304}) then None
         else Some \<lparr>resp_status = st, resp_headers = headers,
                     resp_body = (case body of None \<Rightarrow> NoBody | Some b \<Rightarrow> TextBody b)\<rparr>)"

definition shouldCompatAcceptIncomingOnlyPush :: "git_pending \<Rightarrow> bool" where
  "shouldCompatAcceptIncomingOnlyPush p \<longleftrightarrow>
     isReceivePackRpcPath (gp_path p) \<and> gp_incomingRefs p \<noteq> [] \<and> gp_allRelayRefs p \<noteq> [] \<and>
     list_all (prefix incoming_prefix) (gp_allRelayRefs p)"

definition compat_headers :: "string \<Rightarrow> (string, string) omap \<Rightarrow> (string, string) omap" where
  "compat_headers type h =
     AList.update ''cache-control'' ''no-cache'' (AList.update ''content-type'' type h)"

definition final_answer ::
    "git_pending \<Rightarrow> js_num \<Rightarrow> (string, string) omap \<Rightarrow> string option \<Rightarrow> js_num \<times> (string, string) omap \<times> string option" where
  "final_answer p status headers body =
     (let disabled = (status = Fin 403 \<and> isReceivePackDisabledBody body)
      in if disabled \<and> isReceivePackInfoRefsPath (gp_path p)
         then (Fin 200, compat_headers ''application/x-git-receive-pack-advertisement'' headers,
               Some buildReceivePackAdvertisementBody)
         else if disabled \<and> shouldCompatAcceptIncomingOnlyPush p
         then (Fin 200, compat_headers ''application/x-git-receive-pack-result'' headers,
               Some (buildReceivePackResultBody (gp_incomingRefs p)))
         else (status, headers, body))"

text \<open>An empty \<open>body_base64\<close> is no body.\<close>

definition decode_body :: "string option \<Rightarrow> string option option" where
  "decode_body bodyBase64 =
     (case bodyBase64 of None \<Rightarrow> Some None | Some b \<Rightarrow> if b = [] then Some None else map_option Some (atob b))"

record host_answer =
  ha_requestId :: string
  ha_status :: js_num
  ha_headers :: "(string \<times> json) list"
  ha_bodyBase64 :: "string option"

definition parse_host_answer :: "json \<Rightarrow> host_answer" where
  "parse_host_answer body =
     \<lparr>ha_requestId = str_or_empty (jprop body ''request_id''),
      ha_status = (case num_opt (jprop body ''status'') of Some n \<Rightarrow> n | None \<Rightarrow> Fin 200),
      ha_headers = (case obj_opt (jprop body ''headers'') of Some h \<Rightarrow> members h | None \<Rightarrow> []),
      ha_bodyBase64 = str_opt (jprop body ''body_base64'')\<rparr>"

text \<open>The first result is whether the constructor was reached, with the events emitted before it.\<close>

definition answer_client ::
    "git_options \<Rightarrow> git_env \<Rightarrow> host_answer \<Rightarrow> git_pending \<Rightarrow> git_effect list \<times> response option" where
  "answer_client go ge ha p =
     (case (decode_body (ha_bodyBase64 ha), set_headers (ha_headers ha) []) of
        (Some body, Some headers) \<Rightarrow>
          let res = final_answer p (ha_status ha) headers body
          in (if gp_incomingRefs p \<noteq> [] \<and> isSuccessfulHttpStatus (fst res)
              then emitIncomingRefEvents go ge (gp_incomingRefs p) else [],
              make_response (snd (snd res)) (fst res) (fst (snd res)))
      | _ \<Rightarrow> ([], None))"

text \<open>\<open>handleRespond\<close> after its body has arrived; the token was checked before.\<close>

definition respond_body ::
    "git_options \<Rightarrow> git_env \<Rightarrow> nat \<Rightarrow> request \<Rightarrow> git_session \<Rightarrow> git_session \<times> git_effect list" where
  "respond_body go ge ticket r s =
     (case ge_parse ge (req_text r) of
        Some (JObj kvs) \<Rightarrow>
          let ha = parse_host_answer (JObj kvs)
          in if ha_requestId ha = [] then (s, [Settle ticket (git_error ''missing request_id'' 400)])
             else (case map_of (gs_pending s) (ha_requestId ha) of
                 None \<Rightarrow> (s, [Settle ticket (git_error ''request not found or already resolved'' 404)])
               | Some p \<Rightarrow>
                   let s1 = disarm (request_timer p) (s\<lparr>gs_pending := AList.delete (ha_requestId ha) (gs_pending s)\<rparr>);
                       res = answer_client go ge ha p
                   in (s1, fst res @ (case snd res of
                        None \<Rightarrow> [Reject ticket]
                      | Some resp \<Rightarrow> [Settle (gp_ticket p) resp,
                          Settle ticket (response_json (JObj [(''ok'', JBool True)]) 200)])))
      | _ \<Rightarrow> (s, [Settle ticket (git_error ''invalid json'' 400)]))"

definition handleRespond ::
    "nat \<Rightarrow> request \<Rightarrow> git_session \<Rightarrow> git_session \<times> git_effect list \<times> awaiting list" where
  "handleRespond ticket r s =
     (case validateToken s r of
        Some denied \<Rightarrow> (s, [Settle ticket denied], [])
      | None \<Rightarrow> (s, [], [AwaitRespond ticket r]))"

definition git_fetch ::
    "git_options \<Rightarrow> git_env \<Rightarrow> nat \<Rightarrow> request \<Rightarrow> git_session \<Rightarrow> git_session \<times> git_effect list \<times> awaiting list" where
  "git_fetch go ge ticket r s =
     (let path = req_path r
      in if path = ''/register'' \<and> req_method r = ''POST''
         then (let res = handleRegister go ge s in (fst res, [Settle ticket (snd res)], []))
         else if path = ''/info'' \<and> req_method r = ''GET'' then (s, [Settle ticket (handleInfo s r)], [])
         else if path = ''/poll'' \<and> req_method r = ''GET''
         then (let res = handlePoll ge ticket r s in (fst res, snd res, []))
         else if path = ''/respond'' \<and> req_method r = ''POST'' then handleRespond ticket r s
         else if prefix ''/git/'' path then handleGitRequest ge ticket r (drop 4 path) s
         else (s, [Settle ticket (git_error ''not found'' 404)], []))"

definition resume :: "git_options \<Rightarrow> git_env \<Rightarrow> awaiting \<Rightarrow> git_session \<Rightarrow> git_session \<times> git_effect list" where
  "resume go ge a s =
     (case a of
        AwaitGit ticket r gitPath requestId \<Rightarrow> git_enqueue ge ticket r gitPath requestId s
      | AwaitRespond ticket r \<Rightarrow> respond_body go ge ticket r s)"

text \<open>The callbacks of the timers; a timer that has fired is no longer armed.\<close>

definition fire :: "git_timer \<Rightarrow> git_session \<Rightarrow> git_session \<times> git_effect list" where
  "fire t s =
     (let s1 = disarm t s
      in case t of
           RequestTimer requestId ticket \<Rightarrow>
             (s1\<lparr>gs_pending := AList.delete requestId (gs_pending s1)\<rparr>, [Settle ticket (git_error ''request timeout'' 504)])
         | WaiterTimer ticket \<Rightarrow>
             (s1\<lparr>gs_pollWaiters := remove1 ticket (gs_pollWaiters s1)\<rparr>, [Settle ticket (formatPollResponse [])])
         | SessionTimer \<Rightarrow> cleanup s1)"

section \<open>The durable object\<close>

record git_persisted =
  ps_active :: bool
  ps_sessionToken :: string
  ps_registeredAt :: "int option"

definition persistableState :: "git_session \<Rightarrow> git_persisted" where
  "persistableState s =
     \<lparr>ps_active = gs_active s, ps_sessionToken = gs_sessionToken s, ps_registeredAt = gs_registeredAt s\<rparr>"

definition restore_session :: "git_options \<Rightarrow> int \<Rightarrow> git_persisted \<Rightarrow> git_session \<Rightarrow> git_session" where
  "restore_session go now saved s =
     (let s1 = s\<lparr>gs_active := ps_active saved, gs_sessionToken := ps_sessionToken saved, gs_registeredAt := ps_registeredAt saved\<rparr>
      in if ps_active saved then resetSessionTimer go now s1 else s1)"

text \<open>
  The class \<open>GitServeSession\<close>: the session of one object and what its storage holds under
  \<open>session_state\<close>, \<open>None\<close> for an object without storage. A write to the storage succeeds.
\<close>

record git_object =
  ob_options :: git_options
  ob_session :: git_session
  ob_storage :: "git_persisted option option"

definition object_ttl :: "string option \<Rightarrow> int option" where
  "object_ttl raw =
     (case raw of
        None \<Rightarrow> None
      | Some t \<Rightarrow>
          if t = [] then None
          else (case js_parse_int t of
              Fin r \<Rightarrow> if rtrunc r * 1000 > 0 then Some (rtrunc r * 1000) else None
            | _ \<Rightarrow> None))"

definition object_options :: "string option \<Rightarrow> git_options" where
  "object_options raw =
     \<lparr>go_sessionTtlMs = object_ttl raw, go_onIncomingRef = False, go_eventSource = None, go_eventTarget = None,
      go_eventRoom = None\<rparr>"

definition construct_object :: "string option \<Rightarrow> int \<Rightarrow> git_persisted option option \<Rightarrow> git_object" where
  "construct_object ttl now storage =
     (let go = object_options ttl
      in \<lparr>ob_options = go,
          ob_session = (case storage of
              Some (Some saved) \<Rightarrow> restore_session go now saved new_session
            | _ \<Rightarrow> new_session),
          ob_storage = storage\<rparr>)"

definition object_fetch ::
    "git_env \<Rightarrow> nat \<Rightarrow> request \<Rightarrow> git_object \<Rightarrow> git_object \<times> git_effect list \<times> awaiting list" where
  "object_fetch ge ticket r ob =
     (let res = git_fetch (ob_options ob) ge ticket r (ob_session ob);
          saved = (if req_path r = ''/register'' \<and> req_method r = ''POST''
                   then map_option (\<lambda>_. Some (persistableState (fst res))) (ob_storage ob) else ob_storage ob)
      in (ob\<lparr>ob_session := fst res, ob_storage := saved\<rparr>, snd res))"

end
