(* ===== verification/Git_Session_Facts.thy ===== *)
theory Git_Session_Facts
  imports Git_Session "HOL-Library.Multiset"
begin

text \<open>
  What a git serve session promises: no promise is lost or settled twice, every request waits under an
  armed timer, only the holder of the session token sees or answers requests, and a refused push is
  accepted in the host's place only when all it names is under \<open>refs/relay/incoming/\<close>.
\<close>

section \<open>Runs\<close>

record git_conf =
  gr_session :: git_session
  gr_awaiting :: "awaiting list"

datatype git_event =
    Call nat git_env request
  | Resume nat git_env
  | Fire git_timer
  | Close

definition git_step :: "git_options \<Rightarrow> git_conf \<Rightarrow> git_event \<Rightarrow> git_conf \<times> git_effect list" where
  "git_step go c e =
     (case e of
        Call ticket ge r \<Rightarrow>
          (let res = git_fetch go ge ticket r (gr_session c)
           in (\<lparr>gr_session = fst res, gr_awaiting = gr_awaiting c @ snd (snd res)\<rparr>, fst (snd res)))
      | Resume i ge \<Rightarrow>
          (if i < length (gr_awaiting c)
           then (let res = resume go ge (gr_awaiting c ! i) (gr_session c)
             in (\<lparr>gr_session = fst res, gr_awaiting = take i (gr_awaiting c) @ drop (Suc i) (gr_awaiting c)\<rparr>, snd res))
           else (c, []))
      | Fire t \<Rightarrow>
          (if t \<in> fst ` set (gs_timers (gr_session c))
           then (let res = fire t (gr_session c) in (c\<lparr>gr_session := fst res\<rparr>, snd res)) else (c, []))
      | Close \<Rightarrow> (let res = cleanup (gr_session c) in (c\<lparr>gr_session := fst res\<rparr>, snd res)))"

fun git_run :: "git_options \<Rightarrow> git_conf \<Rightarrow> git_event list \<Rightarrow> git_conf \<times> git_effect list" where
  "git_run go c [] = (c, [])"
| "git_run go c (e # es) =
     (let res = git_step go c e; rest = git_run go (fst res) es in (fst rest, snd res @ snd rest))"

text \<open>The tickets a session still owes an answer, and those that effects settle.\<close>

definition owed :: "git_session \<Rightarrow> nat list" where
  "owed s = map gp_ticket (pending_list s) @ gs_pollWaiters s"

definition held :: "git_conf \<Rightarrow> nat list" where
  "held c = owed (gr_session c) @ map aw_ticket (gr_awaiting c)"

definition settled_by :: "git_effect \<Rightarrow> nat list" where
  "settled_by e = (case e of Settle t _ \<Rightarrow> [t] | Reject t \<Rightarrow> [t] | Emit _ \<Rightarrow> [])"

abbreviation settled :: "git_effect list \<Rightarrow> nat list" where
  "settled effs \<equiv> concat (map settled_by effs)"

definition called :: "git_event list \<Rightarrow> nat list" where
  "called es = concat (map (\<lambda>e. case e of Call t _ _ \<Rightarrow> [t] | _ \<Rightarrow> []) es)"

text \<open>
  The request ids in use; a new one is fresh, as \<open>crypto.randomUUID\<close> promises, and tickets are new because
  each call of \<open>fetch\<close> has its own promise.
\<close>

definition await_ids :: "awaiting list \<Rightarrow> string list" where
  "await_ids as = concat (map (\<lambda>a. case a of AwaitGit _ _ _ i \<Rightarrow> [i] | AwaitRespond _ _ \<Rightarrow> []) as)"

definition used_ids :: "git_conf \<Rightarrow> string list" where
  "used_ids c = map fst (gs_pending (gr_session c)) @ await_ids (gr_awaiting c)"

definition fresh_event :: "git_conf \<Rightarrow> git_event \<Rightarrow> bool" where
  "fresh_event c e \<longleftrightarrow> (case e of Call t ge _ \<Rightarrow> t \<notin> set (held c) \<and> ge_uuid ge \<notin> set (used_ids c) | _ \<Rightarrow> True)"

fun fresh_run :: "git_options \<Rightarrow> git_conf \<Rightarrow> git_event list \<Rightarrow> bool" where
  "fresh_run go c [] \<longleftrightarrow> True"
| "fresh_run go c (e # es) \<longleftrightarrow> fresh_event c e \<and> fresh_run go (fst (git_step go c e)) es"

section \<open>The invariant\<close>

definition waiting_timers :: "git_session \<Rightarrow> git_timer set" where
  "waiting_timers s = request_timer ` set (pending_list s) \<union> WaiterTimer ` set (gs_pollWaiters s)"

definition timers_match :: "git_session \<Rightarrow> bool" where
  "timers_match s \<longleftrightarrow> fst ` set (gs_timers s) - {SessionTimer} = waiting_timers s \<and>
     (gs_active s \<longleftrightarrow> SessionTimer \<in> fst ` set (gs_timers s))"

definition session_ok :: "git_session \<Rightarrow> bool" where
  "session_ok s \<longleftrightarrow> okeys (gs_pending s) \<and> list_all (\<lambda>(k, p). k = gp_requestId p) (gs_pending s) \<and>
     distinct (owed s) \<and> timers_match s"

definition run_ok :: "git_conf \<Rightarrow> bool" where
  "run_ok c \<longleftrightarrow> session_ok (gr_session c) \<and> distinct (held c) \<and> distinct (used_ids c)"

section \<open>Timers\<close>

abbreviation armed :: "git_session \<Rightarrow> git_timer set" where
  "armed s \<equiv> fst ` set (gs_timers s)"

lemma arm_simps [simp]:
  "gs_active (arm t d s) = gs_active s" "gs_sessionToken (arm t d s) = gs_sessionToken s"
  "gs_pending (arm t d s) = gs_pending s" "gs_pollWaiters (arm t d s) = gs_pollWaiters s"
  "armed (arm t d s) = insert t (armed s)"
  by (auto simp: arm_def)

lemma disarm_simps [simp]:
  "gs_active (disarm t s) = gs_active s" "gs_sessionToken (disarm t s) = gs_sessionToken s"
  "gs_pending (disarm t s) = gs_pending s" "gs_pollWaiters (disarm t s) = gs_pollWaiters s"
  "armed (disarm t s) = armed s - {t}"
  by (auto simp: disarm_def)

lemma disarm_all:
  "foldl (\<lambda>s x. disarm (f x) s) s xs = s\<lparr>gs_timers := filter (\<lambda>p. fst p \<notin> f ` set xs) (gs_timers s)\<rparr>"
  by (induction xs arbitrary: s) (auto simp: disarm_def intro!: filter_cong)

lemma resetSessionTimer_simps [simp]:
  "gs_active (resetSessionTimer go now s) = gs_active s"
  "gs_sessionToken (resetSessionTimer go now s) = gs_sessionToken s"
  "gs_pending (resetSessionTimer go now s) = gs_pending s"
  "gs_pollWaiters (resetSessionTimer go now s) = gs_pollWaiters s"
  "armed (resetSessionTimer go now s) = insert SessionTimer (armed s)"
  by (auto simp: resetSessionTimer_def)

lemma owed_arm [simp]: "owed (arm t d s) = owed s"
  by (simp add: owed_def)

lemma owed_disarm [simp]: "owed (disarm t s) = owed s"
  by (simp add: owed_def)

section \<open>What each operation owes and settles\<close>

text \<open>
  \<open>conserves s new s' effs lost\<close>: the tickets owed before, with the new ones, are those owed afterwards, those
  settled and those lost.
\<close>

definition conserves :: "git_session \<Rightarrow> nat list \<Rightarrow> git_session \<Rightarrow> git_effect list \<Rightarrow> nat list \<Rightarrow> bool" where
  "conserves s new s' effs lost \<longleftrightarrow> mset (owed s @ new) = mset (owed s' @ settled effs @ lost)"

lemma settled_simps [simp]:
  "settled [] = []" "settled (e # es) = settled_by e @ settled es" "settled (xs @ ys) = settled xs @ settled ys"
  "settled_by (Settle t r) = [t]" "settled_by (Reject t) = [t]" "settled_by (Emit ev) = []"
  by (simp_all add: settled_by_def)

lemma settled_map [simp]: "settled (map (\<lambda>x. Settle (f x) (g x)) xs) = map f xs"
  by (induction xs) simp_all

lemma settled_emit [simp]: "settled (emitIncomingRefEvents go ge refs) = []"
proof -
  have "settled (map (\<lambda>(i, ref). Emit (f i ref)) xs) = []" for f and xs :: "(nat \<times> string) list"
    by (induction xs) auto
  then show ?thesis by (auto simp: emitIncomingRefEvents_def)
qed

lemma cleanup_result:
  assumes "session_ok s"
  shows "session_ok (fst (cleanup s))" "conserves s [] (fst (cleanup s)) (snd (cleanup s)) []"
    "gs_pending (fst (cleanup s)) = []" "gs_pollWaiters (fst (cleanup s)) = []"
proof -
  have "armed (fst (cleanup s)) = armed s - {SessionTimer} - waiting_timers s"
    unfolding cleanup_def Let_def disarm_all waiting_timers_def by (auto simp: disarm_def)
  also have "\<dots> = {}" using assms by (simp add: session_ok_def timers_match_def)
  finally show "session_ok (fst (cleanup s))" "conserves s [] (fst (cleanup s)) (snd (cleanup s)) []"
    "gs_pending (fst (cleanup s)) = []" "gs_pollWaiters (fst (cleanup s)) = []"
    by (simp_all add: session_ok_def timers_match_def waiting_timers_def okeys_def owed_def conserves_def)
      (simp_all add: cleanup_def Let_def disarm_all comp_def)
qed

lemma pending_delete:
  assumes "okeys m" "map_of m k = Some p"
  shows "mset (map (f \<circ> snd) m) = add_mset (f p) (mset (map (f \<circ> snd) (AList.delete k m)))"
    and "set (map snd m) = insert p (set (map snd (AList.delete k m)))"
  using assms
proof (induction m)
  case (Cons x m)
  have *: "AList.delete k m = m" if "k \<notin> fst ` set m"
    using that unfolding AList.delete_eq filter_id_conv by force
  {
    case 1
    then show ?case using Cons.IH * by (cases "fst x = k") (auto simp: okeys_def AList.delete_eq)
  next
    case 2
    then show ?case using Cons.IH * by (cases "fst x = k") (auto simp: okeys_def AList.delete_eq)
  }
qed simp_all

lemma delete_keys: "set (map fst (AList.delete k m)) = set (map fst m) - {k}"
  by (auto simp: AList.delete_eq)

lemma pending_update_new: "k \<notin> fst ` set m \<Longrightarrow> AList.update k v m = m @ [(k, v)]"
  by (induction m) auto

text \<open>Taking one pending request out of the session, with its timer.\<close>

definition without_pending :: "git_pending \<Rightarrow> git_session \<Rightarrow> git_session" where
  "without_pending p s = disarm (request_timer p) (s\<lparr>gs_pending := AList.delete (gp_requestId p) (gs_pending s)\<rparr>)"

lemma without_pending_ok:
  assumes "session_ok s" "map_of (gs_pending s) i = Some p"
  shows "session_ok (without_pending p s)" "mset (owed s) = add_mset (gp_ticket p) (mset (owed (without_pending p s)))"
    "gp_requestId p = i" "map fst (gs_pending (without_pending p s)) = filter (\<lambda>k. k \<noteq> i) (map fst (gs_pending s))"
proof -
  have ok: "okeys (gs_pending s)" "list_all (\<lambda>(k, p). k = gp_requestId p) (gs_pending s)" "distinct (owed s)" "timers_match s"
    using assms(1) by (simp_all add: session_ok_def)
  have i: "gp_requestId p = i" using ok(2) map_of_SomeD [OF assms(2)] by (auto simp: list_all_iff)
  then show "gp_requestId p = i" .
  note del = pending_delete [OF ok(1) assms(2)]
  show owed: "mset (owed s) = add_mset (gp_ticket p) (mset (owed (without_pending p s)))"
    using del(1) [of gp_ticket] i by (simp add: owed_def without_pending_def)
  have keys: "map fst (AList.delete i m) = filter (\<lambda>k. k \<noteq> i) (map fst m)" for m :: "(string, git_pending) omap"
    by (induction m) (auto simp: AList.delete_eq)
  then show "map fst (gs_pending (without_pending p s)) = filter (\<lambda>k. k \<noteq> i) (map fst (gs_pending s))"
    by (simp add: without_pending_def i)
  have dist: "distinct (owed (without_pending p s))"
    using ok(3) owed by (metis distinct.simps(2) mset.simps(2) mset_eq_imp_distinct_iff)
  have names: "list_all (\<lambda>(k, p). k = gp_requestId p) (AList.delete i (gs_pending s))"
    using ok(2) by (auto simp: list_all_iff AList.delete_eq)
  define D where "D = set (map snd (AList.delete i (gs_pending s)))"
  define W where "W = WaiterTimer ` set (gs_pollWaiters s)"
  have "gp_requestId q \<noteq> i" if "q \<in> D" for q
    using that ok(2) by (auto simp: list_all_iff AList.delete_eq D_def)
  then have "request_timer p \<notin> request_timer ` D" 
  proof (intro notI, elim imageE)
    fix q assume "request_timer p = request_timer q" "q \<in> D"
    then have "gp_requestId q = i" using i by simp
    with \<open>\<And>q. q \<in> D \<Longrightarrow> gp_requestId q \<noteq> i\<close> \<open>q \<in> D\<close> show False by blast
  qed
  then have out: "request_timer p \<notin> request_timer ` D \<union> W" by (auto simp: W_def)
  have after: "waiting_timers (without_pending p s) = request_timer ` D \<union> W"
    by (simp add: waiting_timers_def without_pending_def i D_def W_def)
  have before: "waiting_timers s = insert (request_timer p) (request_timer ` D \<union> W)"
    unfolding waiting_timers_def del(2) W_def D_def by (simp only: image_insert Un_insert_left)
  have waiting: "waiting_timers (without_pending p s) = waiting_timers s - {request_timer p}"
    unfolding after before using out by simp
  have "armed s - {SessionTimer} = waiting_timers s" "gs_active s \<longleftrightarrow> SessionTimer \<in> armed s"
    using ok(4) by (simp_all add: timers_match_def)
  moreover have "armed (without_pending p s) = armed s - {request_timer p}" "gs_active (without_pending p s) = gs_active s"
    by (simp_all add: without_pending_def)
  ultimately have "timers_match (without_pending p s)"
    unfolding timers_match_def waiting by auto
  then show "session_ok (without_pending p s)"
    using ok(1) dist names by (simp add: session_ok_def okeys_delete without_pending_def i)
qed

lemma drain_result:
  assumes "session_ok s"
  shows "session_ok (fst (drainPendingToPollWaiters s))"
    "conserves s [] (fst (drainPendingToPollWaiters s)) (snd (drainPendingToPollWaiters s)) []"
    "gs_pending (fst (drainPendingToPollWaiters s)) = gs_pending s"
proof -
  have drop: "session_ok (disarm (WaiterTimer w) (s\<lparr>gs_pollWaiters := ws\<rparr>))" if "gs_pollWaiters s = w # ws" for w ws
  proof -
    have "w \<notin> set ws" using assms that by (auto simp: session_ok_def owed_def)
    let ?s' = "disarm (WaiterTimer w) (s\<lparr>gs_pollWaiters := ws\<rparr>)"
    have "WaiterTimer w \<notin> request_timer ` A \<union> WaiterTimer ` set ws" for A using \<open>w \<notin> set ws\<close> by blast
    moreover have "waiting_timers s = insert (WaiterTimer w) (waiting_timers ?s')"
      using that by (simp add: waiting_timers_def)
    ultimately have waiting: "waiting_timers ?s' = waiting_timers s - {WaiterTimer w}"
      by (simp add: waiting_timers_def)
    have "armed s - {SessionTimer} = waiting_timers s" "gs_active s \<longleftrightarrow> SessionTimer \<in> armed s"
      using assms by (simp_all add: session_ok_def timers_match_def)
    then have "timers_match ?s'" unfolding timers_match_def waiting by auto
    moreover have "distinct (owed ?s')" using assms that by (simp add: session_ok_def owed_def)
    ultimately show ?thesis using assms by (simp add: session_ok_def)
  qed
  consider "drainPendingToPollWaiters s = (s, [])"
    | w ws where "gs_pollWaiters s = w # ws" "drainPendingToPollWaiters s =
        (disarm (WaiterTimer w) (s\<lparr>gs_pollWaiters := ws\<rparr>), [Settle w (formatPollResponse (pending_list s))])"
    by (cases "gs_pollWaiters s"; cases "gs_pending s = []") (auto simp: drainPendingToPollWaiters_def)
  then show "session_ok (fst (drainPendingToPollWaiters s))"
    "conserves s [] (fst (drainPendingToPollWaiters s)) (snd (drainPendingToPollWaiters s)) []"
    "gs_pending (fst (drainPendingToPollWaiters s)) = gs_pending s"
    by (cases; simp add: drop assms conserves_def owed_def)+
qed

lemma conserves_trans:
  "conserves s new s1 effs lost \<Longrightarrow> conserves s1 [] s2 effs' lost' \<Longrightarrow> conserves s new s2 (effs @ effs') (lost @ lost')"
  by (simp add: conserves_def ac_simps)

lemma enqueue_result:
  assumes "session_ok s" "i \<notin> set (map fst (gs_pending s))" "ticket \<notin> set (owed s)"
  shows "session_ok (fst (git_enqueue ge ticket r gitPath i s))"
    "conserves s [ticket] (fst (git_enqueue ge ticket r gitPath i s)) (snd (git_enqueue ge ticket r gitPath i s)) []"
    "map fst (gs_pending (fst (git_enqueue ge ticket r gitPath i s))) = map fst (gs_pending s) @ [i]"
proof -
  define p where "p = git_pending_of ge ticket r gitPath i"
  define s1 where "s1 = arm (request_timer p) (ge_now ge + REQUEST_TIMEOUT_MS) s\<lparr>gs_pending := gs_pending s @ [(i, p)]\<rparr>"
  have p: "gp_requestId p = i" "gp_ticket p = ticket" by (simp_all add: p_def git_pending_of_def Let_def)
  have eq: "git_enqueue ge ticket r gitPath i s = drainPendingToPollWaiters s1"
    using assms(2) by (simp add: git_enqueue_def Let_def pending_update_new s1_def p arm_def flip: p_def)
  have parts: "gs_pending s1 = gs_pending s @ [(i, p)]" "gs_pollWaiters s1 = gs_pollWaiters s" "gs_active s1 = gs_active s"
    "armed s1 = insert (request_timer p) (armed s)"
    by (auto simp: s1_def arm_def)
  have owed: "mset (owed s1) = add_mset ticket (mset (owed s))"
    by (simp add: owed_def parts p)
  have "waiting_timers s1 = insert (request_timer p) (waiting_timers s)"
    by (simp add: waiting_timers_def parts)
  then have "timers_match s1"
    using assms(1) by (auto simp: timers_match_def parts session_ok_def)
  moreover have "distinct (owed s1)"
    using owed assms by (metis distinct.simps(2) mset.simps(2) mset_eq_imp_distinct_iff session_ok_def)
  ultimately have ok: "session_ok s1"
    using assms(1,2) p by (auto simp: session_ok_def parts okeys_def)
  show "session_ok (fst (git_enqueue ge ticket r gitPath i s))"
    "conserves s [ticket] (fst (git_enqueue ge ticket r gitPath i s)) (snd (git_enqueue ge ticket r gitPath i s)) []"
    "map fst (gs_pending (fst (git_enqueue ge ticket r gitPath i s))) = map fst (gs_pending s) @ [i]"
    using drain_result [OF ok] owed by (simp_all add: eq parts conserves_def)
qed

definition rejects :: "git_effect list \<Rightarrow> nat" where
  "rejects effs = length (filter (\<lambda>e. case e of Reject _ \<Rightarrow> True | _ \<Rightarrow> False) effs)"

lemma rejects_simps [simp]:
  "rejects [] = 0" "rejects (xs @ ys) = rejects xs + rejects ys" "rejects (Settle t r # es) = rejects es"
  "rejects (Reject t # es) = Suc (rejects es)" "rejects (Emit ev # es) = rejects es"
  by (simp_all add: rejects_def)

lemma rejects_settles [simp]: "rejects (map (\<lambda>x. Settle (f x) (g x)) xs) = 0"
  by (induction xs) simp_all

lemma rejects_emit [simp]: "rejects (emitIncomingRefEvents go ge refs) = 0"
proof -
  have "rejects (map (\<lambda>(i, ref). Emit (f i ref)) xs) = 0" for f and xs :: "(nat \<times> string) list"
    by (induction xs) auto
  then show ?thesis by (auto simp: emitIncomingRefEvents_def)
qed

lemma answer_client_events:
  "settled (fst (answer_client go ge ha p)) = [] \<and> rejects (fst (answer_client go ge ha p)) = 0"
  by (simp add: answer_client_def Let_def del: concat_eq_Nil_conv split: option.split)

lemma respond_cases:
  assumes "session_ok s"
  obtains (answered) resp where "respond_body go ge ticket r s = (s, [Settle ticket resp])"
  | (thrown) i p evs where "map_of (gs_pending s) i = Some p" "settled evs = [] \<and> rejects evs = 0"
      "respond_body go ge ticket r s = (without_pending p s, evs @ [Reject ticket])"
  | (given) i p evs resp ok where "map_of (gs_pending s) i = Some p" "settled evs = [] \<and> rejects evs = 0"
      "respond_body go ge ticket r s = (without_pending p s, evs @ [Settle (gp_ticket p) resp, Settle ticket ok])"
proof (cases "ge_parse ge (req_text r)")
  case None
  then show ?thesis by (intro answered) (simp add: respond_body_def)
next
  case (Some j)
  show ?thesis
  proof (cases "\<exists>kvs. j = JObj kvs")
    case False
    then show ?thesis using Some by (intro answered) (auto simp: respond_body_def split: json.split)
  next
    case True
    then obtain kvs where j: "j = JObj kvs" by blast
    define ha where "ha = parse_host_answer (JObj kvs)"
    show ?thesis
    proof (cases "ha_requestId ha = [] \<or> map_of (gs_pending s) (ha_requestId ha) = None")
      case True
      then show ?thesis
        using Some j
        by (cases "ha_requestId ha = []"; intro answered) (simp_all add: respond_body_def Let_def flip: ha_def)
    next
      case False
      then obtain p where p: "map_of (gs_pending s) (ha_requestId ha) = Some p" "ha_requestId ha \<noteq> []" by auto
      have id: "gp_requestId p = ha_requestId ha" by (rule without_pending_ok(3) [OF assms p(1)])
      define res where "res = answer_client go ge ha p"
      have eq: "respond_body go ge ticket r s = (without_pending p s, fst res @ (case snd res of
          None \<Rightarrow> [Reject ticket]
        | Some resp \<Rightarrow> [Settle (gp_ticket p) resp, Settle ticket (response_json (JObj [(''ok'', JBool True)]) 200)]))"
        using Some j p id by (simp add: respond_body_def Let_def without_pending_def flip: ha_def res_def)
      have evs: "settled (fst res) = [] \<and> rejects (fst res) = 0" unfolding res_def by (rule answer_client_events)
      show ?thesis
        by (cases "snd res") (use eq thrown [OF p(1) evs] given [OF p(1) evs] in simp_all)
    qed
  qed
qed

lemma respond_result:
  fixes go ge ticket r s
  assumes "session_ok s"
  defines "s' \<equiv> fst (respond_body go ge ticket r s)" and "effs \<equiv> snd (respond_body go ge ticket r s)"
  shows "session_ok s' \<and> set (map fst (gs_pending s')) \<subseteq> set (map fst (gs_pending s)) \<and>
    (\<exists>lost. conserves s [ticket] s' effs lost \<and> length lost = rejects effs)"
  using assms(1)
proof (cases rule: respond_cases [where go = go and ge = ge and ticket = ticket and r = r])
  case (answered resp)
  then have "conserves s [ticket] s' effs []" "rejects effs = 0" by (simp_all add: conserves_def s'_def effs_def)
  then show ?thesis using answered assms(1) by (auto simp: s'_def)
next
  case (thrown i p evs)
  note wp = without_pending_ok [OF assms(1) thrown(1)]
  have "conserves s [ticket] s' effs [gp_ticket p]" "rejects effs = 1"
    using thrown(2,3) wp(2) by (simp_all add: conserves_def s'_def effs_def del: concat_eq_Nil_conv)
  then show ?thesis
    using thrown(3) wp by (intro conjI exI [of _ "[gp_ticket p]"]) (auto simp: s'_def simp flip: set_map)
next
  case (given i p evs resp ok)
  note wp = without_pending_ok [OF assms(1) given(1)]
  have "conserves s [ticket] s' effs []" "rejects effs = 0"
    using given(2,3) wp(2) by (simp_all add: conserves_def s'_def effs_def del: concat_eq_Nil_conv)
  then show ?thesis
    using given(3) wp by (intro conjI exI [of _ "[]"]) (auto simp: s'_def simp flip: set_map)
qed

lemma register_result:
  assumes "session_ok s"
  shows "session_ok (fst (handleRegister go ge s))" "owed (fst (handleRegister go ge s)) = owed s"
    "gs_pending (fst (handleRegister go ge s)) = gs_pending s"
  using assms
  by (auto simp: handleRegister_def Let_def session_ok_def timers_match_def owed_def waiting_timers_def)

lemma poll_result:
  assumes "session_ok s" "ticket \<notin> set (owed s)"
  shows "session_ok (fst (handlePoll ge ticket r s))" "gs_pending (fst (handlePoll ge ticket r s)) = gs_pending s"
    "conserves s [ticket] (fst (handlePoll ge ticket r s)) (snd (handlePoll ge ticket r s)) []"
    "rejects (snd (handlePoll ge ticket r s)) = 0"
proof -
  define s1 where "s1 = arm (WaiterTimer ticket) (ge_now ge + poll_timeout r) (s\<lparr>gs_pollWaiters := gs_pollWaiters s @ [ticket]\<rparr>)"
  have s1: "gs_pending s1 = gs_pending s" "owed s1 = owed s @ [ticket]" "gs_active s1 = gs_active s"
    "armed s1 = insert (WaiterTimer ticket) (armed s)" "waiting_timers s1 = insert (WaiterTimer ticket) (waiting_timers s)"
    by (auto simp: s1_def owed_def waiting_timers_def arm_def)
  have "timers_match s1" using assms(1) unfolding timers_match_def s1 by (auto simp: session_ok_def timers_match_def)
  then have "session_ok s1" using assms by (simp add: session_ok_def s1)
  moreover have "(\<exists>resp. handlePoll ge ticket r s = (s, [Settle ticket resp])) \<or> handlePoll ge ticket r s = (s1, [])"
    by (auto simp: handlePoll_def s1_def split: option.split)
  ultimately show "session_ok (fst (handlePoll ge ticket r s))" "gs_pending (fst (handlePoll ge ticket r s)) = gs_pending s"
    "conserves s [ticket] (fst (handlePoll ge ticket r s)) (snd (handlePoll ge ticket r s)) []"
    "rejects (snd (handlePoll ge ticket r s)) = 0"
    using assms(1) s1 by (auto simp: conserves_def)
qed

lemma drain_rejects: "rejects (snd (drainPendingToPollWaiters s)) = 0"
  by (simp add: drainPendingToPollWaiters_def split: list.split)

lemma enqueue_rejects: "rejects (snd (git_enqueue ge t r g i s)) = 0"
  by (simp add: git_enqueue_def Let_def drain_rejects)

lemma fetch_outcome:
  "git_fetch go ge ticket r s = (fst (handleRegister go ge s), [Settle ticket (snd (handleRegister go ge s))], []) \<or>
   git_fetch go ge ticket r s = (fst (handlePoll ge ticket r s), snd (handlePoll ge ticket r s), []) \<or>
   git_fetch go ge ticket r s = (fst (git_enqueue ge ticket r (drop 4 (req_path r)) (ge_uuid ge) s),
     snd (git_enqueue ge ticket r (drop 4 (req_path r)) (ge_uuid ge) s), []) \<or>
   (\<exists>a. git_fetch go ge ticket r s = (s, [], [a]) \<and> aw_ticket a = ticket \<and> await_ids [a] \<in> {[], [ge_uuid ge]}) \<or>
   (\<exists>resp. git_fetch go ge ticket r s = (s, [Settle ticket resp], []))"
proof -
  have enq: "handleGitRequest ge ticket r g s = (fst (git_enqueue ge ticket r g (ge_uuid ge) s), snd (git_enqueue ge ticket r g (ge_uuid ge) s), []) \<or>
      (\<exists>a. handleGitRequest ge ticket r g s = (s, [], [a]) \<and> aw_ticket a = ticket \<and> await_ids [a] \<in> {[], [ge_uuid ge]}) \<or>
      (\<exists>resp. handleGitRequest ge ticket r g s = (s, [Settle ticket resp], []))" for g
    by (simp add: handleGitRequest_def Let_def await_ids_def)
  have resp: "(\<exists>a. handleRespond ticket r s = (s, [], [a]) \<and> aw_ticket a = ticket \<and> await_ids [a] \<in> {[], [ge_uuid ge]}) \<or>
      (\<exists>resp. handleRespond ticket r s = (s, [Settle ticket resp], []))"
    by (cases "validateToken s r") (simp_all add: handleRespond_def await_ids_def)
  consider "req_path r = ''/register''" "req_method r = ''POST''" | "req_path r = ''/info''" "req_method r = ''GET''"
    | "req_path r = ''/poll''" "req_method r = ''GET''" | "git_fetch go ge ticket r s = handleRespond ticket r s"
    | "git_fetch go ge ticket r s = handleGitRequest ge ticket r (drop 4 (req_path r)) s"
    | "git_fetch go ge ticket r s = (s, [Settle ticket (git_error ''not found'' 404)], [])"
    unfolding git_fetch_def Let_def by argo
  then show ?thesis
    using enq resp by cases (simp_all add: git_fetch_def Let_def)
qed

lemma fetch_result:
  fixes go ge ticket r s
  assumes "session_ok s" "ticket \<notin> set (owed s)" "ge_uuid ge \<notin> set (map fst (gs_pending s))"
  defines "s' \<equiv> fst (git_fetch go ge ticket r s)" and "effs \<equiv> fst (snd (git_fetch go ge ticket r s))"
    and "aw \<equiv> snd (snd (git_fetch go ge ticket r s))"
  shows "session_ok s'" "mset (owed s @ [ticket]) = mset (owed s' @ map aw_ticket aw @ settled effs)" "rejects effs = 0"
    "map fst (gs_pending s') @ await_ids aw \<in> {map fst (gs_pending s), map fst (gs_pending s) @ [ge_uuid ge]}"
proof -
  note enq = enqueue_result [OF assms(1,3,2)]
  consider (reg) "git_fetch go ge ticket r s = (fst (handleRegister go ge s), [Settle ticket (snd (handleRegister go ge s))], [])"
    | (poll) "git_fetch go ge ticket r s = (fst (handlePoll ge ticket r s), snd (handlePoll ge ticket r s), [])"
    | (enq) "git_fetch go ge ticket r s = (fst (git_enqueue ge ticket r (drop 4 (req_path r)) (ge_uuid ge) s),
        snd (git_enqueue ge ticket r (drop 4 (req_path r)) (ge_uuid ge) s), [])"
    | (wait) a where "git_fetch go ge ticket r s = (s, [], [a])" "aw_ticket a = ticket" "await_ids [a] \<in> {[], [ge_uuid ge]}"
    | (now) resp where "git_fetch go ge ticket r s = (s, [Settle ticket resp], [])"
    using fetch_outcome [of go ge ticket r s] by blast
  note cases = this
  have "session_ok s' \<and> mset (owed s @ [ticket]) = mset (owed s' @ map aw_ticket aw @ settled effs) \<and> rejects effs = 0 \<and>
    map fst (gs_pending s') @ await_ids aw \<in> {map fst (gs_pending s), map fst (gs_pending s) @ [ge_uuid ge]}"
    using cases
  proof cases
    case reg
    then show ?thesis using register_result [OF assms(1)] by (simp add: s'_def effs_def aw_def await_ids_def)
  next
    case poll
    then show ?thesis using poll_result [OF assms(1,2)] by (simp add: s'_def effs_def aw_def await_ids_def conserves_def)
  next
    case enq
    then show ?thesis
      using enq enqueue_result [OF assms(1,3,2)] enqueue_rejects by (simp add: s'_def effs_def aw_def await_ids_def conserves_def)
  next
    case wait
    then show ?thesis using assms(1) by (auto simp: s'_def effs_def aw_def)
  next
    case now
    then show ?thesis using assms(1) by (simp add: s'_def effs_def aw_def await_ids_def)
  qed
  then show "session_ok s'" "mset (owed s @ [ticket]) = mset (owed s' @ map aw_ticket aw @ settled effs)" "rejects effs = 0"
    "map fst (gs_pending s') @ await_ids aw \<in> {map fst (gs_pending s), map fst (gs_pending s) @ [ge_uuid ge]}"
    by blast+
qed

lemma armed_cases:
  assumes "session_ok s" "t \<in> armed s"
  obtains (session) "t = SessionTimer"
  | (request) p where "t = request_timer p" "map_of (gs_pending s) (gp_requestId p) = Some p"
  | (waiter) w where "t = WaiterTimer w" "w \<in> set (gs_pollWaiters s)"
proof (cases "t = SessionTimer")
  case False
  then have "t \<in> waiting_timers s" using assms by (auto simp: session_ok_def timers_match_def)
  moreover have "map_of (gs_pending s) (gp_requestId p) = Some p" if "p \<in> set (pending_list s)" for p
    using that assms(1) by (auto simp: session_ok_def okeys_def list_all_iff intro!: map_of_is_SomeI)
  ultimately show ?thesis using request waiter by (auto simp: waiting_timers_def)
qed (rule session)

lemma fire_result:
  assumes "session_ok s" "t \<in> armed s"
  shows "session_ok (fst (fire t s))" "conserves s [] (fst (fire t s)) (snd (fire t s)) []" "rejects (snd (fire t s)) = 0"
    "\<exists>P. map fst (gs_pending (fst (fire t s))) = filter P (map fst (gs_pending s))"
proof -
  have "session_ok (fst (fire t s)) \<and> conserves s [] (fst (fire t s)) (snd (fire t s)) [] \<and> rejects (snd (fire t s)) = 0 \<and>
      (\<exists>P. map fst (gs_pending (fst (fire t s))) = filter P (map fst (gs_pending s)))"
    using assms
  proof (cases rule: armed_cases)
    case session
    have eq: "fire t s = cleanup s"
      by (simp add: session fire_def cleanup_def Let_def disarm_def)
    have "rejects (snd (cleanup s)) = 0" by (simp add: cleanup_def Let_def del: map_map)
    then show ?thesis
      using cleanup_result [OF assms(1)] unfolding eq by (auto intro: exI [of _ "\<lambda>_. False"])
  next
    case (request p)
    have eq: "fire t s = (without_pending p s, [Settle (gp_ticket p) (git_error ''request timeout'' 504)])"
      by (simp add: request(1) fire_def without_pending_def disarm_def Let_def)
    show ?thesis
      using without_pending_ok [OF assms(1) request(2)] unfolding eq
      by (auto simp: conserves_def intro: exI [of _ "\<lambda>k. k \<noteq> gp_requestId p"])
  next
    case (waiter w)
    define s1 where "s1 = disarm t s\<lparr>gs_pollWaiters := remove1 w (gs_pollWaiters s)\<rparr>"
    have eq: "fire t s = (s1, [Settle w (formatPollResponse [])])"
      by (simp add: waiter(1) fire_def s1_def disarm_def Let_def)
    have parts: "gs_pending s1 = gs_pending s" "gs_pollWaiters s1 = remove1 w (gs_pollWaiters s)" "gs_active s1 = gs_active s"
      "armed s1 = armed s - {WaiterTimer w}"
      by (auto simp: s1_def waiter(1) disarm_def)
    have dist: "distinct (owed s)" "distinct (gs_pollWaiters s)" using assms(1) by (auto simp: session_ok_def owed_def)
    have owed: "mset (owed s) = add_mset w (mset (owed s1))"
      using waiter(2) by (simp add: owed_def parts)
    have "waiting_timers s1 = waiting_timers s - {WaiterTimer w}"
      using dist(2) by (auto simp: waiting_timers_def parts)
    then have "timers_match s1"
      using assms(1) by (auto simp: timers_match_def parts session_ok_def)
    moreover have "distinct (owed s1)"
      using owed dist(1) by (metis distinct.simps(2) mset.simps(2) mset_eq_imp_distinct_iff)
    ultimately have "session_ok s1" using assms(1) by (simp add: session_ok_def parts)
    then show ?thesis
      using owed unfolding eq by (auto simp: conserves_def parts intro: exI [of _ "\<lambda>_. True"])
  qed
  then show "session_ok (fst (fire t s))" "conserves s [] (fst (fire t s)) (snd (fire t s)) []" "rejects (snd (fire t s)) = 0"
    "\<exists>P. map fst (gs_pending (fst (fire t s))) = filter P (map fst (gs_pending s))"
    by blast+
qed

section \<open>Steps\<close>

lemma held_mset: "mset (held c) = mset (owed (gr_session c)) + mset (map aw_ticket (gr_awaiting c))"
  by (simp add: held_def)

text \<open>A step keeps the invariant and accounts for every ticket.\<close>

definition accounts :: "git_conf \<Rightarrow> nat list \<Rightarrow> git_conf \<Rightarrow> git_effect list \<Rightarrow> bool" where
  "accounts c new c' effs \<longleftrightarrow>
     (\<exists>lost. mset (held c @ new) = mset (held c' @ settled effs @ lost) \<and> length lost = rejects effs)"

lemma run_okI:
  assumes "session_ok (gr_session c')" "accounts c new c' effs" "distinct (held c @ new)" "distinct (used_ids c')"
  shows "run_ok c'"
proof -
  from assms(2) obtain lost where "mset (held c @ new) = mset (held c' @ settled effs @ lost)" by (auto simp: accounts_def)
  then have "distinct (held c' @ settled effs @ lost)" using assms(3) by (metis mset_eq_imp_distinct_iff)
  then show ?thesis using assms by (simp add: run_ok_def)
qed

lemma await_ids_append [simp]: "await_ids (xs @ ys) = await_ids xs @ await_ids ys"
  by (simp add: await_ids_def)

lemma await_ids_Nil [simp]: "await_ids [] = []"
  by (simp add: await_ids_def)

lemma resume_result:
  fixes go ge a s
  assumes "session_ok s" "aw_ticket a \<notin> set (owed s)" "set (await_ids [a]) \<inter> set (map fst (gs_pending s)) = {}"
  defines "s' \<equiv> fst (resume go ge a s)" and "effs \<equiv> snd (resume go ge a s)"
  shows "session_ok s'" "\<exists>lost. conserves s [aw_ticket a] s' effs lost \<and> length lost = rejects effs"
    "set (map fst (gs_pending s')) \<subseteq> set (await_ids [a]) \<union> set (map fst (gs_pending s))"
proof -
  have "session_ok s' \<and> (\<exists>lost. conserves s [aw_ticket a] s' effs lost \<and> length lost = rejects effs) \<and>
    set (map fst (gs_pending s')) \<subseteq> set (await_ids [a]) \<union> set (map fst (gs_pending s))"
  proof (cases a)
    case (AwaitGit t r g i)
    then have "i \<notin> set (map fst (gs_pending s))" using assms(3) by (simp add: await_ids_def)
    from enqueue_result [OF assms(1) this, of t] assms(2) AwaitGit
    have "session_ok s'" "conserves s [t] s' effs []" "map fst (gs_pending s') = map fst (gs_pending s) @ [i]" "rejects effs = 0"
      by (simp_all add: s'_def effs_def resume_def enqueue_rejects)
    then show ?thesis using AwaitGit by (auto simp: await_ids_def simp flip: set_map)
  next
    case (AwaitRespond t r)
    then show ?thesis
      using respond_result [OF assms(1), of go ge t r] by (auto simp: s'_def effs_def resume_def)
  qed
  then show "session_ok s'" "\<exists>lost. conserves s [aw_ticket a] s' effs lost \<and> length lost = rejects effs"
    "set (map fst (gs_pending s')) \<subseteq> set (await_ids [a]) \<union> set (map fst (gs_pending s))"
    by blast+
qed

lemma step_result:
  assumes "run_ok c" "fresh_event c e" "git_step go c e = (c', effs)"
  shows "run_ok c'" "accounts c (called [e]) c' effs"
proof -
  let ?s = "gr_session c" and ?as = "gr_awaiting c"
  have ok: "session_ok ?s" "distinct (held c)" "distinct (used_ids c)"
    using assms(1) by (simp_all add: run_ok_def)
  have "run_ok c' \<and> accounts c (called [e]) c' effs"
  proof (cases e)
    case (Call t ge r)
    have fresh: "t \<notin> set (held c)" "ge_uuid ge \<notin> set (used_ids c)"
      using assms(2) Call by (simp_all add: fresh_event_def)
    then have "t \<notin> set (owed ?s)" "ge_uuid ge \<notin> set (map fst (gs_pending ?s))"
      by (auto simp: held_def used_ids_def)
    note res = fetch_result [OF ok(1) this, of go r]
    have c': "c' = \<lparr>gr_session = fst (git_fetch go ge t r ?s), gr_awaiting = ?as @ snd (snd (git_fetch go ge t r ?s))\<rparr>"
      "effs = fst (snd (git_fetch go ge t r ?s))"
      using assms(3) Call by (auto simp: git_step_def Let_def)
    have acc: "accounts c [t] c' effs"
      using res(2,3) unfolding accounts_def by (intro exI [of _ "[]"]) (simp add: held_mset c')
    have dist: "distinct (held c @ [t])" using ok(2) fresh(1) by simp
    define ks where
      "ks = map fst (gs_pending (fst (git_fetch go ge t r ?s))) @ await_ids (snd (snd (git_fetch go ge t r ?s)))"
    have "mset (used_ids c') = mset ks + mset (await_ids ?as)" by (simp add: used_ids_def c' ks_def)
    moreover have "ks = map fst (gs_pending ?s) \<or> ks = map fst (gs_pending ?s) @ [ge_uuid ge]"
      using res(4) unfolding ks_def by blast
    ultimately have "mset (used_ids c') = mset (used_ids c) \<or> mset (used_ids c') = mset (ge_uuid ge # used_ids c)"
      by (elim disjE) (simp_all add: used_ids_def)
    then have "distinct (used_ids c')" using ok(3) fresh(2) by (metis distinct.simps(2) mset_eq_imp_distinct_iff)
    then show ?thesis using res(1) run_okI [of c' c "[t]" effs] acc dist by (simp add: Call called_def c')
  next
    case (Resume i ge)
    show ?thesis
    proof (cases "i < length ?as")
      case True
      define a rest where "a = ?as ! i" and "rest = take i ?as @ drop (Suc i) ?as"
      have c': "c' = \<lparr>gr_session = fst (resume go ge a ?s), gr_awaiting = rest\<rparr>" "effs = snd (resume go ge a ?s)"
        using assms(3) Resume True by (auto simp: git_step_def Let_def a_def rest_def)
      have as: "?as = take i ?as @ a # drop (Suc i) ?as" unfolding a_def using True by (rule id_take_nth_drop)
      have tick: "mset (map aw_ticket ?as) = add_mset (aw_ticket a) (mset (map aw_ticket rest))"
        by (subst as) (simp add: rest_def)
      have ids: "mset (await_ids ?as) = mset (await_ids [a]) + mset (await_ids rest)"
        by (subst as) (simp add: rest_def await_ids_def)
      have used: "mset (used_ids c) = mset (map fst (gs_pending ?s)) + mset (await_ids [a]) + mset (await_ids rest)"
        by (simp add: used_ids_def ids)
      have dis: "distinct (map fst (gs_pending ?s) @ await_ids [a] @ await_ids rest)"
        using ok(3) used mset_eq_imp_distinct_iff [of "used_ids c" "map fst (gs_pending ?s) @ await_ids [a] @ await_ids rest"]
        by (simp add: add.assoc)
      have disj: "set (await_ids [a]) \<inter> set (map fst (gs_pending ?s)) = {}"
        using dis unfolding distinct_append set_append by blast
      have nt: "aw_ticket a \<notin> set (owed ?s)"
        using ok(2) arg_cong [OF tick, of set_mset] by (auto simp: held_def)
      have res: "session_ok (gr_session c')" "\<exists>lost. conserves ?s [aw_ticket a] (gr_session c') effs lost \<and> length lost = rejects effs"
        "set (map fst (gs_pending (gr_session c'))) \<subseteq> set (await_ids [a]) \<union> set (map fst (gs_pending ?s))"
        using resume_result [OF ok(1) nt disj, of go ge] by (simp_all only: c' git_conf.select_convs)
      have "accounts c [] c' effs"
        using res(2) tick unfolding accounts_def conserves_def by (auto simp: held_mset c')
      moreover have "distinct (used_ids c')"
        using res(1,3) dis by (auto simp: used_ids_def c' session_ok_def okeys_def)
      ultimately show ?thesis using run_okI [of c' c "[]" effs] res(1) ok(2) by (simp add: Resume called_def)
    qed (use assms Resume ok in \<open>auto simp: git_step_def accounts_def called_def\<close>)
  next
    case (Fire t)
    show ?thesis
    proof (cases "t \<in> armed ?s")
      case True
      note res = fire_result [OF ok(1) True]
      have c': "c' = c\<lparr>gr_session := fst (fire t ?s)\<rparr>" "effs = snd (fire t ?s)"
        using assms(3) Fire True by (auto simp: git_step_def Let_def)
      have "accounts c [] c' effs"
        using res(2,3) unfolding accounts_def conserves_def by (intro exI [of _ "[]"]) (simp add: held_mset c')
      moreover have "distinct (used_ids c')"
        using res(4) ok(3) by (auto simp: used_ids_def c' simp flip: set_map)
      ultimately show ?thesis using run_okI [of c' c "[]" effs] res(1) ok(2) by (simp add: Fire called_def c')
    qed (use assms Fire ok in \<open>auto simp: git_step_def accounts_def called_def\<close>)
  next
    case Close
    note res = cleanup_result [OF ok(1)]
    have c': "c' = c\<lparr>gr_session := fst (cleanup ?s)\<rparr>" "effs = snd (cleanup ?s)"
      using assms(3) Close by (auto simp: git_step_def Let_def)
    have "rejects effs = 0" by (simp add: c' cleanup_def Let_def del: map_map)
    then have "accounts c [] c' effs"
      using res(2) unfolding accounts_def conserves_def by (intro exI [of _ "[]"]) (simp add: held_mset c')
    moreover have "distinct (used_ids c')" using res(3) ok(3) by (simp add: used_ids_def c')
    ultimately show ?thesis using run_okI [of c' c "[]" effs] res(1) ok(2) by (simp add: Close called_def c')
  qed
  then show "run_ok c'" "accounts c (called [e]) c' effs" by blast+
qed

lemma run_result:
  "run_ok c \<Longrightarrow> fresh_run go c es \<Longrightarrow> git_run go c es = (c', effs) \<Longrightarrow> run_ok c' \<and> accounts c (called es) c' effs"
proof (induction es arbitrary: c effs)
  case Nil
  then show ?case by (auto simp: accounts_def called_def)
next
  case (Cons e es)
  obtain c1 effs1 where one: "git_step go c e = (c1, effs1)" by fastforce
  obtain effs2 where rest: "git_run go c1 es = (c', effs2)" "effs = effs1 @ effs2"
    using Cons.prems(3) one by (auto simp: Let_def prod_eq_iff)
  have step: "run_ok c1" "accounts c (called [e]) c1 effs1"
    using step_result [OF Cons.prems(1) _ one] Cons.prems(2) by auto
  have more: "run_ok c'" "accounts c1 (called es) c' effs2"
    using Cons.IH [OF step(1) _ rest(1)] Cons.prems(2) one by auto
  have "mset (called (e # es)) = mset (called [e]) + mset (called es)" by (simp add: called_def)
  moreover from step(2) obtain l1 where "mset (held c @ called [e]) = mset (held c1 @ settled effs1 @ l1)" "length l1 = rejects effs1"
    by (auto simp: accounts_def)
  moreover from more(2) obtain l2 where "mset (held c1 @ called es) = mset (held c' @ settled effs2 @ l2)" "length l2 = rejects effs2"
    by (auto simp: accounts_def)
  ultimately have "mset (held c @ called (e # es)) = mset (held c' @ settled effs @ (l1 @ l2))" "length (l1 @ l2) = rejects effs"
    by (simp_all add: rest(2) ac_simps)
  then show ?case using more(1) unfolding accounts_def by blast
qed

definition start_conf :: git_conf where
  "start_conf = \<lparr>gr_session = new_session, gr_awaiting = []\<rparr>"

lemma start_conf_ok: "run_ok start_conf"
  by (simp add: run_ok_def start_conf_def session_ok_def new_session_def held_def owed_def used_ids_def okeys_def
      timers_match_def waiting_timers_def)

section \<open>Properties\<close>

text \<open>
  Claim C30. A git session settles every promise exactly once: whatever calls, resumptions, timers and
  closings follow each other, the calls made so far are those still waiting, those settled, and one
  lost client for every answer of the host that made \<open>respond\<close> throw.
\<close>

theorem git_promises_accounted_for:
  assumes "fresh_run go start_conf es" "git_run go start_conf es = (c, effs)"
  shows "\<exists>lost. mset (called es) = mset (held c) + mset (settled effs) + mset lost \<and> length lost = rejects effs"
  using run_result [OF start_conf_ok assms]
  by (auto simp: accounts_def start_conf_def held_def owed_def new_session_def ac_simps)

definition demo_options :: git_options where
  "demo_options = \<lparr>go_sessionTtlMs = None, go_onIncomingRef = True, go_eventSource = None, go_eventTarget = None, go_eventRoom = None\<rparr>"

definition demo_git_env :: "int \<Rightarrow> string \<Rightarrow> json \<Rightarrow> git_env" where
  "demo_git_env now uuid body =
     \<lparr>ge_now = now, ge_uuid = uuid, ge_event_uuid = (\<lambda>_. ''event''), ge_random = ''abc'', ge_parse = (\<lambda>_. Some body)\<rparr>"

definition demo_call :: "string \<Rightarrow> string \<Rightarrow> request" where
  "demo_call m path =
     \<lparr>req_method = m, req_path = path, req_query = [(''session_token'', ''YWJj'')], req_headers = [], req_text = []\<rparr>"

text \<open>A host registers, a client fetches refs, and the host answers with the given body.\<close>

definition demo_events :: "string \<Rightarrow> git_event list" where
  "demo_events b64 =
     [Call 0 (demo_git_env 0 ''u0'' JNull) (demo_call ''POST'' ''/register''),
      Call 1 (demo_git_env 1 ''u1'' JNull) (demo_call ''GET'' ''/git/info/refs''),
      Call 2 (demo_git_env 2 ''u2'' JNull) (demo_call ''POST'' ''/respond''),
      Resume 0 (demo_git_env 3 ''u3'' (JObj [(''request_id'', JStr ''u1''), (''body_base64'', JStr b64)]))]"

lemma demo_events_answered:
  "fresh_run demo_options start_conf (demo_events ''YWJj'') \<and>
   settled (snd (git_run demo_options start_conf (demo_events ''YWJj''))) = [0, 1, 2] \<and>
   held (fst (git_run demo_options start_conf (demo_events ''YWJj''))) = [] \<and>
   rejects (snd (git_run demo_options start_conf (demo_events ''YWJj''))) = 0"
  by code_simp

theorem git_promises_accounted_for_witness:
  "\<exists>lost. mset [0, 1, 2] = mset (held (fst (git_run demo_options start_conf (demo_events ''YWJj'')))) +
     mset (settled (snd (git_run demo_options start_conf (demo_events ''YWJj'')))) + mset lost \<and>
     length lost = rejects (snd (git_run demo_options start_conf (demo_events ''YWJj'')))"
proof -
  have "called (demo_events ''YWJj'') = [0, 1, 2]" by (simp add: called_def demo_events_def)
  moreover have "fresh_run demo_options start_conf (demo_events ''YWJj'')" using demo_events_answered by blast
  from git_promises_accounted_for [OF this surjective_pairing] have
    "\<exists>lost. mset (called (demo_events ''YWJj'')) = mset (held (fst (git_run demo_options start_conf (demo_events ''YWJj'')))) +
       mset (settled (snd (git_run demo_options start_conf (demo_events ''YWJj'')))) + mset lost \<and>
       length lost = rejects (snd (git_run demo_options start_conf (demo_events ''YWJj'')))" .
  ultimately show ?thesis by (simp only:)
qed


definition demo_waiting :: git_session where
  "demo_waiting = gr_session (fst (git_run demo_options start_conf (take 3 (demo_events []))))"


lemma fire_armed: "armed (fst (fire t s)) \<subseteq> armed s - {t}"
proof (cases t)
  case SessionTimer
  have "armed (fst (cleanup s)) = armed s - {SessionTimer} - waiting_timers s" for s
    unfolding cleanup_def Let_def disarm_all waiting_timers_def by (auto simp: disarm_def)
  then show ?thesis using SessionTimer by (auto simp: fire_def Let_def)
qed (auto simp: fire_def Let_def disarm_def)

lemma fire_all_armed:
  "armed (gr_session (fst (git_run go c (map Fire ts)))) \<subseteq> armed (gr_session c) - set ts"
proof (induction ts arbitrary: c)
  case (Cons t ts)
  have "armed (gr_session (fst (git_step go c (Fire t)))) \<subseteq> armed (gr_session c) - {t}"
    using fire_armed [of t "gr_session c"] by (auto simp: git_step_def Let_def)
  moreover have "A2 \<subseteq> A1 - S \<Longrightarrow> A1 \<subseteq> A - {t} \<Longrightarrow> A2 \<subseteq> A - insert t S" for A A1 A2 S by blast
  ultimately show ?case using Cons.IH [of "fst (git_step go c (Fire t))"] by (simp add: Let_def)
qed simp

lemma called_fires [simp]: "called (map Fire ts) = []"
  by (induction ts) (simp_all add: called_def)

lemma fresh_fires: "fresh_run go c (map Fire ts)"
  by (induction ts arbitrary: c) (simp_all add: fresh_event_def)



text \<open>
  Claim C34. Without the session token the host's endpoints give nothing away: a call of \<open>/poll\<close>, \<open>/info\<close> or
  \<open>/respond\<close> that does not present it, or comes to an inactive session, is answered at once with an
  error, leaves the session as it was and settles nobody else's promise.
\<close>

theorem session_token_guards_host:
  assumes "req_path r \<in> {''/poll'', ''/info'', ''/respond''}"
    and "\<not> gs_active s \<or> presented_session_token r \<noteq> gs_sessionToken s"
  shows "\<exists>resp. git_fetch go ge ticket r s = (s, [Settle ticket resp], []) \<and> resp_status resp \<in> {403, 404}"
proof -
  have "\<exists>resp. validateToken s r = Some resp \<and> resp_status resp \<in> {403, 404}"
    using assms(2) by (auto simp: validateToken_def git_error_def response_json_def)
  then obtain resp where denied: "validateToken s r = Some resp" "resp_status resp \<in> {403, 404}" by blast
  have "\<not> prefix ''/git/'' (req_path r)" using assms(1) by auto
  moreover have "resp_status (git_error ''not found'' 404) = 404" by (simp add: git_error_def response_json_def)
  ultimately show ?thesis
    using assms(1) denied
    by (auto simp: git_fetch_def Let_def handleInfo_def handlePoll_def handleRespond_def)
qed

theorem session_token_guards_host_witness:
  "\<exists>resp. git_fetch demo_options (demo_git_env 5 ''u5'' JNull) 7
     (demo_call ''GET'' ''/poll''\<lparr>req_query := [(''session_token'', ''guess'')]\<rparr>) demo_waiting = (demo_waiting, [Settle 7 resp], []) \<and>
     resp_status resp \<in> {403, 404}"
proof (rule session_token_guards_host)
  have "gs_sessionToken demo_waiting = ''YWJj''" by code_simp
  then show "\<not> gs_active demo_waiting \<or>
      presented_session_token (demo_call ''GET'' ''/poll''\<lparr>req_query := [(''session_token'', ''guess'')]\<rparr>) \<noteq> gs_sessionToken demo_waiting"
    by (simp add: presented_session_token_def query_get_def)
qed (simp add: demo_call_def)

lemma fire_session:
  "\<not> gs_active (fst (fire SessionTimer s))" "gs_sessionToken (fst (fire SessionTimer s)) = gs_sessionToken s"
  unfolding fire_def cleanup_def Let_def git_timer.case disarm_all by (simp_all add: disarm_def)

text \<open>
  A session outlives its lifetime: the object saves the session when it is registered and not
  when its timer closes it, so an object that is recreated after the session has expired takes it up
  again, with the old token and a full lifetime.
\<close>

theorem expired_session_revives:
  assumes "ob_storage ob \<noteq> None" "req_path r = ''/register''" "req_method r = ''POST''"
  shows "let ob1 = fst (object_fetch ge ticket r ob);
             expired = fst (fire SessionTimer (ob_session ob1));
             again = ob_session (construct_object ttl later (ob_storage ob1))
    in \<not> gs_active expired \<and> gs_active again \<and> gs_sessionToken again = gs_sessionToken expired \<and>
       (SessionTimer, later + session_ttl (object_options ttl)) \<in> set (gs_timers again)"
proof -
  obtain old where "ob_storage ob = Some old" using assms(1) by blast
  then have ob1: "ob_session (fst (object_fetch ge ticket r ob)) = fst (handleRegister (ob_options ob) ge (ob_session ob))"
    "ob_storage (fst (object_fetch ge ticket r ob)) = Some (Some (persistableState (fst (handleRegister (ob_options ob) ge (ob_session ob)))))"
    using assms(2,3) by (simp_all add: object_fetch_def git_fetch_def Let_def)
  have reg: "gs_active (fst (handleRegister go ge s))" for go s by (simp add: handleRegister_def Let_def)
  show ?thesis
    by (simp add: ob1 reg Let_def fire_session construct_object_def restore_session_def persistableState_def)
      (simp add: resetSessionTimer_def arm_def)
qed

theorem expired_session_revives_witness:
  "let ob1 = fst (object_fetch (demo_git_env 0 ''u0'' JNull) 0 (demo_call ''POST'' ''/register'') (construct_object (Some ''60'') 0 (Some None)));
       expired = fst (fire SessionTimer (ob_session ob1));
       again = ob_session (construct_object (Some ''60'') 7200000 (ob_storage ob1))
   in \<not> gs_active expired \<and> gs_active again \<and> gs_sessionToken again = gs_sessionToken expired \<and>
      (SessionTimer, 7200000 + session_ttl (object_options (Some ''60''))) \<in> set (gs_timers again)"
  by (rule expired_session_revives) (simp_all add: construct_object_def demo_call_def)

section \<open>Pkt-lines\<close>

text \<open>
  A reader for the pkt-line format of git: four hexadecimal digits give the length of the line with
  themselves included, and four zeros end the message.
\<close>

function read_pkt_lines :: "string \<Rightarrow> string list option" where
  "read_pkt_lines s =
     (if length s < 4 then None
      else case hex4 (s ! 0) (s ! 1) (s ! 2) (s ! 3) of
          None \<Rightarrow> None
        | Some n \<Rightarrow>
            if n = 0 then (if length s = 4 then Some [] else None)
            else if n < 4 \<or> length s < n then None
            else map_option (Cons (drop 4 (take n s))) (read_pkt_lines (drop n s)))"
  by pat_completeness auto
termination
  by (relation "measure length") auto

declare read_pkt_lines.simps [simp del]

lemma hex_of_digit: "d < 16 \<Longrightarrow> hex_of (hex_digit d) = Some d"
  by (auto simp: hex_of_def hex_digit_def is_digit_def Let_def)

lemma hex_str_small: "n < 16 \<Longrightarrow> hex_str n = [hex_digit n]"
  by (simp add: hex_str.simps)

lemma hex_str_large: "\<not> n < 16 \<Longrightarrow> hex_str n = hex_str (n div 16) @ [hex_digit (n mod 16)]"
  by (simp add: hex_str.simps [of n])

lemma hex_str_padded:
  assumes "n < 65536"
  shows "pad_start 4 (CHR ''0'') (hex_str n) =
    [hex_digit (n div 4096), hex_digit (n div 256 mod 16), hex_digit (n div 16 mod 16), hex_digit (n mod 16)]"
proof -
  have zero: "CHR ''0'' = hex_digit 0" by code_simp
  have div: "n div 16 div 16 = n div 256" "n div 256 div 16 = n div 4096"
    by (simp_all add: div_mult2_eq [symmetric])
  have pads: "pad_start 4 c [x] = [c, c, c, x]" "pad_start 4 c [y, x] = [c, c, y, x]" "pad_start 4 c [z, y, x] = [c, z, y, x]"
    "pad_start 4 c [w, z, y, x] = [w, z, y, x]" for c w x y z
    by (simp_all add: pad_start_def numeral_eq_Suc)
  consider "n < 16" | "\<not> n < 16" "n div 16 < 16" | "\<not> n < 16" "\<not> n div 16 < 16" "n div 256 < 16"
    | "\<not> n < 16" "\<not> n div 16 < 16" "\<not> n div 256 < 16" by blast
  then show ?thesis
  proof cases
    case 1
    then show ?thesis by (simp add: hex_str_small pads zero)
  next
    case 2
    have "n div 256 = 0" using 2 div(1) by (simp flip: div(1))
    moreover from this have "n div 4096 = 0" by (simp flip: div(2))
    ultimately show ?thesis using 2 by (simp add: hex_str_large hex_str_small pads zero)
  next
    case 3
    have "n div 4096 = 0" using 3 by (simp flip: div(2))
    then show ?thesis using 3 by (simp add: hex_str_large [of n] hex_str_large [of "n div 16"] hex_str_small pads zero div)
  next
    case 4
    have "n div 4096 < 16" using assms by (simp add: less_mult_imp_div_less)
    then show ?thesis
      using 4 by (simp add: hex_str_large [of n] hex_str_large [of "n div 16"] hex_str_large [of "n div 256"] hex_str_small pads zero div)
  qed
qed

lemma hex4_padded:
  assumes "n < 65536"
  shows "hex4 (hex_digit (n div 4096)) (hex_digit (n div 256 mod 16)) (hex_digit (n div 16 mod 16)) (hex_digit (n mod 16)) = Some n"
proof -
  have small: "n div 4096 < 16" using assms by (simp add: less_mult_imp_div_less)
  have div: "n div 16 div 16 = n div 256" "n div 256 div 16 = n div 4096"
    by (simp_all add: div_mult2_eq [symmetric])
  have "16 * (n div 16) + n mod 16 = n" "16 * (n div 256) + n div 16 mod 16 = n div 16" "16 * (n div 4096) + n div 256 mod 16 = n div 256"
    using mult_div_mod_eq [of 16 n] mult_div_mod_eq [of 16 "n div 16"] mult_div_mod_eq [of 16 "n div 256"] unfolding div by simp_all
  then have "4096 * (n div 4096) + 256 * (n div 256 mod 16) + 16 * (n div 16 mod 16) + n mod 16 = n" by linarith
  then show ?thesis using small by (simp add: hex4_def hex_of_digit)
qed

lemma read_pkt_line:
  assumes "utf8 l = l" "length l + 4 < 65536"
  shows "read_pkt_lines (toPktLine l @ rest) = map_option (Cons l) (read_pkt_lines rest)"
proof -
  define n where "n = length l + 4"
  define h where "h = [hex_digit (n div 4096), hex_digit (n div 256 mod 16), hex_digit (n div 16 mod 16), hex_digit (n mod 16)]"
  define s where "s = h @ l @ rest"
  have h: "length h = 4" "hex4 (h ! 0) (h ! 1) (h ! 2) (h ! 3) = Some n"
    using hex4_padded [of n] assms(2) by (simp_all add: h_def n_def)
  have eq: "toPktLine l @ rest = s"
    using assms by (simp add: s_def h_def toPktLine_def hex_str_padded flip: n_def)
  have s: "\<not> length s < 4" "s ! 0 = h ! 0" "s ! 1 = h ! 1" "s ! 2 = h ! 2" "s ! 3 = h ! 3" "\<not> length s < n" "n \<noteq> 0" "\<not> n < 4"
    "drop n s = rest" "drop 4 (take n s) = l"
    using h(1) by (simp_all add: s_def nth_append n_def)
  show ?thesis
    unfolding eq by (subst read_pkt_lines.simps) (use h(2) s in simp)
qed

lemma read_pkt_flush: "read_pkt_lines ''0000'' = Some []"
  by code_simp

lemma utf8_ascii_id: "list_all (\<lambda>c. (of_char c :: nat) < 128) s \<Longrightarrow> utf8 s = s"
  by (induction s) (simp_all add: utf8_def Let_def)

lemma hex_digit_ascii: "d < 16 \<Longrightarrow> (of_char (hex_digit d) :: nat) < 128"
  by (simp add: hex_digit_def)

abbreviation ascii :: "string \<Rightarrow> bool" where
  "ascii \<equiv> list_all (\<lambda>c. (of_char c :: nat) < 128)"

lemma toPktLine_ascii: "ascii l \<Longrightarrow> length l + 4 < 65536 \<Longrightarrow> ascii (toPktLine l)"
  by (simp add: toPktLine_def utf8_ascii_id hex_str_padded hex_digit_ascii less_mult_imp_div_less)

lemma read_pkt_lines_concat:
  "list_all (\<lambda>l. ascii l \<and> length l + 4 < 65536) ls \<Longrightarrow>
     read_pkt_lines (concat (map toPktLine ls) @ ''0000'') = Some ls"
proof (induction ls)
  case (Cons l ls)
  then have "read_pkt_lines (toPktLine l @ concat (map toPktLine ls) @ ''0000'') = Some (l # ls)"
    by (subst read_pkt_line) (simp_all add: utf8_ascii_id)
  then show ?case by simp
qed (simp add: read_pkt_flush)

lemma is_ref_point_ascii: "list_all is_ref_point ns \<Longrightarrow> ascii (map char_of ns)"
  by (induction ns) (auto simp: is_ref_point_def)

lemma scan_refs_shape:
  "m \<in> set (scan_refs start ns) \<Longrightarrow> \<exists>b. m = start @ b \<and> b \<noteq> [] \<and> length b \<le> 255 \<and> list_all is_ref_point b"
proof (induction start ns rule: scan_refs.induct)
  case (1 start ns)
  show ?case
  proof (cases ns)
    case Nil
    then show ?thesis using 1(3) by (simp add: scan_refs.simps)
  next
    case (Cons x rest)
    define b where "b = takeWhile is_ref_point (take 255 (drop (length start) ns))"
    show ?thesis
    proof (cases "prefix start ns \<and> b \<noteq> []")
      case True
      have "length b \<le> 255" unfolding b_def using length_takeWhile_le [of is_ref_point "take 255 (drop (length start) ns)"] by simp
      moreover have "list_all is_ref_point b" unfolding b_def list_all_iff by (auto dest: set_takeWhileD)
      moreover have "scan_refs start ns = (start @ b) # scan_refs start (drop (length start + length b) ns)"
        using True Cons by (subst scan_refs.simps) (simp add: Let_def b_def)
      ultimately show ?thesis
        using 1(1) [OF Cons b_def True] 1(3) True by auto
    next
      case False
      have "scan_refs start ns = scan_refs start rest"
        using False Cons by (subst scan_refs.simps) (auto simp add: Let_def b_def)
      then show ?thesis using 1(2) [OF Cons b_def False] 1(3) by simp
    qed
  qed
qed

text \<open>
  The answer given in a host's place is well formed: it reads back, in git's pkt-line format,
  as a report that unpacking succeeded and one line for every ref that the push named under
  \<open>refs/relay/incoming/\<close>.
\<close>

theorem receive_pack_result_reads_back:
  "read_pkt_lines (buildReceivePackResultBody (extractIncomingRefs body)) =
     Some ((''unpack ok'' @ newline) # map (\<lambda>ref. ''ok '' @ ref @ newline) (extractIncomingRefs body)) \<and>
   list_all (prefix incoming_prefix) (extractIncomingRefs body)"
proof -
  have ref: "prefix incoming_prefix ref \<and> ascii ref \<and> length ref \<le> 275" if "ref \<in> set (extractIncomingRefs body)" for ref
  proof -
    from that obtain m where m: "m \<in> set (scan_refs (points incoming_prefix) (text_decode body))" "ref = map char_of m"
      by (auto simp: extractIncomingRefs_def extract_refs_def)
    from scan_refs_shape [OF m(1)] obtain b where "m = points incoming_prefix @ b" "length b \<le> 255" "list_all is_ref_point b"
      by blast
    then have "ref = incoming_prefix @ map char_of b" "length (map char_of b :: string) \<le> 255" "ascii (map char_of b)"
      using m(2) is_ref_point_ascii by (simp_all add: comp_def)
    moreover have "ascii incoming_prefix" "length incoming_prefix = 20" by code_simp+
    ultimately show ?thesis by (simp add: prefix_def)
  qed
  define ls where "ls = (''unpack ok'' @ newline) # map (\<lambda>ref. ''ok '' @ ref @ newline) (extractIncomingRefs body)"
  have lines: "list_all (\<lambda>l. ascii l \<and> length l + 4 < 65536) ls"
    unfolding ls_def using ref by (force simp: list_all_iff)
  then have "ascii (concat (map toPktLine ls) @ ''0000'')"
    by (induction ls) (simp_all add: toPktLine_ascii)
  then have "buildReceivePackResultBody (extractIncomingRefs body) = concat (map toPktLine ls) @ ''0000''"
    using utf8_ascii_id [of "concat (map toPktLine ls) @ ''0000''"]
    by (simp add: buildReceivePackResultBody_def ls_def comp_def)
  moreover note read_pkt_lines_concat [OF lines]
  ultimately show ?thesis using ref by (simp add: ls_def list_all_iff)
qed

end
