(* ===== verification/Runtime_Config.thy ===== *)
theory Runtime_Config
  imports Relay_Config
begin

text \<open>
  The configuration a server is started with (\<open>src/runtime_config.ts\<close>): environment variables are parsed
  leniently, anything malformed falls back to its default, and \<open>RELAY_CONFIG_JSON\<close> overrides single fields.
  The environment maps a name to its value; \<open>JSON.parse\<close> is a parameter, \<open>None\<close> where it throws.
\<close>

type_synonym env_getter = "string \<Rightarrow> string option"

section \<open>Parsing values\<close>

definition parsePositiveInt :: "string option \<Rightarrow> int \<Rightarrow> int" where
  "parsePositiveInt raw fallback =
     (case finite_trunc (js_parse_int (or_empty raw)) of
        Some value \<Rightarrow> if value \<le> 0 then fallback else value
      | None \<Rightarrow> fallback)"

definition blank :: "string option \<Rightarrow> bool" where
  "blank raw \<longleftrightarrow> js_trim (or_empty raw) = []"

definition parseOptionalPositiveInt :: "string option \<Rightarrow> int option" where
  "parseOptionalPositiveInt raw =
     (if blank raw then None
      else case finite_trunc (js_parse_int (or_empty raw)) of
          Some value \<Rightarrow> if value \<le> 0 then None else Some value
        | None \<Rightarrow> None)"

definition true_words :: "string list" where
  "true_words = [''1'', ''true'', ''yes'', ''on'']"

definition false_words :: "string list" where
  "false_words = [''0'', ''false'', ''no'', ''off'']"

definition parseBoolean :: "string option \<Rightarrow> bool \<Rightarrow> bool" where
  "parseBoolean raw fallback =
     (case raw of
        None \<Rightarrow> fallback
      | Some s \<Rightarrow>
          let value = to_lower (js_trim s)
          in if value \<in> set true_words then True else if value \<in> set false_words then False else fallback)"

definition parseOptionalString :: "string option \<Rightarrow> string option" where
  "parseOptionalString raw =
     (case raw of None \<Rightarrow> None | Some s \<Rightarrow> let value = js_trim s in if value \<noteq> [] then Some value else None)"

definition parseIssueSourceOfTruth :: "string option \<Rightarrow> issue_source" where
  "parseIssueSourceOfTruth raw =
     (let value = to_lower (js_trim (or_empty raw))
      in if value = ''github'' then FromGithub else if value = ''bit'' then FromBit else LastWrite)"

definition parse_token_members :: "(string \<times> json) list \<Rightarrow> (string \<times> string) list" where
  "parse_token_members kvs =
     foldl (\<lambda>out (room, token). case token of JStr t \<Rightarrow> obj_set room t out | _ \<Rightarrow> out) [] kvs"

definition parseRoomTokensEnv :: "(string \<Rightarrow> json option) \<Rightarrow> string option \<Rightarrow> (string \<times> string) list" where
  "parseRoomTokensEnv parse raw =
     (if blank raw then []
      else case parse (or_empty raw) of Some (JObj kvs) \<Rightarrow> parse_token_members kvs | _ \<Rightarrow> [])"

definition parseCsvList :: "string option \<Rightarrow> string list" where
  "parseCsvList raw =
     (if blank raw then []
      else dedupe (filter (\<lambda>s. s \<noteq> []) (map js_trim (split_on (CHR '','') (or_empty raw)))))"

definition parseCsvUrls :: "string option \<Rightarrow> string list" where
  "parseCsvUrls raw = parseCsvList raw"

definition trimmed_strings :: "json list \<Rightarrow> string list" where
  "trimmed_strings values =
     dedupe (filter (\<lambda>s. s \<noteq> []) (map js_trim (List.map_filter (\<lambda>v. str_opt (Some v)) values)))"

definition parseStringArray :: "json option \<Rightarrow> string list option" where
  "parseStringArray value = map_option trimmed_strings (arr_opt value)"

definition DEFAULT_TRIGGER_EVENT_TYPE :: string where
  "DEFAULT_TRIGGER_EVENT_TYPE = ''relay.incoming_ref''"

definition DEFAULT_TRIGGER_REF_PREFIXES :: "string list" where
  "DEFAULT_TRIGGER_REF_PREFIXES = [''refs/relay/incoming/'']"

definition normalizeTriggerEventType :: "string option \<Rightarrow> string" where
  "normalizeTriggerEventType raw =
     (let value = js_trim (or_empty raw) in if value \<noteq> [] then value else DEFAULT_TRIGGER_EVENT_TYPE)"

definition normalizeTriggerRefPrefixes :: "string list \<Rightarrow> string list" where
  "normalizeTriggerRefPrefixes raw =
     (let entries = dedupe (filter (\<lambda>s. s \<noteq> []) (map js_trim raw))
      in if entries = [] then DEFAULT_TRIGGER_REF_PREFIXES else entries)"

definition parsePeersJson :: "(string \<Rightarrow> json option) \<Rightarrow> string option \<Rightarrow> string list option" where
  "parsePeersJson parse raw = (if blank raw then None else parseStringArray (parse (or_empty raw)))"

section \<open>The options of the relay\<close>

definition env_int :: "env_getter \<Rightarrow> string \<Rightarrow> int \<Rightarrow> rat option" where
  "env_int getEnv name fallback = Some (of_int (parsePositiveInt (getEnv name) fallback))"

definition peer_urls :: "(string \<Rightarrow> json option) \<Rightarrow> env_getter \<Rightarrow> string list" where
  "peer_urls parse getEnv =
     (case parsePeersJson parse (getEnv ''RELAY_PEERS_JSON'') of
        Some urls \<Rightarrow> urls
      | None \<Rightarrow> parseCsvUrls (getEnv ''RELAY_PEERS''))"

definition parseMemoryRelayOptionsFromEnv :: "(string \<Rightarrow> json option) \<Rightarrow> env_getter \<Rightarrow> relay_options" where
  "parseMemoryRelayOptionsFromEnv parse getEnv =
     \<lparr>op_authToken = getEnv ''BIT_RELAY_AUTH_TOKEN'', op_peerAuthToken = getEnv ''RELAY_PEER_AUTH_TOKEN'',
      op_issueSourceOfTruth = Some (parseIssueSourceOfTruth (getEnv ''RELAY_ISSUE_SOURCE_OF_TRUTH'')),
      op_maxMessagesPerRoom = env_int getEnv ''RELAY_MAX_MESSAGES_PER_ROOM'' 1000,
      op_publishPayloadMaxBytes = env_int getEnv ''PUBLISH_PAYLOAD_MAX_BYTES'' 65536,
      op_publishLimitPerWindow = env_int getEnv ''RELAY_PUBLISH_LIMIT_PER_WINDOW'' 30,
      op_publishWindowMs = env_int getEnv ''RELAY_PUBLISH_WINDOW_MS'' 60000,
      op_ipPublishLimitPerWindow = env_int getEnv ''RELAY_IP_PUBLISH_LIMIT_PER_WINDOW'' 60,
      op_roomPublishLimitPerWindow = env_int getEnv ''RELAY_ROOM_PUBLISH_LIMIT_PER_WINDOW'' 60,
      op_roomTokens = parseRoomTokensEnv parse (getEnv ''RELAY_ROOM_TOKENS''),
      op_maxWsSessions = env_int getEnv ''MAX_WS_SESSIONS'' 100,
      op_requireSignatures = Some (parseBoolean (getEnv ''RELAY_REQUIRE_SIGNATURE'') True),
      op_maxClockSkewSec = env_int getEnv ''RELAY_MAX_CLOCK_SKEW_SEC'' 300,
      op_nonceTtlSec = env_int getEnv ''RELAY_NONCE_TTL_SEC'' 600,
      op_maxNoncesPerSender = env_int getEnv ''RELAY_MAX_NONCES_PER_SENDER'' 2048,
      op_presenceTtlSec = env_int getEnv ''RELAY_PRESENCE_TTL_SEC'' 60,
      op_wsPingIntervalMs = map_option (\<lambda>x. x * 1000) (env_int getEnv ''WS_PING_INTERVAL_SEC'' 30),
      op_wsIdleTimeoutMs = map_option (\<lambda>x. x * 1000) (env_int getEnv ''WS_IDLE_TIMEOUT_SEC'' 90),
      op_relayNodeId = parseOptionalString (getEnv ''RELAY_NODE_ID''),
      op_peerRelayUrls = peer_urls parse getEnv,
      op_repositoryId = None, op_repositoryOwner = None, op_repositoryName = None, op_repositoryRecentCommits = [],
      op_cacheExchangeMaxHops = env_int getEnv ''RELAY_CACHE_EXCHANGE_MAX_HOPS'' 3,
      op_cacheExchangeMaxRecords = env_int getEnv ''RELAY_CACHE_EXCHANGE_MAX_RECORDS'' 10000,
      op_githubWebhookSecret = parseOptionalString (getEnv ''RELAY_GITHUB_WEBHOOK_SECRET'')\<rparr>"

section \<open>The configuration of the server\<close>

record github_config =
  gh_enabled :: bool
  gh_token :: "string option"
  gh_apiBaseUrl :: string
  gh_appId :: "int option"
  gh_appInstallationId :: "int option"
  gh_webhookSecret :: "string option"

datatype cache_provider = Memory_provider | R2_provider

record cache_config =
  cc_provider :: cache_provider
  cc_r2Bucket :: "string option"
  cc_r2Prefix :: string
  cc_ttlSec :: int
  cc_maxBytes :: "int option"

record peer_config =
  pc_urls :: "string list"
  pc_syncIntervalSec :: int
  pc_authToken :: "string option"

record trigger_config =
  tc_webhookUrl :: "string option"
  tc_webhookToken :: "string option"
  tc_eventType :: string
  tc_refPrefixes :: "string list"

record runtime_config =
  rc_relay :: relay_options
  rc_github :: github_config
  rc_cache :: cache_config
  rc_peers :: peer_config
  rc_trigger :: trigger_config
  rc_sessionTtlSec :: "int option"

section \<open>The override\<close>

definition config_string :: "json option \<Rightarrow> string option" where
  "config_string value = (case value of Some (JStr s) \<Rightarrow> if js_trim s \<noteq> [] then Some (js_trim s) else None | _ \<Rightarrow> None)"

definition config_bool :: "json option \<Rightarrow> bool option" where
  "config_bool value = (case value of Some (JBool b) \<Rightarrow> Some b | _ \<Rightarrow> None)"

definition asPositiveInt :: "json option \<Rightarrow> int option" where
  "asPositiveInt value = (case value of Some (JNum (Fin r)) \<Rightarrow> if r > 0 then Some (rtrunc r) else None | _ \<Rightarrow> None)"

definition readRaw :: "json \<Rightarrow> string \<Rightarrow> string \<Rightarrow> json option" where
  "readRaw rec snake camel = (case jprop rec snake of Some v \<Rightarrow> Some v | None \<Rightarrow> jprop rec camel)"

text \<open>\<open>if (x !== null) config.f = x\<close>, for a field and for one that may itself be \<open>null\<close>.\<close>

definition override :: "'a option \<Rightarrow> 'a \<Rightarrow> 'a" where
  "override x base = (case x of Some v \<Rightarrow> v | None \<Rightarrow> base)"

definition override_opt :: "'a option \<Rightarrow> 'a option \<Rightarrow> 'a option" where
  "override_opt x base = (case x of Some v \<Rightarrow> Some v | None \<Rightarrow> base)"

definition override_github :: "json \<Rightarrow> github_config \<Rightarrow> github_config" where
  "override_github j c =
     \<lparr>gh_enabled = override (config_bool (readRaw j ''enabled'' ''enabled'')) (gh_enabled c),
      gh_token = override_opt (config_string (readRaw j ''token'' ''token'')) (gh_token c),
      gh_apiBaseUrl = override (config_string (readRaw j ''api_base_url'' ''apiBaseUrl'')) (gh_apiBaseUrl c),
      gh_appId = override_opt (asPositiveInt (readRaw j ''app_id'' ''appId'')) (gh_appId c),
      gh_appInstallationId =
        override_opt (asPositiveInt (readRaw j ''app_installation_id'' ''appInstallationId'')) (gh_appInstallationId c),
      gh_webhookSecret = override_opt (config_string (readRaw j ''webhook_secret'' ''webhookSecret'')) (gh_webhookSecret c)\<rparr>"

definition override_cache :: "json \<Rightarrow> cache_config \<Rightarrow> cache_config" where
  "override_cache j c =
     \<lparr>cc_provider =
        (let provider = config_string (readRaw j ''provider'' ''provider'')
         in if provider = Some ''memory'' then Memory_provider else if provider = Some ''r2'' then R2_provider else cc_provider c),
      cc_r2Bucket = override_opt (config_string (readRaw j ''r2_bucket'' ''r2Bucket'')) (cc_r2Bucket c),
      cc_r2Prefix = override (config_string (readRaw j ''r2_prefix'' ''r2Prefix'')) (cc_r2Prefix c),
      cc_ttlSec = override (asPositiveInt (readRaw j ''ttl_sec'' ''ttlSec'')) (cc_ttlSec c),
      cc_maxBytes = override_opt (asPositiveInt (readRaw j ''max_bytes'' ''maxBytes'')) (cc_maxBytes c)\<rparr>"

definition override_peers :: "json \<Rightarrow> peer_config \<Rightarrow> peer_config" where
  "override_peers j c =
     \<lparr>pc_urls = override (parseStringArray (readRaw j ''urls'' ''urls'')) (pc_urls c),
      pc_syncIntervalSec = override (asPositiveInt (readRaw j ''sync_interval_sec'' ''syncIntervalSec'')) (pc_syncIntervalSec c),
      pc_authToken = override_opt (config_string (readRaw j ''auth_token'' ''authToken'')) (pc_authToken c)\<rparr>"

definition override_trigger :: "json \<Rightarrow> trigger_config \<Rightarrow> trigger_config" where
  "override_trigger j c =
     \<lparr>tc_webhookUrl = override_opt (config_string (readRaw j ''webhook_url'' ''webhookUrl'')) (tc_webhookUrl c),
      tc_webhookToken = override_opt (config_string (readRaw j ''webhook_token'' ''webhookToken'')) (tc_webhookToken c),
      tc_eventType =
        (case config_string (readRaw j ''event_type'' ''eventType'') of
           Some t \<Rightarrow> normalizeTriggerEventType (Some t) | None \<Rightarrow> tc_eventType c),
      tc_refPrefixes =
        (case parseStringArray (readRaw j ''ref_prefixes'' ''refPrefixes'') of
           Some ps \<Rightarrow> normalizeTriggerRefPrefixes ps | None \<Rightarrow> tc_refPrefixes c)\<rparr>"

text \<open>A section is applied when it is an object.\<close>

definition with_section :: "json option \<Rightarrow> (json \<Rightarrow> 'a \<Rightarrow> 'a) \<Rightarrow> 'a \<Rightarrow> 'a" where
  "with_section value f c = (case obj_opt value of Some j \<Rightarrow> f j c | None \<Rightarrow> c)"

definition applyJsonOverride :: "runtime_config \<Rightarrow> json \<Rightarrow> runtime_config" where
  "applyJsonOverride base rawJson =
     base\<lparr>rc_github := with_section (jprop rawJson ''github'') override_github (rc_github base),
          rc_cache := with_section (jprop rawJson ''cache'') override_cache (rc_cache base),
          rc_peers := with_section (jprop rawJson ''peers'') override_peers (rc_peers base),
          rc_trigger := with_section (jprop rawJson ''trigger'') override_trigger (rc_trigger base),
          rc_sessionTtlSec := with_section (readRaw rawJson ''git_serve'' ''gitServe'')
            (\<lambda>j. override_opt (asPositiveInt (readRaw j ''session_ttl_sec'' ''sessionTtlSec''))) (rc_sessionTtlSec base)\<rparr>"

definition parseConfigJson :: "(string \<Rightarrow> json option) \<Rightarrow> string option \<Rightarrow> json" where
  "parseConfigJson parse raw =
     (if blank raw then JObj [] else case parse (or_empty raw) of Some (JObj kvs) \<Rightarrow> JObj kvs | _ \<Rightarrow> JObj [])"

definition base_config :: "(string \<Rightarrow> json option) \<Rightarrow> env_getter \<Rightarrow> runtime_config" where
  "base_config parse getEnv =
     \<lparr>rc_relay = parseMemoryRelayOptionsFromEnv parse getEnv,
      rc_github =
        \<lparr>gh_enabled = parseBoolean (getEnv ''RELAY_GITHUB_ENABLED'') False,
         gh_token = parseOptionalString (getEnv ''RELAY_GITHUB_TOKEN''),
         gh_apiBaseUrl = override (parseOptionalString (getEnv ''RELAY_GITHUB_API_BASE_URL'')) ''https://api.github.com'',
         gh_appId = parseOptionalPositiveInt (getEnv ''RELAY_GITHUB_APP_ID''),
         gh_appInstallationId = parseOptionalPositiveInt
           (case getEnv ''RELAY_GITHUB_APP_INSTALLATION_ID'' of Some v \<Rightarrow> Some v | None \<Rightarrow> getEnv ''RELAY_GITHUB_INSTALLATION_ID''),
         gh_webhookSecret = parseOptionalString (getEnv ''RELAY_GITHUB_WEBHOOK_SECRET'')\<rparr>,
      rc_cache =
        \<lparr>cc_provider = (if getEnv ''RELAY_CACHE_PROVIDER'' = Some ''r2'' then R2_provider else Memory_provider),
         cc_r2Bucket = parseOptionalString (getEnv ''RELAY_CACHE_R2_BUCKET''),
         cc_r2Prefix = override (parseOptionalString (getEnv ''RELAY_CACHE_R2_PREFIX'')) ''relay-cache/'',
         cc_ttlSec = parsePositiveInt (getEnv ''RELAY_CACHE_TTL_SEC'') 86400,
         cc_maxBytes = parseOptionalPositiveInt (getEnv ''RELAY_CACHE_MAX_BYTES'')\<rparr>,
      rc_peers =
        \<lparr>pc_urls = peer_urls parse getEnv, pc_syncIntervalSec = parsePositiveInt (getEnv ''RELAY_PEER_SYNC_INTERVAL_SEC'') 30,
         pc_authToken = parseOptionalString (getEnv ''RELAY_PEER_AUTH_TOKEN'')\<rparr>,
      rc_trigger =
        \<lparr>tc_webhookUrl = parseOptionalString (getEnv ''RELAY_TRIGGER_WEBHOOK_URL''),
         tc_webhookToken = parseOptionalString (getEnv ''RELAY_TRIGGER_WEBHOOK_TOKEN''),
         tc_eventType = normalizeTriggerEventType (parseOptionalString (getEnv ''RELAY_TRIGGER_EVENT_TYPE'')),
         tc_refPrefixes = normalizeTriggerRefPrefixes (parseCsvList (getEnv ''RELAY_TRIGGER_REF_PREFIXES''))\<rparr>,
      rc_sessionTtlSec = parseOptionalPositiveInt (getEnv ''GIT_SERVE_SESSION_TTL_SEC'')\<rparr>"

definition parseRelayRuntimeConfigFromEnv :: "(string \<Rightarrow> json option) \<Rightarrow> env_getter \<Rightarrow> runtime_config" where
  "parseRelayRuntimeConfigFromEnv parse getEnv =
     applyJsonOverride (base_config parse getEnv) (parseConfigJson parse (getEnv ''RELAY_CONFIG_JSON''))"

section \<open>Facts\<close>

lemma token_members_aux:
  assumes "okeys acc" "okeys kvs"
  shows "okeys (foldl (\<lambda>out (room, token). case token of JStr t \<Rightarrow> obj_set room t out | _ \<Rightarrow> out) acc kvs) \<and>
    map_of (foldl (\<lambda>out (room, token). case token of JStr t \<Rightarrow> obj_set room t out | _ \<Rightarrow> out) acc kvs) x =
      (case map_of kvs x of Some (JStr t) \<Rightarrow> if x = ''__proto__'' then map_of acc x else Some t | _ \<Rightarrow> map_of acc x)"
  using assms
proof (induction kvs arbitrary: acc)
  case (Cons p kvs)
  obtain k v where p: "p = (k, v)" by (cases p)
  have fresh: "map_of kvs k = None"
    using Cons.prems(2) by (auto simp: p okeys_Cons map_of_eq_None_iff)
  define acc' where "acc' = (case v of JStr t \<Rightarrow> obj_set k t acc | _ \<Rightarrow> acc)"
  have ok: "okeys acc'" "okeys kvs" using Cons.prems by (simp_all add: acc'_def p okeys_Cons split: json.split)
  have acc': "map_of acc' y = (case v of JStr t \<Rightarrow> if y = k \<and> y \<noteq> ''__proto__'' then Some t else map_of acc y | _ \<Rightarrow> map_of acc y)" for y
    using Cons.prems(1) by (simp add: acc'_def map_of_obj_set split: json.split)
  have fold: "foldl (\<lambda>out (room, token). case token of JStr t \<Rightarrow> obj_set room t out | _ \<Rightarrow> out) acc (p # kvs) =
      foldl (\<lambda>out (room, token). case token of JStr t \<Rightarrow> obj_set room t out | _ \<Rightarrow> out) acc' kvs"
    by (simp add: p acc'_def)
  show ?case
    unfolding fold using Cons.IH [OF ok] fresh by (auto simp: p acc' split: option.split json.split)
qed (simp split: option.split json.split)

lemma map_of_token_members:
  "okeys kvs \<Longrightarrow> map_of (parse_token_members kvs) x = (if x = ''__proto__'' then None else str_opt (map_of kvs x))"
  using token_members_aux [of "[]" kvs x] by (simp add: parse_token_members_def str_opt_def split: option.split json.split)

lemma okeys_token_members: "okeys kvs \<Longrightarrow> okeys (parse_token_members kvs)"
  using token_members_aux [of "[]" kvs] by (simp add: parse_token_members_def)

definition room_entry :: "string \<Rightarrow> string \<Rightarrow> string option" where
  "room_entry room token = (if isValidRoomName room \<and> js_trim token \<noteq> [] then Some (js_trim token) else None)"

lemma parseRoomTokens_entries:
  assumes "\<forall>p\<in>set raw. js_trim (fst p) = fst p"
  shows "parseRoomTokens raw = map_of_entries room_entry raw"
proof -
  have "foldl (\<lambda>out (room, token).
       let normalizedRoom = js_trim room; normalizedToken = js_trim token
       in if \<not> isValidRoomName normalizedRoom then out
          else if normalizedToken = [] then out
          else AList.update normalizedRoom normalizedToken out) acc raw =
     foldl (\<lambda>m (k, v). case room_entry k v of None \<Rightarrow> m | Some a \<Rightarrow> AList.update k a m) acc raw" for acc
    using assms by (induction raw arbitrary: acc) (auto simp: room_entry_def Let_def)
  then show ?thesis by (simp add: parseRoomTokens_def map_of_entries_def)
qed

lemma room_tokens_of_json:
  assumes "okeys kvs" "\<forall>p\<in>set kvs. js_trim (fst p) = fst p"
  shows "map_of (parseRoomTokens (parse_token_members kvs)) room =
    (case map_of kvs room of Some (JStr t) \<Rightarrow> room_entry room t | _ \<Rightarrow> None)"
proof -
  have "js_trim (fst p) = fst p" if "p \<in> set (parse_token_members kvs)" for p
  proof -
    have "map_of (parse_token_members kvs) (fst p) = Some (snd p)"
      using that okeys_token_members [OF assms(1)] by (simp add: okeys_def)
    then have "map_of kvs (fst p) \<noteq> None"
      by (cases "map_of kvs (fst p)") (simp_all add: map_of_token_members [OF assms(1)] str_opt_def split: if_splits)
    then obtain v where "(fst p, v) \<in> set kvs" by (auto dest: map_of_SomeD)
    then show ?thesis using assms(2) by force
  qed
  then have "map_of (parseRoomTokens (parse_token_members kvs)) room =
      Option.bind (map_of (parse_token_members kvs) room) (room_entry room)"
    by (simp add: parseRoomTokens_entries map_of_map_of_entries okeys_token_members assms(1))
  moreover have "\<not> isValidRoomName ''__proto__''" by code_simp
  ultimately show ?thesis
    by (auto simp: map_of_token_members [OF assms(1)] room_entry_def str_opt_def split: option.splits json.splits)
qed

lemma parsePositiveInt_pos: "0 < fallback \<Longrightarrow> 0 < parsePositiveInt raw fallback"
  by (simp add: parsePositiveInt_def split: option.split)

lemma clamped_env: "0 < d \<Longrightarrow> clamped 1 (env_int getEnv name d) d' = parsePositiveInt (getEnv name) d"
  using parsePositiveInt_pos [of d "getEnv name"] by (simp add: clamped_def env_int_def)

lemma requires_signatures:
  "parseBoolean raw True \<longleftrightarrow> to_lower (js_trim (or_empty raw)) \<notin> set false_words"
proof (cases raw)
  case None
  have "to_lower (js_trim []) \<notin> set false_words" by code_simp
  then show ?thesis using None by (simp add: parseBoolean_def or_empty_def)
next
  case (Some s)
  have "set true_words \<inter> set false_words = {}" by code_simp
  then show ?thesis using Some by (auto simp: parseBoolean_def Let_def or_empty_def)
qed

text \<open>
  Whatever the environment holds, the relay starts with limits in range, and fails closed where
  it can: signatures are required unless the variable says no in so many words, an environment variable
  that is a positive number is the limit it sets, and every token of \<open>RELAY_ROOM_TOKENS\<close> guards its room.
\<close>

theorem environment_configures_relay:
  assumes "\<forall>c\<in>set uuid. \<not> is_space c"
    and "cf = relay_config_of uuid (parseMemoryRelayOptionsFromEnv parse getEnv)"
  shows "config_ok cf \<and>
    (cf_requireSignatures cf \<longleftrightarrow> to_lower (js_trim (or_empty (getEnv ''RELAY_REQUIRE_SIGNATURE''))) \<notin> set false_words) \<and>
    cf_publishLimit cf = parsePositiveInt (getEnv ''RELAY_PUBLISH_LIMIT_PER_WINDOW'') 30 \<and>
    cf_maxMessages cf = nat (parsePositiveInt (getEnv ''RELAY_MAX_MESSAGES_PER_ROOM'') 1000) \<and>
    cf_authToken cf = js_trim (or_empty (getEnv ''BIT_RELAY_AUTH_TOKEN'')) \<and>
    (\<forall>raw kvs room. getEnv ''RELAY_ROOM_TOKENS'' = Some raw \<longrightarrow> js_trim raw \<noteq> [] \<longrightarrow> parse raw = Some (JObj kvs) \<longrightarrow>
       okeys kvs \<longrightarrow> (\<forall>p\<in>set kvs. js_trim (fst p) = fst p) \<longrightarrow>
       map_of (cf_roomTokens cf) room = (case map_of kvs room of Some (JStr t) \<Rightarrow> room_entry room t | _ \<Rightarrow> None))"
proof (intro conjI allI impI)
  show "config_ok cf" unfolding assms(2) using assms(1) by (rule relay_config_ok)
  show "cf_requireSignatures cf \<longleftrightarrow> to_lower (js_trim (or_empty (getEnv ''RELAY_REQUIRE_SIGNATURE''))) \<notin> set false_words"
    by (simp add: assms(2) relay_config_of_def parseMemoryRelayOptionsFromEnv_def option_or_def requires_signatures Let_def)
  show "cf_publishLimit cf = parsePositiveInt (getEnv ''RELAY_PUBLISH_LIMIT_PER_WINDOW'') 30"
    "cf_maxMessages cf = nat (parsePositiveInt (getEnv ''RELAY_MAX_MESSAGES_PER_ROOM'') 1000)"
    "cf_authToken cf = js_trim (or_empty (getEnv ''BIT_RELAY_AUTH_TOKEN''))"
    by (simp_all add: assms(2) relay_config_of_def parseMemoryRelayOptionsFromEnv_def clamped_env normalizeAuthToken_def Let_def)
next
  fix raw kvs room
  assume "getEnv ''RELAY_ROOM_TOKENS'' = Some raw" "js_trim raw \<noteq> []" "parse raw = Some (JObj kvs)"
    and "okeys kvs" "\<forall>p\<in>set kvs. js_trim (fst p) = fst p"
  then show "map_of (cf_roomTokens cf) room = (case map_of kvs room of Some (JStr t) \<Rightarrow> room_entry room t | _ \<Rightarrow> None)"
    by (simp add: assms(2) relay_config_of_def parseMemoryRelayOptionsFromEnv_def parseRoomTokensEnv_def blank_def or_empty_def
        room_tokens_of_json Let_def)
qed

theorem environment_configures_relay_witness:
  "map_of (cf_roomTokens (relay_config_of ''0000'' (parseMemoryRelayOptionsFromEnv
      (\<lambda>_. Some (JObj [(''main'', JStr ''secret'')])) (map_of [(''RELAY_ROOM_TOKENS'', ''{}'')])))) ''main'' = Some ''secret''"
proof -
  have "\<forall>c\<in>set ''0000''. \<not> is_space c" "js_trim ''{}'' \<noteq> []" "js_trim ''main'' = ''main''" "room_entry ''main'' ''secret'' = Some ''secret''"
    by code_simp+
  then show ?thesis
    using environment_configures_relay [where uuid = "''0000''" and parse = "\<lambda>_. Some (JObj [(''main'', JStr ''secret'')])"
        and getEnv = "map_of [(''RELAY_ROOM_TOKENS'', ''{}'')]", OF _ refl] by (simp add: okeys_def)
qed

text \<open>The override is a projection: what it sets depends on the JSON alone.\<close>

lemma override_idem [simp]:
  "override x (override x c) = override x c" "override_opt x (override_opt x d) = override_opt x d"
  by (simp_all add: override_def override_opt_def split: option.split)

lemma sections_idem:
  "override_github j (override_github j g) = override_github j g" "override_cache j (override_cache j c) = override_cache j c"
  "override_peers j (override_peers j p) = override_peers j p" "override_trigger j (override_trigger j t) = override_trigger j t"
  by (simp_all add: override_github_def override_cache_def override_peers_def override_trigger_def Let_def split: option.split)

lemma with_section_idem: "(\<And>j c. f j (f j c) = f j c) \<Longrightarrow> with_section v f (with_section v f c) = with_section v f c"
  by (simp add: with_section_def split: option.split)

lemma applyJsonOverride_idem: "applyJsonOverride (applyJsonOverride c j) j = applyJsonOverride c j"
  by (simp add: applyJsonOverride_def with_section_idem sections_idem)

lemma malformed_override_ignored:
  assumes "\<nexists>kvs. parse (or_empty (getEnv ''RELAY_CONFIG_JSON'')) = Some (JObj kvs)"
  shows "parseRelayRuntimeConfigFromEnv parse getEnv = base_config parse getEnv"
proof -
  have "parseConfigJson parse (getEnv ''RELAY_CONFIG_JSON'') = JObj []"
    using assms by (auto simp: parseConfigJson_def split: option.split json.split)
  then show ?thesis
    by (simp add: parseRelayRuntimeConfigFromEnv_def applyJsonOverride_def with_section_def obj_opt_def readRaw_def)
qed

end
