(* ===== verification/Repo_Affinity.thy ===== *)
theory Repo_Affinity
  imports Relay_Exchange
begin

text \<open>
  Which peers share a repository (\<open>src/repository_affinity.ts\<close>): descriptors of repositories, the identity a
  peer announces in its discovery, and the decision whether to exchange messages with it. The URL parser
  of the platform is a parameter: it gives the host name and the path of an absolute URL, and \<open>None\<close> where
  \<open>new URL\<close> throws. Running \<open>git\<close> is a parameter too.
\<close>

type_synonym url_parser = "string \<Rightarrow> (string \<times> string) option"

record descriptor =
  de_host :: "string option"
  de_owner :: "string option"
  de_name :: string

record identity =
  id_repoId :: "string option"
  id_owner :: "string option"
  id_name :: "string option"
  id_recentCommits :: "string list"

datatype decision_reason =
    Exact_repo_id | Recent_commit_overlap | Repository_name_mismatch | Peer_repository_unknown
  | No_recent_fast_forward | Local_repository_unknown

section \<open>Normalisation\<close>

definition DEFAULT_COMMIT_WINDOW :: int where
  "DEFAULT_COMMIT_WINDOW = 30"

definition is_token :: "string \<Rightarrow> bool" where
  "is_token s \<longleftrightarrow> s \<noteq> [] \<and> list_all is_name_char s"

definition normalizeOptionalString :: "string option \<Rightarrow> string option" where
  "normalizeOptionalString raw =
     (case raw of None \<Rightarrow> None | Some s \<Rightarrow> let trimmed = js_trim s in if trimmed \<noteq> [] then Some trimmed else None)"

definition normalizeToken :: "string option \<Rightarrow> string option" where
  "normalizeToken raw =
     (case normalizeOptionalString raw of
        None \<Rightarrow> None
      | Some value \<Rightarrow> if is_token value then Some (to_lower value) else None)"

definition normalizeCommitWindow :: "js_num \<Rightarrow> int" where
  "normalizeCommitWindow raw =
     (case raw of Fin r \<Rightarrow> if r \<le> 0 then DEFAULT_COMMIT_WINDOW else max 1 (rtrunc r) | _ \<Rightarrow> DEFAULT_COMMIT_WINDOW)"

text \<open>\<open>raw.includes('://')\<close>.\<close>

fun has_scheme_mark :: "string \<Rightarrow> bool" where
  "has_scheme_mark [] = False"
| "has_scheme_mark (c # cs) = (prefix ''://'' (c # cs) \<or> has_scheme_mark cs)"

definition stripKnownPrefix :: "string \<Rightarrow> string" where
  "stripKnownPrefix raw =
     (if has_scheme_mark raw \<or> prefix ''git@'' raw then raw
      else let before = takeWhile (\<lambda>c. c \<noteq> CHR '':'') raw
        in if CHR '':'' \<notin> set raw \<or> before = [] then raw
           else if to_lower (js_trim before) \<in> {''github'', ''gitlab'', ''repo''} then drop (Suc (length before)) raw
           else raw)"

definition strip_slashes :: "string \<Rightarrow> string" where
  "strip_slashes s = rev (dropWhile (\<lambda>c. c = CHR ''/'') (rev (dropWhile (\<lambda>c. c = CHR ''/'') s)))"

definition strip_git :: "string \<Rightarrow> string" where
  "strip_git s = (if suffix ''.git'' s then take (length s - 4) s else s)"

definition parseOwnerAndName :: "string \<Rightarrow> (string option \<times> string) option" where
  "parseOwnerAndName pathRaw =
     (let segments = filter (\<lambda>e. e \<noteq> []) (split_on (CHR ''/'') (strip_slashes (js_trim pathRaw)))
      in if segments = [] then None
         else case normalizeToken (Some (strip_git (last segments))) of
             None \<Rightarrow> None
           | Some name \<Rightarrow>
               Some (if length segments \<ge> 2 then normalizeToken (Some (segments ! (length segments - 2))) else None, name))"

text \<open>The pattern \<open>^[^@]+@([^:]+):(.+)$\<close>; a dot matches no line end.\<close>

definition parseScpLike :: "string \<Rightarrow> (string option \<times> string) option" where
  "parseScpLike raw =
     (let user = takeWhile (\<lambda>c. c \<noteq> CHR ''@'') raw; rest = drop (Suc (length user)) raw;
          host = takeWhile (\<lambda>c. c \<noteq> CHR '':'') rest; path = drop (Suc (length host)) rest
      in if user = [] \<or> CHR ''@'' \<notin> set raw \<or> host = [] \<or> CHR '':'' \<notin> set rest \<or> path = [] \<or>
            list_ex (\<lambda>c. c = CHR 0x0A \<or> c = CHR 0x0D) path then None
         else if js_trim path = [] then None else Some (normalizeToken (Some host), js_trim path))"

definition parseAsUrl :: "url_parser \<Rightarrow> string \<Rightarrow> (string option \<times> string) option" where
  "parseAsUrl url raw = map_option (\<lambda>(hostname, pathname). (normalizeToken (Some hostname), pathname)) (url raw)"

definition describe :: "string option \<Rightarrow> string \<Rightarrow> descriptor option" where
  "describe host path =
     map_option (\<lambda>(owner, name). \<lparr>de_host = host, de_owner = owner, de_name = name\<rparr>) (parseOwnerAndName path)"

definition parseRepositoryDescriptor :: "url_parser \<Rightarrow> string \<Rightarrow> descriptor option" where
  "parseRepositoryDescriptor url raw =
     (case normalizeOptionalString (Some raw) of
        None \<Rightarrow> None
      | Some trimmed \<Rightarrow>
          let stripped = stripKnownPrefix trimmed
          in case parseScpLike stripped of
               Some (host, path) \<Rightarrow> describe host path
             | None \<Rightarrow> (case parseAsUrl url stripped of
                   Some (host, path) \<Rightarrow> describe host path
                 | None \<Rightarrow> describe None stripped))"

definition repo_id_of :: "descriptor \<Rightarrow> string" where
  "repo_id_of d = (case de_owner d of None \<Rightarrow> de_name d | Some owner \<Rightarrow> owner @ ''/'' @ de_name d)"

definition normalizeRepositoryId :: "url_parser \<Rightarrow> string option \<Rightarrow> string option" where
  "normalizeRepositoryId url raw = map_option repo_id_of (parseRepositoryDescriptor url (or_empty raw))"

definition parseRepoNameFromRepoId :: "url_parser \<Rightarrow> string option \<Rightarrow> string option \<times> string option" where
  "parseRepoNameFromRepoId url repoId =
     (case Option.bind repoId (\<lambda>r. if r = [] then None else parseRepositoryDescriptor url r) of
        None \<Rightarrow> (None, None)
      | Some d \<Rightarrow> (de_owner d, Some (de_name d)))"

text \<open>The loop stops when the limit, at least one, is reached.\<close>

definition normalizeCommitHashes :: "string list \<Rightarrow> int \<Rightarrow> string list" where
  "normalizeCommitHashes raw limit =
     take (nat limit) (dedupe (filter commit_hash_pattern (map (\<lambda>s. to_lower (js_trim s)) raw)))"

definition parseRecentCommits :: "json option \<Rightarrow> int \<Rightarrow> string list" where
  "parseRecentCommits value limit =
     (case arr_opt value of
        None \<Rightarrow> []
      | Some entries \<Rightarrow> normalizeCommitHashes (List.map_filter (\<lambda>v. str_opt (Some v)) entries) limit)"

section \<open>The decision\<close>

definition hasRecentFastForwardLikeOverlap :: "string list \<Rightarrow> string list \<Rightarrow> bool" where
  "hasRecentFastForwardLikeOverlap localRecentCommits peerRecentCommits =
     (if localRecentCommits = [] \<or> peerRecentCommits = [] then False
      else let localSet = dedupe (map to_lower localRecentCommits); peerSet = dedupe (map to_lower peerRecentCommits);
               localHead = to_lower (hd localRecentCommits); peerHead = to_lower (hd peerRecentCommits)
        in if localHead \<noteq> [] \<and> localHead \<in> set peerSet then True
           else if peerHead \<noteq> [] \<and> peerHead \<in> set localSet then True
           else list_ex (\<lambda>c. c \<in> set peerSet) localSet)"

abbreviation known :: "string option \<Rightarrow> bool" where
  "known s \<equiv> s \<noteq> None \<and> s \<noteq> Some []"

definition decideRepositoryCompatibility :: "url_parser \<Rightarrow> identity \<Rightarrow> identity option \<Rightarrow> bool \<times> decision_reason" where
  "decideRepositoryCompatibility url local peer =
     (if \<not> known (id_name local) then (True, Local_repository_unknown)
      else case peer of
          None \<Rightarrow> (False, Peer_repository_unknown)
        | Some p \<Rightarrow>
            if \<not> known (id_name p) then (False, Peer_repository_unknown)
            else if id_name local \<noteq> id_name p then (False, Repository_name_mismatch)
            else let localRepoId = normalizeRepositoryId url (id_repoId local); peerRepoId = normalizeRepositoryId url (id_repoId p)
              in if known localRepoId \<and> known peerRepoId \<and> localRepoId = peerRepoId then (True, Exact_repo_id)
                 else if hasRecentFastForwardLikeOverlap (id_recentCommits local) (id_recentCommits p)
                 then (True, Recent_commit_overlap) else (False, No_recent_fast_forward))"

definition parseRepositoryFromDiscoveryBody :: "url_parser \<Rightarrow> json \<Rightarrow> js_num \<Rightarrow> identity option" where
  "parseRepositoryFromDiscoveryBody url body commitWindow =
     (let container = (case obj_opt (jprop body ''repository'') of Some c \<Rightarrow> c | None \<Rightarrow> body);
          repoId = normalizeRepositoryId url (str_opt (jprop container ''repo_id''));
          ownerField = normalizeToken (str_opt (jprop container ''owner''));
          nameField = normalizeToken (str_opt (jprop container ''name''));
          commits = parseRecentCommits (jprop container ''recent_commits'') (normalizeCommitWindow commitWindow);
          from_id = parseRepoNameFromRepoId url repoId;
          owner = (if ownerField = None then fst from_id else ownerField);
          name = (if nameField = None then snd from_id else nameField)
      in if repoId = None \<and> owner = None \<and> name = None \<and> commits = [] then None
         else Some \<lparr>id_repoId = repoId, id_owner = owner, id_name = name, id_recentCommits = commits\<rparr>)"

section \<open>The local identity\<close>

definition split_spaces :: "string \<Rightarrow> string list" where
  "split_spaces s = filter (\<lambda>w. w \<noteq> []) (split_on (CHR '' '') (map (\<lambda>c. if is_space c then CHR '' '' else c) s))"

definition parseCommitLines :: "string option \<Rightarrow> int \<Rightarrow> string list" where
  "parseCommitLines raw limit = (case raw of None \<Rightarrow> [] | Some s \<Rightarrow> normalizeCommitHashes (split_spaces s) limit)"

record resolve_options =
  ro_explicitRepoId :: "string option"
  ro_explicitOriginUrl :: "string option"
  ro_explicitRecentCommits :: "string list"
  ro_commitWindow :: js_num

definition resolveLocalRepositoryIdentity ::
    "url_parser \<Rightarrow> (string list \<Rightarrow> string option) \<Rightarrow> resolve_options \<Rightarrow> identity" where
  "resolveLocalRepositoryIdentity url runGitCommand o' =
     (let commitWindow = normalizeCommitWindow (ro_commitWindow o');
          explicitRepoId = normalizeOptionalString (ro_explicitRepoId o');
          explicitOriginUrl = normalizeOptionalString (ro_explicitOriginUrl o');
          descriptor0 = Option.bind explicitRepoId (parseRepositoryDescriptor url);
          repoId0 = normalizeRepositoryId url explicitRepoId;
          origin = (case explicitOriginUrl of Some u \<Rightarrow> Some u | None \<Rightarrow> runGitCommand [''config'', ''--get'', ''remote.origin.url'']);
          descriptor = (case descriptor0 of
              Some d \<Rightarrow> Some d
            | None \<Rightarrow> Option.bind origin (\<lambda>u. if u = [] then None else parseRepositoryDescriptor url u));
          repoId = (if repoId0 \<noteq> None then repoId0
                    else if descriptor0 = None then map_option repo_id_of descriptor else None);
          explicitCommits = normalizeCommitHashes (ro_explicitRecentCommits o') commitWindow;
          recentCommits = (if explicitCommits \<noteq> [] then explicitCommits
            else parseCommitLines (runGitCommand [''rev-list'', ''--max-count='' @ int_str commitWindow, ''HEAD'']) commitWindow);
          parsedFromId = parseRepoNameFromRepoId url repoId
      in \<lparr>id_repoId = repoId,
          id_owner = (case Option.bind descriptor de_owner of Some owner \<Rightarrow> Some owner | None \<Rightarrow> fst parsedFromId),
          id_name = (case map_option de_name descriptor of Some name \<Rightarrow> Some name | None \<Rightarrow> snd parsedFromId),
          id_recentCommits = recentCommits\<rparr>)"

section \<open>The decision is an agreement\<close>

lemma overlap_iff:
  "hasRecentFastForwardLikeOverlap xs ys \<longleftrightarrow> to_lower ` set xs \<inter> to_lower ` set ys \<noteq> {}"
proof (cases "xs = [] \<or> ys = []")
  case False
  define L and P where "L = to_lower ` set xs" and "P = to_lower ` set ys"
  have heads: "to_lower (hd xs) \<in> L" "to_lower (hd ys) \<in> P"
    using False by (simp_all add: L_def P_def)
  have "hasRecentFastForwardLikeOverlap xs ys \<longleftrightarrow>
          to_lower (hd xs) \<noteq> [] \<and> to_lower (hd xs) \<in> P \<or> to_lower (hd ys) \<noteq> [] \<and> to_lower (hd ys) \<in> L \<or> (\<exists>c\<in>L. c \<in> P)"
    using False by (simp add: hasRecentFastForwardLikeOverlap_def Let_def list_ex_iff L_def P_def)
  then show ?thesis using heads unfolding L_def [symmetric] P_def [symmetric] by blast
qed (auto simp: hasRecentFastForwardLikeOverlap_def)

lemma overlap_commute: "hasRecentFastForwardLikeOverlap xs ys = hasRecentFastForwardLikeOverlap ys xs"
  by (simp add: overlap_iff Int_commute)

lemma commits_bounded: "length (normalizeCommitHashes raw limit) \<le> nat limit"
  by (simp add: normalizeCommitHashes_def)

lemma commits_normal:
  assumes "c \<in> set (normalizeCommitHashes raw limit)"
  shows "commit_hash_pattern c \<and> c \<in> to_lower ` js_trim ` set raw"
  using set_take_subset [of "nat limit"] assms unfolding normalizeCommitHashes_def
  by (fastforce dest: in_set_takeD)

text \<open>
  Whether two relays exchange messages is an agreement. When both know the name of their
  repository, the decision of one about the other is the decision of the other about the one, with the same
  reason; and the exchange happens exactly when the names are the same and either both repository ids
  normalise to the same text or some commit, read in lower case, is recent on both sides.
\<close>

theorem affinity_is_an_agreement:
  assumes "known (id_name a)" and "known (id_name b)"
  shows "decideRepositoryCompatibility url a (Some b) = decideRepositoryCompatibility url b (Some a) \<and>
         (fst (decideRepositoryCompatibility url a (Some b)) \<longleftrightarrow>
           id_name a = id_name b \<and>
           (known (normalizeRepositoryId url (id_repoId a)) \<and>
              normalizeRepositoryId url (id_repoId a) = normalizeRepositoryId url (id_repoId b) \<or>
            to_lower ` set (id_recentCommits a) \<inter> to_lower ` set (id_recentCommits b) \<noteq> {}))"
  using assms overlap_commute [of "id_recentCommits a" "id_recentCommits b"]
  by (auto simp: decideRepositoryCompatibility_def Let_def overlap_iff)

theorem affinity_is_an_agreement_witness:
  "let a = \<lparr>id_repoId = None, id_owner = None, id_name = Some ''bit'', id_recentCommits = [''abcdef0'']\<rparr>;
       b = \<lparr>id_repoId = None, id_owner = None, id_name = Some ''bit'', id_recentCommits = [''0000000'', ''ABCDEF0'']\<rparr>
   in decideRepositoryCompatibility (\<lambda>_. None) a (Some b) = decideRepositoryCompatibility (\<lambda>_. None) b (Some a) \<and>
      fst (decideRepositoryCompatibility (\<lambda>_. None) a (Some b))"
proof -
  define a where "a = \<lparr>id_repoId = None, id_owner = None, id_name = Some ''bit'', id_recentCommits = [''abcdef0'']\<rparr>"
  define b where
    "b = \<lparr>id_repoId = None, id_owner = None, id_name = Some ''bit'', id_recentCommits = [''0000000'', ''ABCDEF0'']\<rparr>"
  have names: "known (id_name a)" "known (id_name b)" by (simp_all add: a_def b_def)
  have common: "to_lower ''ABCDEF0'' = to_lower ''abcdef0''" by code_simp
  then have "to_lower ''abcdef0'' \<in> to_lower ` set (id_recentCommits a) \<inter> to_lower ` set (id_recentCommits b)"
    by (simp add: a_def b_def)
  then show ?thesis
    using affinity_is_an_agreement [of a b "\<lambda>_. None", OF names] unfolding a_def [symmetric] b_def [symmetric] Let_def
    by (auto simp: a_def b_def)
qed

end
