(* ===== verification/Cache_Sync.thy ===== *)
theory Cache_Sync
  imports Cache_Exchange
begin

text \<open>
  The worker that pulls from the peers and pushes into the local relay (\<open>src/cache_sync_worker.ts\<close>). The
  two callbacks of its options are parameters that thread a state of their own; each may fail. A round is
  run as a whole by \<open>syncOnce\<close>, and as the events of its promises by \<open>sync_step\<close>, where a second call may
  come while a round is under way.
\<close>

record pull_result =
  pl_entries :: "json list"
  pl_nextCursor :: js_num

record 's sync_options =
  so_peers :: "string list"
  so_limit :: "js_num option"
  so_pullFromPeer :: "string \<Rightarrow> int \<Rightarrow> int \<Rightarrow> 's \<Rightarrow> pull_result option \<times> 's"
  so_pushToLocal :: "string \<Rightarrow> json list \<Rightarrow> 's \<Rightarrow> bool \<times> 's"

record sync_summary =
  sy_skipped :: bool
  sy_processedPeers :: int
  sy_pulledEntries :: int
  sy_pushedEntries :: int
  sy_failedPeers :: "string list"

type_synonym cursors = "(string, int) omap"

section \<open>Normalisation\<close>

definition DEFAULT_SYNC_LIMIT :: int where
  "DEFAULT_SYNC_LIMIT = 200"

definition normalizeSyncLimit :: "js_num option \<Rightarrow> int" where
  "normalizeSyncLimit raw = (case raw of Some (Fin r) \<Rightarrow> max 1 (rtrunc r) | _ \<Rightarrow> DEFAULT_SYNC_LIMIT)"

definition normalizePeers :: "string list \<Rightarrow> string list" where
  "normalizePeers raw = dedupe (filter (\<lambda>s. s \<noteq> []) (map js_trim raw))"

definition toCursor :: "js_num \<Rightarrow> int \<Rightarrow> int" where
  "toCursor value fallback = (case value of Fin r \<Rightarrow> max 0 (rtrunc r) | _ \<Rightarrow> fallback)"

section \<open>A round\<close>

definition initial_cursors :: "string list \<Rightarrow> cursors" where
  "initial_cursors peers = map (\<lambda>peer. (peer, 0)) peers"

definition cursorFor :: "cursors \<Rightarrow> string \<Rightarrow> int" where
  "cursorFor cs peer = (case map_of cs peer of Some c \<Rightarrow> c | None \<Rightarrow> 0)"

definition skipped_summary :: sync_summary where
  "skipped_summary =
     \<lparr>sy_skipped = True, sy_processedPeers = 0, sy_pulledEntries = 0, sy_pushedEntries = 0, sy_failedPeers = []\<rparr>"

definition empty_summary :: sync_summary where
  "empty_summary =
     \<lparr>sy_skipped = False, sy_processedPeers = 0, sy_pulledEntries = 0, sy_pushedEntries = 0, sy_failedPeers = []\<rparr>"

definition peer_failed :: "string \<Rightarrow> sync_summary \<Rightarrow> sync_summary" where
  "peer_failed peer s = s\<lparr>sy_failedPeers := sy_failedPeers s @ [peer]\<rparr>"

text \<open>A push that fails has counted nothing; the cursor moves after the push alone.\<close>

definition peer_done :: "string \<Rightarrow> int \<Rightarrow> pull_result \<Rightarrow> cursors \<times> sync_summary \<Rightarrow> cursors \<times> sync_summary" where
  "peer_done peer after pulled cs_s =
     (let entries = pl_entries pulled; n = int (length entries); s = snd cs_s
      in (AList.update peer (max after (toCursor (pl_nextCursor pulled) after)) (fst cs_s),
          s\<lparr>sy_processedPeers := sy_processedPeers s + 1, sy_pulledEntries := sy_pulledEntries s + n,
            sy_pushedEntries := sy_pushedEntries s + n\<rparr>))"

definition sync_peer :: "'s sync_options \<Rightarrow> string \<Rightarrow> cursors \<times> sync_summary \<Rightarrow> 's \<Rightarrow> (cursors \<times> sync_summary) \<times> 's" where
  "sync_peer o' peer cs_s st =
     (let after = cursorFor (fst cs_s) peer
      in case so_pullFromPeer o' peer after (normalizeSyncLimit (so_limit o')) st of
           (None, st1) \<Rightarrow> ((fst cs_s, peer_failed peer (snd cs_s)), st1)
         | (Some pulled, st1) \<Rightarrow>
             if pl_entries pulled = [] then (peer_done peer after pulled cs_s, st1)
             else case so_pushToLocal o' peer (pl_entries pulled) st1 of
                 (True, st2) \<Rightarrow> (peer_done peer after pulled cs_s, st2)
               | (False, st2) \<Rightarrow> ((fst cs_s, peer_failed peer (snd cs_s)), st2))"

fun sync_peers :: "'s sync_options \<Rightarrow> string list \<Rightarrow> cursors \<times> sync_summary \<Rightarrow> 's \<Rightarrow> (cursors \<times> sync_summary) \<times> 's" where
  "sync_peers o' [] cs_s st = (cs_s, st)"
| "sync_peers o' (peer # peers) cs_s st =
     (let res = sync_peer o' peer cs_s st in sync_peers o' peers (fst res) (snd res))"

definition syncOnce :: "'s sync_options \<Rightarrow> cursors \<Rightarrow> 's \<Rightarrow> (cursors \<times> sync_summary) \<times> 's" where
  "syncOnce o' cs st = sync_peers o' (normalizePeers (so_peers o')) (cs, empty_summary) st"

section \<open>Calls that overlap\<close>

text \<open>A round under way holds the peers still to visit and its summary.\<close>

record worker =
  wk_cursors :: cursors
  wk_inFlight :: "(string list \<times> sync_summary) option"
  wk_answers :: "sync_summary list"

datatype sync_event = Sync_called | Sync_peer_settled

definition createCacheSyncWorker :: "'s sync_options \<Rightarrow> worker" where
  "createCacheSyncWorker o' =
     \<lparr>wk_cursors = initial_cursors (normalizePeers (so_peers o')), wk_inFlight = None, wk_answers = []\<rparr>"

text \<open>\<open>finally\<close>: the round ends when no peer is left.\<close>

definition settle_round :: "string list \<Rightarrow> sync_summary \<Rightarrow> worker \<Rightarrow> worker" where
  "settle_round peers s w =
     (if peers = [] then w\<lparr>wk_inFlight := None, wk_answers := wk_answers w @ [s]\<rparr>
      else w\<lparr>wk_inFlight := Some (peers, s)\<rparr>)"

fun sync_step :: "'s sync_options \<Rightarrow> sync_event \<Rightarrow> worker \<times> 's \<Rightarrow> worker \<times> 's" where
  "sync_step o' Sync_called (w, st) =
     (case wk_inFlight w of
        Some _ \<Rightarrow> (w\<lparr>wk_answers := wk_answers w @ [skipped_summary]\<rparr>, st)
      | None \<Rightarrow> (settle_round (normalizePeers (so_peers o')) empty_summary w, st))"
| "sync_step o' Sync_peer_settled (w, st) =
     (case wk_inFlight w of
        Some (peer # peers, s) \<Rightarrow>
          let res = sync_peer o' peer (wk_cursors w, s) st
          in (settle_round peers (snd (fst res)) (w\<lparr>wk_cursors := fst (fst res)\<rparr>), snd res)
      | _ \<Rightarrow> (w, st))"

section \<open>Facts\<close>

lemma normalizeSyncLimit_pos: "1 \<le> normalizeSyncLimit raw"
  by (simp add: normalizeSyncLimit_def DEFAULT_SYNC_LIMIT_def split: option.split js_num.split)

lemma cursorFor_update [simp]:
  "cursorFor (AList.update p c cs) q = (if q = p then c else cursorFor cs q)"
  by (simp add: cursorFor_def update_conv')

lemma sync_peer_cursor:
  "cursorFor (fst (fst (sync_peer o' peer cs_s st))) q = (if q = peer then cursorFor (fst (fst (sync_peer o' peer cs_s st))) peer
     else cursorFor (fst cs_s) q)"
  "cursorFor (fst cs_s) q \<le> cursorFor (fst (fst (sync_peer o' peer cs_s st))) q"
  by (auto simp: sync_peer_def peer_done_def Let_def split: prod.split option.split bool.split)

text \<open>Every peer of a round is accounted for once, and a peer that failed keeps its cursor.\<close>

lemma sync_peer_summary:
  assumes "sync_peer o' peer (cs, s) st = ((cs', s'), st')"
  shows "sy_processedPeers s' + int (length (sy_failedPeers s')) = sy_processedPeers s + int (length (sy_failedPeers s)) + 1"
    and "sy_failedPeers s' = sy_failedPeers s @ (if sy_processedPeers s' = sy_processedPeers s then [peer] else [])"
    and "sy_processedPeers s' = sy_processedPeers s \<Longrightarrow> cs' = cs"
    and "sy_pulledEntries s' - sy_pulledEntries s = sy_pushedEntries s' - sy_pushedEntries s"
    and "sy_skipped s' = sy_skipped s"
  using assms
  by (auto simp: sync_peer_def peer_done_def peer_failed_def Let_def split: prod.splits option.splits bool.splits if_splits)

definition round_accounted :: "string list \<Rightarrow> cursors \<times> sync_summary \<Rightarrow> cursors \<times> sync_summary \<Rightarrow> bool" where
  "round_accounted ps before after \<longleftrightarrow>
     (\<forall>q. cursorFor (fst before) q \<le> cursorFor (fst after) q) \<and>
     (\<forall>q. q \<notin> set ps \<longrightarrow> cursorFor (fst after) q = cursorFor (fst before) q) \<and>
     (\<exists>fs. sy_failedPeers (snd after) = sy_failedPeers (snd before) @ fs \<and> set fs \<subseteq> set ps \<and> distinct fs \<and>
        (\<forall>p\<in>set fs. cursorFor (fst after) p = cursorFor (fst before) p) \<and>
        sy_processedPeers (snd after) + int (length fs) = sy_processedPeers (snd before) + int (length ps)) \<and>
     sy_pulledEntries (snd after) - sy_pulledEntries (snd before) = sy_pushedEntries (snd after) - sy_pushedEntries (snd before) \<and>
     sy_skipped (snd after) = sy_skipped (snd before)"

lemma sync_peer_accounted: "round_accounted [p] cs_s (fst (sync_peer o' p cs_s st))"
proof -
  define r where "r = fst (sync_peer o' p cs_s st)"
  have "sync_peer o' p (fst cs_s, snd cs_s) st = ((fst r, snd r), snd (sync_peer o' p cs_s st))" by (simp add: r_def)
  note sum = sync_peer_summary [OF this]
  have other: "cursorFor (fst r) q = cursorFor (fst cs_s) q" if "q \<noteq> p" for q
    using that unfolding r_def by (subst sync_peer_cursor(1)) simp
  have mono: "cursorFor (fst cs_s) q \<le> cursorFor (fst r) q" for q
    unfolding r_def by (rule sync_peer_cursor(2))
  show ?thesis unfolding r_def [symmetric]
    using sum other mono by (auto simp: round_accounted_def)
qed

lemma round_accounted_trans:
  assumes "round_accounted ps x y" "round_accounted qs y z" "set ps \<inter> set qs = {}"
  shows "round_accounted (ps @ qs) x z"
proof -
  obtain fs gs where f: "sy_failedPeers (snd y) = sy_failedPeers (snd x) @ fs" "set fs \<subseteq> set ps" "distinct fs"
      "\<forall>p\<in>set fs. cursorFor (fst y) p = cursorFor (fst x) p"
      "sy_processedPeers (snd y) + int (length fs) = sy_processedPeers (snd x) + int (length ps)"
    and g: "sy_failedPeers (snd z) = sy_failedPeers (snd y) @ gs" "set gs \<subseteq> set qs" "distinct gs"
      "\<forall>p\<in>set gs. cursorFor (fst z) p = cursorFor (fst y) p"
      "sy_processedPeers (snd z) + int (length gs) = sy_processedPeers (snd y) + int (length qs)"
    using assms(1,2) unfolding round_accounted_def by blast
  have keep: "q \<notin> set ps \<Longrightarrow> cursorFor (fst y) q = cursorFor (fst x) q"
    "q \<notin> set qs \<Longrightarrow> cursorFor (fst z) q = cursorFor (fst y) q" for q
    using assms(1,2) by (simp_all add: round_accounted_def)
  have mono: "cursorFor (fst x) q \<le> cursorFor (fst z) q" for q
    using assms(1,2) unfolding round_accounted_def by (meson order_trans)
  have "sy_failedPeers (snd z) = sy_failedPeers (snd x) @ (fs @ gs)" using f(1) g(1) by simp
  moreover have "set (fs @ gs) \<subseteq> set (ps @ qs)" "distinct (fs @ gs)"
    using f(2,3) g(2,3) assms(3) by auto
  moreover have "\<forall>p\<in>set (fs @ gs). cursorFor (fst z) p = cursorFor (fst x) p"
    using f(2,4) g(2,4) keep assms(3) by (metis (no_types, lifting) IntI Un_iff empty_iff set_append subsetD)
  moreover have "sy_processedPeers (snd z) + int (length (fs @ gs)) = sy_processedPeers (snd x) + int (length (ps @ qs))"
    using f(5) g(5) by simp
  ultimately show ?thesis
    unfolding round_accounted_def
    using keep mono assms(1,2) [unfolded round_accounted_def] by auto
qed

lemma round_accounted_refl: "round_accounted [] x x"
  by (simp add: round_accounted_def)

lemma sync_peers_accounted:
  "distinct ps \<Longrightarrow> round_accounted ps cs_s (fst (sync_peers o' ps cs_s st))"
proof (induction ps arbitrary: cs_s st)
  case (Cons p ps)
  have "round_accounted ps (fst (sync_peer o' p cs_s st)) (fst (sync_peers o' (p # ps) cs_s st))"
    using Cons by (simp add: Let_def)
  with sync_peer_accounted [of p cs_s o' st] show ?case
    using round_accounted_trans [of "[p]" _ _ ps] Cons.prems by simp
qed (simp add: round_accounted_refl)

lemma normalizePeers_distinct: "distinct (normalizePeers raw)"
  by (simp add: normalizePeers_def)


text \<open>Two peers, one of which cannot be reached, and a local relay that takes everything.\<close>

definition demo_sync :: "nat sync_options" where
  "demo_sync =
     \<lparr>so_peers = ['' a '', ''b'', ''a''], so_limit = None,
      so_pullFromPeer = (\<lambda>peer after limit st.
        if peer = ''a'' then (None, st) else (Some \<lparr>pl_entries = [JNull], pl_nextCursor = Fin (of_int (after + 1))\<rparr>, st)),
      so_pushToLocal = (\<lambda>peer entries st. (True, st + length entries))\<rparr>"

lemma demo_sync_peers: "normalizePeers (so_peers demo_sync) = [''a'', ''b'']"
  by (simp add: demo_sync_def normalizePeers_def js_trim_def is_space_def dedupe_def set_add_def)

lemma demo_sync_round:
  "syncOnce demo_sync (initial_cursors [''a'', ''b'']) 0 =
     (([(''a'', 0), (''b'', 1)],
       \<lparr>sy_skipped = False, sy_processedPeers = 1, sy_pulledEntries = 1, sy_pushedEntries = 1, sy_failedPeers = [''a'']\<rparr>), 1)"
  unfolding syncOnce_def demo_sync_peers
  by (simp add: sync_peer_def peer_done_def peer_failed_def demo_sync_def initial_cursors_def cursorFor_def
      empty_summary_def toCursor_def rtrunc_def Let_def)


section \<open>Overlapping calls\<close>

text \<open>While a round is under way, the settled peers are those of \<open>sync_peers\<close>, and calls only add answers.\<close>

definition round_ended :: "(cursors \<times> sync_summary) \<times> 's \<Rightarrow> nat \<Rightarrow> worker \<Rightarrow> worker" where
  "round_ended r others w =
     \<lparr>wk_cursors = fst (fst r), wk_inFlight = None,
      wk_answers = wk_answers w @ replicate others skipped_summary @ [snd (fst r)]\<rparr>"

lemma round_ended_after:
  "round_ended r n (w\<lparr>wk_answers := wk_answers w @ [skipped_summary]\<rparr>) = round_ended r (Suc n) w"
  by (simp add: round_ended_def)

lemma calls_during_round:
  assumes "wk_inFlight w = Some (ps, s)" and "ps \<noteq> []"
    and "length (filter (\<lambda>e. e = Sync_peer_settled) es) = length ps" and "es \<noteq> []" and "last es = Sync_peer_settled"
  shows "foldl (\<lambda>c e. sync_step o' e c) (w, st) es =
    (round_ended (sync_peers o' ps (wk_cursors w, s) st) (length (filter (\<lambda>e. e = Sync_called) es)) w,
     snd (sync_peers o' ps (wk_cursors w, s) st))"
  using assms
proof (induction es arbitrary: w ps s st)
  case (Cons e es)
  obtain p qs where ps: "ps = p # qs" using Cons.prems(2) by (cases ps) auto
  show ?case
  proof (cases e)
    case Sync_called
    define w1 where "w1 = w\<lparr>wk_answers := wk_answers w @ [skipped_summary]\<rparr>"
    have step: "sync_step o' e (w, st) = (w1, st)"
      using Cons.prems(1) by (simp add: Sync_called w1_def)
    have same: "wk_cursors w1 = wk_cursors w" by (simp add: w1_def)
    have es: "es \<noteq> []" "last es = Sync_peer_settled"
      using Cons.prems(3-5) ps Sync_called by (auto split: if_splits)
    have "wk_inFlight w1 = Some (ps, s)" using Cons.prems(1) by (simp add: w1_def)
    moreover have "length (filter (\<lambda>e. e = Sync_peer_settled) es) = length ps"
      using Cons.prems(3) Sync_called by simp
    ultimately have "foldl (\<lambda>c e. sync_step o' e c) (w1, st) es =
        (round_ended (sync_peers o' ps (wk_cursors w, s) st) (length (filter (\<lambda>e. e = Sync_called) es)) w1,
         snd (sync_peers o' ps (wk_cursors w, s) st))"
      using Cons.IH [of w1 ps s st] Cons.prems(2) es same by simp
    then show ?thesis unfolding foldl_Cons step by (simp add: Sync_called w1_def round_ended_after)
  next
    case Sync_peer_settled
    define r where "r = sync_peer o' p (wk_cursors w, s) st"
    define w1 where "w1 = settle_round qs (snd (fst r)) (w\<lparr>wk_cursors := fst (fst r)\<rparr>)"
    have step: "sync_step o' e (w, st) = (w1, snd r)"
      using Cons.prems(1) by (simp add: Sync_peer_settled ps r_def w1_def Let_def)
    show ?thesis
    proof (cases "qs = []")
      case True
      then have none: "filter (\<lambda>e. e = Sync_peer_settled) es = []"
        using Cons.prems(3) ps Sync_peer_settled by simp
      have "es = []"
      proof (rule ccontr)
        assume "es \<noteq> []"
        then have "last es = Sync_peer_settled" using Cons.prems(5) by simp
        then have "Sync_peer_settled \<in> set es" using last_in_set [OF \<open>es \<noteq> []\<close>] by simp
        then show False using none unfolding filter_empty_conv by blast
      qed
      moreover have "w1 = round_ended r 0 w"
        by (simp add: w1_def True settle_round_def round_ended_def)
      moreover have "sync_peers o' ps (wk_cursors w, s) st = r" by (simp add: ps True r_def)
      ultimately show ?thesis unfolding foldl_Cons step by (simp add: Sync_peer_settled)
    next
      case False
      have some: "es \<noteq> []" using Cons.prems(3) ps Sync_peer_settled False by auto
      then have es: "es \<noteq> []" "last es = Sync_peer_settled" using Cons.prems(5) by simp_all
      have w1: "wk_inFlight w1 = Some (qs, snd (fst r))" "wk_cursors w1 = fst (fst r)" "wk_answers w1 = wk_answers w"
        using False by (simp_all add: w1_def settle_round_def)
      have "length (filter (\<lambda>e. e = Sync_peer_settled) es) = length qs"
        using Cons.prems(3) ps Sync_peer_settled by simp
      note rest = Cons.IH [OF w1(1) False this es, of "snd r"]
      have "sync_peers o' ps (wk_cursors w, s) st = sync_peers o' qs (wk_cursors w1, snd (fst r)) (snd r)"
        by (simp add: ps Let_def w1(2) r_def)
      moreover have "round_ended x n w1 = round_ended x n w" for x :: "(cursors \<times> sync_summary) \<times> 'a" and n
        by (simp add: round_ended_def w1(3))
      ultimately show ?thesis unfolding foldl_Cons step rest by (simp add: Sync_peer_settled)
    qed
  qed
qed simp

text \<open>
  Rounds never overlap: when the worker is called again, any number of times, while a round is
  under way, each of those calls is answered at once as skipped and changes nothing, and the round ends with
  the cursors, the summary and the effects it has when nobody else calls.
\<close>

theorem overlapping_rounds_are_skipped:
  assumes "wk_inFlight w = None" and "normalizePeers (so_peers o') \<noteq> []"
    and "length (filter (\<lambda>e. e = Sync_peer_settled) es) = length (normalizePeers (so_peers o'))"
    and "es \<noteq> []" and "last es = Sync_peer_settled"
  shows "foldl (\<lambda>c e. sync_step o' e c) (w, st) (Sync_called # es) =
    (let r = syncOnce o' (wk_cursors w) st; others = length (filter (\<lambda>e. e = Sync_called) es)
     in (\<lparr>wk_cursors = fst (fst r), wk_inFlight = None,
          wk_answers = wk_answers w @ replicate others skipped_summary @ [snd (fst r)]\<rparr>, snd r))"
proof -
  define w1 where "w1 = settle_round (normalizePeers (so_peers o')) empty_summary w"
  have w1: "wk_inFlight w1 = Some (normalizePeers (so_peers o'), empty_summary)" "wk_cursors w1 = wk_cursors w"
      "wk_answers w1 = wk_answers w"
    using assms(2) by (simp_all add: w1_def settle_round_def)
  have "sync_step o' Sync_called (w, st) = (w1, st)" using assms(1) by (simp add: w1_def)
  then have "foldl (\<lambda>c e. sync_step o' e c) (w, st) (Sync_called # es) =
      (round_ended (syncOnce o' (wk_cursors w) st) (length (filter (\<lambda>e. e = Sync_called) es)) w1,
       snd (syncOnce o' (wk_cursors w) st))"
    using calls_during_round [OF w1(1) assms(2-5), of o' st] by (simp add: w1(2) syncOnce_def)
  then show ?thesis by (simp add: round_ended_def w1(3) Let_def)
qed

theorem overlapping_rounds_are_skipped_witness:
  "wk_answers (fst (foldl (\<lambda>c e. sync_step demo_sync e c) (createCacheSyncWorker demo_sync, 0)
     [Sync_called, Sync_peer_settled, Sync_called, Sync_peer_settled])) =
   [skipped_summary, snd (fst (syncOnce demo_sync (wk_cursors (createCacheSyncWorker demo_sync)) 0))]"
proof -
  have none: "wk_inFlight (createCacheSyncWorker demo_sync) = None" "wk_answers (createCacheSyncWorker demo_sync) = []"
    by (simp_all add: createCacheSyncWorker_def)
  from overlapping_rounds_are_skipped [OF none(1), of "demo_sync" "[Sync_peer_settled, Sync_called, Sync_peer_settled]" 0]
  show ?thesis by (simp add: demo_sync_peers none(2) Let_def del: foldl_Cons foldl_Nil)
qed

end
