(* ===== verification/Git_Cache.thy ===== *)
theory Git_Cache
  imports Git_Session Cache_Store
begin

text \<open>
  The cache of git answers (\<open>src/git_cache_layer.ts\<close>): the key of a request, and the answers written to and
  read from a cache store. The digest \<open>sha\<close> is a parameter, a function on byte strings. A body has the bytes of
  its text; a JSON answer is written out with \<open>json_text\<close>.
\<close>

definition CACHE_HIT_HEADER :: string where
  "CACHE_HIT_HEADER = ''x-bit-relay-cache-hit''"

record git_cache_key =
  gk_kind :: string
  gk_key :: string
  gk_sessionId :: string
  gk_pathWithQuery :: string
  gk_requestHash :: string

section \<open>Keys\<close>

definition to_upper :: "string \<Rightarrow> string" where
  "to_upper s = map (\<lambda>c. if is_lower c then char_of (of_char c - 32 :: nat) else c) s"

text \<open>\<open>sessionId.replaceAll('/', '__')\<close>.\<close>

definition normalizeSessionId :: "string \<Rightarrow> string" where
  "normalizeSessionId sessionId = concat (map (\<lambda>c. if c = CHR ''/'' then ''__'' else [c]) sessionId)"

definition classifyKind :: "string \<Rightarrow> string" where
  "classifyKind gitPath = (if gitPath = ''/HEAD'' \<or> prefix ''/info/refs'' gitPath then ''ref'' else ''pack'')"

definition sha256HexBytes :: "(string \<Rightarrow> string) \<Rightarrow> string \<Rightarrow> string" where
  "sha256HexBytes sha bytes = bytes_hex (sha bytes)"

text \<open>The parameters that count: all but the session token, sorted by name.\<close>

definition cache_params :: "request \<Rightarrow> (string \<times> string) list" where
  "cache_params r = sort_key fst (filter (\<lambda>(k, _). k \<noteq> ''session_token'') (req_query r))"

definition canonicalizePathWithQuery :: "string \<Rightarrow> request \<Rightarrow> string" where
  "canonicalizePathWithQuery gitPath r =
     (let query = form_serialize (cache_params r) in if query \<noteq> [] then gitPath @ ''?'' @ query else gitPath)"

definition hashed_body :: "request \<Rightarrow> string" where
  "hashed_body r = (if to_upper (req_method r) \<in> {''POST'', ''PUT''} then req_text r else [])"

definition hash_input :: "(string \<Rightarrow> string) \<Rightarrow> request \<Rightarrow> string \<Rightarrow> string" where
  "hash_input sha r gitPath =
     join newline [to_upper (req_method r), canonicalizePathWithQuery gitPath r, sha256HexBytes sha (hashed_body r)]"

definition buildGitCacheKeyFromRequest :: "(string \<Rightarrow> string) \<Rightarrow> request \<Rightarrow> string \<Rightarrow> string \<Rightarrow> git_cache_key" where
  "buildGitCacheKeyFromRequest sha r sessionId gitPath =
     (let requestHash = sha256HexBytes sha (utf8 (hash_input sha r gitPath))
      in \<lparr>gk_kind = classifyKind gitPath, gk_key = ''git/'' @ normalizeSessionId sessionId @ ''/'' @ requestHash,
          gk_sessionId = sessionId, gk_pathWithQuery = canonicalizePathWithQuery gitPath r, gk_requestHash = requestHash\<rparr>)"

section \<open>Answers\<close>

definition response_bytes :: "(rat \<Rightarrow> string) \<Rightarrow> response \<Rightarrow> string" where
  "response_bytes ns resp = (case resp_body resp of NoBody \<Rightarrow> [] | TextBody s \<Rightarrow> s | JsonBody j \<Rightarrow> utf8 (json_text ns j))"

definition response_type :: "response \<Rightarrow> string option" where
  "response_type resp =
     (case resp_body resp of JsonBody _ \<Rightarrow> Some ''application/json'' | _ \<Rightarrow> map_of (resp_headers resp) ''content-type'')"

definition git_put :: "(string \<Rightarrow> string) \<Rightarrow> (rat \<Rightarrow> string) \<Rightarrow> git_cache_key \<Rightarrow> response \<Rightarrow> put_request" where
  "git_put sha ns cacheKey resp =
     (let body = response_bytes ns resp
      in \<lparr>pq_kind = gk_kind cacheKey, pq_key = gk_key cacheKey, pq_body = body, pq_room = Some ''git'',
          pq_ref = Some (gk_sessionId cacheKey), pq_contentHash = Some (sha256HexBytes sha body),
          pq_contentType = response_type resp, pq_updatedAt = None\<rparr>)"

definition writeGitCache ::
    "'s cache_store \<Rightarrow> (string \<Rightarrow> string) \<Rightarrow> (rat \<Rightarrow> string) \<Rightarrow> int \<Rightarrow> git_cache_key \<Rightarrow> response \<Rightarrow> 's \<Rightarrow> 's \<times> (string + unit)" where
  "writeGitCache cs sha ns nowSec cacheKey resp st =
     (if resp_status resp \<noteq> 200 then (st, Inr ()) else cs_put cs nowSec (git_put sha ns cacheKey resp) st)"

definition cached_response :: "store_object \<Rightarrow> response" where
  "cached_response obj =
     \<lparr>resp_status = 200,
      resp_headers =
        (case truthy (sm_contentType (so_metadata obj)) of Some t \<Rightarrow> [(''content-type'', t)] | None \<Rightarrow> []) @
        [(CACHE_HIT_HEADER, ''1'')],
      resp_body = TextBody (so_body obj)\<rparr>"

definition readGitCache ::
    "'s cache_store \<Rightarrow> int \<Rightarrow> git_cache_key \<Rightarrow> 's \<Rightarrow> 's \<times> (string + response option)" where
  "readGitCache cs nowSec cacheKey st =
     (let res = cs_get cs nowSec (gk_kind cacheKey) (gk_key cacheKey) st
      in (fst res, case snd res of Inl err \<Rightarrow> Inl err | Inr found \<Rightarrow> Inr (map_option cached_response found)))"

text \<open>The safe variants report an error and go on as if the cache were empty.\<close>

definition safeWriteGitCache ::
    "'s cache_store \<Rightarrow> (string \<Rightarrow> string) \<Rightarrow> (rat \<Rightarrow> string) \<Rightarrow> int \<Rightarrow> git_cache_key \<Rightarrow> response \<Rightarrow> 's \<Rightarrow> 's \<times> string list" where
  "safeWriteGitCache cs sha ns nowSec cacheKey resp st =
     (let res = writeGitCache cs sha ns nowSec cacheKey resp st
      in (fst res, case snd res of Inl err \<Rightarrow> [err] | Inr _ \<Rightarrow> []))"

definition safeReadGitCache ::
    "'s cache_store \<Rightarrow> int \<Rightarrow> git_cache_key \<Rightarrow> 's \<Rightarrow> 's \<times> response option \<times> string list" where
  "safeReadGitCache cs nowSec cacheKey st =
     (let res = readGitCache cs nowSec cacheKey st
      in (fst res, case snd res of Inl err \<Rightarrow> (None, [err]) | Inr found \<Rightarrow> (found, [])))"

section \<open>What a key binds\<close>

lemma bytes_hex_inj: "bytes_hex a = bytes_hex b \<Longrightarrow> a = b"
proof (induction a arbitrary: b)
  case Nil
  then show ?case by (cases b) (simp_all add: bytes_hex_def)
next
  case (Cons c a)
  obtain d b' where b: "b = d # b'" using Cons.prems by (cases b) (simp_all add: bytes_hex_def)
  have small: "(of_char x :: nat) div 16 < 16" "(of_char x :: nat) mod 16 < 16" for x :: char
    using nat_of_char_less_256 [of x] by (simp_all add: less_mult_imp_div_less del: nat_of_char_less_256)
  have "hex_digit (of_char c div 16) = hex_digit (of_char d div 16)" "hex_digit (of_char c mod 16) = hex_digit (of_char d mod 16)"
    and rest: "bytes_hex a = bytes_hex b'"
    using Cons.prems by (simp_all add: b bytes_hex_def)
  then have "(of_char c :: nat) div 16 = of_char d div 16" "(of_char c :: nat) mod 16 = of_char d mod 16"
    using small hex_of_hex_digit by (metis option.inject)+
  then have "(of_char c :: nat) = of_char d"
    by (metis mult_div_mod_eq)
  then show ?case using Cons.IH [OF rest] b by (simp add: of_char_eq_iff)
qed

lemma hex_digit_plain: "d < 16 \<Longrightarrow> hex_digit d \<noteq> CHR ''/'' \<and> hex_digit d \<noteq> CHR 0x0A"
  using hex_of_hex_digit [of d] by (auto simp: hex_of_def is_digit_def Let_def)

lemma bytes_hex_chars: "c \<in> set (bytes_hex bs) \<Longrightarrow> c \<noteq> CHR ''/'' \<and> c \<noteq> CHR 0x0A"
  using hex_digit_plain [OF less_mult_imp_div_less [of "of_char _" 16 16]] hex_digit_plain [of "of_char _ mod 16"]
  by (auto simp: bytes_hex_def)

lemma utf8_inj: "utf8 a = utf8 b \<Longrightarrow> a = b"
  by (metis option.inject utf8_decode_utf8)

lemma points_inj: "points a = points b \<longleftrightarrow> a = b"
  by (intro iffI map_injective [where f = of_char] injI) (auto simp: of_char_eq_iff)

lemma form_serialize_inj: "form_serialize q = form_serialize q' \<Longrightarrow> q = q'"
proof -
  assume "form_serialize q = form_serialize q'"
  then have "map (\<lambda>(k, v). (points k, points v)) q = map (\<lambda>(k, v). (points k, points v)) q'"
    by (metis form_parse_serialize)
  then show "q = q'"
    by (rule map_injective) (auto simp: inj_def points_inj)
qed

text \<open>Without underscores, the text of a session id can be read back from the name in the key.\<close>

lemma normalizeSessionId_Cons:
  "normalizeSessionId (c # cs) = (if c = CHR ''/'' then ''__'' else [c]) @ normalizeSessionId cs"
  by (simp add: normalizeSessionId_def)

lemma normalizeSessionId_slash: "CHR ''/'' \<notin> set (normalizeSessionId s)"
  by (auto simp: normalizeSessionId_def split: if_splits)

lemma normalizeSessionId_inj:
  "CHR ''_'' \<notin> set s \<Longrightarrow> CHR ''_'' \<notin> set s' \<Longrightarrow> normalizeSessionId s = normalizeSessionId s' \<Longrightarrow> s = s'"
proof (induction s arbitrary: s')
  case Nil
  then show ?case by (cases s') (simp_all add: normalizeSessionId_def split: if_splits)
next
  case (Cons c s)
  obtain d t where s': "s' = d # t"
    using Cons.prems(3) by (cases s') (simp_all add: normalizeSessionId_def split: if_splits)
  have "c = d \<and> normalizeSessionId s = normalizeSessionId t"
    using Cons.prems by (auto simp: s' normalizeSessionId_Cons split: if_splits)
  then show ?case using Cons by (simp add: s')
qed

lemma split_at_slash:
  assumes "CHR ''/'' \<notin> set a" "CHR ''/'' \<notin> set b" "a @ ''/'' @ x = b @ ''/'' @ y"
  shows "a = b \<and> x = y"
proof -
  have "takeWhile (\<lambda>c. c \<noteq> CHR ''/'') (w @ ''/'' @ z) = w" if "CHR ''/'' \<notin> set w" for w z
    using that by (subst takeWhile_append2) auto
  then have "a = b" using assms by metis
  then show ?thesis using assms(3) by simp
qed

lemma canonical_path_inj:
  assumes "CHR ''?'' \<notin> set p" "CHR ''?'' \<notin> set p'" "canonicalizePathWithQuery p r = canonicalizePathWithQuery p' r'"
  shows "p = p' \<and> cache_params r = cache_params r'"
proof -
  have path: "takeWhile (\<lambda>c. c \<noteq> CHR ''?'') (canonicalizePathWithQuery w q) = w" if "CHR ''?'' \<notin> set w" for w q
  proof -
    have "takeWhile (\<lambda>c. c \<noteq> CHR ''?'') (w @ z) = w @ takeWhile (\<lambda>c. c \<noteq> CHR ''?'') z" for z
      using that by (intro takeWhile_append2) auto
    then show ?thesis using that by (auto simp: canonicalizePathWithQuery_def Let_def takeWhile_eq_all_conv)
  qed
  then have eq: "p = p'" using assms by metis
  have "form_serialize (cache_params r) = form_serialize (cache_params r')"
    using assms(3) eq by (simp add: canonicalizePathWithQuery_def Let_def split: if_splits)
  then show ?thesis using eq form_serialize_inj by blast
qed

definition cacheable_request :: "request \<Rightarrow> string \<Rightarrow> string \<Rightarrow> bool" where
  "cacheable_request r sessionId gitPath \<longleftrightarrow>
     CHR ''_'' \<notin> set sessionId \<and> CHR ''?'' \<notin> set gitPath \<and> one_line gitPath \<and> one_line (to_upper (req_method r))"

lemma one_line_serialized: "one_line (form_serialize q)"
proof -
  have "one_line (form_text s)" for s
    using form_text_chars [of _ s] by (fastforce simp: one_line_def form_safe_def is_alnum_def is_digit_def is_lower_def is_upper_def)
  then show ?thesis
    unfolding form_serialize_def by (intro one_line_join) (auto simp: list_all_iff)
qed

text \<open>
  A key of the git cache binds the request it was made for. When the digest has no collisions,
  two requests to sessions whose ids hold no underscore get the same key only if they go to the same
  session, with the same method, the same path, the same parameters apart from the session token, and, for
  a POST or a PUT, the same body.
\<close>

theorem git_cache_key_binds_request:
  assumes "inj sha" "cacheable_request r s p" "cacheable_request r' s' p'"
    and "gk_key (buildGitCacheKeyFromRequest sha r s p) = gk_key (buildGitCacheKeyFromRequest sha r' s' p')"
  shows "s = s' \<and> to_upper (req_method r) = to_upper (req_method r') \<and> p = p' \<and>
    cache_params r = cache_params r' \<and> hashed_body r = hashed_body r'"
proof -
  have "normalizeSessionId s @ ''/'' @ sha256HexBytes sha (utf8 (hash_input sha r p)) =
      normalizeSessionId s' @ ''/'' @ sha256HexBytes sha (utf8 (hash_input sha r' p'))"
    using assms(4) by (simp add: buildGitCacheKeyFromRequest_def Let_def)
  from split_at_slash [OF normalizeSessionId_slash normalizeSessionId_slash this]
  have session: "s = s'" and hash: "hash_input sha r p = hash_input sha r' p'"
    using assms(2,3) normalizeSessionId_inj [of s s'] injD [OF assms(1)]
    by (auto simp: cacheable_request_def sha256HexBytes_def dest!: bytes_hex_inj utf8_inj)
  have lines: "list_all one_line [to_upper (req_method q), canonicalizePathWithQuery w q, sha256HexBytes sha (hashed_body q)]"
    if "cacheable_request q z w" for q z w
    using that one_line_serialized [of "cache_params q"] bytes_hex_chars
    by (auto simp: cacheable_request_def canonicalizePathWithQuery_def Let_def sha256HexBytes_def one_line_def)
  from join_lines_inj [OF hash [unfolded hash_input_def] _ _ lines [OF assms(2)] lines [OF assms(3)]]
  have upper: "to_upper (req_method r) = to_upper (req_method r')"
    and path: "canonicalizePathWithQuery p r = canonicalizePathWithQuery p' r'"
    and body: "sha256HexBytes sha (hashed_body r) = sha256HexBytes sha (hashed_body r')" by simp_all
  have "hashed_body r = hashed_body r'"
    using body injD [OF assms(1)] by (auto simp: sha256HexBytes_def dest!: bytes_hex_inj)
  then show ?thesis
    using session upper canonical_path_inj [OF _ _ path] assms(2,3) by (simp add: cacheable_request_def)
qed

definition demo_git_request :: "string \<Rightarrow> string \<Rightarrow> request" where
  "demo_git_request method text =
     \<lparr>req_method = method, req_path = ''/git/abc123/HEAD'', req_query = [(''session_token'', ''t'')], req_headers = [],
      req_text = text\<rparr>"

theorem git_cache_key_binds_request_witness:
  "gk_key (buildGitCacheKeyFromRequest id (demo_git_request ''GET'' []) ''abc123'' ''/HEAD'') \<noteq>
   gk_key (buildGitCacheKeyFromRequest id (demo_git_request ''GET'' []) ''xyz789'' ''/HEAD'')"
proof
  assume same: "gk_key (buildGitCacheKeyFromRequest id (demo_git_request ''GET'' []) ''abc123'' ''/HEAD'') =
    gk_key (buildGitCacheKeyFromRequest id (demo_git_request ''GET'' []) ''xyz789'' ''/HEAD'')"
  have "cacheable_request (demo_git_request ''GET'' []) s ''/HEAD''" if "CHR ''_'' \<notin> set s" for s
    using that by (simp add: cacheable_request_def demo_git_request_def one_line_def to_upper_def is_lower_def)
  from git_cache_key_binds_request [OF inj_on_id this this same] show False by simp
qed

text \<open>
  The cache does not keep all sessions apart: a slash in a session id is written as two
  underscores, which a named session may hold itself, so the sessions \<open>x__y/z\<close> and \<open>x/y__z\<close> of two owners
  share the kind and the key of every request.
\<close>

lemma named_sessions_share_cache_keys:
  "gk_kind (buildGitCacheKeyFromRequest sha r (x @ ''__'' @ y @ ''/'' @ z) p) =
     gk_kind (buildGitCacheKeyFromRequest sha r (x @ ''/'' @ y @ ''__'' @ z) p) \<and>
   gk_key (buildGitCacheKeyFromRequest sha r (x @ ''__'' @ y @ ''/'' @ z) p) =
     gk_key (buildGitCacheKeyFromRequest sha r (x @ ''/'' @ y @ ''__'' @ z) p)"
  by (simp add: buildGitCacheKeyFromRequest_def Let_def normalizeSessionId_def)

section \<open>Reading an answer back\<close>

lemma hex_digit_space: "d < 16 \<Longrightarrow> \<not> is_space (hex_digit d)"
proof -
  assume "d < 16"
  then have "hex_of (hex_digit d) = Some d" by (rule hex_of_hex_digit)
  then show "\<not> is_space (hex_digit d)" by (auto simp: hex_of_def is_digit_def is_space_def Let_def split: if_splits)
qed

lemma bytes_hex_space: "c \<in> set (bytes_hex bs) \<Longrightarrow> \<not> is_space c"
  using hex_digit_space [OF less_mult_imp_div_less [of "of_char _" 16 16]] hex_digit_space [of "of_char _ mod 16"]
  by (auto simp: bytes_hex_def)

lemma key_clean: "clean (gk_key (buildGitCacheKeyFromRequest sha r s p))"
proof -
  define h where "h = sha256HexBytes sha (utf8 (hash_input sha r p))"
  have key: "gk_key (buildGitCacheKeyFromRequest sha r s p) = ''git/'' @ normalizeSessionId s @ ''/'' @ h"
    by (simp add: buildGitCacheKeyFromRequest_def h_def Let_def)
  have "\<not> is_space (last (''git/'' @ normalizeSessionId s @ ''/'' @ h))"
  proof (cases "h = []")
    case False
    then have "\<not> is_space (last h)"
      using bytes_hex_space [OF last_in_set] by (simp add: h_def sha256HexBytes_def)
    then show ?thesis using False by simp
  qed (simp add: is_space_def)
  then show ?thesis
    unfolding key clean_def by (subst js_trim_fix) (simp_all add: is_space_def)
qed

lemma key_kind: "gk_kind (buildGitCacheKeyFromRequest sha r s p) \<in> set VALID_KINDS"
  by (simp add: buildGitCacheKeyFromRequest_def classifyKind_def VALID_KINDS_def Let_def)

lemma key_fields [simp]: "gk_sessionId (buildGitCacheKeyFromRequest sha r s p) = s"
  by (simp add: buildGitCacheKeyFromRequest_def Let_def)

text \<open>What comes back from the cache for an answer: its bytes, its content type and the mark.\<close>

definition replayed :: "(rat \<Rightarrow> string) \<Rightarrow> response \<Rightarrow> response" where
  "replayed ns resp =
     \<lparr>resp_status = 200,
      resp_headers = (case truthy (response_type resp) of Some t \<Rightarrow> [(''content-type'', t)] | None \<Rightarrow> []) @ [(CACHE_HIT_HEADER, ''1'')],
      resp_body = TextBody (response_bytes ns resp)\<rparr>"

definition fresh_for :: "js_num option \<Rightarrow> int \<Rightarrow> bool" where
  "fresh_for ttlSec age \<longleftrightarrow> (case normalizeOptionalPositive ttlSec of None \<Rightarrow> True | Some ttl \<Rightarrow> age < ttl)"

lemma get_after_put_fresh:
  assumes "kind \<in> set VALID_KINDS" "clean key" "pq_kind rq = kind" "pq_key rq = key" "pq_updatedAt rq = None"
    and "sp_maxBytes policy = None" "\<not> isExpiredByPolicy (put_metadata now rq kind key) policy now'"
  shows "memory_get policy now' kind key (fst (memory_put le policy now rq st)) =
    (fst (memory_put le policy now rq st),
     Inr (Some \<lparr>so_body = pq_body rq, so_metadata = put_metadata now rq kind key\<rparr>))"
  using assms by (simp add: memory_get_def memory_put_def with_key_valid enforceMaxBytesLimit_def Let_def)

text \<open>
  What the git cache gives back is the answer that was stored: after a 200 answer was written
  under the key of a request, reading with that key before its time is over, or with the key of a request it
  does not tell apart from that one, gives a 200 answer with the same bytes, the same content type, and the
  mark of the cache.
\<close>

lemma git_cache_replays_answer:
  assumes "resp_status resp = 200" "fresh_for ttlSec (now' - now)"
    and "fst (safeWriteGitCache (createMemoryCacheStore le ttlSec None) sha ns now
      (buildGitCacheKeyFromRequest sha r s p) resp st) = st'"
    and "gk_key (buildGitCacheKeyFromRequest sha r' s' p') = gk_key (buildGitCacheKeyFromRequest sha r s p)"
    and "gk_kind (buildGitCacheKeyFromRequest sha r' s' p') = gk_kind (buildGitCacheKeyFromRequest sha r s p)"
  shows "safeReadGitCache (createMemoryCacheStore le ttlSec None) now' (buildGitCacheKeyFromRequest sha r' s' p') st' =
    (st', Some (replayed ns resp), [])"
proof -
  let ?k = "buildGitCacheKeyFromRequest sha r s p" and ?policy = "normalizeCacheStorePolicy ttlSec None"
  define rq where "rq = git_put sha ns ?k resp"
  have bytes: "sp_maxBytes ?policy = None"
    by (simp add: normalizeCacheStorePolicy_def normalizeOptionalPositive_def)
  have rq: "pq_kind rq = gk_kind ?k" "pq_key rq = gk_key ?k" "pq_updatedAt rq = None"
    by (simp_all add: rq_def git_put_def Let_def)
  have st': "st' = fst (memory_put le ?policy now rq st)"
    using assms(1,3) by (simp add: safeWriteGitCache_def writeGitCache_def createMemoryCacheStore_def rq_def Let_def)
  have "\<not> isExpiredByPolicy (put_metadata now rq (gk_kind ?k) (gk_key ?k)) ?policy now'"
    using assms(2) rq(3)
    by (simp add: isExpiredByPolicy_def normalizeCacheStorePolicy_def fresh_for_def put_metadata_def put_time_def split: option.splits)
  then have "memory_get ?policy now' (gk_kind ?k) (gk_key ?k) st' =
      (st', Inr (Some \<lparr>so_body = pq_body rq, so_metadata = put_metadata now rq (gk_kind ?k) (gk_key ?k)\<rparr>))"
    unfolding st' by (intro get_after_put_fresh key_kind key_clean rq bytes)
  then show ?thesis
    using assms(4,5)
    by (simp add: safeReadGitCache_def readGitCache_def createMemoryCacheStore_def Let_def cached_response_def replayed_def
        rq_def git_put_def put_metadata_def truthy_def split: option.split)
qed

definition demo_git_answer :: response where
  "demo_git_answer = \<lparr>resp_status = 200, resp_headers = [(''content-type'', ''text/plain'')], resp_body = TextBody ''0000''\<rparr>"

end
