(* ===== verification/GitHub_Target.thy ===== *)
theory GitHub_Target
  imports Contracts Cache_Exchange Url_Text Http
begin

text \<open>
  The relay target that is a GitHub repository (\<open>src/github_relay_target.ts\<close>) over its transport
  (\<open>src/github_transport.ts\<close>). The network is a state of type \<open>'n\<close> and a client that takes a request and
  gives an answer or throws; waiting is an operation on that state too. The URL parser, \<open>JSON.parse\<close> and
  \<open>encodeURIComponent\<close>'s result as text are computed or given as the code has them.
\<close>

section \<open>The transport\<close>

record gh_call =
  gc_method :: string
  gc_url :: string
  gc_headers :: "(string \<times> string) list"
  gc_body :: json

record 'n gh_network =
  gn_fetch :: "gh_call \<Rightarrow> 'n \<Rightarrow> response option \<times> 'n"
  gn_sleep :: "int \<Rightarrow> 'n \<Rightarrow> 'n"
  gn_url :: "string \<Rightarrow> string \<Rightarrow> string option"
  gn_parse :: "string \<Rightarrow> json option"

record transport_options =
  to_token :: string
  to_apiBaseUrl :: "string option"
  to_maxRetries :: "int option"
  to_retryDelayMs :: "int option"

definition RETRYABLE_STATUSES :: "int list" where
  "RETRYABLE_STATUSES = [429, 502, 503, 504]"

definition shouldRetry :: "int \<Rightarrow> bool" where
  "shouldRetry status \<longleftrightarrow> status \<in> set RETRYABLE_STATUSES"

definition max_retries :: "transport_options \<Rightarrow> nat" where
  "max_retries op = nat (max 0 (case to_maxRetries op of Some n \<Rightarrow> n | None \<Rightarrow> 1))"

definition retry_delay :: "transport_options \<Rightarrow> int" where
  "retry_delay op = max 0 (case to_retryDelayMs op of Some n \<Rightarrow> n | None \<Rightarrow> 0)"

text \<open>
  The \<open>while (true)\<close> of \<open>requestWithRetry\<close>: \<open>left\<close> attempts remain after the one under way. Nothing comes
  back where the client or the URL parser throws.
\<close>

fun retry_loop :: "'n gh_network \<Rightarrow> int \<Rightarrow> gh_call \<Rightarrow> nat \<Rightarrow> nat \<Rightarrow> 'n \<Rightarrow> response option \<times> 'n" where
  "retry_loop nw delay call attempt left net =
     (case gn_fetch nw call net of
        (None, net1) \<Rightarrow> (None, net1)
      | (Some resp, net1) \<Rightarrow>
          (case left of
             0 \<Rightarrow> (Some resp, net1)
           | Suc rest \<Rightarrow>
               if \<not> shouldRetry (resp_status resp) then (Some resp, net1)
               else retry_loop nw delay call (Suc attempt) rest
                 (if delay > 0 then gn_sleep nw (delay * int (Suc attempt)) net1 else net1)))"

declare retry_loop.simps [simp del]

definition requestWithRetry ::
    "'n gh_network \<Rightarrow> transport_options \<Rightarrow> string \<Rightarrow> string \<Rightarrow> json \<Rightarrow> 'n \<Rightarrow> response option \<times> 'n" where
  "requestWithRetry nw op method path body net =
     (case gn_url nw path (case to_apiBaseUrl op of Some u \<Rightarrow> u | None \<Rightarrow> ''https://api.github.com'') of
        None \<Rightarrow> (None, net)
      | Some url \<Rightarrow>
          retry_loop nw (retry_delay op)
            \<lparr>gc_method = method, gc_url = url,
             gc_headers = [(''content-type'', ''application/json''), (''accept'', ''application/vnd.github+json''),
               (''authorization'', ''Bearer '' @ to_token op)],
             gc_body = body\<rparr> 0 (max_retries op) net)"

text \<open>\<open>encodeURIComponent\<close>: letters, digits and eight marks stay.\<close>

definition component_safe :: "char \<Rightarrow> bool" where
  "component_safe c \<longleftrightarrow> is_alnum c \<or> c \<in> set (CHR 0x27 # ''-_.!~*()'')"

definition encodeURIComponent :: "string \<Rightarrow> string" where
  "encodeURIComponent s =
     concat (map (\<lambda>c. if component_safe c then [c] else [CHR ''%'', upper_hex (of_char c div 16), upper_hex (of_char c mod 16)]) (utf8 s))"

text \<open>A field that is \<open>undefined\<close> is left out of the JSON text.\<close>

definition opt_field :: "string \<Rightarrow> json option \<Rightarrow> (string \<times> json) list" where
  "opt_field k v = (case v of None \<Rightarrow> [] | Some j \<Rightarrow> [(k, j)])"

definition updateRef ::
    "'n gh_network \<Rightarrow> transport_options \<Rightarrow> string \<Rightarrow> string \<Rightarrow> string \<Rightarrow> bool \<Rightarrow> 'n \<Rightarrow> response option \<times> 'n" where
  "updateRef nw op repo branch sha force =
     requestWithRetry nw op ''PATCH'' (''/repos/'' @ repo @ ''/git/refs/'' @ encodeURIComponent (''heads/'' @ branch))
       (JObj [(''sha'', JStr sha), (''force'', JBool force)])"

definition repositoryDispatch ::
    "'n gh_network \<Rightarrow> transport_options \<Rightarrow> string \<Rightarrow> string \<Rightarrow> json option \<Rightarrow> 'n \<Rightarrow> response option \<times> 'n" where
  "repositoryDispatch nw op repo eventType clientPayload =
     requestWithRetry nw op ''POST'' (''/repos/'' @ repo @ ''/dispatches'')
       (JObj ((''event_type'', JStr eventType) # opt_field ''client_payload'' clientPayload))"

definition workflowDispatch ::
    "'n gh_network \<Rightarrow> transport_options \<Rightarrow> string \<Rightarrow> string \<Rightarrow> string \<Rightarrow> json option \<Rightarrow> 'n \<Rightarrow> response option \<times> 'n" where
  "workflowDispatch nw op repo workflowId ref inputs =
     requestWithRetry nw op ''POST'' (''/repos/'' @ repo @ ''/actions/workflows/'' @ workflowId @ ''/dispatches'')
       (JObj ((''ref'', JStr ref) # opt_field ''inputs'' inputs))"

section \<open>The target\<close>

datatype relay_operation = Op_clone | Op_fetch | Op_push | Op_notify

definition operation_text :: "relay_operation \<Rightarrow> string" where
  "operation_text p = (case p of Op_clone \<Rightarrow> ''clone'' | Op_fetch \<Rightarrow> ''fetch'' | Op_push \<Rightarrow> ''push'' | Op_notify \<Rightarrow> ''notify'')"

record target_request =
  tr_operation :: relay_operation
  tr_repo :: string
  tr_ref :: "string option"
  tr_payload :: "json option"
  tr_auth :: auth_context

record target_result =
  tx_ok :: bool
  tx_operation :: relay_operation
  tx_status :: int
  tx_message :: "string option"
  tx_data :: "json option"

definition hasScope :: "auth_context \<Rightarrow> string \<Rightarrow> bool" where
  "hasScope auth scope \<longleftrightarrow> ac_role auth = Relay_admin \<or> scope \<in> set (ac_scopes auth)"

definition refused_result :: "relay_operation \<Rightarrow> int \<Rightarrow> string \<Rightarrow> target_result" where
  "refused_result p status msg =
     \<lparr>tx_ok = False, tx_operation = p, tx_status = status, tx_message = Some msg, tx_data = None\<rparr>"

definition unauthorizedResult :: "relay_operation \<Rightarrow> string \<Rightarrow> target_result" where
  "unauthorizedResult p msg = refused_result p 403 msg"

definition missingTokenResult :: "relay_operation \<Rightarrow> target_result" where
  "missingTokenResult p = refused_result p 503 ''github token is not configured''"

definition invalidPayloadResult :: "relay_operation \<Rightarrow> string \<Rightarrow> target_result" where
  "invalidPayloadResult p msg = refused_result p 400 msg"

record push_payload =
  pp_branch :: string
  pp_sha :: string
  pp_force :: bool

datatype notify_payload =
    Repository_dispatch string "json option"
  | Workflow_dispatch string string "json option"

definition parsePushPayload :: "json option \<Rightarrow> push_payload option" where
  "parsePushPayload payload =
     (case obj_opt payload of
        None \<Rightarrow> None
      | Some body \<Rightarrow>
          (case (Cache_Exchange.asString (jprop body ''branch''), Cache_Exchange.asString (jprop body ''sha'')) of
             (Some branch, Some sha) \<Rightarrow>
               Some \<lparr>pp_branch = branch, pp_sha = sha,
                     pp_force = (case jprop body ''force'' of Some (JBool b) \<Rightarrow> b | _ \<Rightarrow> False)\<rparr>
           | _ \<Rightarrow> None))"

definition parseNotifyPayload :: "json option \<Rightarrow> notify_payload option" where
  "parseNotifyPayload payload =
     (case obj_opt payload of
        None \<Rightarrow> None
      | Some body \<Rightarrow>
          let kind = Cache_Exchange.asString (jprop body ''kind'')
          in if kind = Some ''repository_dispatch''
             then map_option (\<lambda>t. Repository_dispatch t (jprop body ''client_payload'')) (Cache_Exchange.asString (jprop body ''event_type''))
             else if kind = Some ''workflow_dispatch''
             then (case (Cache_Exchange.asString (jprop body ''workflow_id''), Cache_Exchange.asString (jprop body ''ref'')) of
                 (Some w, Some ref) \<Rightarrow> Some (Workflow_dispatch w ref (jprop body ''inputs''))
               | _ \<Rightarrow> None)
             else None)"

text \<open>The text of an answer of GitHub: JSON when it parses, wrapped otherwise.\<close>

definition body_text :: "response \<Rightarrow> string" where
  "body_text resp = (case resp_body resp of TextBody s \<Rightarrow> s | _ \<Rightarrow> [])"

definition toResponseData :: "(string \<Rightarrow> json option) \<Rightarrow> response \<Rightarrow> json option" where
  "toResponseData parse resp =
     (let t = body_text resp
      in if t = [] then None else case parse t of Some j \<Rightarrow> Some j | None \<Rightarrow> Some (JObj [(''body'', JStr t)]))"

definition github_result :: "(string \<Rightarrow> json option) \<Rightarrow> relay_operation \<Rightarrow> response \<Rightarrow> target_result" where
  "github_result parse p resp =
     (let ok = (200 \<le> resp_status resp \<and> resp_status resp < 300)
      in \<lparr>tx_ok = ok, tx_operation = p, tx_status = resp_status resp,
          tx_message = (if ok then None else Some (''github '' @ operation_text p @ '' failed ('' @ int_str (resp_status resp) @ '')'')),
          tx_data = toResponseData parse resp\<rparr>)"

record target_options =
  tg_repo :: string
  tg_token :: "string option"
  tg_apiBaseUrl :: "string option"
  tg_maxRetries :: "int option"
  tg_retryDelayMs :: "int option"

text \<open>A token that is \<open>null\<close> or empty gives no transport.\<close>

definition target_transport :: "target_options \<Rightarrow> transport_options option" where
  "target_transport tg =
     (case tg_token tg of
        None \<Rightarrow> None
      | Some token \<Rightarrow>
          if token = [] then None
          else Some \<lparr>to_token = token, to_apiBaseUrl = tg_apiBaseUrl tg, to_maxRetries = tg_maxRetries tg,
                     to_retryDelayMs = tg_retryDelayMs tg\<rparr>)"

definition send_push :: "'n gh_network \<Rightarrow> target_options \<Rightarrow> transport_options \<Rightarrow> push_payload \<Rightarrow> 'n \<Rightarrow> response option \<times> 'n" where
  "send_push nw tg op p = updateRef nw op (tg_repo tg) (pp_branch p) (pp_sha p) (pp_force p)"

definition send_notify :: "'n gh_network \<Rightarrow> target_options \<Rightarrow> transport_options \<Rightarrow> notify_payload \<Rightarrow> 'n \<Rightarrow> response option \<times> 'n" where
  "send_notify nw tg op p =
     (case p of
        Repository_dispatch eventType clientPayload \<Rightarrow> repositoryDispatch nw op (tg_repo tg) eventType clientPayload
      | Workflow_dispatch workflowId ref inputs \<Rightarrow> workflowDispatch nw op (tg_repo tg) workflowId ref inputs)"

text \<open>The checks the push and the notification share: role and scope, token, payload, and then the call.\<close>

definition guarded_send ::
    "'n gh_network \<Rightarrow> target_options \<Rightarrow> target_request \<Rightarrow> string \<Rightarrow> string \<Rightarrow> string \<Rightarrow> (json option \<Rightarrow> 'p option) \<Rightarrow>
     (transport_options \<Rightarrow> 'p \<Rightarrow> 'n \<Rightarrow> response option \<times> 'n) \<Rightarrow> 'n \<Rightarrow> target_result option \<times> 'n" where
  "guarded_send nw tg rq scope denied invalid parsePayload send net =
     (let p = tr_operation rq
      in if ac_role (tr_auth rq) = Anonymous \<or> \<not> hasScope (tr_auth rq) scope then (Some (unauthorizedResult p denied), net)
         else case target_transport tg of
             None \<Rightarrow> (Some (missingTokenResult p), net)
           | Some op \<Rightarrow>
               (case parsePayload (tr_payload rq) of
                  None \<Rightarrow> (Some (invalidPayloadResult p invalid), net)
                | Some payload \<Rightarrow>
                    let res = send op payload net in (map_option (github_result (gn_parse nw) p) (fst res), snd res)))"

text \<open>\<open>execute\<close>, with nothing where the transport throws.\<close>

definition execute :: "'n gh_network \<Rightarrow> target_options \<Rightarrow> target_request \<Rightarrow> 'n \<Rightarrow> target_result option \<times> 'n" where
  "execute nw tg rq net =
     (case tr_operation rq of
        Op_push \<Rightarrow>
          guarded_send nw tg rq ''github.repo.write'' ''github push requires admin permissions'' ''invalid push payload''
            parsePushPayload (send_push nw tg) net
      | Op_notify \<Rightarrow>
          guarded_send nw tg rq ''github.actions.dispatch'' ''github dispatch requires admin permissions'' ''invalid notify payload''
            parseNotifyPayload (send_notify nw tg) net
      | p \<Rightarrow>
          (Some \<lparr>tx_ok = True, tx_operation = p, tx_status = 200, tx_message = None,
             tx_data = Some (JObj [(''repo'', JStr (tg_repo tg)),
               (''remote_url'', JStr (''https://github.com/'' @ tg_repo tg @ ''.git''))])\<rparr>, net))"

section \<open>Retries\<close>

text \<open>A client that answers from a list, one status after the other, and counts the calls and the waits.\<close>

record script =
  sc_statuses :: "int list"
  sc_calls :: nat
  sc_waits :: "int list"

definition scripted :: "(string \<Rightarrow> string \<Rightarrow> string option) \<Rightarrow> script gh_network" where
  "scripted url =
     \<lparr>gn_fetch = (\<lambda>call sc. case sc_statuses sc of
          [] \<Rightarrow> (None, sc\<lparr>sc_calls := sc_calls sc + 1\<rparr>)
        | s # rest \<Rightarrow> (Some \<lparr>resp_status = s, resp_headers = [], resp_body = NoBody\<rparr>, sc\<lparr>sc_statuses := rest, sc_calls := sc_calls sc + 1\<rparr>)),
      gn_sleep = (\<lambda>ms sc. sc\<lparr>sc_waits := sc_waits sc @ [ms]\<rparr>), gn_url = url, gn_parse = (\<lambda>_. None)\<rparr>"

lemma scripted_sleep: "gn_sleep (scripted url) ms sc = sc\<lparr>sc_waits := sc_waits sc @ [ms]\<rparr>"
  by (simp add: scripted_def)

lemma scripted_loop:
  assumes "left < length (sc_statuses sc)"
  shows "let k = length (takeWhile shouldRetry (take left (sc_statuses sc)));
             res = retry_loop (scripted url) delay call attempt left sc
         in fst res = Some \<lparr>resp_status = sc_statuses sc ! k, resp_headers = [], resp_body = NoBody\<rparr> \<and>
            sc_calls (snd res) = sc_calls sc + Suc k \<and>
            sc_waits (snd res) = sc_waits sc @ (if delay > 0 then map (\<lambda>i. delay * int (attempt + i)) [1..<Suc k] else [])"
  using assms
proof (induction left arbitrary: sc attempt)
  case 0
  then obtain s rest where "sc_statuses sc = s # rest" by (cases "sc_statuses sc") auto
  then show ?case by (simp add: retry_loop.simps scripted_def)
next
  case (Suc left)
  then obtain s rest where st: "sc_statuses sc = s # rest" by (cases "sc_statuses sc") auto
  define sc1 where "sc1 = sc\<lparr>sc_statuses := rest, sc_calls := sc_calls sc + 1\<rparr>"
  define sc2 where "sc2 = (if delay > 0 then sc1\<lparr>sc_waits := sc_waits sc1 @ [delay * int (Suc attempt)]\<rparr> else sc1)"
  have one: "gn_fetch (scripted url) call sc = (Some \<lparr>resp_status = s, resp_headers = [], resp_body = NoBody\<rparr>, sc1)"
    by (simp add: scripted_def st sc1_def)
  show ?case
  proof (cases "shouldRetry s")
    case False
    have "retry_loop (scripted url) delay call attempt (Suc left) sc = (Some \<lparr>resp_status = s, resp_headers = [], resp_body = NoBody\<rparr>, sc1)"
      by (subst retry_loop.simps) (simp add: one False)
    then show ?thesis by (simp add: st False sc1_def)
  next
    case True
    have loop: "retry_loop (scripted url) delay call attempt (Suc left) sc = retry_loop (scripted url) delay call (Suc attempt) left sc2"
      by (subst retry_loop.simps) (simp add: one True sc2_def scripted_sleep)
    have sc2: "sc_statuses sc2 = rest" "sc_calls sc2 = Suc (sc_calls sc)"
      "sc_waits sc2 = sc_waits sc @ (if delay > 0 then [delay * int (Suc attempt)] else [])"
      by (simp_all add: sc2_def sc1_def)
    define k where "k = length (takeWhile shouldRetry (take left rest))"
    have whole: "length (takeWhile shouldRetry (take (Suc left) (sc_statuses sc))) = Suc k"
      by (simp add: st True k_def)
    have up: "[1..<Suc (Suc k)] = 1 # map Suc [1..<Suc k]"
      by (metis One_nat_def map_Suc_upt upt_conv_Cons zero_less_Suc Suc_less_eq)
    have waits: "map (\<lambda>i. delay * int (attempt + i)) [1..<Suc (Suc k)] =
        delay * int (Suc attempt) # map (\<lambda>i. delay * int (Suc attempt + i)) [1..<Suc k]"
      unfolding up by (simp add: comp_def)
    have "left < length (sc_statuses sc2)" using Suc.prems st sc2(1) by simp
    from Suc.IH [OF this, of "Suc attempt"] show ?thesis
      unfolding loop whole sc2(1) k_def [symmetric] Let_def using waits sc2 st by simp
  qed
qed

text \<open>
  Claim C38. A request to GitHub is tried until an answer is not worth repeating, and never more often than
  allowed. Against a client that would answer with the statuses \<open>ss\<close> in turn, the caller gets the first answer
  whose status is not 429, 502, 503 or 504, or the last one allowed; exactly the calls up to that answer are
  made, and between two calls the wait grows by the delay.
\<close>

theorem github_retries_until_settled:
  assumes "gn_url (scripted url) path (case to_apiBaseUrl op of Some u \<Rightarrow> u | None \<Rightarrow> ''https://api.github.com'') = Some target"
    and "max_retries op < length ss"
    and "k = length (takeWhile shouldRetry (take (max_retries op) ss))"
    and "requestWithRetry (scripted url) op method path body \<lparr>sc_statuses = ss, sc_calls = 0, sc_waits = []\<rparr> = (answer, sc)"
  shows "answer = Some \<lparr>resp_status = ss ! k, resp_headers = [], resp_body = NoBody\<rparr> \<and>
    sc_calls sc = Suc k \<and> k \<le> max_retries op \<and> (k < max_retries op \<longrightarrow> \<not> shouldRetry (ss ! k)) \<and>
    (\<forall>i<k. shouldRetry (ss ! i)) \<and>
    sc_waits sc = (if retry_delay op > 0 then map (\<lambda>i. retry_delay op * int i) [1..<Suc k] else [])"
proof -
  define m where "m = max_retries op"
  have k: "k = length (takeWhile shouldRetry (take m ss))" using assms(3) by (simp add: m_def)
  have "k \<le> length (take m ss)" unfolding k by (rule length_takeWhile_le)
  then have le: "k \<le> m" by simp
  have stop: "\<not> shouldRetry (ss ! k)" if "k < m"
  proof -
    have "k < length (take m ss)" using that assms(2) by (simp add: m_def)
    then have "\<not> shouldRetry (take m ss ! k)" unfolding k by (rule nth_length_takeWhile)
    then show ?thesis using that by simp
  qed
  have before: "shouldRetry (ss ! i)" if "i < k" for i
  proof -
    have "takeWhile shouldRetry (take m ss) ! i \<in> set (takeWhile shouldRetry (take m ss))" using that k by simp
    then have "shouldRetry (takeWhile shouldRetry (take m ss) ! i)" by (rule set_takeWhileD [THEN conjunct2])
    then show ?thesis using that k le by (simp add: takeWhile_nth)
  qed
  define call where "call = \<lparr>gc_method = method, gc_url = target,
     gc_headers = [(''content-type'', ''application/json''), (''accept'', ''application/vnd.github+json''),
       (''authorization'', ''Bearer '' @ to_token op)], gc_body = body\<rparr>"
  define sc0 where "sc0 = \<lparr>sc_statuses = ss, sc_calls = 0, sc_waits = []\<rparr>"
  have run: "retry_loop (scripted url) (retry_delay op) call 0 m sc0 = (answer, sc)"
    using assms(1,4) by (simp add: requestWithRetry_def call_def sc0_def m_def)
  have "m < length (sc_statuses sc0)" using assms(2) by (simp add: m_def sc0_def)
  from scripted_loop [OF this, of url "retry_delay op" call 0] show ?thesis
    unfolding run Let_def using le stop before
    by (simp add: sc0_def m_def [symmetric] k [symmetric] del: upt_Suc)
qed

theorem github_retries_until_settled_witness:
  "let op = \<lparr>to_token = ''t'', to_apiBaseUrl = None, to_maxRetries = Some 3, to_retryDelayMs = Some 10\<rparr>;
       res = requestWithRetry (scripted (\<lambda>path base. Some (base @ path))) op ''POST'' ''/x'' JNull
         \<lparr>sc_statuses = [503, 429, 204, 500], sc_calls = 0, sc_waits = []\<rparr>
   in fst res = Some \<lparr>resp_status = 204, resp_headers = [], resp_body = NoBody\<rparr> \<and> sc_calls (snd res) = 3 \<and>
      sc_waits (snd res) = [10, 20]"
proof -
  define op where "op = \<lparr>to_token = ''t'', to_apiBaseUrl = None, to_maxRetries = Some 3, to_retryDelayMs = Some 10\<rparr>"
  define res where "res = requestWithRetry (scripted (\<lambda>path base. Some (base @ path))) op ''POST'' ''/x'' JNull
    \<lparr>sc_statuses = [503, 429, 204, 500], sc_calls = 0, sc_waits = []\<rparr>"
  have m: "max_retries op = 3" "retry_delay op = 10" by (simp_all add: op_def max_retries_def retry_delay_def)
  have url: "gn_url (scripted (\<lambda>path base. Some (base @ path))) ''/x'' (case to_apiBaseUrl op of Some u \<Rightarrow> u | None \<Rightarrow> ''https://api.github.com'') =
      Some ''https://api.github.com/x''"
    by (simp add: scripted_def op_def)
  have long: "max_retries op < length [503, 429, 204, 500 :: int]" by (simp add: m)
  have two: "2 = length (takeWhile shouldRetry (take (max_retries op) [503, 429, 204, 500]))"
    by (simp add: m shouldRetry_def RETRYABLE_STATUSES_def)
  have run: "requestWithRetry (scripted (\<lambda>path base. Some (base @ path))) op ''POST'' ''/x'' JNull
      \<lparr>sc_statuses = [503, 429, 204, 500], sc_calls = 0, sc_waits = []\<rparr> = (fst res, snd res)"
    by (simp add: res_def)
  note all = github_retries_until_settled [OF url long two run]
  have status: "[503, 429, 204, 500 :: int] ! 2 = 204" and waits: "map (\<lambda>i. 10 * int i) [1..<Suc 2] = [10, 20]"
    by (simp_all add: upt_rec)
  have "fst res = Some \<lparr>resp_status = 204, resp_headers = [], resp_body = NoBody\<rparr>" "sc_calls (snd res) = Suc 2"
    "sc_waits (snd res) = [10, 20]"
    using all unfolding status m(2) waits by simp_all
  then show ?thesis unfolding op_def [symmetric] res_def [symmetric] Let_def by simp
qed

end
