(* ===== verification/Admin_GitHub.thy ===== *)
theory Admin_GitHub
  imports GitHub_Target Observability
begin

text \<open>
  The administration of GitHub repositories (\<open>src/admin_github_api.ts\<close>): an administrator registers
  repositories and pushes to them or dispatches workflows through the relay target. The registry is an
  insertion-ordered map; the network is that of \<open>GitHub_Target\<close>; audit records are returned in order.
\<close>

record registered_repo =
  rr_id :: string
  rr_repo :: string
  rr_token :: "string option"
  rr_createdAt :: int
  rr_updatedAt :: int

type_synonym registry = "(string, registered_repo) omap"

record admin_options =
  ad_adminToken :: "string option"
  ad_defaultGitHubToken :: "string option"
  ad_apiBaseUrl :: "string option"

section \<open>Reading a request\<close>

definition parseBearerToken :: "request \<Rightarrow> string option" where
  "parseBearerToken r =
     (let auth = or_empty (header_get r ''authorization'')
      in if \<not> prefix ''Bearer '' auth then None
         else let token = js_trim (drop 7 auth) in if token = [] then None else Some token)"

definition parseJsonBody :: "(string \<Rightarrow> json option) \<Rightarrow> request \<Rightarrow> json option" where
  "parseJsonBody parse r = obj_opt (parse (req_text r))"

text \<open>
  \<open>decodeURIComponent\<close>, into code points: nothing where it throws, for a percent sign without two hex
  digits or for bytes that are not UTF-8.
\<close>

fun component_bytes :: "string \<Rightarrow> string option" where
  "component_bytes [] = Some []"
| "component_bytes (c # r) =
     (if c \<noteq> CHR ''%'' then map_option (Cons c) (component_bytes r)
      else case r of
          a # b # rest \<Rightarrow>
            (case (hex_of a, hex_of b) of
               (Some x, Some y) \<Rightarrow> map_option (Cons (char_of (16 * x + y))) (component_bytes rest)
             | _ \<Rightarrow> None)
        | _ \<Rightarrow> None)"

fun utf8_valid :: "nat list \<Rightarrow> bool" where
  "utf8_valid [] = True"
| "utf8_valid (a # bs) =
     (if sequence_length a = 1 then utf8_valid bs
      else if sequence_length a = 2
      then (case bs of b # cs \<Rightarrow> second_ok a b \<and> utf8_valid cs | _ \<Rightarrow> False)
      else if sequence_length a = 3
      then (case bs of b # c # ds \<Rightarrow> second_ok a b \<and> continues c \<and> utf8_valid ds | _ \<Rightarrow> False)
      else if sequence_length a = 4
      then (case bs of b # c # d # es \<Rightarrow> second_ok a b \<and> continues c \<and> continues d \<and> utf8_valid es | _ \<Rightarrow> False)
      else False)"

definition decodeURIComponent :: "string \<Rightarrow> nat list option" where
  "decodeURIComponent s =
     (case component_bytes s of
        None \<Rightarrow> None
      | Some bs \<Rightarrow> if utf8_valid (points bs) then Some (utf8_points (points bs)) else None)"

definition adminAuthContext :: auth_context where
  "adminAuthContext =
     \<lparr>ac_role = Relay_admin, ac_principalId = Some ''admin'',
      ac_scopes = [''relay.admin'', ''github.repo.write'', ''github.actions.dispatch''], ac_githubInstallationId = None\<rparr>"

definition admin_error :: "string \<Rightarrow> int \<Rightarrow> response" where
  "admin_error msg status = response_json (JObj [(''ok'', JBool False), (''error'', JStr msg)]) status"

definition ensureAuthorized :: "admin_options \<Rightarrow> request \<Rightarrow> response option" where
  "ensureAuthorized ao r =
     (if ad_adminToken ao = None \<or> ad_adminToken ao = Some [] then Some (admin_error ''admin auth not configured'' 503)
      else if parseBearerToken r \<noteq> ad_adminToken ao then Some (admin_error ''unauthorized'' 401) else None)"

section \<open>Handlers\<close>

text \<open>What a handler gives: the registry, the network, the audit records, and the answer, \<open>None\<close> where it throws.\<close>

type_synonym 'n admin_result = "registry \<times> 'n \<times> audit_log list \<times> response option"

definition admin_audit :: "string \<Rightarrow> int \<Rightarrow> int \<Rightarrow> string \<Rightarrow> string \<Rightarrow> (string \<times> json) list \<Rightarrow> audit_log" where
  "admin_audit action now status target id' detail =
     \<lparr>au_action = action, au_occurredAt = of_integer now, au_status = of_integer status, au_room = None,
      au_sender = Some ''relay-admin'', au_target = Some target, au_id = Some id', au_detail = detail\<rparr>"

definition repo_json :: "registered_repo \<Rightarrow> json" where
  "repo_json rr = JObj
     [(''id'', JStr (rr_id rr)), (''kind'', JStr ''github_repository''), (''repo'', JStr (rr_repo rr)),
      (''has_token'', JBool (rr_token rr \<noteq> None)), (''created_at'', jint (rr_createdAt rr)),
      (''updated_at'', jint (rr_updatedAt rr))]"

definition handleRegister ::
    "admin_options \<Rightarrow> (string \<Rightarrow> json option) \<Rightarrow> int \<Rightarrow> request \<Rightarrow> registry \<Rightarrow> 'n \<Rightarrow> 'n admin_result" where
  "handleRegister ao parse now r repos net =
     (case parseJsonBody parse r of
        None \<Rightarrow> (repos, net, [], Some (admin_error ''invalid json'' 400))
      | Some parsed \<Rightarrow>
          (case Cache_Exchange.asString (jprop parsed ''repo'') of
             None \<Rightarrow> (repos, net, [], Some (admin_error ''missing field: repo'' 400))
           | Some repo \<Rightarrow>
               let id' = (case Cache_Exchange.asString (jprop parsed ''id'') of Some i \<Rightarrow> i | None \<Rightarrow> repo);
                   token = (case Cache_Exchange.asString (jprop parsed ''token'') of Some t \<Rightarrow> Some t | None \<Rightarrow> ad_defaultGitHubToken ao);
                   createdAt = (case map_of repos id' of Some existing \<Rightarrow> rr_createdAt existing | None \<Rightarrow> now);
                   rr = \<lparr>rr_id = id', rr_repo = repo, rr_token = token, rr_createdAt = createdAt, rr_updatedAt = now\<rparr>
               in (AList.update id' rr repos, net,
                   [admin_audit ''admin.github.register'' now 200 ''/api/v1/admin/github/repos/register'' id'
                     [(''has_token'', JBool (token \<noteq> None))]],
                   Some (response_json (JObj [(''ok'', JBool True), (''target'', repo_json rr)]) 200))))"

definition target_result_json :: "target_result \<Rightarrow> json" where
  "target_result_json t = JObj
     ([(''ok'', JBool (tx_ok t)), (''operation'', JStr (operation_text (tx_operation t))), (''status'', jint (tx_status t))] @
      opt_field ''message'' (map_option JStr (tx_message t)) @ opt_field ''data'' (tx_data t))"

definition repo_target :: "admin_options \<Rightarrow> registered_repo \<Rightarrow> target_options" where
  "repo_target ao rr =
     \<lparr>tg_repo = rr_repo rr, tg_token = rr_token rr, tg_apiBaseUrl = ad_apiBaseUrl ao, tg_maxRetries = None, tg_retryDelayMs = None\<rparr>"

definition handlePushOrDispatch ::
    "admin_options \<Rightarrow> 'n gh_network \<Rightarrow> int \<Rightarrow> request \<Rightarrow> nat list \<Rightarrow> relay_operation \<Rightarrow> registry \<Rightarrow> 'n \<Rightarrow> 'n admin_result" where
  "handlePushOrDispatch ao nw now r targetId operation repos net =
     (case find (\<lambda>p. points (fst p) = targetId) repos of
        None \<Rightarrow> (repos, net, [], Some (admin_error ''target not found'' 404))
      | Some (id', rr) \<Rightarrow>
          (case parseJsonBody (gn_parse nw) r of
             None \<Rightarrow> (repos, net, [], Some (admin_error ''invalid json'' 400))
           | Some parsed \<Rightarrow>
               (case execute nw (repo_target ao rr)
                   \<lparr>tr_operation = operation, tr_repo = rr_repo rr, tr_ref = None, tr_payload = Some parsed, tr_auth = adminAuthContext\<rparr> net of
                  (None, net1) \<Rightarrow> (repos, net1, [], None)
                | (Some result, net1) \<Rightarrow>
                    (repos, net1,
                     [admin_audit (if operation = Op_push then ''admin.github.push'' else ''admin.github.dispatch'') now
                       (tx_status result)
                       (''/api/v1/admin/github/repos/'' @ id' @ (if operation = Op_push then ''/push'' else ''/actions/dispatch''))
                       id' [(''ok'', JBool (tx_ok result))]],
                     Some (if tx_status result \<in> {204, 205, 304}
                       then \<lparr>resp_status = tx_status result, resp_headers = [], resp_body = NoBody\<rparr>
                       else response_json (target_result_json result) (tx_status result))))))"

definition handleList :: "registry \<Rightarrow> response" where
  "handleList repos = response_json (JObj [(''ok'', JBool True), (''targets'', JArr (map (\<lambda>p. repo_json (snd p)) repos))]) 200"

text \<open>The target of \<open>/repos/<id><rest>\<close>: the id is one segment, not empty.\<close>

definition repos_path :: string where
  "repos_path = ''/api/v1/admin/github/repos''"

definition target_segment :: "string \<Rightarrow> string \<Rightarrow> string option" where
  "target_segment rest path =
     (let tail = drop (length repos_path + 1) path; seg = takeWhile (\<lambda>c. c \<noteq> CHR ''/'') tail
      in if prefix (repos_path @ ''/'') path \<and> seg \<noteq> [] \<and> tail = seg @ rest then Some seg else None)"

definition on_target ::
    "admin_options \<Rightarrow> 'n gh_network \<Rightarrow> int \<Rightarrow> request \<Rightarrow> string \<Rightarrow> relay_operation \<Rightarrow> registry \<Rightarrow> 'n \<Rightarrow> 'n admin_result" where
  "on_target ao nw now r seg operation repos net =
     (case decodeURIComponent seg of
        None \<Rightarrow> (repos, net, [], None)
      | Some targetId \<Rightarrow> handlePushOrDispatch ao nw now r targetId operation repos net)"

text \<open>The outer option is \<open>null\<close> for a path that is not the API's.\<close>

definition handle :: "admin_options \<Rightarrow> 'n gh_network \<Rightarrow> int \<Rightarrow> request \<Rightarrow> registry \<Rightarrow> 'n \<Rightarrow> 'n admin_result option" where
  "handle ao nw now r repos net =
     (let path = req_path r; post = (req_method r = ''POST'')
      in if \<not> prefix ''/api/v1/admin/github/'' path then None
         else Some (case ensureAuthorized ao r of
             Some denied \<Rightarrow> (repos, net, [], Some denied)
           | None \<Rightarrow>
               if path = repos_path \<and> req_method r = ''GET'' then (repos, net, [], Some (handleList repos))
               else if path = repos_path @ ''/register'' \<and> post then handleRegister ao (gn_parse nw) now r repos net
               else (case (target_segment ''/push'' path, target_segment ''/actions/dispatch'' path, post) of
                   (Some seg, _, True) \<Rightarrow> on_target ao nw now r seg Op_push repos net
                 | (None, Some seg, True) \<Rightarrow> on_target ao nw now r seg Op_notify repos net
                 | _ \<Rightarrow> (repos, net, [], Some (admin_error ''not found'' 404)))))"

section \<open>Facts\<close>

text \<open>
  Claim C36. The administration is closed to everyone without the administrator's token: under
  \<open>/api/v1/admin/github/\<close>, a request whose bearer token is not the configured one, and any request when none
  is configured, is answered 401 or 503, and registers nothing, calls nobody and leaves no audit record.
\<close>

theorem admin_needs_token:
  assumes "prefix ''/api/v1/admin/github/'' (req_path r)"
    and "ad_adminToken ao = None \<or> ad_adminToken ao = Some [] \<or> parseBearerToken r \<noteq> ad_adminToken ao"
  shows "\<exists>resp. handle ao nw now r repos net = Some (repos, net, [], Some resp) \<and> resp_status resp \<in> {401, 503}"
  using assms by (auto simp: handle_def ensureAuthorized_def admin_error_def response_json_def)

definition demo_admin :: admin_options where
  "demo_admin = \<lparr>ad_adminToken = Some ''root'', ad_defaultGitHubToken = None, ad_apiBaseUrl = None\<rparr>"

definition admin_request :: "string \<Rightarrow> string \<Rightarrow> string \<Rightarrow> request" where
  "admin_request token method path =
     \<lparr>req_method = method, req_path = path, req_query = [], req_headers = [(''authorization'', ''Bearer '' @ token)], req_text = ''{}''\<rparr>"

theorem admin_needs_token_witness:
  "\<exists>resp. handle demo_admin (scripted (\<lambda>p b. Some (b @ p))) 5 (admin_request ''guess'' ''GET'' ''/api/v1/admin/github/repos'') []
     \<lparr>sc_statuses = [200], sc_calls = 0, sc_waits = []\<rparr> =
       Some ([], \<lparr>sc_statuses = [200], sc_calls = 0, sc_waits = []\<rparr>, [], Some resp) \<and> resp_status resp \<in> {401, 503}"
  by (rule admin_needs_token)
    (simp_all add: admin_request_def demo_admin_def parseBearerToken_def header_get_def or_empty_def js_trim_def is_space_def)

end
