(* ===== verification/Deno_Main.thy ===== *)
theory Deno_Main
  imports Relay_Service Git_Cache Repo_Affinity Runtime_Config Trigger_Dispatch Admin_GitHub
begin

text \<open>
  The server of \<open>src/deno_main.ts\<close>: it puts the GitHub administration, the git serve sessions with their cache,
  and the relay behind one request handler, and logs what happens. A request comes with a ticket, and its
  answer is an effect. A git request that a session holds is remembered under its ticket until the session
  settles it. The network of the administration is a state of type \<open>'n\<close>; what the relay broadcasts and hands
  to its cache adapter comes out as \<open>Relay_effects\<close>.
\<close>

section \<open>Session ids and paths\<close>

definition parsePositiveInt :: "string option \<Rightarrow> int \<Rightarrow> int" where
  "parsePositiveInt raw fallback =
     (case finite_trunc (js_parse_int (or_empty raw)) of
        Some value \<Rightarrow> if value \<le> 0 then fallback else value
      | None \<Rightarrow> fallback)"

definition parseCsvList :: "string option \<Rightarrow> string list" where
  "parseCsvList raw =
     (if js_trim (or_empty raw) = [] then []
      else dedupe (filter (\<lambda>s. s \<noteq> []) (map js_trim (split_on (CHR '','') (or_empty raw)))))"

definition session_id_pattern :: "string \<Rightarrow> bool" where
  "session_id_pattern s \<longleftrightarrow> 6 \<le> length s \<and> length s \<le> 16 \<and> list_all is_alnum s"

definition before_slash :: "string \<Rightarrow> string" where
  "before_slash s = takeWhile (\<lambda>c. c \<noteq> CHR ''/'') s"

definition named_session_pattern :: "string \<Rightarrow> bool" where
  "named_session_pattern s \<longleftrightarrow>
     (let owner = before_slash s; repo = drop (length owner + 1) s
      in CHR ''/'' \<in> set s \<and> name_pattern 38 owner \<and> name_pattern 63 repo)"

definition isValidSessionId :: "string \<Rightarrow> bool" where
  "isValidSessionId s \<longleftrightarrow> session_id_pattern s \<or> named_session_pattern s"

definition session_chars :: string where
  "session_chars = ''ABCDEFGHIJKLMNOPQRSTUVWXYZabcdefghijklmnopqrstuvwxyz0123456789''"

text \<open>The eight random bytes are a parameter.\<close>

definition generateSessionId :: "string \<Rightarrow> string" where
  "generateSessionId bytes = map (\<lambda>b. session_chars ! (of_char b mod length session_chars)) bytes"

text \<open>\<open>[A-Za-z0-9][A-Za-z0-9._-]*\<close>.\<close>

definition name_segment :: "string \<Rightarrow> bool" where
  "name_segment s \<longleftrightarrow> (case s of [] \<Rightarrow> False | c # cs \<Rightarrow> is_alnum c \<and> list_all is_name_char cs)"

definition named_git_match :: "string \<Rightarrow> (string \<times> string) option" where
  "named_git_match pathname =
     (let tail = drop 5 pathname; owner = before_slash tail; tail2 = drop (length owner + 1) tail;
          repo = before_slash tail2
      in if prefix ''/git/'' pathname \<and> name_segment owner \<and> CHR ''/'' \<in> set tail \<and> name_segment repo \<and> CHR ''/'' \<in> set tail2
         then Some (owner @ ''/'' @ repo, drop (length repo + 1) tail2) else None)"

definition random_git_match :: "string \<Rightarrow> (string \<times> string) option" where
  "random_git_match pathname =
     (let tail = drop 5 pathname; sid = before_slash tail
      in if prefix ''/git/'' pathname \<and> session_id_pattern sid \<and> CHR ''/'' \<in> set tail
         then Some (sid, drop (length sid + 1) tail) else None)"

text \<open>
  Which session a path goes to: a named session that exists, else a random one, else the named one for its
  cached answers.
\<close>

definition git_route :: "(string \<Rightarrow> bool) \<Rightarrow> string \<Rightarrow> (string \<times> string) option" where
  "git_route known_session pathname =
     (case named_git_match pathname of
        Some (sid, sub) \<Rightarrow>
          if known_session sid then Some (sid, sub)
          else (case random_git_match pathname of Some m \<Rightarrow> Some m | None \<Rightarrow> Some (sid, sub))
      | None \<Rightarrow> random_git_match pathname)"

definition metricOperationForRequest :: "request \<Rightarrow> string" where
  "metricOperationForRequest r =
     to_upper (req_method r) @ '' '' @ (if prefix ''/git/'' (req_path r) then ''/git/:session'' else req_path r)"

section \<open>State\<close>

record deno_config =
  dc_runtime :: runtime_config
  dc_relay :: relay_config
  dc_relayAuthToken :: string
  dc_admin :: admin_options
  dc_eventSource :: string

record git_wait =
  gw_sessionId :: string
  gw_cacheKey :: git_cache_key
  gw_cached :: "response option"

record 'n deno_state =
  dn_relay :: relay_state
  dn_store :: memory_store
  dn_sessions :: "(string, git_session) omap"
  dn_waiting :: "(nat, git_wait) omap"
  dn_bodies :: "(string \<times> awaiting) list"
  dn_registry :: registry
  dn_net :: 'n
  dn_started :: "(nat, string \<times> int) omap"
  dn_metrics :: recorder
  dn_log :: "json list"

datatype deno_effect = Answered nat response | Failed nat | Relay_effects "effect list" | Posted webhook_post

text \<open>What an event takes from its surroundings, beside what its parts take.\<close>

record deno_env =
  de_relay :: relay_env
  de_git :: git_env
  de_random :: string
  de_adapter :: cache_adapter

definition de_now_ms :: "deno_env \<Rightarrow> int" where
  "de_now_ms env = arrival_ms (de_relay env)"

definition de_now :: "deno_env \<Rightarrow> int" where
  "de_now env = nowEpochSec (de_now_ms env)"

section \<open>Starting up\<close>

text \<open>The options the relay is created with: the environment's, the peers' of the file, the local repository.\<close>

definition deno_relay_options :: "runtime_config \<Rightarrow> Repo_Affinity.identity \<Rightarrow> relay_options" where
  "deno_relay_options rc local =
     (rc_relay rc)\<lparr>
       op_peerAuthToken := (case pc_authToken (rc_peers rc) of Some t \<Rightarrow> Some t | None \<Rightarrow> op_peerAuthToken (rc_relay rc)),
       op_peerRelayUrls := (if pc_urls (rc_peers rc) \<noteq> [] then pc_urls (rc_peers rc) else op_peerRelayUrls (rc_relay rc)),
       op_repositoryId := id_repoId local, op_repositoryOwner := id_owner local, op_repositoryName := id_name local,
       op_repositoryRecentCommits := id_recentCommits local,
       op_githubWebhookSecret := gh_webhookSecret (rc_github rc)\<rparr>"

definition deno_config_of ::
    "(string \<Rightarrow> json option) \<Rightarrow> env_getter \<Rightarrow> Repo_Affinity.identity \<Rightarrow> string \<Rightarrow> deno_config" where
  "deno_config_of parse getEnv local uuid =
     (let rc = parseRelayRuntimeConfigFromEnv parse getEnv; authToken = op_authToken (rc_relay rc);
          host = (case getEnv ''HOST'' of Some h \<Rightarrow> h | None \<Rightarrow> ''127.0.0.1'');
          port = parsePositiveInt (getEnv ''PORT'') 8788
      in \<lparr>dc_runtime = rc, dc_relay = relay_config_of uuid (deno_relay_options rc local),
          dc_relayAuthToken = js_trim (or_empty authToken),
          dc_admin = \<lparr>ad_adminToken = (case getEnv ''RELAY_ADMIN_TOKEN'' of Some t \<Rightarrow> Some t | None \<Rightarrow> authToken),
            ad_defaultGitHubToken = gh_token (rc_github rc), ad_apiBaseUrl = Some (gh_apiBaseUrl (rc_github rc))\<rparr>,
          dc_eventSource = ''deno:'' @ host @ '':'' @ int_str port\<rparr>)"

definition deno_resolve_options :: "env_getter \<Rightarrow> resolve_options" where
  "deno_resolve_options getEnv =
     \<lparr>ro_explicitRepoId = getEnv ''RELAY_REPO_ID'', ro_explicitOriginUrl = getEnv ''RELAY_REPO_ORIGIN_URL'',
      ro_explicitRecentCommits = parseCsvList (getEnv ''RELAY_REPO_RECENT_COMMITS''),
      ro_commitWindow = of_integer (parsePositiveInt (getEnv ''RELAY_PEER_REPO_FF_COMMIT_WINDOW'') 30)\<rparr>"

definition deno_cache :: "deno_config \<Rightarrow> memory_store cache_store" where
  "deno_cache dc =
     createMemoryCacheStore string_le (Some (of_integer (cc_ttlSec (rc_cache (dc_runtime dc)))))
       (map_option of_integer (cc_maxBytes (rc_cache (dc_runtime dc))))"

definition git_session_options :: "deno_config \<Rightarrow> string \<Rightarrow> git_options" where
  "git_session_options dc sid =
     \<lparr>go_sessionTtlMs = (case rc_sessionTtlSec (dc_runtime dc) of
        Some ttl \<Rightarrow> if ttl > 0 then Some (ttl * 1000) else None | None \<Rightarrow> None),
      go_onIncomingRef = True, go_eventSource = Some (dc_eventSource dc), go_eventTarget = Some (''session:'' @ sid),
      go_eventRoom = None\<rparr>"

definition trigger_options :: "deno_config \<Rightarrow> dispatcher_options" where
  "trigger_options dc =
     (let tc = rc_trigger (dc_runtime dc)
      in \<lparr>do_webhookUrl = tc_webhookUrl tc, do_webhookToken = tc_webhookToken tc, do_eventType = Some (tc_eventType tc),
          do_refPrefixes = Some (tc_refPrefixes tc)\<rparr>)"

section \<open>Answering\<close>

text \<open>\<open>handleRequest\<close>: the answer, or the failure as a 500, goes into the metrics of its operation.\<close>

definition record_request :: "deno_env \<Rightarrow> nat \<Rightarrow> int \<Rightarrow> 'n deno_state \<Rightarrow> 'n deno_state" where
  "record_request env ticket status st =
     (case map_of (dn_started st) ticket of
        None \<Rightarrow> st
      | Some (operation, startedAtMs) \<Rightarrow>
          let res = fst (record_metric
            \<lparr>mi_operation = operation, mi_occurredAt = of_integer (de_now env), mi_status = of_integer status,
             mi_latencyMs = of_integer (max 0 (de_now_ms env - startedAtMs)), mi_retryCount = Some (of_integer 0)\<rparr>
            (dn_metrics st, dn_log st))
          in st\<lparr>dn_metrics := fst res, dn_log := snd res, dn_started := AList.delete ticket (dn_started st)\<rparr>)"

definition give_answer :: "deno_env \<Rightarrow> nat \<Rightarrow> response \<Rightarrow> 'n deno_state \<Rightarrow> 'n deno_state \<times> deno_effect list" where
  "give_answer env ticket resp st = (record_request env ticket (resp_status resp) st, [Answered ticket resp])"

definition fail_request :: "deno_env \<Rightarrow> nat \<Rightarrow> 'n deno_state \<Rightarrow> 'n deno_state \<times> deno_effect list" where
  "fail_request env ticket st = (record_request env ticket 500 st, [Failed ticket])"

section \<open>Git requests\<close>

text \<open>
  The second half of \<open>handleGitRelayRequest\<close>, once the session has answered: a 200 answer is cached, and a
  cached answer stands in for a 404 or a 410.
\<close>

definition finish_git ::
    "deno_config \<Rightarrow> deno_env \<Rightarrow> nat \<Rightarrow> git_wait \<Rightarrow> response \<Rightarrow> 'n deno_state \<Rightarrow> 'n deno_state \<times> deno_effect list" where
  "finish_git dc env ticket gw resp st =
     (let st1 = st\<lparr>dn_waiting := AList.delete ticket (dn_waiting st)\<rparr>
      in if resp_status resp = 200
         then give_answer env ticket resp
           (st1\<lparr>dn_store := fst (safeWriteGitCache (deno_cache dc) (digest (de_relay env)) (num_text (de_relay env))
              (de_now env) (gw_cacheKey gw) resp (dn_store st1))\<rparr>)
         else case gw_cached gw of
             Some cached \<Rightarrow>
               give_answer env ticket (if resp_status resp \<in> {404, 410} then cached else resp) st1
           | None \<Rightarrow> give_answer env ticket resp st1)"

text \<open>One effect of a session: a settled promise, a request that throws, an event for the log and the trigger.\<close>

definition session_effect ::
    "deno_config \<Rightarrow> deno_env \<Rightarrow> git_effect \<Rightarrow> 'n deno_state \<Rightarrow> 'n deno_state \<times> deno_effect list" where
  "session_effect dc env e st =
     (case e of
        Settle t resp \<Rightarrow>
          (case map_of (dn_waiting st) t of
             Some gw \<Rightarrow> finish_git dc env t gw resp st
           | None \<Rightarrow> give_answer env t resp st)
      | Reject t \<Rightarrow> fail_request env t (st\<lparr>dn_waiting := AList.delete t (dn_waiting st)\<rparr>)
      | Emit ev \<Rightarrow>
          (st\<lparr>dn_log := logRelayEvent ev (dn_log st)\<rparr>,
           (case ev of
              IncomingRef b ref target \<Rightarrow>
                (case fst (dispatchIncomingRef (trigger_options dc) (\<lambda>_. None) b ref target) of
                   Some post \<Rightarrow> [Posted post] | None \<Rightarrow> [])
            | _ \<Rightarrow> [])))"

fun session_effects ::
    "deno_config \<Rightarrow> deno_env \<Rightarrow> git_effect list \<Rightarrow> 'n deno_state \<Rightarrow> 'n deno_state \<times> deno_effect list" where
  "session_effects dc env [] st = (st, [])"
| "session_effects dc env (e # es) st =
     (let one = session_effect dc env e st; rest = session_effects dc env es (fst one)
      in (fst rest, snd one @ snd rest))"

text \<open>A call of a session: its new state is stored, the calls that await a body are kept, its effects handled.\<close>

definition after_session ::
    "deno_config \<Rightarrow> deno_env \<Rightarrow> string \<Rightarrow> git_session \<times> git_effect list \<times> awaiting list \<Rightarrow> 'n deno_state \<Rightarrow>
     'n deno_state \<times> deno_effect list" where
  "after_session dc env sid res st =
     session_effects dc env (fst (snd res))
       (st\<lparr>dn_sessions := AList.update sid (fst res) (dn_sessions st),
           dn_bodies := dn_bodies st @ map (\<lambda>a. (sid, a)) (snd (snd res))\<rparr>)"

definition call_session ::
    "deno_config \<Rightarrow> deno_env \<Rightarrow> nat \<Rightarrow> string \<Rightarrow> git_session \<Rightarrow> request \<Rightarrow> 'n deno_state \<Rightarrow> 'n deno_state \<times> deno_effect list" where
  "call_session dc env ticket sid session r st =
     after_session dc env sid (git_fetch (git_session_options dc sid) (de_git env) ticket r session) st"

definition session_not_found :: response where
  "session_not_found = git_error ''session not found'' 404"

definition handleGitRelayRequest ::
    "deno_config \<Rightarrow> deno_env \<Rightarrow> nat \<Rightarrow> request \<Rightarrow> string \<Rightarrow> string \<Rightarrow> 'n deno_state \<Rightarrow> 'n deno_state \<times> deno_effect list" where
  "handleGitRelayRequest dc env ticket r sid sub st =
     (let cacheKey = buildGitCacheKeyFromRequest (digest (de_relay env)) r sid (''/'' @ sub);
          read = safeReadGitCache (deno_cache dc) (de_now env) cacheKey (dn_store st);
          cached = fst (snd read);
          st1 = st\<lparr>dn_store := fst read\<rparr>
      in case map_of (dn_sessions st1) sid of
           None \<Rightarrow> give_answer env ticket (case cached of Some c \<Rightarrow> c | None \<Rightarrow> session_not_found) st1
         | Some session \<Rightarrow>
             call_session dc env ticket sid session (r\<lparr>req_path := ''/git/'' @ sub\<rparr>)
               (st1\<lparr>dn_waiting := AList.update ticket \<lparr>gw_sessionId = sid, gw_cacheKey = cacheKey, gw_cached = cached\<rparr> (dn_waiting st1)\<rparr>))"

section \<open>The relay behind it\<close>

definition withRelayAuthHeaders :: "deno_config \<Rightarrow> (string \<times> string) list \<Rightarrow> (string \<times> string) list" where
  "withRelayAuthHeaders dc headers =
     (if dc_relayAuthToken dc \<noteq> [] \<and> map_of headers ''authorization'' = None
      then headers @ [(''authorization'', ''Bearer '' @ dc_relayAuthToken dc)] else headers)"

definition createInternalServiceRequest ::
    "deno_config \<Rightarrow> string \<Rightarrow> string \<Rightarrow> (string \<times> string) list \<Rightarrow> (string \<times> string) list \<Rightarrow> string \<Rightarrow> request" where
  "createInternalServiceRequest dc method path query headers body =
     \<lparr>req_method = method, req_path = path, req_query = query, req_headers = withRelayAuthHeaders dc headers, req_text = body\<rparr>"

definition service_fetch :: "deno_config \<Rightarrow> deno_env \<Rightarrow> request \<Rightarrow> 'n deno_state \<Rightarrow> 'n deno_state \<times> effect list \<times> response" where
  "service_fetch dc env r st =
     (let h = fetch (dc_relay dc) (de_adapter env) (de_relay env) (dn_relay st) r
      in (st\<lparr>dn_relay := fst h\<rparr>, snd h))"

definition response_object :: "response \<Rightarrow> json" where
  "response_object resp = (case resp_body resp of JsonBody j \<Rightarrow> j | _ \<Rightarrow> JNull)"

text \<open>\<open>x ? ... : ...\<close> on a JSON value.\<close>

definition json_truthy :: "json option \<Rightarrow> bool" where
  "json_truthy v =
     (case v of
        None \<Rightarrow> False | Some JNull \<Rightarrow> False | Some (JBool b) \<Rightarrow> b | Some (JStr s) \<Rightarrow> s \<noteq> []
      | Some (JNum (Fin r)) \<Rightarrow> r \<noteq> 0 | Some (JNum NaN) \<Rightarrow> False | Some _ \<Rightarrow> True)"

definition key_verified :: "response \<Rightarrow> bool" where
  "key_verified resp \<longleftrightarrow>
     resp_status resp = 200 \<and>
     (case obj_opt (jprop (response_object resp) ''key'') of
        Some key \<Rightarrow> json_truthy (jprop key ''github_verified_at'') | None \<Rightarrow> False)"

definition serve_audit :: "deno_env \<Rightarrow> string \<Rightarrow> string \<Rightarrow> int \<Rightarrow> audit_log" where
  "serve_audit env sid sender status =
     \<lparr>au_action = (if status = 200 then ''serve.registered'' else ''serve.register_failed''),
      au_occurredAt = of_integer (de_now env), au_status = of_integer status, au_room = None,
      au_sender = nonempty sender, au_target = Some ''/api/v1/serve/register'', au_id = Some sid,
      au_detail = [(''named_session'', JBool (CHR ''/'' \<in> set sid))]\<rparr>"

text \<open>\<open>getOrCreateSession\<close>.\<close>

definition getOrCreateSession :: "string \<Rightarrow> 'n deno_state \<Rightarrow> git_session" where
  "getOrCreateSession sid st = (case map_of (dn_sessions st) sid of Some s \<Rightarrow> s | None \<Rightarrow> new_session)"

text \<open>The id a host registers under: \<open>sender/repo\<close> for a sender that GitHub has verified, else a random one.\<close>

definition chosen_session_id ::
    "deno_config \<Rightarrow> deno_env \<Rightarrow> request \<Rightarrow> 'n deno_state \<Rightarrow> 'n deno_state \<times> deno_effect list \<times> string" where
  "chosen_session_id dc env r st =
     (let sender = or_empty (query_get r ''sender''); repo = or_empty (query_get r ''repo'')
      in if sender \<noteq> [] \<and> repo \<noteq> []
         then let res = service_fetch dc env
                  (createInternalServiceRequest dc ''GET'' ''/api/v1/key/info'' [(''sender'', sender)] [] []) st
              in (fst res, [Relay_effects (fst (snd res))],
                  if key_verified (snd (snd res)) then sender @ ''/'' @ repo else generateSessionId (de_random env))
         else (st, [], generateSessionId (de_random env)))"

definition register_request :: request where
  "register_request = \<lparr>req_method = ''POST'', req_path = ''/register'', req_query = [], req_headers = [], req_text = []\<rparr>"

text \<open>A registration answers at once, so its answer is the only effect of the call.\<close>

definition serve_register ::
    "deno_config \<Rightarrow> deno_env \<Rightarrow> nat \<Rightarrow> request \<Rightarrow> 'n deno_state \<Rightarrow> 'n deno_state \<times> deno_effect list" where
  "serve_register dc env ticket r st =
     (let chosen = chosen_session_id dc env r st; st1 = fst chosen; sid = snd (snd chosen);
          reg = Git_Session.handleRegister (git_session_options dc sid) (de_git env) (getOrCreateSession sid st1);
          body = JObj (AList.update ''session_id'' (JStr sid) (members (response_object (snd reg))));
          st2 = st1\<lparr>dn_sessions := AList.update sid (fst reg) (dn_sessions st1),
                    dn_log := logRelayAudit (serve_audit env sid (or_empty (query_get r ''sender'')) (resp_status (snd reg))) (dn_log st1)\<rparr>;
          answered = give_answer env ticket (response_json body 200) st2
      in (fst answered, fst (snd chosen) @ snd answered))"

definition extractSessionToken :: "request \<Rightarrow> string" where
  "extractSessionToken r =
     (case query_get r ''session_token'' of
        Some t \<Rightarrow> t | None \<Rightarrow> (case header_get r ''x-session-token'' of Some t \<Rightarrow> t | None \<Rightarrow> []))"

text \<open>
  The query of the poll that is passed on. The timeout is pasted into the URL as it came, so the query is
  parsed from the text; a character that no token and no number has stands for the others.
\<close>

definition latin_char :: "nat \<Rightarrow> char" where
  "latin_char p = (if p < 256 then char_of p else if is_space_point p then CHR '' '' else CHR ''?'')"

definition url_query :: "string \<Rightarrow> (string \<times> string) list" where
  "url_query s =
     map (\<lambda>(k, v). (map latin_char k, map latin_char v))
       (form_parse (utf8 (takeWhile (\<lambda>c. c \<noteq> CHR ''#'') (filter (\<lambda>c. (of_char c :: nat) \<notin> {9, 10, 13}) s))))"

definition session_call ::
    "deno_config \<Rightarrow> deno_env \<Rightarrow> nat \<Rightarrow> request \<Rightarrow> request \<Rightarrow> 'n deno_state \<Rightarrow> 'n deno_state \<times> deno_effect list" where
  "session_call dc env ticket r sub st =
     (let sid = or_empty (query_get r ''session'')
      in if \<not> isValidSessionId sid then give_answer env ticket (git_error ''invalid session'' 400) st
         else case map_of (dn_sessions st) sid of
             None \<Rightarrow> give_answer env ticket session_not_found st
           | Some session \<Rightarrow> call_session dc env ticket sid session sub st)"

definition poll_request :: "request \<Rightarrow> request" where
  "poll_request r =
     \<lparr>req_method = ''GET'', req_path = ''/poll'',
      req_query = url_query (''timeout='' @ (case query_get r ''timeout'' of Some t \<Rightarrow> t | None \<Rightarrow> ''30'') @ ''&session_token='' @
        encodeURIComponent (extractSessionToken r)),
      req_headers = [], req_text = []\<rparr>"

definition respond_request :: "request \<Rightarrow> request" where
  "respond_request r =
     \<lparr>req_method = ''POST'', req_path = ''/respond'', req_query = [(''session_token'', extractSessionToken r)],
      req_headers = req_headers r, req_text = req_text r\<rparr>"

definition info_request :: "request \<Rightarrow> request" where
  "info_request r =
     \<lparr>req_method = ''GET'', req_path = ''/info'', req_query = [(''session_token'', extractSessionToken r)], req_headers = [],
      req_text = []\<rparr>"

text \<open>The audit of a publication or a review that went through the relay.\<close>

definition relay_audit :: "deno_env \<Rightarrow> request \<Rightarrow> int \<Rightarrow> audit_log list" where
  "relay_audit env r status =
     (let q = (\<lambda>k. or_empty (query_get r k));
          entry = (\<lambda>action i detail.
            \<lparr>au_action = action, au_occurredAt = of_integer (de_now env), au_status = of_integer status,
             au_room = nonempty (q ''room''), au_sender = nonempty (q ''sender''), au_target = Some (req_path r),
             au_id = nonempty i, au_detail = detail\<rparr>)
      in if req_method r \<noteq> ''POST'' then []
         else if req_path r = ''/api/v1/publish''
         then [entry (if status = 200 then ''publish.accepted'' else ''publish.rejected'') (q ''id'')
                 [(''topic'', JStr (case query_get r ''topic'' of Some t \<Rightarrow> t | None \<Rightarrow> ''notify''))]]
         else if req_path r = ''/api/v1/review''
         then [entry (if status = 200 then ''review.recorded'' else ''review.rejected'') (q ''pr_id'') [(''verdict'', JStr (q ''verdict''))]]
         else [])"

definition relay_fallthrough ::
    "deno_config \<Rightarrow> deno_env \<Rightarrow> nat \<Rightarrow> request \<Rightarrow> 'n deno_state \<Rightarrow> 'n deno_state \<times> deno_effect list" where
  "relay_fallthrough dc env ticket r st =
     (let res = service_fetch dc env r st; resp = snd (snd res);
          st1 = (fst res)\<lparr>dn_log := foldl (\<lambda>log a. logRelayAudit a log) (dn_log (fst res)) (relay_audit env r (resp_status resp))\<rparr>;
          answered = give_answer env ticket resp st1
      in (fst answered, Relay_effects (fst (snd res)) # snd answered))"

section \<open>The handler\<close>

definition handleRequestCore ::
    "deno_config \<Rightarrow> 'n gh_network \<Rightarrow> deno_env \<Rightarrow> nat \<Rightarrow> request \<Rightarrow> 'n deno_state \<Rightarrow> 'n deno_state \<times> deno_effect list" where
  "handleRequestCore dc nw env ticket r st =
     (case handle (dc_admin dc) nw (de_now env) r (dn_registry st) (dn_net st) of
        Some (repos, net, audits, answer') \<Rightarrow>
          let st1 = st\<lparr>dn_registry := repos, dn_net := net, dn_log := foldl (\<lambda>log a. logRelayAudit a log) (dn_log st) audits\<rparr>
          in (case answer' of Some resp \<Rightarrow> give_answer env ticket resp st1 | None \<Rightarrow> fail_request env ticket st1)
      | None \<Rightarrow>
          (case git_route (\<lambda>sid. map_of (dn_sessions st) sid \<noteq> None) (req_path r) of
             Some (sid, sub) \<Rightarrow> handleGitRelayRequest dc env ticket r sid sub st
           | None \<Rightarrow>
               if req_path r = ''/api/v1/serve/register'' \<and> req_method r = ''POST'' then serve_register dc env ticket r st
               else if req_path r = ''/api/v1/serve/poll'' \<and> req_method r = ''GET'' then session_call dc env ticket r (poll_request r) st
               else if req_path r = ''/api/v1/serve/respond'' \<and> req_method r = ''POST''
               then session_call dc env ticket r (respond_request r) st
               else if req_path r = ''/api/v1/serve/info'' \<and> req_method r = ''GET'' then session_call dc env ticket r (info_request r) st
               else relay_fallthrough dc env ticket r st))"

definition handleRequest ::
    "deno_config \<Rightarrow> 'n gh_network \<Rightarrow> deno_env \<Rightarrow> nat \<Rightarrow> request \<Rightarrow> 'n deno_state \<Rightarrow> 'n deno_state \<times> deno_effect list" where
  "handleRequest dc nw env ticket r st =
     handleRequestCore dc nw env ticket r
       (st\<lparr>dn_started := AList.update ticket (metricOperationForRequest r, de_now_ms env) (dn_started st)\<rparr>)"

section \<open>Events\<close>

text \<open>
  Beside requests: the body of a call arrives at its session, a timer of a session that is armed fires, and
  the relay has its own socket events and timer.
\<close>

definition body_arrives ::
    "deno_config \<Rightarrow> deno_env \<Rightarrow> nat \<Rightarrow> 'n deno_state \<Rightarrow> 'n deno_state \<times> deno_effect list" where
  "body_arrives dc env ticket st =
     (case find (\<lambda>p. aw_ticket (snd p) = ticket) (dn_bodies st) of
        None \<Rightarrow> (st, [])
      | Some (sid, a) \<Rightarrow>
          let st1 = st\<lparr>dn_bodies := remove1 (sid, a) (dn_bodies st)\<rparr>;
              res = resume (git_session_options dc sid) (de_git env) a (getOrCreateSession sid st1)
          in after_session dc env sid (fst res, snd res, []) st1)"

definition session_timer_fires ::
    "deno_config \<Rightarrow> deno_env \<Rightarrow> string \<Rightarrow> git_timer \<Rightarrow> 'n deno_state \<Rightarrow> 'n deno_state \<times> deno_effect list" where
  "session_timer_fires dc env sid t st =
     (case map_of (dn_sessions st) sid of
        None \<Rightarrow> (st, [])
      | Some session \<Rightarrow>
          if t \<notin> fst ` set (gs_timers session) then (st, [])
          else let res = fire t session in after_session dc env sid (fst res, snd res, []) st)"

datatype deno_event =
    Http_request deno_env nat request
  | Body_arrived deno_env nat
  | Session_timer deno_env string git_timer
  | Relay_event deno_env relay_event

definition deno_step :: "deno_config \<Rightarrow> 'n gh_network \<Rightarrow> deno_event \<Rightarrow> 'n deno_state \<Rightarrow> 'n deno_state \<times> deno_effect list" where
  "deno_step dc nw e st =
     (case e of
        Http_request env ticket r \<Rightarrow> handleRequest dc nw env ticket r st
      | Body_arrived env ticket \<Rightarrow> body_arrives dc env ticket st
      | Session_timer env sid t \<Rightarrow> session_timer_fires dc env sid t st
      | Relay_event env re \<Rightarrow> (st\<lparr>dn_relay := relay_step (dc_relay dc) (de_adapter env) (dn_relay st) re\<rparr>, []))"

definition initial_deno :: "int \<Rightarrow> 'n \<Rightarrow> 'n deno_state" where
  "initial_deno now net =
     \<lparr>dn_relay = initial_state now, dn_store = [], dn_sessions = [], dn_waiting = [], dn_bodies = [], dn_registry = [],
      dn_net = net, dn_started = [], dn_metrics = [], dn_log = []\<rparr>"

end
