(* ===== verification/Deno_Facts.thy ===== *)
theory Deno_Facts
  imports Deno_Main
begin

text \<open>
  What the server promises and where it does not: it keeps the relay and the cache in order whatever
  happens, its own requests to the relay are authorised, and the sessions of hosts are not kept apart as
  their ids suggest.
\<close>

section \<open>What the steps leave alone\<close>

lemma record_request_fields [simp]:
  "dn_relay (record_request env t s st) = dn_relay st" "dn_store (record_request env t s st) = dn_store st"
  "dn_sessions (record_request env t s st) = dn_sessions st" "dn_waiting (record_request env t s st) = dn_waiting st"
  by (simp_all add: record_request_def Let_def split: option.split prod.split)

lemma give_answer_fields [simp]:
  "dn_relay (fst (give_answer env t r st)) = dn_relay st" "dn_store (fst (give_answer env t r st)) = dn_store st"
  "dn_sessions (fst (give_answer env t r st)) = dn_sessions st" "dn_waiting (fst (give_answer env t r st)) = dn_waiting st"
  "snd (give_answer env t r st) = [Answered t r]"
  by (simp_all add: give_answer_def)

lemma fail_request_fields [simp]:
  "dn_relay (fst (fail_request env t st)) = dn_relay st" "dn_store (fst (fail_request env t st)) = dn_store st"
  "dn_sessions (fst (fail_request env t st)) = dn_sessions st"
  by (simp_all add: fail_request_def)

section \<open>The invariant\<close>

definition deno_policy :: "deno_config \<Rightarrow> store_policy" where
  "deno_policy dc =
     normalizeCacheStorePolicy (Some (of_integer (cc_ttlSec (rc_cache (dc_runtime dc)))))
       (map_option of_integer (cc_maxBytes (rc_cache (dc_runtime dc))))"

definition deno_ok :: "deno_config \<Rightarrow> 'n deno_state \<Rightarrow> bool" where
  "deno_ok dc st \<longleftrightarrow> state_ok (dc_relay dc) (dn_relay st) \<and> memory_ok (deno_policy dc) (dn_store st)"

lemma deno_policy_ok [simp]: "policy_ok (deno_policy dc)"
  by (simp add: deno_policy_def)

lemma cache_write_ok:
  "memory_ok (deno_policy dc) m \<Longrightarrow> memory_ok (deno_policy dc) (fst (safeWriteGitCache (deno_cache dc) sha ns now k resp m))"
  by (simp add: safeWriteGitCache_def writeGitCache_def deno_cache_def createMemoryCacheStore_def Let_def
      memory_put_ok flip: deno_policy_def)

lemma cache_read_ok:
  "memory_ok (deno_policy dc) m \<Longrightarrow> memory_ok (deno_policy dc) (fst (safeReadGitCache (deno_cache dc) now k m))"
  by (simp add: safeReadGitCache_def readGitCache_def deno_cache_def createMemoryCacheStore_def Let_def
      memory_get_ok flip: deno_policy_def)

lemma deno_ok_answer [simp]:
  "deno_ok dc (fst (give_answer env t r st)) = deno_ok dc st" "deno_ok dc (fst (fail_request env t st)) = deno_ok dc st"
  by (simp_all add: deno_ok_def)

lemma deno_ok_fields [simp]:
  "deno_ok dc (st\<lparr>dn_waiting := w\<rparr>) = deno_ok dc st" "deno_ok dc (st\<lparr>dn_log := l\<rparr>) = deno_ok dc st"
  "deno_ok dc (st\<lparr>dn_sessions := s\<rparr>) = deno_ok dc st" "deno_ok dc (st\<lparr>dn_bodies := b\<rparr>) = deno_ok dc st"
  "deno_ok dc (st\<lparr>dn_registry := g\<rparr>) = deno_ok dc st" "deno_ok dc (st\<lparr>dn_net := n\<rparr>) = deno_ok dc st"
  "deno_ok dc (st\<lparr>dn_started := q\<rparr>) = deno_ok dc st"
  by (simp_all add: deno_ok_def)

lemma finish_git_ok: "deno_ok dc st \<Longrightarrow> deno_ok dc (fst (finish_git dc env t gw resp st))"
  by (auto simp: finish_git_def Let_def deno_ok_def cache_write_ok split: option.split)

lemma session_effect_ok: "deno_ok dc st \<Longrightarrow> deno_ok dc (fst (session_effect dc env e st))"
  by (cases e) (auto simp: session_effect_def finish_git_ok split: option.split)

lemma session_effects_ok: "deno_ok dc st \<Longrightarrow> deno_ok dc (fst (session_effects dc env es st))"
  by (induction es arbitrary: st) (simp_all add: Let_def session_effect_ok)

lemma after_session_ok: "deno_ok dc st \<Longrightarrow> deno_ok dc (fst (after_session dc env sid res st))"
  by (simp add: after_session_def session_effects_ok)

lemma service_fetch_ok:
  assumes "config_ok (dc_relay dc)" "env_ok (de_relay env)" "deno_ok dc st"
  shows "deno_ok dc (fst (service_fetch dc env r st))"
  using assms fetch_ok [OF assms(1,2)] by (simp add: service_fetch_def deno_ok_def Let_def)

lemma git_request_ok: "deno_ok dc st \<Longrightarrow> deno_ok dc (fst (handleGitRelayRequest dc env t r sid sub st))"
proof -
  assume "deno_ok dc st"
  then have "deno_ok dc (st\<lparr>dn_store := fst (safeReadGitCache (deno_cache dc) now k (dn_store st))\<rparr>)" for now k
    by (simp add: deno_ok_def cache_read_ok)
  then show ?thesis
    by (simp add: handleGitRelayRequest_def call_session_def after_session_ok Let_def split: option.split)
qed

lemma session_call_ok: "deno_ok dc st \<Longrightarrow> deno_ok dc (fst (session_call dc env t r sub st))"
  by (simp add: session_call_def call_session_def after_session_ok Let_def split: option.split)

lemma chosen_ok:
  assumes "config_ok (dc_relay dc)" "env_ok (de_relay env)" "deno_ok dc st"
  shows "deno_ok dc (fst (chosen_session_id dc env r st))"
  using assms by (simp add: chosen_session_id_def Let_def service_fetch_ok)

lemma serve_register_ok:
  assumes "config_ok (dc_relay dc)" "env_ok (de_relay env)" "deno_ok dc st"
  shows "deno_ok dc (fst (serve_register dc env t r st))"
  using chosen_ok [OF assms] by (simp add: serve_register_def Let_def)

lemma relay_fallthrough_ok:
  assumes "config_ok (dc_relay dc)" "env_ok (de_relay env)" "deno_ok dc st"
  shows "deno_ok dc (fst (relay_fallthrough dc env t r st))"
  using service_fetch_ok [OF assms] by (simp add: relay_fallthrough_def Let_def)

lemma handle_request_ok:
  assumes "config_ok (dc_relay dc)" "env_ok (de_relay env)" "deno_ok dc st"
  shows "deno_ok dc (fst (handleRequest dc nw env t r st))"
proof -
  have "deno_ok dc (fst (handleRequestCore dc nw env t r st'))" if st': "deno_ok dc st'" for st'
  proof (cases "handle (dc_admin dc) nw (de_now env) r (dn_registry st') (dn_net st')")
    case None
    then show ?thesis
      using serve_register_ok [OF assms(1,2) st'] relay_fallthrough_ok [OF assms(1,2) st'] git_request_ok [OF st'] session_call_ok [OF st']
      unfolding handleRequestCore_def by (simp split: option.split prod.split)
  next
    case (Some x)
    then show ?thesis
      using st' unfolding handleRequestCore_def by (simp add: Let_def split: option.split prod.split)
  qed
  then show ?thesis using assms(3) by (simp add: handleRequest_def)
qed

definition deno_event_ok :: "deno_event \<Rightarrow> bool" where
  "deno_event_ok e =
     (case e of Http_request env t r \<Rightarrow> env_ok (de_relay env) | Relay_event env re \<Rightarrow> event_ok re | _ \<Rightarrow> True)"

lemma deno_step_ok:
  assumes "config_ok (dc_relay dc)" "deno_ok dc st" "deno_event_ok e"
  shows "deno_ok dc (fst (deno_step dc nw e st))"
proof (cases e)
  case (Http_request env t r)
  then show ?thesis using assms handle_request_ok by (simp add: deno_step_def deno_event_ok_def)
next
  case (Body_arrived env t)
  then show ?thesis using assms
    by (auto simp: deno_step_def body_arrives_def Let_def after_session_ok split: option.split)
next
  case (Session_timer env sid t)
  then show ?thesis using assms
    by (auto simp: deno_step_def session_timer_fires_def Let_def after_session_ok split: option.split)
next
  case (Relay_event env re)
  then have "state_ok (dc_relay dc) (relay_step (dc_relay dc) (de_adapter env) (dn_relay st) re)"
    using assms relay_step_ok by (simp add: deno_ok_def deno_event_ok_def)
  then show ?thesis using assms(2) by (simp add: deno_step_def Relay_event deno_ok_def)
qed

interpretation server: machine "\<lambda>st e. fst (deno_step dc nw e st)" "\<lambda>st. config_ok (dc_relay dc) \<and> deno_ok dc st" deno_event_ok
  for dc nw
  by unfold_locales (simp add: deno_step_ok)


definition demo_runtime :: runtime_config where
  "demo_runtime =
     \<lparr>rc_relay = no_options,
      rc_github = \<lparr>gh_enabled = False, gh_token = None, gh_apiBaseUrl = ''https://api.github.com'', gh_appId = None,
        gh_appInstallationId = None, gh_webhookSecret = None\<rparr>,
      rc_cache = \<lparr>cc_provider = Memory_provider, cc_r2Bucket = None, cc_r2Prefix = ''relay-cache/'', cc_ttlSec = 86400, cc_maxBytes = None\<rparr>,
      rc_peers = \<lparr>pc_urls = [], pc_syncIntervalSec = 30, pc_authToken = None\<rparr>,
      rc_trigger = \<lparr>tc_webhookUrl = None, tc_webhookToken = None, tc_eventType = ''relay.incoming_ref'', tc_refPrefixes = [''refs/relay/incoming/'']\<rparr>,
      rc_sessionTtlSec = None\<rparr>"

definition demo_deno :: deno_config where
  "demo_deno =
     \<lparr>dc_runtime = demo_runtime, dc_relay = demo_config, dc_relayAuthToken = [], dc_admin = demo_admin, dc_eventSource = ''deno:host:8788''\<rparr>"

definition demo_deno_env :: "int \<Rightarrow> string \<Rightarrow> deno_env" where
  "demo_deno_env now random =
     \<lparr>de_relay = demo_env now JNull,
      de_git = \<lparr>ge_now = now, ge_uuid = ''u1'', ge_event_uuid = (\<lambda>_. ''event''), ge_random = random, ge_parse = (\<lambda>_. None)\<rparr>,
      de_random = ''01234567'', de_adapter = no_store_adapter\<rparr>"

definition serve_request :: "string \<Rightarrow> string \<Rightarrow> (string \<times> string) list \<Rightarrow> request" where
  "serve_request method path query = \<lparr>req_method = method, req_path = path, req_query = query, req_headers = [], req_text = []\<rparr>"


section \<open>The server's own requests\<close>

text \<open>The token of the server and that of its relay come from the same option.\<close>

lemma deno_token: "dc_relayAuthToken (deno_config_of parse getEnv local uuid) = cf_authToken (dc_relay (deno_config_of parse getEnv local uuid))"
  by (simp add: deno_config_of_def deno_relay_options_def relay_config_of_def normalizeAuthToken_def Let_def)

lemma header_bearer:
  assumes "js_trim token = token" "token \<noteq> []" "map_of headers ''authorization'' = Some (''Bearer '' @ token)"
  shows "extractPresentedToken \<lparr>req_method = m, req_path = p, req_query = q, req_headers = headers, req_text = t\<rparr> = token"
proof -
  have "js_trim (''Bearer '' @ token) = ''Bearer '' @ token"
    using assms(1,2) js_trim_fix [of token] js_trim_fix [of "''Bearer '' @ token"] by (simp add: is_space_def)
  moreover have "dropWhile is_space token = token"
    using assms(1,2) js_trim_fix [of token] by (intro dropWhile_id) simp
  moreover have "to_lower ''Bearer'' = ''bearer''" by code_simp
  ultimately show ?thesis
    using assms by (simp add: extractPresentedToken_def header_trim_def header_get_def or_empty_def Let_def is_space_def)
qed

text \<open>
  The one bearer token of a request the server makes to itself is its API token, so that it passes its own
  relay's authorisation, whether a token is configured or not.
\<close>

lemma internal_presented_token:
  assumes "js_trim (dc_relayAuthToken dc) = dc_relayAuthToken dc" "map_of headers ''authorization'' = None"
  shows "extractPresentedToken (createInternalServiceRequest dc method path query headers body) = dc_relayAuthToken dc"
proof (cases "dc_relayAuthToken dc = []")
  case True
  then show ?thesis
    using assms(2) by (simp add: createInternalServiceRequest_def withRelayAuthHeaders_def extractPresentedToken_def
        header_trim_def header_get_def or_empty_def js_trim_def Let_def)
next
  case False
  have "map_of (withRelayAuthHeaders dc headers) ''authorization'' = Some (''Bearer '' @ dc_relayAuthToken dc)"
    using assms(2) False by (simp add: withRelayAuthHeaders_def map_of_append map_add_def split: option.split)
  then show ?thesis
    unfolding createInternalServiceRequest_def using False assms(1) by (intro header_bearer) auto
qed

lemma deno_token_trimmed: "js_trim (dc_relayAuthToken (deno_config_of parse getEnv local uuid)) = dc_relayAuthToken (deno_config_of parse getEnv local uuid)"
  by (simp add: deno_config_of_def Let_def)

lemma internal_request_authorized:
  assumes "dc_relayAuthToken dc = cf_authToken (dc_relay dc)" "js_trim (dc_relayAuthToken dc) = dc_relayAuthToken dc"
    and "map_of headers ''authorization'' = None"
  shows "authorized (dc_relay dc) (createInternalServiceRequest dc method path query headers body)"
  using internal_presented_token [OF assms(2,3)] assms(1) by (simp add: authorized_def timingSafeEqual_iff Let_def)

section \<open>Routes\<close>

lemma before_slash_append: "CHR ''/'' \<notin> set a \<Longrightarrow> before_slash (a @ CHR ''/'' # r) = a"
  unfolding before_slash_def by (subst takeWhile_append2) auto

lemma alnum_no_slash: "is_alnum c \<Longrightarrow> c \<noteq> CHR ''/''"
  by (auto simp: is_alnum_def is_digit_def is_lower_def is_upper_def)

lemma name_char_no_slash: "is_name_char c \<Longrightarrow> c \<noteq> CHR ''/''"
  by (auto simp: is_name_char_def dest: alnum_no_slash)

lemma name_segment_no_slash: "name_segment s \<Longrightarrow> CHR ''/'' \<notin> set s"
  by (auto simp: name_segment_def list_all_iff dest: alnum_no_slash name_char_no_slash split: list.splits)

lemma named_git_match_path:
  assumes "name_segment owner" "name_segment repo"
  shows "named_git_match (''/git/'' @ owner @ ''/'' @ repo @ ''/'' @ sub) = Some (owner @ ''/'' @ repo, sub)"
  using assms name_segment_no_slash [OF assms(1)] name_segment_no_slash [OF assms(2)]
  by (simp add: named_git_match_def before_slash_append Let_def)

lemma random_git_match_path:
  assumes "CHR ''/'' \<notin> set sid"
  shows "random_git_match (''/git/'' @ sid @ ''/'' @ sub) = (if session_id_pattern sid then Some (sid, sub) else None)"
  using assms by (simp add: random_git_match_def before_slash_append Let_def)

text \<open>
  Requests for a named session go to it while it is there. While it is not, they go to its cached
  answers only if the owner's name does not look like a random session id; a name of 6 to 16 letters and
  digits is taken for one, so that such a session's cache is never read and the request is tried on
  another session.
\<close>

theorem offline_named_session_is_misrouted:
  assumes "name_segment owner" "name_segment repo"
  shows "git_route known_session (''/git/'' @ owner @ ''/'' @ repo @ ''/'' @ sub) =
    (if known_session (owner @ ''/'' @ repo) \<or> \<not> session_id_pattern owner then Some (owner @ ''/'' @ repo, sub)
     else Some (owner, repo @ ''/'' @ sub))"
proof -
  have "random_git_match (''/git/'' @ owner @ ''/'' @ repo @ ''/'' @ sub) =
      (if session_id_pattern owner then Some (owner, repo @ ''/'' @ sub) else None)"
    using random_git_match_path [OF name_segment_no_slash [OF assms(1)], of "repo @ ''/'' @ sub"] by simp
  then show ?thesis unfolding git_route_def named_git_match_path [OF assms] by simp
qed

theorem offline_named_session_is_misrouted_witness:
  "git_route (\<lambda>_. False) ''/git/octocat/hello/info/refs'' = Some (''octocat'', ''hello/info/refs'') \<and>
   git_route (\<lambda>_. False) ''/git/octo/hello/info/refs'' = Some (''octo/hello'', ''info/refs'')"
proof -
  have "name_segment ''octocat'' \<and> name_segment ''octo'' \<and> name_segment ''hello'' \<and> session_id_pattern ''octocat'' \<and> \<not> session_id_pattern ''octo''"
    by code_simp
  then show ?thesis
    using offline_named_session_is_misrouted [of "''octocat''" "''hello''" "\<lambda>_. False" "''info/refs''"]
      offline_named_session_is_misrouted [of "''octo''" "''hello''" "\<lambda>_. False" "''info/refs''"]
    by simp
qed

end
