(* ===== verification/Deno_Sessions.thy ===== *)
theory Deno_Sessions
  imports Deno_Facts
begin

text \<open>
  Hosts and clients of the server's git sessions: who may register under a name, what a second
  registration does to the first, and whose cached answers a client gets.
\<close>

section \<open>Registering under a name\<close>

lemma reap_identity: "rs_identity (fst (reap_if_due cf env st)) = rs_identity st"
  by (simp add: reap_if_due_def reapDeadConnections_def)

text \<open>A sender whose key GitHub has verified.\<close>

definition github_verified :: "relay_state \<Rightarrow> string \<Rightarrow> bool" where
  "github_verified st sender \<longleftrightarrow>
     (\<exists>k v. map_of (id_keys (rs_identity st)) sender = Some k \<and> kr_githubVerifiedAt k = Some (Fin v) \<and> v \<noteq> 0)"

abbreviation key_info_request :: "deno_config \<Rightarrow> string \<Rightarrow> request" where
  "key_info_request dc sender \<equiv> createInternalServiceRequest dc ''GET'' ''/api/v1/key/info'' [(''sender'', sender)] [] []"

lemma key_info_answer:
  assumes "authorized (dc_relay dc) (key_info_request dc sender)" "clean sender"
  shows "snd (snd (service_fetch dc env (key_info_request dc sender) st)) =
    (case map_of (id_keys (rs_identity (dn_relay st))) sender of
       None \<Rightarrow> toErrorResponse ''sender key not found'' 404
     | Some k \<Rightarrow> response_json (JObj [(''ok'', JBool True), (''sender'', JStr sender), (''key'', key_json k)]) 200)"
proof -
  have "query_trim (key_info_request dc sender) ''sender'' = sender"
    using assms(2) by (simp add: query_trim_def query_get_def createInternalServiceRequest_def or_empty_def clean_def)
  then show ?thesis
    using assms by (simp add: service_fetch_def fetch_def route_def answer_def handleKeyInfo_def reap_identity clean_def
        createInternalServiceRequest_def Let_def split: option.split)
qed

lemma key_verified_iff:
  assumes "authorized (dc_relay dc) (key_info_request dc sender)" "clean sender"
    and "\<forall>k. map_of (id_keys (rs_identity (dn_relay st))) sender = Some k \<longrightarrow> (\<forall>v. kr_githubVerifiedAt k = Some v \<longrightarrow> (\<exists>r. v = Fin r))"
  shows "key_verified (snd (snd (service_fetch dc env (key_info_request dc sender) st))) \<longleftrightarrow> github_verified (dn_relay st) sender"
proof (cases "map_of (id_keys (rs_identity (dn_relay st))) sender")
  case None
  then show ?thesis
    by (simp add: key_info_answer [OF assms(1,2)] key_verified_def github_verified_def toErrorResponse_def response_json_def)
next
  case (Some k)
  have "key_verified (snd (snd (service_fetch dc env (key_info_request dc sender) st))) \<longleftrightarrow>
      json_truthy (Some (jnum_opt (kr_githubVerifiedAt k)))"
    by (simp add: key_info_answer [OF assms(1,2)] Some key_verified_def response_json_def response_object_def jprop_def
        key_json_def obj_opt_def)
  moreover have "github_verified (dn_relay st) sender \<longleftrightarrow> (\<exists>v. kr_githubVerifiedAt k = Some (Fin v) \<and> v \<noteq> 0)"
    by (simp add: github_verified_def Some)
  moreover have "json_truthy (Some (jnum_opt (kr_githubVerifiedAt k))) \<longleftrightarrow> (\<exists>v. kr_githubVerifiedAt k = Some (Fin v) \<and> v \<noteq> 0)"
  proof (cases "kr_githubVerifiedAt k")
    case (Some x)
    then obtain y where "x = Fin y" using assms(3) \<open>map_of _ sender = Some k\<close> by blast
    then show ?thesis by (simp add: Some json_truthy_def jnum_opt_def)
  qed (simp add: json_truthy_def jnum_opt_def)
  ultimately show ?thesis by simp
qed

lemma after_register:
  assumes "serve_register dc env t r st = (st', effs)"
  shows "\<exists>sid. sid = snd (snd (chosen_session_id dc env r st)) \<and>
    map_of (dn_sessions st') sid =
      Some (fst (Git_Session.handleRegister (git_session_options dc sid) (de_git env) (getOrCreateSession sid st))) \<and>
    dn_waiting st' = dn_waiting st \<and>
    (\<exists>resp. Answered t resp \<in> set effs \<and> resp_status resp = 200 \<and>
       jprop (response_object resp) ''session_token'' = Some (JStr (generateSessionToken (de_git env))) \<and>
       jprop (response_object resp) ''session_id'' = Some (JStr sid))"
proof -
  define sid where "sid = snd (snd (chosen_session_id dc env r st))"
  have same: "dn_sessions (fst (chosen_session_id dc env r st)) = dn_sessions st"
    "dn_waiting (fst (chosen_session_id dc env r st)) = dn_waiting st"
    by (simp_all add: chosen_session_id_def service_fetch_def Let_def)
  have create: "getOrCreateSession sid (fst (chosen_session_id dc env r st)) = getOrCreateSession sid st"
    by (simp add: getOrCreateSession_def same)
  show ?thesis
    using assms unfolding serve_register_def Let_def sid_def [symmetric] create
    by (auto simp: same update_conv' Git_Session.handleRegister_def response_json_def response_object_def jprop_def Let_def)
qed


definition verified_identity :: Identity.identity where
  "verified_identity =
     no_identity\<lparr>id_keys := [(''octocat'', \<lparr>kr_publicKey = ''key'', kr_status = KeyActive, kr_firstSeenAt = of_integer 1,
        kr_lastSeenAt = of_integer 1, kr_rotatedAt = None, kr_revokedAt = None, kr_githubUsername = Some ''octocat'',
        kr_githubVerifiedAt = Some (Fin 7)\<rparr>)]\<rparr>"

definition hosted :: "script deno_state" where
  "hosted =
     (initial_deno 0 \<lparr>sc_statuses = [], sc_calls = 0, sc_waits = []\<rparr>)
       \<lparr>dn_relay := (initial_state 0)\<lparr>rs_identity := verified_identity\<rparr>,
        dn_sessions := [(''octocat/hello'', new_session\<lparr>gs_active := True, gs_sessionToken := ''old''\<rparr>)]\<rparr>"

definition stranger_registers :: request where
  "stranger_registers = serve_request ''POST'' ''/api/v1/serve/register'' [(''sender'', ''octocat''), (''repo'', ''hello'')]"

definition host_asks :: request where
  "host_asks = serve_request ''GET'' ''/api/v1/serve/info'' [(''session'', ''octocat/hello''), (''session_token'', ''old'')]"


section \<open>Cached answers\<close>



end
