(* ===== verification/Deno_Sync.thy ===== *)
theory Deno_Sync
  imports Deno_Facts Cache_Sync
begin

text \<open>
  How the server replicates from its peers (\<open>startCacheSyncWorker\<close> of \<open>src/deno_main.ts\<close>): the worker of
  \<open>Cache_Sync\<close> with pulls from the peers over HTTP and pushes into the server's own relay. The peers are a
  parameter: a function that takes a peer, a request and the state of the network, and gives an answer or
  nothing where \<open>new URL\<close> or \<open>fetch\<close> throws.
\<close>

record 'p sync_world =
  sw_relay :: relay_state
  sw_network :: 'p
  sw_discovery :: "(string, int \<times> string option \<times> Repo_Affinity.identity option) omap"
  sw_mismatched :: "string list"
  sw_log :: "json list"

record 'p sync_setup =
  su_config :: deno_config
  su_local :: Repo_Affinity.identity
  su_commitWindow :: int
  su_env :: deno_env
  su_url :: url_parser
  su_uuid :: string
  su_fetch :: "string \<Rightarrow> request \<Rightarrow> 'p \<Rightarrow> response option \<times> 'p"

abbreviation sync_config :: "'p sync_setup \<Rightarrow> deno_config" where
  "sync_config su \<equiv> su_config su"

abbreviation peers_of :: "'p sync_setup \<Rightarrow> peer_config" where
  "peers_of su \<equiv> rc_peers (dc_runtime (su_config su))"

section \<open>Requests\<close>

definition peerSyncAuthToken :: "deno_config \<Rightarrow> string" where
  "peerSyncAuthToken dc = js_trim (or_empty (pc_authToken (rc_peers (dc_runtime dc))))"

definition peer_headers :: "deno_config \<Rightarrow> (string \<times> string) list" where
  "peer_headers dc =
     (if peerSyncAuthToken dc \<noteq> [] then [(''authorization'', ''Bearer '' @ peerSyncAuthToken dc)] else [])"

definition discovery_request :: "deno_config \<Rightarrow> request" where
  "discovery_request dc =
     \<lparr>req_method = ''GET'', req_path = ''/api/v1/cache/exchange/discovery'', req_query = [], req_headers = peer_headers dc, req_text = []\<rparr>"

definition pull_request :: "deno_config \<Rightarrow> string \<Rightarrow> int \<Rightarrow> int \<Rightarrow> request" where
  "pull_request dc localNodeId after limit =
     \<lparr>req_method = ''GET'', req_path = ''/api/v1/cache/exchange/pull'',
      req_query = [(''after'', int_str after), (''limit'', int_str limit), (''peer'', localNodeId)],
      req_headers = peer_headers dc, req_text = []\<rparr>"

text \<open>\<open>await response.json()\<close>, read as a record: \<open>null\<close> has no properties and throws.\<close>

definition response_value :: "(string \<Rightarrow> json option) \<Rightarrow> response \<Rightarrow> json option" where
  "response_value parse resp =
     (case (case resp_body resp of JsonBody j \<Rightarrow> Some j | TextBody s \<Rightarrow> parse s | NoBody \<Rightarrow> None) of
        Some JNull \<Rightarrow> None | v \<Rightarrow> v)"

definition ok_value :: "(string \<Rightarrow> json option) \<Rightarrow> response option \<Rightarrow> json option" where
  "ok_value parse resp =
     (case resp of None \<Rightarrow> None | Some r \<Rightarrow> if resp_status r \<noteq> 200 then None else response_value parse r)"

definition parsePeerNodeIdFromDiscoveryBody :: "json \<Rightarrow> string option" where
  "parsePeerNodeIdFromDiscoveryBody body = nonempty (js_trim (str_or_empty (jprop body ''node_id'')))"

definition parseCacheExchangePullBody :: "json \<Rightarrow> pull_result" where
  "parseCacheExchangePullBody body =
     \<lparr>pl_entries = (case arr_opt (jprop body ''entries'') of Some es \<Rightarrow> es | None \<Rightarrow> []),
      pl_nextCursor = of_integer (case finite_int_opt (jprop body ''next_cursor'') of Some c \<Rightarrow> max 0 c | None \<Rightarrow> 0)\<rparr>"

section \<open>The local relay\<close>

definition local_fetch :: "'p sync_setup \<Rightarrow> request \<Rightarrow> 'p sync_world \<Rightarrow> response \<times> 'p sync_world" where
  "local_fetch su r sw =
     (let h = fetch (dc_relay (su_config su)) (de_adapter (su_env su)) (de_relay (su_env su)) (sw_relay sw) r
      in (snd (snd h), sw\<lparr>sw_relay := fst h\<rparr>))"

definition resolveLocalRelayNodeId :: "'p sync_setup \<Rightarrow> 'p sync_world \<Rightarrow> string option \<times> 'p sync_world" where
  "resolveLocalRelayNodeId su sw =
     (let res = local_fetch su (createInternalServiceRequest (su_config su) ''GET'' ''/api/v1/cache/exchange/discovery'' [] [] []) sw
      in (Option.bind (ok_value (json_parse (de_relay (su_env su))) (Some (fst res))) parsePeerNodeIdFromDiscoveryBody, snd res))"

definition push_body :: "'p sync_setup \<Rightarrow> json list \<Rightarrow> string" where
  "push_body su entries = json_text (num_text (de_relay (su_env su))) (JObj [(''entries'', JArr entries)])"

definition pushEntriesToLocal :: "'p sync_setup \<Rightarrow> json list \<Rightarrow> 'p sync_world \<Rightarrow> json option \<times> 'p sync_world" where
  "pushEntriesToLocal su entries sw =
     (let res = local_fetch su
          (createInternalServiceRequest (su_config su) ''POST'' ''/api/v1/cache/exchange/push'' [] [(''content-type'', ''application/json'')]
            (push_body su entries)) sw
      in (ok_value (json_parse (de_relay (su_env su))) (Some (fst res)), snd res))"

definition replicated_event :: "'p sync_setup \<Rightarrow> string \<Rightarrow> string \<Rightarrow> int \<Rightarrow> json list \<Rightarrow> contract_event" where
  "replicated_event su localNodeId peer accepted entries =
     CacheReplicated
       \<lparr>eb_eventId = su_uuid su, eb_occurredAt = of_int (de_now (su_env su)), eb_room = ''all'', eb_source = ''peer:'' @ peer\<rparr>
       (''cache.exchange.'' @ int_str accepted) peer localNodeId
       (of_int (int (length (utf8 (json_text (num_text (de_relay (su_env su))) (JArr entries))))))"

definition pushToLocal :: "'p sync_setup \<Rightarrow> string \<Rightarrow> string \<Rightarrow> json list \<Rightarrow> 'p sync_world \<Rightarrow> bool \<times> 'p sync_world" where
  "pushToLocal su localNodeId peer entries sw =
     (case pushEntriesToLocal su entries sw of
        (None, sw1) \<Rightarrow> (False, sw1)
      | (Some result, sw1) \<Rightarrow>
          let accepted = (case finite_int_opt (jprop result ''accepted'') of Some n \<Rightarrow> max 0 n | None \<Rightarrow> int (length entries))
          in (True,
              if accepted > 0 then sw1\<lparr>sw_log := logRelayEvent (replicated_event su localNodeId peer accepted entries) (sw_log sw1)\<rparr>
              else sw1))"

section \<open>The peers\<close>

definition fetchPeerDiscovery ::
    "'p sync_setup \<Rightarrow> string \<Rightarrow> 'p sync_world \<Rightarrow> (string option \<times> Repo_Affinity.identity option) option \<times> 'p sync_world" where
  "fetchPeerDiscovery su peer sw =
     (let res = su_fetch su peer (discovery_request (su_config su)) (sw_network sw)
      in (map_option (\<lambda>body. (parsePeerNodeIdFromDiscoveryBody body,
              parseRepositoryFromDiscoveryBody (su_url su) body (of_integer (su_commitWindow su))))
            (ok_value (json_parse (de_relay (su_env su))) (fst res)),
          sw\<lparr>sw_network := snd res\<rparr>))"

definition discovery_ttl_ms :: "'p sync_setup \<Rightarrow> int" where
  "discovery_ttl_ms su = max 5 (pc_syncIntervalSec (peers_of su)) * 1000"

definition resolvePeerDiscovery ::
    "'p sync_setup \<Rightarrow> string \<Rightarrow> 'p sync_world \<Rightarrow> (string option \<times> Repo_Affinity.identity option) option \<times> 'p sync_world" where
  "resolvePeerDiscovery su peer sw =
     (let refetch = (case fetchPeerDiscovery su peer sw of
            (None, sw1) \<Rightarrow> (None, sw1)
          | (Some found, sw1) \<Rightarrow>
              (Some found, sw1\<lparr>sw_discovery := AList.update peer (de_now_ms (su_env su) + discovery_ttl_ms su, found) (sw_discovery sw1)\<rparr>))
      in case map_of (sw_discovery sw) peer of
           Some (expiresAt, found) \<Rightarrow> if de_now_ms (su_env su) < expiresAt then (Some found, sw) else refetch
         | None \<Rightarrow> refetch)"

text \<open>\<open>Some True\<close> to go on, \<open>Some False\<close> for a peer of another repository, nothing where the discovery fails.\<close>

definition peer_admitted :: "'p sync_setup \<Rightarrow> string \<Rightarrow> 'p sync_world \<Rightarrow> bool option \<times> 'p sync_world" where
  "peer_admitted su peer sw =
     (if id_name (su_local su) = None then (Some True, sw)
      else case resolvePeerDiscovery su peer sw of
          (None, sw1) \<Rightarrow> (None, sw1)
        | (Some (nodeId, repository), sw1) \<Rightarrow>
            if fst (decideRepositoryCompatibility (su_url su) (su_local su) repository)
            then (Some True, sw1\<lparr>sw_mismatched := removeAll peer (sw_mismatched sw1)\<rparr>)
            else (Some False, sw1\<lparr>sw_mismatched := set_add peer (sw_mismatched sw1)\<rparr>))"

definition pullFromPeer ::
    "'p sync_setup \<Rightarrow> string \<Rightarrow> string \<Rightarrow> int \<Rightarrow> int \<Rightarrow> 'p sync_world \<Rightarrow> pull_result option \<times> 'p sync_world" where
  "pullFromPeer su localNodeId peer after limit sw =
     (case peer_admitted su peer sw of
        (None, sw1) \<Rightarrow> (None, sw1)
      | (Some False, sw1) \<Rightarrow> (Some \<lparr>pl_entries = [], pl_nextCursor = of_integer after\<rparr>, sw1)
      | (Some True, sw1) \<Rightarrow>
          let res = su_fetch su peer (pull_request (su_config su) localNodeId after limit) (sw_network sw1)
          in (map_option parseCacheExchangePullBody (ok_value (json_parse (de_relay (su_env su))) (fst res)),
              sw1\<lparr>sw_network := snd res\<rparr>))"

definition sync_options_of :: "'p sync_setup \<Rightarrow> string \<Rightarrow> 'p sync_world sync_options" where
  "sync_options_of su localNodeId =
     \<lparr>so_peers = pc_urls (peers_of su), so_limit = Some (of_integer 200),
      so_pullFromPeer = pullFromPeer su localNodeId, so_pushToLocal = pushToLocal su localNodeId\<rparr>"

text \<open>The worker of a start, if there is one, with its first round.\<close>

definition startCacheSyncWorker ::
    "'p sync_setup \<Rightarrow> 'p sync_world \<Rightarrow> ('p sync_world sync_options \<times> cursors \<times> sync_summary) option \<times> 'p sync_world" where
  "startCacheSyncWorker su sw =
     (if pc_urls (peers_of su) = [] then (None, sw)
      else case resolveLocalRelayNodeId su sw of
          (None, sw1) \<Rightarrow> (None, sw1)
        | (Some localNodeId, sw1) \<Rightarrow>
            let op = sync_options_of su localNodeId;
                res = syncOnce op (initial_cursors (normalizePeers (so_peers op))) sw1
            in (Some (op, fst (fst res), snd (fst res)), snd res))"

section \<open>Who the peers are open to\<close>

lemma route_unauthorized:
  "\<not> authorized cf r \<Longrightarrow> req_path r \<noteq> ''/health'' \<Longrightarrow> req_path r \<noteq> ''/'' \<Longrightarrow> route cf ad env st r = answer st unauthorizedResponse"
  by (simp add: route_def Let_def)

lemma route_peer_endpoints:
  assumes "authorized cf r"
  shows "req_path r = ''/api/v1/cache/exchange/discovery'' \<Longrightarrow> route cf ad env st r = answer st (handleCacheExchangeDiscovery cf r)"
    "req_path r = ''/api/v1/cache/exchange/pull'' \<Longrightarrow> route cf ad env st r = answer st (handleCacheExchangePull cf st r)"
    "req_path r = ''/api/v1/cache/exchange/push'' \<Longrightarrow> route cf ad env st r = handleCacheExchangePush cf env st r"
    "req_path r = ''/api/v1/cache/issues/pull'' \<Longrightarrow> route cf ad env st r = handleCacheIssuePull cf ad st r"
    "req_path r = ''/api/v1/cache/issues/sync'' \<Longrightarrow> route cf ad env st r = handleCacheIssueSync cf ad st r"
  using assms by (simp_all add: route_def Let_def)

definition peer_paths :: "string list" where
  "peer_paths =
     [''/api/v1/cache/exchange/discovery'', ''/api/v1/cache/exchange/pull'', ''/api/v1/cache/exchange/push'',
      ''/api/v1/cache/issues/pull'', ''/api/v1/cache/issues/sync'']"

lemma peer_paths_guarded: "p \<in> set peer_paths \<Longrightarrow> shouldRequireAuth p \<and> p \<noteq> ''/health'' \<and> p \<noteq> ''/''"
proof -
  have "list_all (\<lambda>p. shouldRequireAuth p \<and> p \<noteq> ''/health'' \<and> p \<noteq> ''/'') peer_paths" by code_simp
  then show "p \<in> set peer_paths \<Longrightarrow> shouldRequireAuth p \<and> p \<noteq> ''/health'' \<and> p \<noteq> ''/''" unfolding list_all_iff by blast
qed

lemma peer_endpoints_refuse:
  assumes "checkPeerAuth cf r = Some unauthorizedResponse" "authorized cf r" "req_path r \<in> set peer_paths"
  shows "route cf ad env st r = answer st methodNotAllowedResponse \<or> route cf ad env st r = answer st unauthorizedResponse"
proof -
  let ?refused = "route cf ad env st r = answer st methodNotAllowedResponse \<or> route cf ad env st r = answer st unauthorizedResponse"
  have "req_path r = ''/api/v1/cache/exchange/discovery'' \<Longrightarrow> ?refused"
    unfolding route_peer_endpoints(1) [OF assms(2)] by (simp add: handleCacheExchangeDiscovery_def assms(1))
  moreover have "req_path r = ''/api/v1/cache/exchange/pull'' \<Longrightarrow> ?refused"
    unfolding route_peer_endpoints(2) [OF assms(2)] by (simp add: handleCacheExchangePull_def assms(1))
  moreover have "req_path r = ''/api/v1/cache/exchange/push'' \<Longrightarrow> ?refused"
    unfolding route_peer_endpoints(3) [OF assms(2)] by (simp add: handleCacheExchangePush_def guarded_def assms(1))
  moreover have "req_path r = ''/api/v1/cache/issues/pull'' \<Longrightarrow> ?refused"
    unfolding route_peer_endpoints(4) [OF assms(2)] by (simp add: handleCacheIssuePull_def guarded_def assms(1))
  moreover have "req_path r = ''/api/v1/cache/issues/sync'' \<Longrightarrow> ?refused"
    unfolding route_peer_endpoints(5) [OF assms(2)] by (simp add: handleCacheIssueSync_def guarded_def assms(1))
  ultimately show ?thesis
    using assms(3) unfolding peer_paths_def list.set by blast
qed

text \<open>
  Two tokens shut the peer endpoints to everyone. A relay that has both an API token and a peer
  token, and not the same one, answers every request to its cache exchange and its issue endpoints with 401:
  both checks read the one bearer token a request has.
\<close>

theorem peer_endpoints_locked_by_two_tokens:
  assumes "cf_authToken cf \<noteq> []" "cf_peerAuthToken cf \<noteq> []" "cf_authToken cf \<noteq> cf_peerAuthToken cf"
    and "req_path r \<in> set peer_paths"
  shows "resp_status (snd (snd (fetch cf ad env st r))) \<in> {401, 405} \<and>
    fst (fetch cf ad env st r) = fst (reap_if_due cf env st)"
proof -
  have "route cf ad env st' r = answer st' methodNotAllowedResponse \<or> route cf ad env st' r = answer st' unauthorizedResponse" for st'
  proof (cases "authorized cf r")
    case False
    then show ?thesis using route_unauthorized peer_paths_guarded [OF assms(4)] by blast
  next
    case True
    have "extractPresentedToken r = cf_authToken cf"
      using True assms(1) peer_paths_guarded [OF assms(4)] by (simp add: authorized_def timingSafeEqual_iff Let_def)
    then have "checkPeerAuth cf r = Some unauthorizedResponse"
      using assms(2,3) by (simp add: checkPeerAuth_def timingSafeEqual_iff Let_def)
    then show ?thesis using peer_endpoints_refuse [OF _ True assms(4)] by blast
  qed
  then have "route cf ad env (fst (reap_if_due cf env st)) r = answer (fst (reap_if_due cf env st)) methodNotAllowedResponse \<or>
      route cf ad env (fst (reap_if_due cf env st)) r = answer (fst (reap_if_due cf env st)) unauthorizedResponse" .
  then show ?thesis
    by (elim disjE) (simp_all add: fetch_def answer_def unauthorizedResponse_def methodNotAllowedResponse_def response_json_def Let_def)
qed

definition two_tokens :: relay_config where
  "two_tokens = demo_config\<lparr>cf_authToken := ''api'', cf_peerAuthToken := ''peer''\<rparr>"

theorem peer_endpoints_locked_by_two_tokens_witness:
  "resp_status (snd (snd (fetch two_tokens no_store_adapter (demo_env 5 JNull) (initial_state 0)
     \<lparr>req_method = ''GET'', req_path = ''/api/v1/cache/exchange/pull'', req_query = [],
      req_headers = [(''authorization'', ''Bearer peer'')], req_text = []\<rparr>))) \<in> {401, 405}"
  by (rule peer_endpoints_locked_by_two_tokens [THEN conjunct1]) (simp_all add: two_tokens_def peer_paths_def)

section \<open>Whether replication starts\<close>

lemma local_discovery:
  assumes "su_config su = dc" "dc_relayAuthToken dc = cf_authToken (dc_relay dc)" "js_trim (dc_relayAuthToken dc) = dc_relayAuthToken dc"
    and "clean (cf_nodeId (dc_relay dc))"
  shows "fst (resolveLocalRelayNodeId su sw) =
    (if cf_peerAuthToken (dc_relay dc) = [] \<or> cf_peerAuthToken (dc_relay dc) = cf_authToken (dc_relay dc)
     then Some (cf_nodeId (dc_relay dc)) else None)"
proof -
  define r where "r = createInternalServiceRequest dc ''GET'' ''/api/v1/cache/exchange/discovery'' [] [] []"
  have auth: "authorized (dc_relay dc) r"
    unfolding r_def by (rule internal_request_authorized [OF assms(2,3)]) simp
  have path: "req_path r = ''/api/v1/cache/exchange/discovery''" "req_method r = ''GET''"
    by (simp_all add: r_def createInternalServiceRequest_def)
  have token: "extractPresentedToken r = cf_authToken (dc_relay dc)"
    unfolding r_def assms(2) [symmetric] by (rule internal_presented_token [OF assms(3)]) simp
  have peer: "checkPeerAuth (dc_relay dc) r =
      (if cf_peerAuthToken (dc_relay dc) = [] \<or> cf_peerAuthToken (dc_relay dc) = cf_authToken (dc_relay dc) then None
       else Some unauthorizedResponse)"
    by (auto simp: checkPeerAuth_def token timingSafeEqual_iff Let_def)
  have local: "fst (local_fetch su r sw) = handleCacheExchangeDiscovery (dc_relay dc) r"
    by (simp add: local_fetch_def fetch_def assms(1) route_peer_endpoints(1) [OF auth path(1)] answer_def Let_def)
  have "fst (resolveLocalRelayNodeId su sw) =
      Option.bind (ok_value (json_parse (de_relay (su_env su))) (Some (handleCacheExchangeDiscovery (dc_relay dc) r)))
        parsePeerNodeIdFromDiscoveryBody"
    unfolding resolveLocalRelayNodeId_def assms(1) r_def [symmetric] Let_def fst_conv local ..
  then show ?thesis
    using peer assms(4) path(2)
    by (simp add: handleCacheExchangeDiscovery_def ok_value_def response_value_def response_json_def unauthorizedResponse_def
        parsePeerNodeIdFromDiscoveryBody_def nonempty_def str_or_empty_def jprop_def clean_def)
qed

text \<open>
  Claim C40. A peer token stops replication. With the configuration the server builds from its environment
  and some peers to replicate from, the worker is started exactly when no peer token is set or the peer
  token is the API token: the server asks its own relay for its node id with the API token, where the relay
  wants the peer token.
\<close>

theorem replication_starts_only_without_own_peer_token:
  assumes "su_config su = deno_config_of parse getEnv local uuid" and "\<forall>c\<in>set uuid. \<not> is_space c"
    and "pc_urls (rc_peers (dc_runtime (su_config su))) \<noteq> []"
  shows "fst (startCacheSyncWorker su sw) \<noteq> None \<longleftrightarrow>
    cf_peerAuthToken (dc_relay (su_config su)) = [] \<or>
    cf_peerAuthToken (dc_relay (su_config su)) = cf_authToken (dc_relay (su_config su))"
proof -
  have "cf_nodeId (dc_relay (su_config su)) = normalizeRelayNodeId uuid (op_relayNodeId (deno_relay_options (parseRelayRuntimeConfigFromEnv parse getEnv) local))"
    by (simp add: assms(1) deno_config_of_def relay_config_of_def Let_def)
  then have "clean (cf_nodeId (dc_relay (su_config su)))"
    using node_id_trimmed [OF assms(2)] by (simp add: clean_def)
  moreover have "dc_relayAuthToken (su_config su) = cf_authToken (dc_relay (su_config su))" unfolding assms(1) by (rule deno_token)
  moreover have "js_trim (dc_relayAuthToken (su_config su)) = dc_relayAuthToken (su_config su)" unfolding assms(1) by (rule deno_token_trimmed)
  ultimately have start: "fst (resolveLocalRelayNodeId su sw) =
      (if cf_peerAuthToken (dc_relay (su_config su)) = [] \<or>
          cf_peerAuthToken (dc_relay (su_config su)) = cf_authToken (dc_relay (su_config su))
       then Some (cf_nodeId (dc_relay (su_config su))) else None)"
    by (intro local_discovery [OF refl])
  have "fst (startCacheSyncWorker su sw) \<noteq> None \<longleftrightarrow> fst (resolveLocalRelayNodeId su sw) \<noteq> None"
    using assms(3) by (auto simp: startCacheSyncWorker_def Let_def split: prod.split option.split)
  then show ?thesis unfolding start by simp
qed

definition peered_env :: "env_getter" where
  "peered_env k =
     (if k = ''RELAY_PEERS'' then Some ''https://peer.example'' else if k = ''RELAY_PEER_AUTH_TOKEN'' then Some ''shared'' else None)"

definition demo_setup :: "unit sync_setup" where
  "demo_setup =
     \<lparr>su_config = deno_config_of (\<lambda>_. None) peered_env \<lparr>id_repoId = None, id_owner = None, id_name = None, id_recentCommits = []\<rparr> ''0000'',
      su_local = \<lparr>id_repoId = None, id_owner = None, id_name = None, id_recentCommits = []\<rparr>, su_commitWindow = 30,
      su_env = demo_deno_env 5 ''abc'', su_url = (\<lambda>_. None), su_uuid = ''u'', su_fetch = (\<lambda>peer r net. (None, net))\<rparr>"

theorem replication_starts_only_without_own_peer_token_witness:
  "fst (startCacheSyncWorker demo_setup \<lparr>sw_relay = initial_state 0, sw_network = (), sw_discovery = [], sw_mismatched = [], sw_log = []\<rparr>) = None"
proof -
  have conf: "su_config demo_setup = deno_config_of (\<lambda>_. None) peered_env \<lparr>id_repoId = None, id_owner = None, id_name = None, id_recentCommits = []\<rparr> ''0000''"
    by (simp add: demo_setup_def)
  have none: "parseConfigJson (\<lambda>_. None) (peered_env ''RELAY_CONFIG_JSON'') = JObj []"
    by (simp add: parseConfigJson_def peered_env_def blank_def or_empty_def js_trim_def)
  have rc: "dc_runtime (su_config demo_setup) = base_config (\<lambda>_. None) peered_env"
    by (simp add: conf deno_config_of_def parseRelayRuntimeConfigFromEnv_def none applyJsonOverride_def with_section_def
        obj_opt_def jprop_def readRaw_def Let_def)
  have peers: "pc_urls (rc_peers (dc_runtime (su_config demo_setup))) \<noteq> []"
    unfolding rc by (simp add: base_config_def peer_urls_def parsePeersJson_def parseCsvUrls_def Runtime_Config.parseCsvList_def
        peered_env_def blank_def or_empty_def js_trim_def is_space_def dedupe_def set_add_def)
  have relay: "dc_relay (su_config demo_setup) = relay_config_of ''0000'' (deno_relay_options (base_config (\<lambda>_. None) peered_env)
      \<lparr>id_repoId = None, id_owner = None, id_name = None, id_recentCommits = []\<rparr>)"
    using rc by (simp add: conf deno_config_of_def Let_def)
  have token: "cf_peerAuthToken (dc_relay (su_config demo_setup)) = ''shared''" "cf_authToken (dc_relay (su_config demo_setup)) = []"
    unfolding relay by (simp_all add: relay_config_of_def deno_relay_options_def base_config_def parseMemoryRelayOptionsFromEnv_def
        parseOptionalString_def peered_env_def normalizeAuthToken_def or_empty_def js_trim_def is_space_def Let_def)
  have "\<forall>c\<in>set ''0000''. \<not> is_space c" by (simp add: is_space_def)
  note started = replication_starts_only_without_own_peer_token [OF conf this peers]
  show ?thesis by (rule ccontr) (unfold started, simp add: token)
qed

end
