(* ===== verification/Replication.thy ===== *)
theory Replication
  imports Deno_Sync
begin

text \<open>
  What replication delivers: a message that one relay has recorded for its peers is read back from the
  pull as it was sent, and pushing it makes it a message of its room on the other relay.
\<close>

section \<open>An entry on its way\<close>

text \<open>A record whose texts have no surrounding blanks, which an incoming entry loses.\<close>

definition travels :: "exchange_record \<Rightarrow> bool" where
  "travels r \<longleftrightarrow> record_ok r \<and> clean (env_id (xr_envelope r)) \<and> clean (env_sender (xr_envelope r))"

definition arriving :: "exchange_record \<Rightarrow> incoming_entry" where
  "arriving r =
     \<lparr>in_room = env_room (xr_envelope r), in_id = env_id (xr_envelope r), in_sender = env_sender (xr_envelope r),
      in_topic = env_topic (xr_envelope r), in_payload = env_payload (xr_envelope r),
      in_signature = Option.bind (env_signature (xr_envelope r)) (\<lambda>s. if js_trim s \<noteq> [] then Some (js_trim s) else None),
      in_origin = xr_origin r, in_hopCount = xr_hopCount r + 1, in_maxHops = xr_maxHops r\<rparr>"

lemma asString_clean: "clean s \<Longrightarrow> Cache_Exchange.asString (Some (JStr s)) = Some s"
  by (simp add: Cache_Exchange.asString_def clean_def)

lemma topic_clean: "isValidTopic t \<Longrightarrow> clean t"
proof -
  assume t: "isValidTopic t"
  obtain c cs where c: "t = c # cs" "is_lower c" "list_all is_topic_char cs"
    using t by (cases t) (auto simp: isValidTopic_def)
  have "\<not> is_space x" if "x \<in> set t" for x
    using that c by (auto simp: list_all_iff is_topic_char_def is_digit_def is_lower_def is_space_def)
  then have "js_trim t = t" by (rule js_trim_id)
  then show ?thesis using c(1) by (simp add: clean_def)
qed

lemma room_clean: "isValidRoomName room \<Longrightarrow> clean room"
  using name_pattern_clean [of 63 room] by (simp add: isValidRoomName_def clean_def)

lemma pulled_entry_reads_back:
  assumes "travels r"
  shows "parseIncomingCacheExchangeEntry (entry_json (entry_of r)) d = Inr (arriving r)"
proof -
  have ok: "clean (env_room (xr_envelope r))" "clean (env_id (xr_envelope r))" "clean (env_sender (xr_envelope r))"
    "clean (env_topic (xr_envelope r))" "clean (xr_origin r)" "0 \<le> xr_hopCount r" "xr_hopCount r < xr_maxHops r"
    using assms room_clean topic_clean by (simp_all add: travels_def record_ok_def message_ok_def clean_def)
  have ints: "asNonNegativeInt (Some (jint i)) = (if i < 0 then None else Some i)" for i
    by (simp add: asNonNegativeInt_def finite_int_opt_def num_opt_def jint_def)
  have sig: "normalizeSignature (Some (jstr_opt s)) = Option.bind s (\<lambda>s. if js_trim s \<noteq> [] then Some (js_trim s) else None)" for s
    by (cases s) (simp_all add: normalizeSignature_def jstr_opt_def)
  show ?thesis
    using ok by (simp add: parseIncomingCacheExchangeEntry_def entry_json_def entry_of_def jprop_def
        asString_clean ints sig need_def arriving_def)
qed

section \<open>Delivery by a push\<close>

abbreviation delivered :: "relay_state \<Rightarrow> string \<Rightarrow> string \<Rightarrow> bool" where
  "delivered st room eid \<equiv> findEnvelopeById (room_of st room) eid \<noteq> None"

lemma delivered_iff: "delivered st room eid \<longleftrightarrow> eid \<in> env_id ` set (rm_messages (room_of st room))"
  by (auto simp: findEnvelopeById_def find_None_iff)

lemma room_of_touch [simp]: "room_of (touch_room st room) q = room_of st q"
  by (auto simp: room_of_def touch_room_def getOrCreateRoomState_def update_conv' split: option.split)

lemma room_of_set_other: "q \<noteq> room \<Longrightarrow> room_of (set_room st room rs) q = room_of st q"
  by (simp add: room_of_def set_room_def getOrCreateRoomState_def update_conv' split: option.split)

lemma room_of_set_same: "room_of (set_room st room rs) room = rs"
  by (simp add: room_of_def set_room_def getOrCreateRoomState_def)

lemma room_of_rs_exchange: "room_of (st\<lparr>rs_exchange := ex\<rparr>) q = room_of st q"
  by (simp add: room_of_def)

lemma publish_and_record_messages:
  "rm_messages (room_of (fst (publish_and_record cf env st room sender topic eid sig payload origin hop mx)) q) =
     (if q = room
      then rm_messages (fst (publishIntoRoom (room_of st room) room sender topic eid sig payload (cf_maxMessages cf)))
      else rm_messages (room_of st q))"
  by (simp add: publish_and_record_def Let_def room_of_set_other room_of_set_same room_of_rs_exchange broadcastPublish_def split: option.split prod.split)

lemma push_entry_messages:
  assumes "length (rm_messages (room_of st q)) < cf_maxMessages cf"
  shows "\<exists>new. rm_messages (room_of (fst (push_entry cf env st e n)) q) = rm_messages (room_of st q) @ new \<and> length new \<le> 1"
proof -
  have "\<exists>new. rm_messages (fst (publishIntoRoom (room_of st q) q sender topic eid sig payload (cf_maxMessages cf))) =
      rm_messages (room_of st q) @ new \<and> length new \<le> 1" for sender topic eid sig payload
    using assms by (auto simp: publishIntoRoom_def append_message_def last_n_id Let_def)
  then show ?thesis
    by (auto simp: push_entry_def Let_def publish_and_record_messages split: option.split collision.split)
qed

lemma push_entry_delivers:
  assumes "in_origin e \<noteq> cf_nodeId cf" "in_hopCount e < in_maxHops e" "isValidTopic (in_topic e)"
    and "length (rm_messages (room_of st (in_room e))) < cf_maxMessages cf"
  shows "delivered (fst (push_entry cf env st e n)) (in_room e) (in_id e)"
proof (cases "findEnvelopeById (room_of st (in_room e)) (in_id e)")
  case (Some m)
  then show ?thesis using assms(1,2) by (simp add: push_entry_def Let_def split: collision.split)
next
  case None
  then have "in_id e \<notin> env_id ` set (rm_messages (room_of st (in_room e)))" using delivered_iff by blast
  then have "rm_messages (fst (publishIntoRoom (room_of st (in_room e)) (in_room e) (in_sender e) (in_topic e) (in_id e)
      (or_empty (in_signature e)) (in_payload e) (cf_maxMessages cf))) =
      rm_messages (room_of st (in_room e)) @ [made_envelope (in_room e) (in_sender e) (in_topic e) (in_id e) (or_empty (in_signature e)) (in_payload e)]"
    using assms(3,4) by (simp add: publishIntoRoom_new append_message_def last_n_id)
  then show ?thesis
    unfolding delivered_iff using assms(1,2) None
    by (simp add: push_entry_def Let_def publish_and_record_messages made_envelope_def)
qed

lemma push_loop_delivers:
  assumes "\<forall>r\<in>set rs. travels r" "\<And>room. checkRoomToken cf q room = None"
  shows "\<exists>n'. snd (snd (push_loop cf env q i (map (\<lambda>r. entry_json (entry_of r)) rs) st n)) = Inr n' \<and>
    (\<forall>room. length (rm_messages (room_of st room)) + length rs \<le> cf_maxMessages cf \<longrightarrow>
      (\<exists>new. rm_messages (room_of (fst (push_loop cf env q i (map (\<lambda>r. entry_json (entry_of r)) rs) st n)) room) =
         rm_messages (room_of st room) @ new) \<and>
      (\<forall>r\<in>set rs. env_room (xr_envelope r) = room \<longrightarrow> xr_origin r \<noteq> cf_nodeId cf \<longrightarrow> xr_hopCount r + 1 < xr_maxHops r \<longrightarrow>
         delivered (fst (push_loop cf env q i (map (\<lambda>r. entry_json (entry_of r)) rs) st n)) room (env_id (xr_envelope r))))"
  using assms(1)
proof (induction rs arbitrary: i st n)
  case (Cons r rs)
  define one where "one = push_entry cf env st (arriving r) n"
  have valid: "isValidRoomName (in_room (arriving r))" "isValidTopic (in_topic (arriving r))"
    using Cons.prems by (simp_all add: arriving_def travels_def record_ok_def message_ok_def)
  have parsed: "parseIncomingCacheExchangeEntry (entry_json (entry_of r)) (cf_maxHops cf) = Inr (arriving r)"
    using Cons.prems by (intro pulled_entry_reads_back) simp
  define rest where "rest = push_loop cf env q (Suc i) (map (\<lambda>r. entry_json (entry_of r)) rs) (fst one) (snd (snd one))"
  have loop: "push_loop cf env q i (map (\<lambda>r. entry_json (entry_of r)) (r # rs)) st n = (fst rest, fst (snd one) @ fst (snd rest), snd (snd rest))"
    using valid assms(2) by (simp add: parsed one_def rest_def Let_def)
  have travel: "\<forall>r\<in>set rs. travels r" using Cons.prems by simp
  note IH = Cons.IH [OF travel, of "Suc i" "fst one" "snd (snd one)", folded rest_def]
  from IH obtain n' where n': "snd (snd rest) = Inr n'" by blast
  have step: "(\<exists>new. rm_messages (room_of (fst rest) room) = rm_messages (room_of st room) @ new) \<and>
      (\<forall>x\<in>set (r # rs). env_room (xr_envelope x) = room \<longrightarrow> xr_origin x \<noteq> cf_nodeId cf \<longrightarrow> xr_hopCount x + 1 < xr_maxHops x \<longrightarrow>
         delivered (fst rest) room (env_id (xr_envelope x)))"
    if fits: "length (rm_messages (room_of st room)) + length (r # rs) \<le> cf_maxMessages cf" for room
  proof -
    have space: "length (rm_messages (room_of st room)) < cf_maxMessages cf" using fits by simp
    from push_entry_messages [OF space, of env "arriving r" n] obtain new1
      where new1: "rm_messages (room_of (fst one) room) = rm_messages (room_of st room) @ new1" "length new1 \<le> 1"
      unfolding one_def by blast
    have fits1: "length (rm_messages (room_of (fst one) room)) + length rs \<le> cf_maxMessages cf" using fits new1 by simp
    from IH fits1 obtain new2
      where new2: "rm_messages (room_of (fst rest) room) = rm_messages (room_of (fst one) room) @ new2"
        and later: "\<forall>x\<in>set rs. env_room (xr_envelope x) = room \<longrightarrow> xr_origin x \<noteq> cf_nodeId cf \<longrightarrow> xr_hopCount x + 1 < xr_maxHops x \<longrightarrow>
           delivered (fst rest) room (env_id (xr_envelope x))"
      by blast
    have first: "delivered (fst rest) room (env_id (xr_envelope r))"
      if "env_room (xr_envelope r) = room" "xr_origin r \<noteq> cf_nodeId cf" "xr_hopCount r + 1 < xr_maxHops r"
    proof -
      have "delivered (fst one) (in_room (arriving r)) (in_id (arriving r))"
        unfolding one_def using that space valid(2) by (intro push_entry_delivers) (simp_all add: arriving_def)
      then show ?thesis unfolding delivered_iff new2 using that(1) by (auto simp: arriving_def)
    qed
    show ?thesis using new1(1) new2 first later by auto
  qed
  show ?case unfolding loop using n' step by simp
qed simp

section \<open>A round of replication\<close>

lemma reap_messages: "rm_messages (room_of (fst (reap_if_due cf env st)) q) = rm_messages (room_of st q)"
proof -
  have "map_of (map (\<lambda>(room, r). (room, fst (reap_room env idle r))) rooms) q = map_option (\<lambda>r. fst (reap_room env idle r)) (map_of rooms q)"
    for idle and rooms :: rooms_map
    by (induction rooms) auto
  then show ?thesis
    by (simp add: reap_if_due_def reapDeadConnections_def room_of_def getOrCreateRoomState_def reap_room_messages split: option.split)
qed

text \<open>A peer that is a relay without tokens: it answers with what its \<open>fetch\<close> gives, and stays as it is.\<close>

definition open_peer :: "'p sync_setup \<Rightarrow> string \<Rightarrow> relay_config \<Rightarrow> relay_state \<Rightarrow> bool" where
  "open_peer su peer cf st \<longleftrightarrow>
     cf_authToken cf = [] \<and> cf_peerAuthToken cf = [] \<and>
     (\<exists>ad env. \<forall>r net. su_fetch su peer r net = (Some (snd (snd (fetch cf ad env st r))), net))"

lemma reap_exchange: "rs_exchange (fst (reap_if_due cf env st)) = rs_exchange st"
  by (simp add: reap_if_due_def reapDeadConnections_def)

lemma parse_after: "0 \<le> i \<Longrightarrow> i < max_double_bound \<Longrightarrow> normalizeAfter (Some (int_str i)) d = i"
  by (simp add: normalizeAfter_def parseIntOr_def js_parse_int_int_str or_empty_def)

lemma pull_of_open_peer:
  assumes "open_peer su peer cf st" "0 \<le> after" "after < max_double_bound" "clean node"
    and "page = selectCacheExchangeEntries (ex_records (rs_exchange st)) after 200 (Some node) None"
    and "id_name (su_local su) = None"
  shows "pullFromPeer su node peer after 200 sw =
    (Some \<lparr>pl_entries = map entry_json (fst page), pl_nextCursor = of_integer (max 0 (snd page))\<rparr>, sw)"
proof -
  obtain ad env where peer: "\<And>r net. su_fetch su peer r net = (Some (snd (snd (fetch cf ad env st r))), net)"
    and tokens: "cf_authToken cf = []" "cf_peerAuthToken cf = []"
    using assms(1) unfolding open_peer_def by blast
  define r where "r = pull_request (su_config su) node after 200"
  have auth: "authorized cf r" by (simp add: authorized_def tokens)
  have limit: "normalizeLimit (Some (int_str 200)) 100 = 200"
    using js_parse_int_int_str [of 200] by (simp add: normalizeLimit_def parseIntOr_def max_double_bound_code or_empty_def)
  have fields: "req_path r = ''/api/v1/cache/exchange/pull''" "req_method r = ''GET''" "query_get r ''after'' = Some (int_str after)"
    "query_get r ''limit'' = Some (int_str 200)" "query_trim r ''peer'' = node" "query_trim r ''room'' = []"
    using assms(4) by (simp_all add: r_def pull_request_def query_get_def query_trim_def or_empty_def clean_def js_trim_def)
  have "snd (snd (fetch cf ad env st r)) = handleCacheExchangePull cf (fst (reap_if_due cf env st)) r"
    by (simp add: fetch_def route_peer_endpoints(2) [OF auth fields(1)] answer_def Let_def)
  also have "\<dots> = response_json (JObj
      [(''ok'', JBool True), (''protocol'', JStr ''cache.exchange.v1''), (''node_id'', JStr (cf_nodeId cf)),
       (''next_cursor'', jint (snd page)), (''returned_count'', jint (int (length (fst page)))),
       (''entries'', JArr (map entry_json (fst page)))]) 200"
    using assms(4) by (simp add: handleCacheExchangePull_def fields limit parse_after [OF assms(2,3)] checkPeerAuth_def tokens nonempty_def
        reap_exchange assms(5) clean_def Let_def)
  finally have answer: "snd (snd (fetch cf ad env st r)) = response_json (JObj
      [(''ok'', JBool True), (''protocol'', JStr ''cache.exchange.v1''), (''node_id'', JStr (cf_nodeId cf)),
       (''next_cursor'', jint (snd page)), (''returned_count'', jint (int (length (fst page)))),
       (''entries'', JArr (map entry_json (fst page)))]) 200" .
  show ?thesis
    by (simp add: pullFromPeer_def peer_admitted_def assms(6) peer answer r_def [symmetric] ok_value_def response_value_def
        response_json_def parseCacheExchangePullBody_def jprop_def arr_opt_def Let_def)
qed

text \<open>The server's own relay takes the pushes of the worker.\<close>

definition takes_pushes :: "'p sync_setup \<Rightarrow> bool" where
  "takes_pushes su \<longleftrightarrow>
     (let dc = su_config su; cf = dc_relay dc
      in dc_relayAuthToken dc = cf_authToken cf \<and> js_trim (dc_relayAuthToken dc) = dc_relayAuthToken dc \<and>
         (cf_peerAuthToken cf = [] \<or> cf_peerAuthToken cf = cf_authToken cf) \<and> cf_roomTokens cf = [])"

lemma push_is_taken:
  assumes "takes_pushes su" and "\<forall>r\<in>set rs. travels r"
    and "json_parse (de_relay (su_env su)) (push_body su (map (\<lambda>r. entry_json (entry_of r)) rs)) =
      Some (JObj [(''entries'', JArr (map (\<lambda>r. entry_json (entry_of r)) rs))])"
  shows "\<exists>sw'. pushToLocal su node peer (map (\<lambda>r. entry_json (entry_of r)) rs) sw = (True, sw') \<and>
    (\<forall>r\<in>set rs. length (rm_messages (room_of (sw_relay sw) (env_room (xr_envelope r)))) + length rs \<le> cf_maxMessages (dc_relay (su_config su)) \<longrightarrow>
       xr_origin r \<noteq> cf_nodeId (dc_relay (su_config su)) \<longrightarrow> xr_hopCount r + 1 < xr_maxHops r \<longrightarrow>
       delivered (sw_relay sw') (env_room (xr_envelope r)) (env_id (xr_envelope r)))"
proof -
  let ?cf = "dc_relay (su_config su)" and ?es = "map (\<lambda>r. entry_json (entry_of r)) rs"
  define q where "q = createInternalServiceRequest (su_config su) ''POST'' ''/api/v1/cache/exchange/push'' [] [(''content-type'', ''application/json'')] (push_body su ?es)"
  have own: "dc_relayAuthToken (su_config su) = cf_authToken ?cf" "js_trim (dc_relayAuthToken (su_config su)) = dc_relayAuthToken (su_config su)"
    "cf_peerAuthToken ?cf = [] \<or> cf_peerAuthToken ?cf = cf_authToken ?cf" "cf_roomTokens ?cf = []"
    using assms(1) unfolding takes_pushes_def Let_def by blast+
  have auth: "authorized ?cf q" unfolding q_def by (rule internal_request_authorized [OF own(1,2)]) simp
  have "extractPresentedToken q = cf_authToken ?cf"
    unfolding q_def own(1) [symmetric] by (rule internal_presented_token [OF own(2)]) simp
  then have peer: "checkPeerAuth ?cf q = None"
    using own(3) by (auto simp: checkPeerAuth_def timingSafeEqual_iff Let_def)
  have fields: "req_path q = ''/api/v1/cache/exchange/push''" "req_method q = ''POST''" "req_text q = push_body su ?es"
    by (simp_all add: q_def createInternalServiceRequest_def)
  define st where "st = fst (reap_if_due ?cf (de_relay (su_env su)) (sw_relay sw))"
  define res where "res = push_loop ?cf (de_relay (su_env su)) q 0 ?es st no_counts"
  have "\<And>room. checkRoomToken ?cf q room = None" by (simp add: checkRoomToken_def own(4))
  from push_loop_delivers [OF assms(2) this, of "de_relay (su_env su)" 0 st no_counts, folded res_def] obtain n'
    where n': "snd (snd res) = Inr n'"
      and there: "\<And>room r. length (rm_messages (room_of st room)) + length rs \<le> cf_maxMessages ?cf \<Longrightarrow> r \<in> set rs \<Longrightarrow>
        env_room (xr_envelope r) = room \<Longrightarrow> xr_origin r \<noteq> cf_nodeId ?cf \<Longrightarrow> xr_hopCount r + 1 < xr_maxHops r \<Longrightarrow>
        delivered (fst res) room (env_id (xr_envelope r))"
    by blast
  have handler: "handleCacheExchangePush ?cf (de_relay (su_env su)) st q = (fst res, fst (snd res), push_response ?cf (fst res) n')"
    using peer assms(3) fields n'
    by (simp add: handleCacheExchangePush_def guarded_def parse_object_def jprop_def res_def Let_def)
  have local: "local_fetch su q sw = (push_response ?cf (fst res) n', sw\<lparr>sw_relay := fst res\<rparr>)"
    by (simp add: local_fetch_def fetch_def Let_def route_peer_endpoints(3) [OF auth fields(1)] handler flip: st_def)
  have pushed: "fst (pushToLocal su node peer ?es sw) = True" "sw_relay (snd (pushToLocal su node peer ?es sw)) = fst res"
    unfolding pushToLocal_def pushEntriesToLocal_def q_def [symmetric] local Let_def
    by (simp_all add: ok_value_def push_response_def response_json_def response_value_def)
  have "\<forall>r\<in>set rs. length (rm_messages (room_of (sw_relay sw) (env_room (xr_envelope r)))) + length rs \<le> cf_maxMessages ?cf \<longrightarrow>
       xr_origin r \<noteq> cf_nodeId ?cf \<longrightarrow> xr_hopCount r + 1 < xr_maxHops r \<longrightarrow>
       delivered (fst res) (env_room (xr_envelope r)) (env_id (xr_envelope r))"
    using there unfolding st_def reap_messages by blast
  then show ?thesis
    using pushed by (intro exI [of _ "snd (pushToLocal su node peer ?es sw)"]) (simp add: prod_eq_iff)
qed


text \<open>The entries are read back from the text of the push when their payloads and numbers are.\<close>

lemma plain_entry:
  assumes "plain (env_payload (xr_envelope r))" "\<bar>xr_cursor r\<bar> < int_bound" "0 \<le> xr_hopCount r" "xr_hopCount r + 1 < int_bound"
    "\<bar>xr_maxHops r\<bar> < int_bound"
  shows "plain (entry_json (entry_of r))"
  using assms by (simp add: entry_json_def entry_of_def okeys_def obj_order_names not_index is_digit_def)

lemma push_text_reads_back:
  assumes "json_parse (de_relay (su_env su)) = parse_json" "int_text (num_text (de_relay (su_env su)))" "list_all plain es"
  shows "json_parse (de_relay (su_env su)) (push_body su es) = Some (JObj [(''entries'', JArr es)])"
proof -
  have "plain (JObj [(''entries'', JArr es)])"
    using assms(3) by (simp add: okeys_def obj_order_names not_index is_digit_def)
  then show ?thesis unfolding assms(1) push_body_def by (rule parse_json_text [OF _ assms(2)])
qed

definition peer_state :: relay_state where
  "peer_state = (initial_state 0)\<lparr>rs_exchange := demo_exchange\<rparr>"

definition demo_replica :: "unit sync_setup" where
  "demo_replica =
     \<lparr>su_config = demo_deno, su_local = \<lparr>id_repoId = None, id_owner = None, id_name = None, id_recentCommits = []\<rparr>,
      su_commitWindow = 30,
      su_env = (demo_deno_env 5 ''abc'')\<lparr>de_relay := (demo_env 5 JNull)\<lparr>json_parse := parse_json\<rparr>\<rparr>, su_url = (\<lambda>_. None),
      su_uuid = ''u'',
      su_fetch = (\<lambda>peer r net. (Some (snd (snd (fetch demo_config no_store_adapter (demo_env 5 JNull) peer_state r))), net))\<rparr>"

definition demo_world :: "unit sync_world" where
  "demo_world = \<lparr>sw_relay = initial_state 0, sw_network = (), sw_discovery = [], sw_mismatched = [], sw_log = []\<rparr>"

lemma demo_exchange_records:
  "ex_records demo_exchange =
     [\<lparr>xr_cursor = 1, xr_envelope = demo_envelope ''main'' ''m1'', xr_origin = ''relay-a'', xr_hopCount = 0, xr_maxHops = 3\<rparr>,
      \<lparr>xr_cursor = 2, xr_envelope = demo_envelope ''main'' ''m2'', xr_origin = ''relay-b'', xr_hopCount = 1, xr_maxHops = 3\<rparr>,
      \<lparr>xr_cursor = 3, xr_envelope = demo_envelope ''main'' ''m3'', xr_origin = ''relay-a'', xr_hopCount = 0, xr_maxHops = 3\<rparr>]"
  by (simp add: demo_exchange_def recordCacheExchange_def appendCacheExchangeRecord_def no_exchange_def last_n_def Let_def)


end
