(* ===== verification/Cloudflare_Worker.thy ===== *)
theory Cloudflare_Worker
  imports Deno_Main
begin

text \<open>
  The Cloudflare worker (\<open>src/cloudflare_worker.ts\<close>): one request handler in front of durable objects, a
  \<open>RelayRoom\<close> for every room and a \<open>GitServeSession\<close> for every session. An object lives in memory until it is
  evicted, and its storage stays; the next request constructs it again. A request comes with a ticket and its
  answer is an effect. What the worker has in common with the server of \<open>Deno_Main\<close> (the session ids, the
  patterns of the git paths, the session token, the audit of a publication) is used from there.
\<close>

section \<open>State\<close>

text \<open>What a room keeps under \<open>relay_identity_v1\<close> and under the older \<open>relay_snapshot_v1\<close>.\<close>

record room_storage =
  sg_identity :: "json option"
  sg_legacy :: "json option"

record room_object =
  rb_config :: relay_config
  rb_service :: relay_state

text \<open>The environment of the worker: its variables, and whether the two namespaces are bound.\<close>

record worker_bindings =
  wb_vars :: env_getter
  wb_rooms :: bool
  wb_git :: bool

record git_retry =
  gt_sessionId :: string
  gt_path :: string
  gt_request :: request

record 'n worker_state =
  cw_rooms :: "(string, room_object) omap"
  cw_storage :: "(string, room_storage) omap"
  cw_gits :: "(string, git_object) omap"
  cw_fallback :: "room_object option"
  cw_retries :: "(nat, git_retry) omap"
  cw_ready :: "(nat, git_retry) omap"
  cw_bodies :: "(string \<times> awaiting) list"
  cw_registry :: registry
  cw_net :: 'n
  cw_started :: "(nat, string \<times> int) omap"
  cw_metrics :: recorder
  cw_log :: "json list"

datatype worker_effect = Worker_answered nat response | Worker_failed nat | Room_effects "string option" "effect list"

section \<open>A room\<close>

text \<open>A value that is an object for \<open>typeof\<close> and not \<open>null\<close>.\<close>

definition object_value :: "json option \<Rightarrow> json option" where
  "object_value v = (case v of Some (JObj kvs) \<Rightarrow> Some (JObj kvs) | Some (JArr xs) \<Rightarrow> Some (JArr xs) | _ \<Rightarrow> None)"

definition empty_storage :: room_storage where
  "empty_storage = \<lparr>sg_identity = None, sg_legacy = None\<rparr>"

definition buildOptions :: "deno_env \<Rightarrow> worker_bindings \<Rightarrow> relay_options" where
  "buildOptions env wb = parseMemoryRelayOptionsFromEnv (json_parse (de_relay env)) (wb_vars wb)"

definition new_service :: "worker_bindings \<Rightarrow> deno_env \<Rightarrow> room_object" where
  "new_service wb env =
     \<lparr>rb_config = relay_config_of (fresh_uuid (de_relay env)) (buildOptions env wb), rb_service = initial_state (de_now_ms env)\<rparr>"

text \<open>The constructor: the stored identity, or that of the older snapshot, which is then deleted.\<close>

definition restore_room :: "int \<Rightarrow> room_object \<times> room_storage \<Rightarrow> room_object \<times> room_storage" where
  "restore_room nowSec os =
     (let recall = (\<lambda>data. (fst os)\<lparr>rb_service := (rb_service (fst os))\<lparr>rs_identity := restoreIdentity (rb_config (fst os)) nowSec data\<rparr>\<rparr>)
      in case object_value (sg_identity (snd os)) of
           Some identity \<Rightarrow> (recall identity, snd os)
         | None \<Rightarrow>
             (case object_value (sg_legacy (snd os)) of
                Some legacy \<Rightarrow>
                  (if json_truthy (jprop legacy ''keys_by_sender'') \<or> json_truthy (jprop legacy ''nonces_by_sender'')
                   then recall legacy else fst os, (snd os)\<lparr>sg_legacy := None\<rparr>)
              | None \<Rightarrow> os))"

definition construct_room :: "worker_bindings \<Rightarrow> deno_env \<Rightarrow> room_storage \<Rightarrow> room_object \<times> room_storage" where
  "construct_room wb env sg = restore_room (de_now env) (new_service wb env, sg)"

text \<open>The operations after which the identity is stored.\<close>

definition persists :: "request \<Rightarrow> bool" where
  "persists r \<longleftrightarrow>
     req_path r = ''/api/v1/publish'' \<or> req_path r = ''/api/v1/key/rotate'' \<or> req_path r = ''/api/v1/key/verify-github'' \<or>
     (req_path r = ''/api/v1/review'' \<and> req_method r = ''POST'')"

definition object_service :: "deno_env \<Rightarrow> request \<Rightarrow> room_object \<Rightarrow> room_object \<times> effect list \<times> response" where
  "object_service env r ob =
     (let h = fetch (rb_config ob) (de_adapter env) (de_relay env) (rb_service ob) r in (ob\<lparr>rb_service := fst h\<rparr>, snd h))"

definition room_fetch :: "deno_env \<Rightarrow> request \<Rightarrow> room_object \<times> room_storage \<Rightarrow> (room_object \<times> room_storage) \<times> effect list \<times> response" where
  "room_fetch env r os =
     (let h = object_service env r (fst os)
      in ((fst h, if persists r then (snd os)\<lparr>sg_identity := Some (identitySnapshot (rs_identity (rb_service (fst h))))\<rparr> else snd os),
          snd h))"

section \<open>Objects by name\<close>

definition stored_room :: "'n worker_state \<Rightarrow> string \<Rightarrow> room_storage" where
  "stored_room st name = (case map_of (cw_storage st) name of Some sg \<Rightarrow> sg | None \<Rightarrow> empty_storage)"

definition room_named :: "worker_bindings \<Rightarrow> deno_env \<Rightarrow> 'n worker_state \<Rightarrow> string \<Rightarrow> room_object \<times> room_storage" where
  "room_named wb env st name =
     (case map_of (cw_rooms st) name of
        Some ob \<Rightarrow> (ob, stored_room st name)
      | None \<Rightarrow> construct_room wb env (stored_room st name))"

text \<open>\<open>stub.fetch(...)\<close> of the room of a name.\<close>

definition call_room ::
    "worker_bindings \<Rightarrow> deno_env \<Rightarrow> string \<Rightarrow> request \<Rightarrow> 'n worker_state \<Rightarrow> 'n worker_state \<times> worker_effect list \<times> response" where
  "call_room wb env name r st =
     (let h = room_fetch env r (room_named wb env st name)
      in (st\<lparr>cw_rooms := AList.update name (fst (fst h)) (cw_rooms st),
             cw_storage := AList.update name (snd (fst h)) (cw_storage st)\<rparr>,
          [Room_effects (Some name) (fst (snd h))], snd (snd h)))"

text \<open>\<open>fallbackService\<close>, created when it is first needed.\<close>

definition call_fallback ::
    "worker_bindings \<Rightarrow> deno_env \<Rightarrow> request \<Rightarrow> 'n worker_state \<Rightarrow> 'n worker_state \<times> worker_effect list \<times> response" where
  "call_fallback wb env r st =
     (let h = object_service env r (case cw_fallback st of Some ob \<Rightarrow> ob | None \<Rightarrow> new_service wb env)
      in (st\<lparr>cw_fallback := Some (fst h)\<rparr>, [Room_effects None (fst (snd h))], snd (snd h)))"

definition git_named :: "worker_bindings \<Rightarrow> deno_env \<Rightarrow> 'n worker_state \<Rightarrow> string \<Rightarrow> git_object" where
  "git_named wb env st sid =
     (case map_of (cw_gits st) sid of
        Some ob \<Rightarrow> ob
      | None \<Rightarrow> construct_object (wb_vars wb ''GIT_SERVE_SESSION_TTL_SEC'') (ge_now (de_git env)) (Some None))"

section \<open>Answering\<close>

definition record_worker :: "deno_env \<Rightarrow> nat \<Rightarrow> int \<Rightarrow> 'n worker_state \<Rightarrow> 'n worker_state" where
  "record_worker env ticket status st =
     (case map_of (cw_started st) ticket of
        None \<Rightarrow> st
      | Some (operation, startedAtMs) \<Rightarrow>
          let res = fst (record_metric
            \<lparr>mi_operation = operation, mi_occurredAt = of_integer (de_now env), mi_status = of_integer status,
             mi_latencyMs = of_integer (max 0 (de_now_ms env - startedAtMs)), mi_retryCount = Some (of_integer 0)\<rparr>
            (cw_metrics st, cw_log st))
          in st\<lparr>cw_metrics := fst res, cw_log := snd res, cw_started := AList.delete ticket (cw_started st)\<rparr>)"

definition worker_answer :: "deno_env \<Rightarrow> nat \<Rightarrow> response \<Rightarrow> 'n worker_state \<Rightarrow> 'n worker_state \<times> worker_effect list" where
  "worker_answer env ticket resp st = (record_worker env ticket (resp_status resp) st, [Worker_answered ticket resp])"

definition worker_fail :: "deno_env \<Rightarrow> nat \<Rightarrow> 'n worker_state \<Rightarrow> 'n worker_state \<times> worker_effect list" where
  "worker_fail env ticket st = (record_worker env ticket 500 st, [Worker_failed ticket])"

text \<open>The answer of an object, after its effects.\<close>

definition answer_with ::
    "deno_env \<Rightarrow> nat \<Rightarrow> 'n worker_state \<times> worker_effect list \<times> response \<Rightarrow> 'n worker_state \<times> worker_effect list" where
  "answer_with env ticket res =
     (let answered = worker_answer env ticket (snd (snd res)) (fst res) in (fst answered, fst (snd res) @ snd answered))"

section \<open>Git sessions\<close>

text \<open>
  A promise of a session that is settled answers its request, but a 404 for a path that also names a random
  session sends the request there, in a step of its own. Objects have no handler for events.
\<close>

definition object_effect :: "deno_env \<Rightarrow> git_effect \<Rightarrow> 'n worker_state \<Rightarrow> 'n worker_state \<times> worker_effect list" where
  "object_effect env e st =
     (case e of
        Settle t resp \<Rightarrow>
          (case map_of (cw_retries st) t of
             None \<Rightarrow> worker_answer env t resp st
           | Some gt \<Rightarrow>
               let st1 = st\<lparr>cw_retries := AList.delete t (cw_retries st)\<rparr>
               in if resp_status resp \<noteq> 404 then worker_answer env t resp st1
                  else (st1\<lparr>cw_ready := AList.update t gt (cw_ready st1)\<rparr>, []))
      | Reject t \<Rightarrow> worker_fail env t (st\<lparr>cw_retries := AList.delete t (cw_retries st)\<rparr>)
      | Emit _ \<Rightarrow> (st, []))"

fun object_effects :: "deno_env \<Rightarrow> git_effect list \<Rightarrow> 'n worker_state \<Rightarrow> 'n worker_state \<times> worker_effect list" where
  "object_effects env [] st = (st, [])"
| "object_effects env (e # es) st =
     (let one = object_effect env e st; rest = object_effects env es (fst one) in (fst rest, snd one @ snd rest))"

definition after_object ::
    "deno_env \<Rightarrow> string \<Rightarrow> git_object \<times> git_effect list \<times> awaiting list \<Rightarrow> 'n worker_state \<Rightarrow> 'n worker_state \<times> worker_effect list" where
  "after_object env sid res st =
     object_effects env (fst (snd res))
       (st\<lparr>cw_gits := AList.update sid (fst res) (cw_gits st), cw_bodies := cw_bodies st @ map (\<lambda>a. (sid, a)) (snd (snd res))\<rparr>)"

definition call_object ::
    "worker_bindings \<Rightarrow> deno_env \<Rightarrow> nat \<Rightarrow> string \<Rightarrow> request \<Rightarrow> 'n worker_state \<Rightarrow> 'n worker_state \<times> worker_effect list" where
  "call_object wb env ticket sid r st = after_object env sid (object_fetch (de_git env) ticket r (git_named wb env st sid)) st"

definition sessions_unavailable :: response where
  "sessions_unavailable = git_error ''git serve sessions not available'' 503"

definition bodiless :: "request \<Rightarrow> bool" where
  "bodiless r \<longleftrightarrow> req_method r = ''GET'' \<or> req_method r = ''HEAD''"

definition handleGitRoute ::
    "worker_bindings \<Rightarrow> deno_env \<Rightarrow> nat \<Rightarrow> string \<Rightarrow> string \<Rightarrow> request \<Rightarrow> 'n worker_state \<Rightarrow> 'n worker_state \<times> worker_effect list" where
  "handleGitRoute wb env ticket sessionId gitPath r st =
     (if \<not> wb_git wb then worker_answer env ticket sessions_unavailable st
      else call_object wb env ticket sessionId
        \<lparr>req_method = req_method r, req_path = ''/git/'' @ gitPath, req_query = req_query r, req_headers = req_headers r,
         req_text = (if bodiless r then [] else req_text r)\<rparr> st)"

text \<open>The paths \<open>/git/...\<close>; a path that names a session in both ways keeps the random one for a retry.\<close>

definition git_routes ::
    "worker_bindings \<Rightarrow> deno_env \<Rightarrow> nat \<Rightarrow> request \<Rightarrow> 'n worker_state \<Rightarrow> ('n worker_state \<times> worker_effect list) option" where
  "git_routes wb env ticket r st =
     (case (if wb_git wb then named_git_match (req_path r) else None, random_git_match (req_path r)) of
        (Some (sid, sub), Some (rid, rsub)) \<Rightarrow>
          Some (handleGitRoute wb env ticket sid sub r
            (st\<lparr>cw_retries := AList.update ticket \<lparr>gt_sessionId = rid, gt_path = rsub, gt_request = r\<rparr> (cw_retries st)\<rparr>))
      | (Some (sid, sub), None) \<Rightarrow> Some (handleGitRoute wb env ticket sid sub r st)
      | (None, Some (rid, rsub)) \<Rightarrow> Some (handleGitRoute wb env ticket rid rsub r st)
      | (None, None) \<Rightarrow> None)"

text \<open>The retry. A body was taken by the first session, and building a request from it again throws.\<close>

definition git_retried :: "worker_bindings \<Rightarrow> deno_env \<Rightarrow> nat \<Rightarrow> 'n worker_state \<Rightarrow> 'n worker_state \<times> worker_effect list" where
  "git_retried wb env ticket st =
     (case map_of (cw_ready st) ticket of
        None \<Rightarrow> (st, [])
      | Some gt \<Rightarrow>
          let st1 = st\<lparr>cw_ready := AList.delete ticket (cw_ready st)\<rparr>; r = gt_request gt
          in if \<not> bodiless r \<and> req_text r \<noteq> [] then worker_fail env ticket st1
             else handleGitRoute wb env ticket (gt_sessionId gt) (gt_path gt) r st1)"

section \<open>Serving\<close>

definition plain_get :: "string \<Rightarrow> (string \<times> string) list \<Rightarrow> request" where
  "plain_get path query = \<lparr>req_method = ''GET'', req_path = path, req_query = query, req_headers = [], req_text = []\<rparr>"

text \<open>The id of a registration. With rooms, the keys are asked of the room \<open>__default__\<close>.\<close>

definition worker_session_id ::
    "worker_bindings \<Rightarrow> deno_env \<Rightarrow> request \<Rightarrow> 'n worker_state \<Rightarrow> 'n worker_state \<times> worker_effect list \<times> string" where
  "worker_session_id wb env r st =
     (let sender = or_empty (query_get r ''sender''); repo = or_empty (query_get r ''repo'');
          info = plain_get ''/api/v1/key/info'' [(''sender'', sender)];
          res = (if wb_rooms wb then call_room wb env ''__default__'' info st else call_fallback wb env info st)
      in if sender \<noteq> [] \<and> repo \<noteq> []
         then (fst res, fst (snd res), if key_verified (snd (snd res)) then sender @ ''/'' @ repo else generateSessionId (de_random env))
         else (st, [], generateSessionId (de_random env)))"

definition worker_register ::
    "worker_bindings \<Rightarrow> deno_env \<Rightarrow> nat \<Rightarrow> request \<Rightarrow> 'n worker_state \<Rightarrow> 'n worker_state \<times> worker_effect list" where
  "worker_register wb env ticket r st =
     (let chosen = worker_session_id wb env r st; st1 = fst chosen; sid = snd (snd chosen)
      in if \<not> wb_git wb then answer_with env ticket (st1, fst (snd chosen), sessions_unavailable)
         else
           let ob = git_named wb env st1 sid;
               reg = Git_Session.handleRegister (ob_options ob) (de_git env) (ob_session ob);
               body = response_object (snd reg);
               ok = json_truthy (jprop body ''ok'');
               status = (if ok then 200 else resp_status (snd reg));
               st2 = st1\<lparr>cw_gits := AList.update sid (fst (object_fetch (de_git env) ticket register_request ob)) (cw_gits st1),
                         cw_log := logRelayAudit (serve_audit env sid (or_empty (query_get r ''sender'')) status) (cw_log st1)\<rparr>
           in answer_with env ticket (st2, fst (snd chosen),
                if ok then response_json (JObj (AList.update ''session_id'' (JStr sid) (members body))) 200
                else response_json body status))"

definition handleServeRoute ::
    "worker_bindings \<Rightarrow> deno_env \<Rightarrow> nat \<Rightarrow> request \<Rightarrow> 'n worker_state \<Rightarrow> 'n worker_state \<times> worker_effect list" where
  "handleServeRoute wb env ticket r st =
     (let sid = or_empty (query_get r ''session''); token = extractSessionToken r;
          timeout = (case query_get r ''timeout'' of Some t \<Rightarrow> t | None \<Rightarrow> ''30'')
      in if req_path r = ''/api/v1/serve/register'' \<and> req_method r = ''POST'' then worker_register wb env ticket r st
         else if \<not> isValidSessionId sid then worker_answer env ticket (git_error ''invalid or missing session id'' 400) st
         else if \<not> wb_git wb then worker_answer env ticket sessions_unavailable st
         else if req_path r = ''/api/v1/serve/poll'' \<and> req_method r = ''GET''
         then call_object wb env ticket sid (plain_get ''/poll'' [(''timeout'', timeout), (''session_token'', token)]) st
         else if req_path r = ''/api/v1/serve/respond'' \<and> req_method r = ''POST''
         then call_object wb env ticket sid (respond_request r) st
         else if req_path r = ''/api/v1/serve/info'' \<and> req_method r = ''GET''
         then call_object wb env ticket sid (info_request r) st
         else worker_answer env ticket notFoundResponse st)"

section \<open>Pushes of a peer\<close>

text \<open>The entries of a push by room, in the order in which the rooms first appear.\<close>

fun group_entries :: "json list \<Rightarrow> (string, json list) omap \<Rightarrow> (string, json list) omap option" where
  "group_entries [] grouped = Some grouped"
| "group_entries (entry # entries) grouped =
     (let room = js_trim (str_or_empty (jprop entry ''room''))
      in if \<not> is_record entry \<or> \<not> isValidRoomName room then None
         else group_entries entries
           (AList.update room ((case map_of grouped room of Some es \<Rightarrow> es | None \<Rightarrow> []) @ [entry]) grouped))"

definition parseCacheExchangeEntriesByRoom :: "json \<Rightarrow> (string, json list) omap option" where
  "parseCacheExchangeEntriesByRoom parsed =
     (if \<not> is_record parsed then None
      else case arr_opt (jprop parsed ''entries'') of Some entries \<Rightarrow> group_entries entries [] | None \<Rightarrow> None)"

text \<open>\<open>searchParams.set\<close>: the first value of the name is replaced, the others go.\<close>

definition query_set :: "string \<Rightarrow> string \<Rightarrow> (string \<times> string) list \<Rightarrow> (string \<times> string) list" where
  "query_set k v q =
     (let before = takeWhile (\<lambda>p. fst p \<noteq> k) q
      in if before = q then q @ [(k, v)] else before @ (k, v) # filter (\<lambda>p. fst p \<noteq> k) (drop (length before + 1) q))"

definition room_request :: "string \<Rightarrow> string \<Rightarrow> request \<Rightarrow> request" where
  "room_request room body r = r\<lparr>req_query := query_set ''room'' room (req_query r), req_text := body\<rparr>"

record push_totals =
  pt_protocol :: string
  pt_nodeId :: string
  pt_nextCursor :: int
  pt_accepted :: int
  pt_duplicates :: int
  pt_conflicts :: int
  pt_rejected :: int
  pt_reasons :: "(string, int) omap"

definition no_totals :: push_totals where
  "no_totals =
     \<lparr>pt_protocol = ''cache.exchange.v1'', pt_nodeId = [], pt_nextCursor = 0, pt_accepted = 0, pt_duplicates = 0, pt_conflicts = 0,
      pt_rejected = 0, pt_reasons = []\<rparr>"

definition counted :: "json \<Rightarrow> string \<Rightarrow> int" where
  "counted body k = (case finite_int_opt (jprop body k) of Some n \<Rightarrow> max 0 n | None \<Rightarrow> 0)"

definition text_or :: "string \<Rightarrow> json \<Rightarrow> string \<Rightarrow> string" where
  "text_or old body k = (let s = str_or_empty (jprop body k) in if js_trim s \<noteq> [] then s else old)"

definition add_reason :: "string \<times> json \<Rightarrow> (string, int) omap \<Rightarrow> (string, int) omap" where
  "add_reason rc counts =
     (case finite_int_opt (Some (snd rc)) of
        None \<Rightarrow> counts
      | Some n \<Rightarrow> AList.update (fst rc) ((case map_of counts (fst rc) of Some m \<Rightarrow> m | None \<Rightarrow> 0) + max 0 n) counts)"

definition add_totals :: "json \<Rightarrow> push_totals \<Rightarrow> push_totals" where
  "add_totals body t =
     \<lparr>pt_protocol = text_or (pt_protocol t) body ''protocol'', pt_nodeId = text_or (pt_nodeId t) body ''node_id'',
      pt_nextCursor = (case finite_int_opt (jprop body ''next_cursor'') of Some n \<Rightarrow> max (pt_nextCursor t) n | None \<Rightarrow> pt_nextCursor t),
      pt_accepted = pt_accepted t + counted body ''accepted'', pt_duplicates = pt_duplicates t + counted body ''duplicates'',
      pt_conflicts = pt_conflicts t + counted body ''conflicts'', pt_rejected = pt_rejected t + counted body ''rejected'',
      pt_reasons = (case jprop body ''rejection_counts'' of Some (JObj kvs) \<Rightarrow> fold add_reason kvs (pt_reasons t) | _ \<Rightarrow> pt_reasons t)\<rparr>"

definition totals_response :: "push_totals \<Rightarrow> response" where
  "totals_response t = response_json (JObj
     [(''ok'', JBool True), (''protocol'', JStr (pt_protocol t)), (''node_id'', JStr (pt_nodeId t)),
      (''accepted'', jint (pt_accepted t)), (''duplicates'', jint (pt_duplicates t)), (''conflicts'', jint (pt_conflicts t)),
      (''rejected'', jint (pt_rejected t)), (''rejection_counts'', JObj (map (\<lambda>(k, n). (k, jint n)) (pt_reasons t))),
      (''next_cursor'', jint (pt_nextCursor t))]) 200"

text \<open>One room after the other; an answer other than 200 ends the push there.\<close>

fun push_rooms ::
    "worker_bindings \<Rightarrow> deno_env \<Rightarrow> request \<Rightarrow> (string \<times> json list) list \<Rightarrow> push_totals \<Rightarrow> 'n worker_state \<Rightarrow>
     'n worker_state \<times> worker_effect list \<times> (response + push_totals)" where
  "push_rooms wb env r [] t st = (st, [], Inr t)"
| "push_rooms wb env r ((room, entries) # groups) t st =
     (let body = json_text (num_text (de_relay env)) (JObj [(''entries'', JArr entries)]);
          res = call_room wb env room (room_request room body r) st; resp = snd (snd res)
      in if resp_status resp \<noteq> 200 then (fst res, fst (snd res), Inl resp)
         else let rest = push_rooms wb env r groups (add_totals (response_object resp) t) (fst res)
           in (fst rest, fst (snd res) @ fst (snd rest), snd (snd rest)))"

definition pushes_by_room :: "worker_bindings \<Rightarrow> request \<Rightarrow> bool" where
  "pushes_by_room wb r \<longleftrightarrow>
     req_path r = ''/api/v1/cache/exchange/push'' \<and> req_method r = ''POST'' \<and> wb_rooms wb \<and> query_trim r ''room'' = []"

text \<open>The groups of a push, none for a body that does not parse or names no valid room.\<close>

definition push_groups :: "deno_env \<Rightarrow> request \<Rightarrow> (string, json list) omap" where
  "push_groups env r =
     (case json_parse (de_relay env) (req_text r) of
        None \<Rightarrow> []
      | Some parsed \<Rightarrow> (case parseCacheExchangeEntriesByRoom parsed of Some grouped \<Rightarrow> grouped | None \<Rightarrow> []))"

definition routeCacheExchangePushByEntryRoom ::
    "worker_bindings \<Rightarrow> deno_env \<Rightarrow> nat \<Rightarrow> request \<Rightarrow> 'n worker_state \<Rightarrow> 'n worker_state \<times> worker_effect list" where
  "routeCacheExchangePushByEntryRoom wb env ticket r st =
     (case push_groups env r of
        [] \<Rightarrow> answer_with env ticket (call_room wb env DEFAULT_ROOM r st)
      | [(room, _)] \<Rightarrow> answer_with env ticket (call_room wb env room (room_request room (req_text r) r) st)
      | groups \<Rightarrow>
          let res = push_rooms wb env r groups no_totals st
          in answer_with env ticket (fst res, fst (snd res),
               case snd (snd res) of Inl resp \<Rightarrow> resp | Inr t \<Rightarrow> totals_response t))"

section \<open>The handler\<close>

definition resolveRelayRouteRoom :: "deno_env \<Rightarrow> request \<Rightarrow> string" where
  "resolveRelayRouteRoom env r =
     (let parsed = parse_object (json_parse (de_relay env)) (req_text r)
      in if query_trim r ''room'' \<noteq> [] then query_trim r ''room''
         else if req_path r = ''/api/v1/trigger/callback'' \<and> req_method r = ''POST''
         then (case parsed of
             None \<Rightarrow> DEFAULT_ROOM
           | Some body \<Rightarrow>
               let room = js_trim (str_or_empty (jprop body ''room'')); ref = js_trim (str_or_empty (jprop body ''ref''))
               in if room \<noteq> [] then room else if ref \<noteq> [] then deriveRoomFromIncomingRef ref else DEFAULT_ROOM)
         else DEFAULT_ROOM)"

definition isRelayRoute :: "string \<Rightarrow> bool" where
  "isRelayRoute pathname \<longleftrightarrow> pathname = ''/'' \<or> pathname = ''/ws'' \<or> prefix ''/api/v1/'' pathname"

definition worker_audit :: "deno_env \<Rightarrow> string \<Rightarrow> request \<Rightarrow> int \<Rightarrow> audit_log list" where
  "worker_audit env room r status = map (\<lambda>a. a\<lparr>au_room := Some room\<rparr>) (relay_audit env r status)"

text \<open>The relay behind the worker: the object of the room, or the fallback service.\<close>

definition relay_route ::
    "worker_bindings \<Rightarrow> deno_env \<Rightarrow> nat \<Rightarrow> request \<Rightarrow> 'n worker_state \<Rightarrow> 'n worker_state \<times> worker_effect list" where
  "relay_route wb env ticket r st =
     (let room = js_trim (resolveRelayRouteRoom env r)
      in if \<not> isValidRoomName room then worker_answer env ticket invalidRoomResponse st
         else
           let res = (if wb_rooms wb then call_room wb env room r st else call_fallback wb env r st);
               audits = worker_audit env room r (resp_status (snd (snd res)))
           in answer_with env ticket ((fst res)\<lparr>cw_log := foldl (\<lambda>log a. logRelayAudit a log) (cw_log (fst res)) audits\<rparr>, snd res))"

definition worker_admin :: "worker_bindings \<Rightarrow> admin_options" where
  "worker_admin wb =
     \<lparr>ad_adminToken = (case wb_vars wb ''RELAY_ADMIN_TOKEN'' of Some t \<Rightarrow> Some t | None \<Rightarrow> wb_vars wb ''BIT_RELAY_AUTH_TOKEN''),
      ad_defaultGitHubToken = wb_vars wb ''RELAY_GITHUB_TOKEN'',
      ad_apiBaseUrl = Some (case wb_vars wb ''RELAY_GITHUB_API_BASE_URL'' of Some u \<Rightarrow> u | None \<Rightarrow> ''https://api.github.com'')\<rparr>"

definition handleWorkerRequest ::
    "worker_bindings \<Rightarrow> 'n gh_network \<Rightarrow> deno_env \<Rightarrow> nat \<Rightarrow> request \<Rightarrow> 'n worker_state \<Rightarrow> 'n worker_state \<times> worker_effect list" where
  "handleWorkerRequest wb nw env ticket r st =
     (case handle (worker_admin wb) nw (de_now env) r (cw_registry st) (cw_net st) of
        Some (repos, net, audits, answer') \<Rightarrow>
          let st1 = st\<lparr>cw_registry := repos, cw_net := net, cw_log := foldl (\<lambda>log a. logRelayAudit a log) (cw_log st) audits\<rparr>
          in (case answer' of Some resp \<Rightarrow> worker_answer env ticket resp st1 | None \<Rightarrow> worker_fail env ticket st1)
      | None \<Rightarrow>
          if req_path r = ''/health'' then worker_answer env ticket healthResponse st
          else case git_routes wb env ticket r st of
              Some res \<Rightarrow> res
            | None \<Rightarrow>
                if prefix ''/api/v1/serve/'' (req_path r) then handleServeRoute wb env ticket r st
                else if \<not> isRelayRoute (req_path r) then worker_answer env ticket notFoundResponse st
                else if pushes_by_room wb r then routeCacheExchangePushByEntryRoom wb env ticket r st
                else relay_route wb env ticket r st)"

definition worker_fetch ::
    "worker_bindings \<Rightarrow> 'n gh_network \<Rightarrow> deno_env \<Rightarrow> nat \<Rightarrow> request \<Rightarrow> 'n worker_state \<Rightarrow> 'n worker_state \<times> worker_effect list" where
  "worker_fetch wb nw env ticket r st =
     handleWorkerRequest wb nw env ticket r
       (st\<lparr>cw_started := AList.update ticket (metricOperationForRequest r, de_now_ms env) (cw_started st)\<rparr>)"

section \<open>Events\<close>

text \<open>
  Beside requests: a retry goes on, a body arrives at its session, a timer of a session fires, a room has its
  socket events and its timer, and an object is evicted. A session is constructed again at once, as its
  storage is all that it has left.
\<close>

definition object_body_arrives :: "deno_env \<Rightarrow> nat \<Rightarrow> 'n worker_state \<Rightarrow> 'n worker_state \<times> worker_effect list" where
  "object_body_arrives env ticket st =
     (case find (\<lambda>p. aw_ticket (snd p) = ticket) (cw_bodies st) of
        None \<Rightarrow> (st, [])
      | Some (sid, a) \<Rightarrow>
          let st1 = st\<lparr>cw_bodies := remove1 (sid, a) (cw_bodies st)\<rparr>
          in (case map_of (cw_gits st1) sid of
                None \<Rightarrow> (st1, [])
              | Some ob \<Rightarrow>
                  let res = resume (ob_options ob) (de_git env) a (ob_session ob)
                  in after_object env sid (ob\<lparr>ob_session := fst res\<rparr>, snd res, []) st1))"

definition object_timer_fires :: "deno_env \<Rightarrow> string \<Rightarrow> git_timer \<Rightarrow> 'n worker_state \<Rightarrow> 'n worker_state \<times> worker_effect list" where
  "object_timer_fires env sid t st =
     (case map_of (cw_gits st) sid of
        None \<Rightarrow> (st, [])
      | Some ob \<Rightarrow>
          if t \<notin> fst ` set (gs_timers (ob_session ob)) then (st, [])
          else let res = fire t (ob_session ob) in after_object env sid (ob\<lparr>ob_session := fst res\<rparr>, snd res, []) st)"

definition room_event :: "cache_adapter \<Rightarrow> string \<Rightarrow> relay_event \<Rightarrow> 'n worker_state \<Rightarrow> 'n worker_state" where
  "room_event ad name re st =
     (case (map_of (cw_rooms st) name, re) of
        (None, _) \<Rightarrow> st
      | (_, Request _ _) \<Rightarrow> st
      | (_, Restart _) \<Rightarrow> st
      | (Some ob, _) \<Rightarrow>
          st\<lparr>cw_rooms := AList.update name (ob\<lparr>rb_service := relay_step (rb_config ob) ad (rb_service ob) re\<rparr>) (cw_rooms st)\<rparr>)"

datatype worker_event =
    Worker_request deno_env nat request
  | Git_retried deno_env nat
  | Object_body deno_env nat
  | Object_timer deno_env string git_timer
  | Room_event deno_env string relay_event
  | Room_evicted string
  | Git_evicted deno_env string

definition worker_step ::
    "worker_bindings \<Rightarrow> 'n gh_network \<Rightarrow> worker_event \<Rightarrow> 'n worker_state \<Rightarrow> 'n worker_state \<times> worker_effect list" where
  "worker_step wb nw e st =
     (case e of
        Worker_request env ticket r \<Rightarrow> worker_fetch wb nw env ticket r st
      | Git_retried env ticket \<Rightarrow> git_retried wb env ticket st
      | Object_body env ticket \<Rightarrow> object_body_arrives env ticket st
      | Object_timer env sid t \<Rightarrow> object_timer_fires env sid t st
      | Room_event env name re \<Rightarrow> (room_event (de_adapter env) name re st, [])
      | Room_evicted name \<Rightarrow> (st\<lparr>cw_rooms := AList.delete name (cw_rooms st)\<rparr>, [])
      | Git_evicted env sid \<Rightarrow>
          (case map_of (cw_gits st) sid of
             None \<Rightarrow> (st, [])
           | Some ob \<Rightarrow>
               (st\<lparr>cw_gits := AList.update sid (construct_object (wb_vars wb ''GIT_SERVE_SESSION_TTL_SEC'') (ge_now (de_git env)) (ob_storage ob))
                  (cw_gits st), cw_bodies := filter (\<lambda>p. fst p \<noteq> sid) (cw_bodies st)\<rparr>, [])))"

definition initial_worker :: "'n \<Rightarrow> 'n worker_state" where
  "initial_worker net =
     \<lparr>cw_rooms = [], cw_storage = [], cw_gits = [], cw_fallback = None, cw_retries = [], cw_ready = [], cw_bodies = [],
      cw_registry = [], cw_net = net, cw_started = [], cw_metrics = [], cw_log = []\<rparr>"

end
