(* ===== verification/Cloudflare_Facts.thy ===== *)
theory Cloudflare_Facts
  imports Cloudflare_Worker
begin

text \<open>
  What the worker promises: a request reaches the object of one room only, an evicted room comes back with its
  keys and nonces, and what follows from that for named sessions and for pushes.
\<close>

section \<open>Requests that leave the identity alone\<close>

lemma rooms_keep_identity [simp]:
  "rs_identity (set_room st room rs) = rs_identity st" "rs_identity (touch_room st room) = rs_identity st"
  by (simp_all add: set_room_def touch_room_def)

lemma publication_keeps_identity [simp]:
  "rs_identity (fst (publish_and_record cf env st room sender topic eid sg p origin h m)) = rs_identity st"
  by (simp add: publish_and_record_def Let_def split: option.split)

lemma with_room_keeps:
  "(\<And>room. rs_identity (fst (k room)) = rs_identity st) \<Longrightarrow> rs_identity (fst (with_room cf st r k)) = rs_identity st"
  by (simp add: with_room_def guarded_def answer_def Let_def split: option.split)

lemma reading_keeps_identity:
  "rs_identity (fst (Relay_Rooms.handlePoll cf st r)) = rs_identity st"
  "rs_identity (fst (handleInboxPending cf st r)) = rs_identity st"
  "rs_identity (fst (handleInboxAck cf env st r)) = rs_identity st"
  "rs_identity (fst (handleTriggerResults cf st r)) = rs_identity st"
  "rs_identity (fst (handleCacheIssueSync cf ad st r)) = rs_identity st"
  "rs_identity (fst (handleCacheIssuePull cf ad st r)) = rs_identity st"
  by (simp_all add: Relay_Rooms.handlePoll_def handleInboxPending_def handleInboxAck_def handleTriggerResults_def
      handleCacheIssueSync_def handleCacheIssuePull_def answer_def guarded_def with_room_keeps Let_def split: option.split)

lemma presence_keeps_identity:
  "rs_identity (fst (handlePresenceHeartbeat cf env st r)) = rs_identity st"
  "rs_identity (fst (handlePresence cf env st r)) = rs_identity st"
  by (simp_all add: handlePresenceHeartbeat_def handlePresence_def handlePresenceList_def handlePresenceDelete_def answer_def
      with_room_keeps Let_def split: option.split prod.split)

lemma review_keeps_identity:
  "req_method r \<noteq> ''POST'' \<Longrightarrow> rs_identity (fst (handleReview cf env st r)) = rs_identity st"
  by (simp add: handleReview_def handleReviewGet_def answer_def with_room_keeps Let_def)

lemma socket_keeps_identity: "rs_identity (fst (handleWs cf env st r)) = rs_identity st"
  by (simp add: handleWs_def handleWebSocket_def guarded_def answer_def Let_def split: option.split ws_runtime.split)

lemma delivery_keeps_identity:
  "rs_identity (fst (applyGitHubWebhookDelivery cf env st ev d body)) = rs_identity st"
proof -
  have "rs_identity (fst (fst (snd (applyDelivery relay_engine_options now parse mapf (publish_webhook cf env) en (st, []) e d b)))) = rs_identity st"
    for now parse mapf en e d b
    by (rule applyDelivery_outer [where P = "\<lambda>s. rs_identity (fst s) = rs_identity st"]) (simp_all add: publish_webhook_def Let_def)
  then show ?thesis by (simp add: applyGitHubWebhookDelivery_def Let_def)
qed

lemma webhook_keeps_identity:
  "rs_identity (fst (handleGitHubWebhook cf env st r)) = rs_identity st"
  "rs_identity (fst (handleGitHubWebhookDlqRetry cf env st r)) = rs_identity st"
  "rs_identity (fst (handleTriggerCallback cf env st r)) = rs_identity st"
  by (simp_all add: handleGitHubWebhook_def handleGitHubWebhookDlqRetry_def handleTriggerCallback_def enqueue_failed_def answer_def
      guarded_def delivery_keeps_identity Let_def split: option.split sum.split)

lemma push_entry_keeps_identity [simp]: "rs_identity (fst (push_entry cf env st e n)) = rs_identity st"
  by (simp add: push_entry_def Let_def split: option.split collision.split)

lemma push_loop_keeps_identity: "rs_identity (fst (push_loop cf env r i vs st n)) = rs_identity st"
  by (induction vs arbitrary: i st n) (simp_all add: Let_def split: sum.split option.split)

lemma push_keeps_identity: "rs_identity (fst (handleCacheExchangePush cf env st r)) = rs_identity st"
  by (simp add: handleCacheExchangePush_def guarded_def answer_def push_loop_keeps_identity Let_def split: option.split json.split)

lemmas keeps_identity = reading_keeps_identity presence_keeps_identity socket_keeps_identity webhook_keeps_identity push_keeps_identity

lemma reap_keeps_identity [simp]: "rs_identity (fst (reapDeadConnections cf env st)) = rs_identity st"
  by (simp add: reapDeadConnections_def)

lemma fetch_keeps_identity:
  assumes "\<not> persists r"
  shows "rs_identity (fst (fetch cf ad env st r)) = rs_identity st"
proof -
  have "rs_identity (fst (route cf ad env st' r)) = rs_identity st'" for st'
    using assms by (simp add: route_def persists_def answer_def keeps_identity review_keeps_identity Let_def)
  then show ?thesis by (simp add: fetch_def reap_if_due_def Let_def)
qed

lemma room_step_keeps_identity:
  "(\<forall>env r. e \<noteq> Request env r) \<Longrightarrow> (\<forall>env. e \<noteq> Restart env) \<Longrightarrow> rs_identity (relay_step cf ad st e) = rs_identity st"
  by (cases e) (simp_all add: relay_step_def on_room_def split: option.split)

section \<open>A request reaches the rooms it addresses\<close>

definition room_view :: "'n worker_state \<Rightarrow> string \<Rightarrow> room_object option \<times> room_storage option" where
  "room_view st name = (map_of (cw_rooms st) name, map_of (cw_storage st) name)"

definition addressed_rooms :: "worker_bindings \<Rightarrow> deno_env \<Rightarrow> request \<Rightarrow> string list" where
  "addressed_rooms wb env r =
     (if prefix ''/api/v1/serve/'' (req_path r) then [''__default__'']
      else if pushes_by_room wb r then (case push_groups env r of [] \<Rightarrow> [DEFAULT_ROOM] | g # gs \<Rightarrow> map fst (g # gs))
      else [js_trim (resolveRelayRouteRoom env r)])"

lemma room_view_simps [simp]:
  "room_view (st\<lparr>cw_gits := a\<rparr>) x = room_view st x" "room_view (st\<lparr>cw_fallback := b\<rparr>) x = room_view st x"
  "room_view (st\<lparr>cw_retries := c\<rparr>) x = room_view st x" "room_view (st\<lparr>cw_ready := c\<rparr>) x = room_view st x"
  "room_view (st\<lparr>cw_bodies := d\<rparr>) x = room_view st x" "room_view (st\<lparr>cw_registry := e\<rparr>) x = room_view st x"
  "room_view (st\<lparr>cw_net := f\<rparr>) x = room_view st x" "room_view (st\<lparr>cw_started := g\<rparr>) x = room_view st x"
  "room_view (st\<lparr>cw_metrics := h\<rparr>) x = room_view st x" "room_view (st\<lparr>cw_log := i\<rparr>) x = room_view st x"
  by (simp_all add: room_view_def)

lemma record_worker_view [simp]: "room_view (record_worker env t s st) x = room_view st x"
  by (simp add: record_worker_def Let_def split: option.split prod.split)

lemma answers_view [simp]:
  "room_view (fst (worker_answer env t resp st)) x = room_view st x" "room_view (fst (worker_fail env t st)) x = room_view st x"
  "room_view (fst (answer_with env t res)) x = room_view (fst res) x"
  by (simp_all add: worker_answer_def worker_fail_def answer_with_def Let_def)

lemma object_effect_view [simp]: "room_view (fst (object_effect env e st)) x = room_view st x"
  by (simp add: object_effect_def Let_def split: git_effect.split option.split)

lemma object_effects_view [simp]: "room_view (fst (object_effects env es st)) x = room_view st x"
  by (induction es arbitrary: st) (simp_all add: Let_def)

lemma git_view [simp]:
  "room_view (fst (after_object env sid res st)) x = room_view st x"
  "room_view (fst (call_object wb env t sid r st)) x = room_view st x"
  "room_view (fst (handleGitRoute wb env t sid path r st)) x = room_view st x"
  "room_view (fst (git_retried wb env t st)) x = room_view st x"
  by (simp_all add: after_object_def call_object_def handleGitRoute_def git_retried_def Let_def split: option.split)

lemma git_routes_view: "git_routes wb env t r st = Some res \<Longrightarrow> room_view (fst res) x = room_view st x"
  by (auto simp: git_routes_def split: option.splits prod.splits)

lemma call_room_view: "room_view (fst (call_room wb env name r st)) x =
  (if x = name then (let h = fst (room_fetch env r (room_named wb env st name)) in (Some (fst h), Some (snd h))) else room_view st x)"
  by (simp add: call_room_def room_view_def Let_def update_conv')

lemma call_fallback_view [simp]: "room_view (fst (call_fallback wb env r st)) x = room_view st x"
  by (simp add: call_fallback_def Let_def)

lemma push_rooms_view: "x \<notin> fst ` set gs \<Longrightarrow> room_view (fst (push_rooms wb env r gs t st)) x = room_view st x"
  by (induction gs arbitrary: t st) (auto simp: call_room_view Let_def)

lemma serve_view: "x \<noteq> ''__default__'' \<Longrightarrow> room_view (fst (handleServeRoute wb env t r st)) x = room_view st x"
  by (simp add: handleServeRoute_def worker_register_def worker_session_id_def call_room_view Let_def)

lemma push_view:
  "x \<notin> set (case push_groups env r of [] \<Rightarrow> [DEFAULT_ROOM] | g # gs \<Rightarrow> map fst (g # gs)) \<Longrightarrow>
   room_view (fst (routeCacheExchangePushByEntryRoom wb env t r st)) x = room_view st x"
  by (auto simp: routeCacheExchangePushByEntryRoom_def call_room_view push_rooms_view Let_def split: list.split)

lemma relay_route_view:
  "x \<noteq> js_trim (resolveRelayRouteRoom env r) \<or> \<not> isValidRoomName x \<Longrightarrow> room_view (fst (relay_route wb env t r st)) x = room_view st x"
  by (auto simp: relay_route_def call_room_view Let_def)

text \<open>
  Claim C90. On the worker, a request reaches the rooms it addresses and no other: for every other room, the
  object in memory and its storage are what they were. A request that names no room addresses \<open>main\<close> alone, so
  a message of a GitHub webhook never comes to the object that serves its room, a key that is rotated or
  verified in one room stays as it was in the others, and a peer that pulls sees the log of \<open>main\<close>.
\<close>

theorem worker_request_reaches_addressed_rooms:
  assumes "x \<notin> set (addressed_rooms wb env r)"
  shows "room_view (fst (worker_fetch wb nw env ticket r st)) x = room_view st x"
proof -
  have "room_view (fst (handleWorkerRequest wb nw env ticket r st')) x = room_view st' x" for st'
  proof (cases "handle (worker_admin wb) nw (de_now env) r (cw_registry st') (cw_net st')")
    case (Some res)
    then show ?thesis by (cases res) (simp add: handleWorkerRequest_def Let_def split: option.split)
  next
    case None
    then show ?thesis
      using assms
      by (simp add: handleWorkerRequest_def addressed_rooms_def serve_view push_view relay_route_view git_routes_view split: option.split if_splits)
  qed
  then show ?thesis by (simp add: worker_fetch_def)
qed

text \<open>The requests that name no room: their room is \<open>main\<close>, the trigger callback and the pushes apart.\<close>

lemma unnamed_room_is_main:
  assumes "query_trim r ''room'' = []" "req_path r \<noteq> ''/api/v1/trigger/callback''" "req_path r \<noteq> ''/api/v1/cache/exchange/push''"
    and "\<not> prefix ''/api/v1/serve/'' (req_path r)"
  shows "addressed_rooms wb env r = [''main'']"
  using assms by (simp add: addressed_rooms_def pushes_by_room_def resolveRelayRouteRoom_def DEFAULT_ROOM_def js_trim_def is_space_def Let_def)

section \<open>Named sessions\<close>

text \<open>No request addresses the room \<open>__default__\<close>, whose name is not valid, and the question for a key changes nothing in it.\<close>

definition nameless :: "'n worker_state \<Rightarrow> bool" where
  "nameless st \<longleftrightarrow>
     (\<forall>ob. map_of (cw_rooms st) ''__default__'' = Some ob \<longrightarrow> id_keys (rs_identity (rb_service ob)) = []) \<and>
     (\<forall>sg. map_of (cw_storage st) ''__default__'' = Some sg \<longrightarrow> sg = empty_storage)"

lemma nameless_view: "room_view st' ''__default__'' = room_view st ''__default__'' \<Longrightarrow> nameless st' = nameless st"
  by (simp add: nameless_def room_view_def)

lemma default_not_valid: "\<not> isValidRoomName ''__default__''"
  by code_simp

lemma new_service_identity [simp]: "rs_identity (rb_service (new_service wb env)) = no_identity"
  by (simp add: new_service_def initial_state_def)

lemma restore_empty [simp]: "restore_room now (ob, empty_storage) = (ob, empty_storage)"
  by (simp add: restore_room_def empty_storage_def object_value_def Let_def)

lemma nameless_named:
  assumes "nameless st"
  shows "id_keys (rs_identity (rb_service (fst (room_named wb env st ''__default__'')))) = []"
    and "snd (room_named wb env st ''__default__'') = empty_storage"
  using assms
  by (auto simp: room_named_def stored_room_def construct_room_def nameless_def no_identity_def split: option.splits)

lemma room_fetch_keeps:
  assumes "\<not> persists r"
  shows "rs_identity (rb_service (fst (fst (room_fetch env r os)))) = rs_identity (rb_service (fst os))"
    and "snd (fst (room_fetch env r os)) = snd os"
  using assms by (simp_all add: room_fetch_def object_service_def fetch_keeps_identity Let_def)

lemma key_info_not_persisted: "\<not> persists (plain_get ''/api/v1/key/info'' q)"
  by (simp add: persists_def plain_get_def)

lemma nameless_key_info:
  assumes "nameless st"
  shows "nameless (fst (call_room wb env ''__default__'' (plain_get ''/api/v1/key/info'' q) st))"
  using room_fetch_keeps [OF key_info_not_persisted, of env q "room_named wb env st ''__default__''"] nameless_named [OF assms, of wb env]
  by (simp add: nameless_def call_room_def Let_def update_conv')

lemma nameless_session_id: "nameless st \<Longrightarrow> nameless (fst (worker_session_id wb env r st))"
  using nameless_key_info [of st wb env "[(''sender'', or_empty (query_get r ''sender''))]"]
    nameless_view [OF call_fallback_view [of wb env _ st]]
  by (simp add: worker_session_id_def Let_def)

lemma nameless_serve: "nameless st \<Longrightarrow> nameless (fst (handleServeRoute wb env t r st))"
proof -
  assume st: "nameless st"
  have "room_view (fst (worker_register wb env t r st)) ''__default__'' = room_view (fst (worker_session_id wb env r st)) ''__default__''"
    by (simp add: worker_register_def Let_def)
  then have "nameless (fst (worker_register wb env t r st))"
    using nameless_session_id [OF st] nameless_view by blast
  moreover have "nameless (fst (worker_answer env t resp st))" "nameless (fst (call_object wb env t sid r' st))" for resp sid r'
    using st nameless_view by (metis answers_view(1), metis git_view(2))
  ultimately show ?thesis by (simp add: handleServeRoute_def Let_def)
qed

lemma groups_valid: "group_entries es g = Some g' \<Longrightarrow> (\<forall>x\<in>fst ` set g. isValidRoomName x) \<Longrightarrow> \<forall>x\<in>fst ` set g'. isValidRoomName x"
proof (induction es arbitrary: g)
  case (Cons e es)
  let ?room = "js_trim (str_or_empty (jprop e ''room''))"
  let ?v = "(case map_of g ?room of Some es \<Rightarrow> es | None \<Rightarrow> []) @ [e]"
  have valid: "isValidRoomName ?room" and rest: "group_entries es (AList.update ?room ?v g) = Some g'"
    using Cons.prems(1) by (simp_all add: Let_def split: if_splits)
  have "\<forall>x\<in>fst ` set (AList.update ?room ?v g). isValidRoomName x"
    using Cons.prems(2) valid unfolding dom_update by blast
  with rest show ?case by (rule Cons.IH)
qed simp

lemma push_groups_cases: "push_groups env r = [] \<or> (\<exists>es. group_entries es [] = Some (push_groups env r))"
  by (auto simp: push_groups_def parseCacheExchangeEntriesByRoom_def split: option.split)

lemma push_groups_valid: "x \<in> fst ` set (push_groups env r) \<Longrightarrow> isValidRoomName x"
  using push_groups_cases [of env r] groups_valid [of _ "[]" "push_groups env r"] by auto

lemma nameless_request: "nameless st \<Longrightarrow> nameless (fst (worker_fetch wb nw env t r st))"
proof -
  assume st: "nameless st"
  have "nameless (fst (handleWorkerRequest wb nw env t r st'))" if st': "nameless st'" for st'
  proof (cases "handle (worker_admin wb) nw (de_now env) r (cw_registry st') (cw_net st')")
    case (Some res)
    have "room_view (fst (handleWorkerRequest wb nw env t r st')) ''__default__'' = room_view st' ''__default__''"
      using Some by (cases res) (simp add: handleWorkerRequest_def Let_def split: option.split)
    then show ?thesis using st' nameless_view by blast
  next
    case None
    have push: "room_view (fst (routeCacheExchangePushByEntryRoom wb env t r st')) ''__default__'' = room_view st' ''__default__''"
    proof (rule push_view)
      have "''__default__'' \<notin> fst ` set (push_groups env r)"
        by (rule notI, drule push_groups_valid, rule notE [OF default_not_valid])
      moreover have "''__default__'' \<noteq> DEFAULT_ROOM" by (simp add: DEFAULT_ROOM_def)
      ultimately show "''__default__'' \<notin> set (case push_groups env r of [] \<Rightarrow> [DEFAULT_ROOM] | g # gs \<Rightarrow> map fst (g # gs))"
        by (cases "push_groups env r") simp_all
    qed
    have relay: "room_view (fst (relay_route wb env t r st')) ''__default__'' = room_view st' ''__default__''"
      by (rule relay_route_view) (simp add: default_not_valid)
    have ans: "nameless (fst (worker_answer env t resp st'))" for resp
      using st' nameless_view [OF answers_view(1)] by blast
    have git: "nameless (fst res)" if "git_routes wb env t r st' = Some res" for res
      using st' nameless_view [OF git_routes_view [OF that]] by blast
    have push': "nameless (fst (routeCacheExchangePushByEntryRoom wb env t r st'))" and relay': "nameless (fst (relay_route wb env t r st'))"
      using st' nameless_view [OF push] nameless_view [OF relay] by blast+
    show ?thesis
      using ans git push' relay' nameless_serve [OF st'] by (simp add: handleWorkerRequest_def None split: option.split)
  qed
  moreover have "nameless (st\<lparr>cw_started := s\<rparr>)" for s using st by (simp add: nameless_def)
  ultimately show ?thesis by (simp add: worker_fetch_def)
qed

lemma nameless_step:
  assumes "nameless st"
  shows "nameless (fst (worker_step wb nw e st))"
proof (cases e)
  case (Room_event env name re)
  show ?thesis
  proof (cases "map_of (cw_rooms st) name")
    case (Some ob)
    have "rs_identity (relay_step (rb_config ob) ad (rb_service ob) re) = rs_identity (rb_service ob)"
      if "\<forall>env r. re \<noteq> Request env r" "\<forall>env. re \<noteq> Restart env" for ad
      using room_step_keeps_identity [OF that] .
    then show ?thesis
      using assms Some by (cases re) (auto simp: Room_event worker_step_def room_event_def nameless_def update_conv')
  qed (use assms in \<open>simp add: Room_event worker_step_def room_event_def\<close>)
next
  case (Object_body env t)
  have "room_view (fst (object_body_arrives env t st)) x = room_view st x" for x
    by (simp add: object_body_arrives_def Let_def split: option.split prod.split)
  from nameless_view [OF this] show ?thesis using assms by (simp add: Object_body worker_step_def)
next
  case (Object_timer env sid t)
  have "room_view (fst (object_timer_fires env sid t st)) x = room_view st x" for x
    by (simp add: object_timer_fires_def Let_def split: option.split)
  from nameless_view [OF this] show ?thesis using assms by (simp add: Object_timer worker_step_def)
next
  case (Git_retried env t)
  from nameless_view [OF git_view(4) [of wb env t st]] show ?thesis using assms by (simp add: Git_retried worker_step_def)
next
  case (Worker_request env t r)
  from nameless_request [OF assms, of wb nw env t r] show ?thesis by (simp add: Worker_request worker_step_def)
qed (use assms in \<open>simp_all add: worker_step_def nameless_def delete_conv' split: option.split\<close>)

interpretation nameless_worker: machine "\<lambda>st e. fst (worker_step wb nw e st)" nameless "\<lambda>_. True" for wb nw
  by unfold_locales (rule nameless_step)

lemma unknown_key_not_verified:
  assumes "id_keys idn = []"
  shows "\<not> key_verified (handleKeyInfo idn r)"
  using assms by (auto simp: handleKeyInfo_def key_verified_def methodNotAllowedResponse_def toErrorResponse_def response_json_def Let_def response_object_def jprop_def obj_opt_def)

lemma key_info_unverified:
  assumes "id_keys (rs_identity st) = []"
  shows "\<not> key_verified (snd (snd (fetch cf ad env st (plain_get ''/api/v1/key/info'' q))))"
proof -
  have "rs_identity (fst (reap_if_due cf env st)) = rs_identity st" by (simp add: reap_if_due_def)
  moreover have "\<not> key_verified unauthorizedResponse"
    by (simp add: key_verified_def unauthorizedResponse_def response_json_def)
  ultimately show ?thesis
    using unknown_key_not_verified [OF assms] by (simp add: fetch_def route_def plain_get_def answer_def Let_def)
qed

text \<open>
  Claim C90. With rooms bound, the worker never gives a host a named session: in every state it can reach, a
  registration gets a random id, whoever the sender is and whatever GitHub has verified, because the keys are
  asked of the object of a room that no request can address.
\<close>

theorem worker_names_no_session:
  assumes "wb_rooms wb"
  shows "snd (snd (worker_session_id wb env r (foldl (\<lambda>st e. fst (worker_step wb nw e st)) (initial_worker net) es))) =
    generateSessionId (de_random env)"
proof -
  let ?st = "foldl (\<lambda>st e. fst (worker_step wb nw e st)) (initial_worker net) es"
  have "nameless (initial_worker net)" by (simp add: nameless_def initial_worker_def)
  then have "nameless ?st" by (intro nameless_worker.run_inv) simp_all
  from key_info_unverified [OF nameless_named(1) [OF this]] show ?thesis
    using assms by (simp add: worker_session_id_def call_room_def room_fetch_def object_service_def Let_def)
qed

definition demo_bindings :: worker_bindings where
  "demo_bindings = \<lparr>wb_vars = (\<lambda>_. None), wb_rooms = True, wb_git = True\<rparr>"

definition demo_worker_env :: "int \<Rightarrow> deno_env" where
  "demo_worker_env ms =
     \<lparr>de_relay = (demo_env 0 JNull)\<lparr>arrival_ms := ms, body_ms := ms\<rparr>,
      de_git = \<lparr>ge_now = ms, ge_uuid = ''u'', ge_event_uuid = (\<lambda>_. ''v''), ge_random = ''rand'', ge_parse = (\<lambda>_. None)\<rparr>,
      de_random = ''01234567'', de_adapter = no_store_adapter\<rparr>"

definition named_registration :: request where
  "named_registration =
     \<lparr>req_method = ''POST'', req_path = ''/api/v1/serve/register'', req_query = [(''sender'', ''octocat''), (''repo'', ''site'')],
      req_headers = [], req_text = []\<rparr>"

theorem worker_names_no_session_witness:
  "snd (snd (worker_session_id demo_bindings (demo_worker_env 9) named_registration
     (foldl (\<lambda>st e. fst (worker_step demo_bindings (scripted (\<lambda>path base. None)) e st)) (initial_worker \<lparr>sc_statuses = [], sc_calls = 0, sc_waits = []\<rparr>)
       [Worker_request (demo_worker_env 5) 0 named_registration]))) = ''wxyz0123''"
proof -
  have "generateSessionId (de_random (demo_worker_env 9)) = ''wxyz0123''" by code_simp
  then show ?thesis
    by (subst worker_names_no_session) (simp_all add: demo_bindings_def)
qed

end
