(* ===== verification/Spec2Isabelle.thy ===== *)
theory Spec2Isabelle
  imports Signing Http Rate_Limit Rooms GitHub_Keys Relay_Config Identity Identity_Facts Cache_Exchange
    Issue_Sync Relay_State Relay_Exchange Relay_Webhook Relay_Rooms Relay_Snapshot Relay_Service Relay_Facts
    Interleave Json_Text Cache_Store R2_Store R2_Facts Issue_Projection Persistence_Queue Cache_Adapter
    Cache_Facts Cache_Reads Cache_Failures Url_Text Contracts Observability Trigger_Dispatch Git_Session Git_Session_Facts
    Runtime_Config Repo_Affinity Cache_Sync Git_Cache GitHub_Target Admin_GitHub
    Deno_Main Deno_Facts Deno_Sessions Deno_Sync Replication
    Cloudflare_Worker Cloudflare_Facts
begin

text \<open>
  A verification development for bit-relay, the relay server in TypeScript under \<open>src/\<close>.

  A relay holds rooms of messages. Agents publish signed messages, poll and acknowledge them,
  watch presence and vote on pull requests; peers exchange messages through a cursor log; GitHub
  webhooks and CI callbacks become messages too. All of it is one request handler over in-memory
  state (\<open>src/memory_handler.ts\<close>), with a snapshot and a restore of that state.

  The theories, in the order they build on each other:

  \<^item> \<open>Relay_Prelude\<close>: JSON values, insertion-ordered maps (\<open>omap\<close>, the code's \<open>Map\<close> and plain objects),
    JavaScript strings and numbers (\<open>js_trim\<close>, \<open>slice\<close>, \<open>trunc_num\<close>), and the locales the components
    share: \<open>bounded_log\<close> (a log that keeps its newest entries), \<open>machine\<close> (a step function with an
    invariant).
  \<^item> \<open>Signing\<close> (\<open>src/signing.ts\<close>): canonical JSON, base64url, the three signing messages. They are
    unambiguous as far as the code makes them so: canonical JSON is injective, the messages of the
    three kinds never collide, and a message binds every field that holds no line break.
  \<^item> \<open>Http\<close>, \<open>Relay_Config\<close>, \<open>Rate_Limit\<close>: requests, responses, tokens and parameters; the options of
    \<open>createMemoryRelayService\<close>; the fixed window counters.
  \<^item> \<open>Rooms\<close>: \<open>RoomState\<close> with \<open>publishIntoRoom\<close>, \<open>pollFromRoom\<close>, \<open>ackIntoRoom\<close>, the broadcasts, presence and
    reviews.
  \<^item> \<open>GitHub_Keys\<close> (\<open>src/github_keys.ts\<close>), \<open>Identity\<close>, \<open>Identity_Facts\<close>: the key registry (trust on first
    use), nonces, \<open>handleSignatureVerification\<close>, the key endpoints, and the identity snapshot.
  \<^item> \<open>Cache_Exchange\<close> (\<open>src/cache_exchange.ts\<close> and the log in \<open>memory_handler.ts\<close>): parsing of pushed
    entries, collisions, selection for a pull.
  \<^item> \<open>Issue_Sync\<close> (\<open>src/issue_sync_engine.ts\<close>): delivery ids and the dead letter queue.
  \<^item> \<open>Relay_State\<close>: the closure state of \<open>createMemoryRelayService\<close> as the record \<open>relay_state\<close>, the guards and
    the commit path every publication shares; \<open>Relay_Exchange\<close>, \<open>Relay_Webhook\<close>, \<open>Relay_Rooms\<close>: one
    definition per endpoint, with its guards in the code's order.
  \<^item> \<open>Relay_Snapshot\<close>: \<open>snapshot\<close> and \<open>restore\<close>.
  \<^item> \<open>Relay_Service\<close>: \<open>fetch\<close>, and the machine of requests, socket events, reaping and restarts, whose
    invariant \<open>state_ok\<close> every step keeps.
  \<^item> \<open>Relay_Facts\<close>: what the endpoints promise together.
  \<^item> \<open>Interleave\<close>: the publish handler split at its two awaits (the body, the signature check), and the
    step relation in which any other event may happen in between.
  \<^item> \<open>Json_Text\<close>: \<open>JSON.stringify\<close> and a JSON parser that reads it back.
  \<^item> \<open>Cache_Store\<close>, \<open>R2_Store\<close> (\<open>src/cache_store.ts\<close>): the in-memory store and the store over an R2 bucket,
    with lifetimes, the size budget, eviction and paged listings. \<open>R2_Facts\<close>: the locale \<open>r2_bucket\<close> of
    what the bucket promises, a bucket that keeps the promises, and the simulation of one store by the
    other.
  \<^item> \<open>Issue_Projection\<close> (\<open>src/issue_projection.ts\<close>): the records an issue message is filed as, their keys and
    parsers. \<open>Persistence_Queue\<close> (\<open>src/cache_persistence_queue.ts\<close>): retries and the queue of writes.
  \<^item> \<open>Cache_Adapter\<close> (\<open>src/relay_cache_adapter.ts\<close>): persisting a message, issue cursors, pull and sync of
    issues over any store. \<open>Cache_Facts\<close> and \<open>Cache_Reads\<close> prove what writing and reading promise, in the
    locales \<open>map_store\<close> and \<open>listed_store\<close> of a store that behaves like a map, interpreted on both stores;
    \<open>Cache_Failures\<close> shows where a store that fails, or a key that sorts early, breaks the promise.

  Conventions. A handler maps the configuration, the environment, the state and a request to the new
  state, the effects (socket sends and closes, the hand-over to the cache) and the response. The
  environment \<open>relay_env\<close> holds what the code takes from its surroundings: the clock on arrival and
  after the body has been read, the JSON parser, the digest, HMAC and Ed25519 functions, the text of a
  number, the socket of an upgrade and which sockets take a message, and the answer of GitHub. A
  handler runs as one step of the machine of \<open>Relay_Service\<close>; for publishing, \<open>Interleave\<close> also runs its
  parts apart. A JSON number is a rational, and a JavaScript number a rational or one of the three
  special values; the rounding of doubles is not modelled, so theorems on cursors and sizes carry a
  bound. Times are integers in milliseconds or seconds, and characters are the code units below 256.
  The cache reads its clock once per operation, and \<open>localeCompare\<close> is a parameter \<open>le\<close>.

  Fuel. The loops that read a listing page by page end when the store stops giving cursors, which a
  store need not do, so they take fuel and answer \<open>None\<close> without it. Over the stores that are modelled,
  one more than the number of records is enough, as the theorems on syncing and on the bucket show.

\<close>

end
